(* ===== verification/Prelude.thy ===== *)
theory Prelude
  imports
    Main
    "HOL-Library.AList"
    "HOL-Library.Sublist"
    "HOL-Library.State_Monad"
    "HOL-Library.Word"
begin

text \<open>
  What every component of the development shares: names for the machine integers of the
  payload, the collections of facts that the component proofs draw on, the C string
  routines the sources call (\<^verbatim>\<open>strrchr\<close>, \<^verbatim>\<open>strstr\<close>, \<^verbatim>\<open>strncpy\<close>) as total
  functions on strings, and generic lemmas on lists and on the state monad.
\<close>

type_synonym u8 = "8 word"
type_synonym u16 = "16 word"
type_synonym u32 = "32 word"
type_synonym u64 = "64 word"

text \<open>
  \<open>keeps_intros\<close>: rules that derive a frame property of a program from those of its parts.
  \<open>keeps_binds\<close>: the same for a program that starts with a particular primitive.
  \<open>path_simps\<close>: the components of the path constants of the sources.
\<close>

named_theorems keeps_intros
named_theorems keeps_binds
named_theorems path_simps

section \<open>C strings\<close>

text \<open>
  A C string is the list of its characters without the terminating zero. \<open>strrchr_after s c\<close> is
  \<^verbatim>\<open>strrchr(s, c) + 1\<close>, the part after the last \<open>c\<close>, and \<open>None\<close> where \<^verbatim>\<open>strrchr\<close> returns
  \<^verbatim>\<open>NULL\<close>. \<open>strstr s t\<close> says whether \<^verbatim>\<open>strstr(s, t)\<close> finds the needle \<open>t\<close>.
\<close>

fun strrchr_after :: "string \<Rightarrow> char \<Rightarrow> string option" where
  "strrchr_after [] c = None"
| "strrchr_after (x # xs) c =
     (case strrchr_after xs c of
        Some t \<Rightarrow> Some t
      | None \<Rightarrow> if x = c then Some xs else None)"

definition strstr :: "string \<Rightarrow> string \<Rightarrow> bool" where
  "strstr s t = sublist t s"

text \<open>
  \<^verbatim>\<open>strncpy(out, s, n - 1); out[n - 1] = 0;\<close> leaves at most \<open>n - 1\<close> characters in \<open>out\<close>.
\<close>

definition strncpy_term :: "string \<Rightarrow> nat \<Rightarrow> string" where
  "strncpy_term s n = take (n - 1) s"

section \<open>Lists and prefixes\<close>

lemma strrchr_after_None: "strrchr_after s c = None \<longleftrightarrow> c \<notin> set s"
  by (induction s) (auto split: option.splits)

lemma strrchr_after_append:
  "c \<notin> set t \<Longrightarrow> strrchr_after (s @ c # t) c = Some t"
proof (induction s)
  case Nil
  then have "strrchr_after t c = None" by (simp add: strrchr_after_None)
  then show ?case by simp
qed simp

lemma strrchr_after_append_notin:
  "c \<notin> set u \<Longrightarrow> strrchr_after (s @ u) c = map_option (\<lambda>t. t @ u) (strrchr_after s c)"
proof (induction s)
  case Nil
  then show ?case by (simp add: strrchr_after_None)
qed (auto split: option.splits)

lemma strrchr_after_notin: "strrchr_after s c = Some t \<Longrightarrow> c \<notin> set t"
  by (induction s) (auto split: option.splits if_splits simp: strrchr_after_None)

lemma prefix_butlastI: "prefix p q \<Longrightarrow> p \<noteq> q \<Longrightarrow> prefix p (butlast q)"
  by (metis butlast_snoc prefix_snoc rev_exhaust prefix_bot.extremum_uniqueI)

lemma parallel_Nil [simp]: "\<not> [] \<parallel> q" "\<not> q \<parallel> []"
  by (auto simp: parallel_def)

lemma parallel_Cons [simp]:
  "x # xs \<parallel> y # ys \<longleftrightarrow> x \<noteq> y \<or> xs \<parallel> ys"
  by (auto simp: parallel_def)

lemma parallel_append_left: "p \<parallel> q \<Longrightarrow> p @ r \<parallel> q"
  by (metis append_Nil2 parallel_append)

lemma parallel_append_right: "p \<parallel> q \<Longrightarrow> p \<parallel> q @ r"
  by (metis append_Nil2 parallel_append)

lemma take_drop_advance:
  "k \<le> n \<Longrightarrow> n \<le> length xs \<Longrightarrow> take k xs @ take (n - k) (drop k xs) = take n xs"
  by (metis append_take_drop_id le_add_diff_inverse take_add)

lemma take_min_rest: "take (min k (length xs - n)) (drop n xs) = take k (drop n xs)"
  by (cases "k \<le> length xs - n") (simp_all add: min_def)

section \<open>State monad\<close>

lemma run_state_bind_fst_snd:
  "run_state (State_Monad.bind m f) w =
     run_state (f (fst (run_state m w))) (snd (run_state m w))"
  by (simp add: case_prod_beta)

end
