(* ===== verification/Volume.thy ===== *)
theory Volume
  imports Prelude
begin

text \<open>
  The SD card as FatFs presents it to the payload: a tree of directories and files. A
  directory keeps its entries in directory order, because \<^verbatim>\<open>f_readdir\<close> enumerates them in
  that order. Every object carries the FAT attribute byte. Names are compared exactly.
  The locale \<open>path_store\<close> is what the components rely on, and the interpretation
  \<open>fat\<close> discharges it for the tree.
\<close>

section \<open>Trees and access by path\<close>

datatype node =
    File u8 string
  | Dir u8 "(string \<times> node) list"

type_synonym path = "string list"

fun attr_of :: "node \<Rightarrow> u8" where
  "attr_of (File a c) = a"
| "attr_of (Dir a es) = a"

fun set_attr :: "u8 \<Rightarrow> node \<Rightarrow> node" where
  "set_attr b (File a c) = File b c"
| "set_attr b (Dir a es) = Dir b es"

fun is_dir :: "node \<Rightarrow> bool" where
  "is_dir (File a c) = False"
| "is_dir (Dir a es) = True"

fun get_at :: "path \<Rightarrow> node \<Rightarrow> node option" where
  "get_at [] n = Some n"
| "get_at (k # ks) (File a c) = None"
| "get_at (k # ks) (Dir a es) =
     (case map_of es k of None \<Rightarrow> None | Some n \<Rightarrow> get_at ks n)"

fun put_at :: "path \<Rightarrow> node \<Rightarrow> node \<Rightarrow> node" where
  "put_at [] m n = m"
| "put_at (k # ks) m (File a c) = File a c"
| "put_at (k # ks) m (Dir a es) =
     (if ks = [] then Dir a (AList.update k m es)
      else case map_of es k of
          None \<Rightarrow> Dir a es
        | Some n \<Rightarrow> Dir a (AList.update k (put_at ks m n) es))"

fun del_at :: "path \<Rightarrow> node \<Rightarrow> node" where
  "del_at [] n = n"
| "del_at (k # ks) (File a c) = File a c"
| "del_at (k # ks) (Dir a es) =
     (if ks = [] then Dir a (AList.delete k es)
      else case map_of es k of
          None \<Rightarrow> Dir a es
        | Some n \<Rightarrow> Dir a (AList.update k (del_at ks n) es))"

text \<open>What clients ask of a volume: the bytes of a file, and whether a path is a directory.\<close>

definition file_at :: "path \<Rightarrow> node \<Rightarrow> string option" where
  "file_at p v = (case get_at p v of Some (File a c) \<Rightarrow> Some c | _ \<Rightarrow> None)"

definition dir_at :: "path \<Rightarrow> node \<Rightarrow> bool" where
  "dir_at p v = (case get_at p v of Some n \<Rightarrow> is_dir n | None \<Rightarrow> False)"

definition room_at :: "path \<Rightarrow> node \<Rightarrow> bool" where
  "room_at p v = (p \<noteq> [] \<and> dir_at (butlast p) v)"

text \<open>
  The height bounds the depth of the recursive folder routines. A well-formed tree has
  distinct, non-empty entry names without separators in every directory.
\<close>

fun height :: "node \<Rightarrow> nat" where
  "height (File a c) = 0"
| "height (Dir a es) = Suc (foldr max (map (\<lambda>e. height (snd e)) es) 0)"

definition good_name :: "string \<Rightarrow> bool" where
  "good_name s = (s \<noteq> [] \<and> CHR ''/'' \<notin> set s \<and> CHR '':'' \<notin> set s)"

fun wf_node :: "node \<Rightarrow> bool" where
  "wf_node (File a c) = True"
| "wf_node (Dir a es) =
     (distinct (map fst es) \<and> list_all (\<lambda>e. good_name (fst e) \<and> wf_node (snd e)) es)"

section \<open>Lookup after update\<close>

lemma get_at_append: "get_at (p @ q) v = Option.bind (get_at p v) (get_at q)"
  by (induction p v rule: get_at.induct) (auto split: option.splits)

lemma get_at_Some_dir: "get_at (p @ k # q) v = Some n \<Longrightarrow> dir_at p v"
proof (induction p v rule: get_at.induct)
  case (1 v)
  then show ?case by (cases v) (auto simp: dir_at_def)
next
  case (3 k' ks a es)
  then show ?case by (auto simp: dir_at_def split: option.splits)
qed auto

lemma dir_at_Nil_iff: "dir_at [] v \<longleftrightarrow> is_dir v"
  by (simp add: dir_at_def)

lemma dir_at_Cons:
  "dir_at (k # ks) (Dir a es) \<longleftrightarrow> (\<exists>n. map_of es k = Some n \<and> dir_at ks n)"
  by (auto simp: dir_at_def split: option.splits)

lemma dir_at_File [simp]: "\<not> dir_at ks (File a c)"
  by (cases ks) (auto simp: dir_at_def)

lemma room_at_Cons:
  "room_at (k # ks) (Dir a es) \<longleftrightarrow>
     ks = [] \<or> (\<exists>n. map_of es k = Some n \<and> room_at ks n)"
  by (auto simp: room_at_def dir_at_Nil_iff dir_at_Cons)

lemma room_at_File [simp]: "\<not> room_at ks (File a c)"
  by (auto simp: room_at_def)

lemma get_at_put_at: "room_at p v \<Longrightarrow> get_at p (put_at p m v) = Some m"
proof (induction p m v rule: put_at.induct)
  case (3 k ks m a es)
  then show ?case by (auto simp: room_at_Cons AList.update_conv' split: option.splits)
qed (auto simp: room_at_def)

lemma get_at_put_at_apart: "p \<parallel> q \<Longrightarrow> get_at q (put_at p m v) = get_at q v"
proof (induction p m v arbitrary: q rule: put_at.induct)
  case (3 k ks m a es)
  then show ?case
    by (cases q) (auto simp: AList.update_conv' split: option.splits)
qed auto

lemma get_at_del_at: "p \<noteq> [] \<Longrightarrow> get_at p (del_at p v) = None"
proof (induction p v rule: del_at.induct)
  case (3 k ks a es)
  then show ?case
    by (auto simp: AList.update_conv' AList.delete_conv' split: option.splits)
qed auto

lemma get_at_del_at_apart: "p \<parallel> q \<Longrightarrow> get_at q (del_at p v) = get_at q v"
proof (induction p v arbitrary: q rule: del_at.induct)
  case (3 k ks a es)
  then show ?case
    by (cases q) (auto simp: AList.update_conv' AList.delete_conv' split: option.splits)
qed auto

lemma dir_at_put_at: "\<not> prefix p q \<Longrightarrow> dir_at q (put_at p m v) = dir_at q v"
proof (induction p m v arbitrary: q rule: put_at.induct)
  case (3 k ks m a es)
  then show ?case
    by (cases q) (auto simp: dir_at_Nil_iff dir_at_Cons AList.update_conv' split: option.splits)
qed auto

lemma dir_at_del_at: "\<not> prefix p q \<Longrightarrow> dir_at q (del_at p v) = dir_at q v"
proof (induction p v arbitrary: q rule: del_at.induct)
  case (3 k ks a es)
  then show ?case
    by (cases q)
      (auto simp: dir_at_Nil_iff dir_at_Cons AList.update_conv' AList.delete_conv'
        split: option.splits)
qed auto

lemma room_at_put_at: "\<not> prefix p (butlast q) \<Longrightarrow> room_at q (put_at p m v) = room_at q v"
  by (simp add: room_at_def dir_at_put_at)

lemma room_at_del_at: "\<not> prefix p (butlast q) \<Longrightarrow> room_at q (del_at p v) = room_at q v"
  by (simp add: room_at_def dir_at_del_at)

lemma get_at_room: "get_at p v = Some n \<Longrightarrow> p \<noteq> [] \<Longrightarrow> room_at p v"
  by (metis append_butlast_last_id get_at_Some_dir room_at_def)

lemma file_at_iff: "file_at p v = Some c \<longleftrightarrow> (\<exists>a. get_at p v = Some (File a c))"
  by (auto simp: file_at_def split: option.splits node.splits)

lemma dir_at_iff: "dir_at p v \<longleftrightarrow> (\<exists>a es. get_at p v = Some (Dir a es))"
  by (auto simp: dir_at_def split: option.splits elim: is_dir.elims)

section \<open>Well-formed trees\<close>

lemma list_all_update:
  "list_all P es \<Longrightarrow> P (k, n) \<Longrightarrow> list_all P (AList.update k n es)"
  by (induction es) auto

lemma list_all_delete: "list_all P es \<Longrightarrow> list_all P (AList.delete k es)"
  by (induction es) auto

lemma list_all_map_of: "list_all P es \<Longrightarrow> map_of es k = Some n \<Longrightarrow> P (k, n)"
  by (induction es) (auto split: if_splits)

lemma wf_get_at: "wf_node v \<Longrightarrow> get_at p v = Some n \<Longrightarrow> wf_node n"
proof (induction p v rule: get_at.induct)
  case (3 k ks a es)
  then show ?case by (auto split: option.splits dest: list_all_map_of)
qed auto

lemma wf_put_at:
  "wf_node v \<Longrightarrow> wf_node m \<Longrightarrow> \<forall>k \<in> set p. good_name k \<Longrightarrow> wf_node (put_at p m v)"
proof (induction p m v rule: put_at.induct)
  case (3 k ks m a es)
  then show ?case
    by (auto simp: distinct_update intro!: list_all_update split: option.splits
        dest: list_all_map_of)
qed auto

lemma wf_del_at:
  "wf_node v \<Longrightarrow> \<forall>k \<in> set p. good_name k \<Longrightarrow> wf_node (del_at p v)"
proof (induction p v rule: del_at.induct)
  case (3 k ks a es)
  then show ?case
    by (auto simp: distinct_update distinct_delete intro!: list_all_update list_all_delete
        split: option.splits dest: list_all_map_of)
qed auto

lemma wf_set_attr [simp]: "wf_node (set_attr b n) = wf_node n"
  by (cases n) auto

section \<open>The interface of a volume\<close>

locale path_store =
  fixes look :: "'k list \<Rightarrow> 's \<Rightarrow> 'n option"
    and store :: "'k list \<Rightarrow> 'n \<Rightarrow> 's \<Rightarrow> 's"
    and erase :: "'k list \<Rightarrow> 's \<Rightarrow> 's"
    and room :: "'k list \<Rightarrow> 's \<Rightarrow> bool"
  assumes look_store: "room p s \<Longrightarrow> look p (store p n s) = Some n"
    and look_store_apart: "p \<parallel> q \<Longrightarrow> look q (store p n s) = look q s"
    and look_erase: "p \<noteq> [] \<Longrightarrow> look p (erase p s) = None"
    and look_erase_apart: "p \<parallel> q \<Longrightarrow> look q (erase p s) = look q s"
    and room_store: "\<not> prefix p (butlast q) \<Longrightarrow> room q (store p n s) = room q s"
    and room_erase: "\<not> prefix p (butlast q) \<Longrightarrow> room q (erase p s) = room q s"
begin

text \<open>A move is an erase at the old path and a store at the new one.\<close>

definition move :: "'k list \<Rightarrow> 'k list \<Rightarrow> 'n \<Rightarrow> 's \<Rightarrow> 's" where
  "move p q n s = store q n (erase p s)"

lemma look_move_new: "p \<parallel> q \<Longrightarrow> room q s \<Longrightarrow> look q (move p q n s) = Some n"
  unfolding move_def
  by (rule look_store) (metis parallelE prefix_order.trans prefixeq_butlast room_erase)

lemma look_move_old: "p \<parallel> q \<Longrightarrow> look p (move p q n s) = None"
  unfolding move_def
  by (metis look_erase look_store_apart parallel_Nil(1) parallel_commute)

lemma look_move_apart: "p \<parallel> r \<Longrightarrow> q \<parallel> r \<Longrightarrow> look r (move p q n s) = look r s"
  by (simp add: move_def look_store_apart look_erase_apart)

lemma room_move:
  "\<not> prefix p (butlast r) \<Longrightarrow> \<not> prefix q (butlast r) \<Longrightarrow> room r (move p q n s) = room r s"
  by (simp add: move_def room_store room_erase)

lemma move_back:
  assumes "p \<parallel> q" and "room p s" and "room q s"
  shows "look p (move q p n (move p q n s)) = Some n"
proof -
  have "\<not> prefix p (butlast p)" and "\<not> prefix q (butlast p)"
    using assms(1)
    by (metis append_butlast_last_id not_Cons_self2 parallel_Nil(1) prefix_length_le
        length_append_singleton not_less_eq_eq order_refl)
      (metis assms(1) parallelE prefix_order.trans prefixeq_butlast)
  then have "room p (move p q n s)"
    by (simp add: room_move assms(2))
  then show ?thesis
    by (intro look_move_new) (simp_all add: parallel_commute [of q p] assms(1))
qed

end

interpretation fat: path_store get_at put_at del_at room_at
  by unfold_locales
    (simp_all add: get_at_put_at get_at_put_at_apart get_at_del_at get_at_del_at_apart
      room_at_put_at room_at_del_at)

end
