(* ===== verification/Gfx.thy ===== *)
theory Gfx
  imports Prelude
begin

text \<open>
  The text console of the payload, \<^verbatim>\<open>TegraExplorer/source/gfx/gfx.c\<close>: its cursor, colours and
  mute flag, the character, string and formatted output routines, and the calls that the
  rest of the payload makes to it. The framebuffer is the list of things drawn on it, newest
  first; glyph bitmaps are left out, so a glyph is its character with the position and the
  colours the console had. Screen coordinates follow the source: the panel is mounted
  sideways, \<open>con_x\<close> grows downwards and \<open>con_y\<close> counts from the right edge.
\<close>

section \<open>Console state\<close>

definition YLEFT :: u32 where "YLEFT = 1279"

datatype drawn =
    Glyph char u32 u32 u32 bool u32 u32
  | Filled int int int int u32
  | FilledGrey int int int int u8

record gfx_con_t =
  fntsz :: u32
  con_x :: u32
  con_y :: u32
  savedx :: u32
  savedy :: u32
  fgcol :: u32
  fillbg :: bool
  bgcol :: u32
  mute :: bool
  YLeftConfig :: u32
  fb :: "drawn list"

definition gfx_con_init :: "gfx_con_t \<Rightarrow> gfx_con_t" where
  "gfx_con_init g = g\<lparr>fntsz := 16, con_x := 0, con_y := 0, savedx := 0, savedy := 0,
     fgcol := 0xFFCCCCCC, fillbg := True, bgcol := 0xFF1B1B1B, mute := False\<rparr>"

definition gfx_con_setcol :: "u32 \<Rightarrow> bool \<Rightarrow> u32 \<Rightarrow> gfx_con_t \<Rightarrow> gfx_con_t" where
  "gfx_con_setcol fg fill bg g = g\<lparr>fgcol := fg, fillbg := fill, bgcol := bg\<rparr>"

definition gfx_con_getpos :: "gfx_con_t \<Rightarrow> u32 \<times> u32" where
  "gfx_con_getpos g = (YLEFT - con_y g, con_x g)"

definition gfx_con_setpos :: "u32 \<Rightarrow> u32 \<Rightarrow> gfx_con_t \<Rightarrow> gfx_con_t" where
  "gfx_con_setpos x y g = g\<lparr>con_x := y, con_y := YLEFT - x\<rparr>"

section \<open>Characters and strings\<close>

text \<open>
  \<open>gfx_ctxt.width\<close> is 720 (\<^verbatim>\<open>gfx_init_ctxt(fb, 720, 1280, 720)\<close> in \<^verbatim>\<open>main.c\<close>). \<^verbatim>\<open>char\<close> is unsigned
  on the payload's ARM target.
\<close>

definition draw_glyph :: "char \<Rightarrow> gfx_con_t \<Rightarrow> gfx_con_t" where
  "draw_glyph c g = g\<lparr>fb :=
     Glyph c (con_x g) (con_y g) (fgcol g) (fillbg g) (bgcol g) (fntsz g) # fb g\<rparr>"

definition gfx_putc :: "char \<Rightarrow> gfx_con_t \<Rightarrow> gfx_con_t" where
  "gfx_putc ch g =
    (let c = (of_char ch :: nat) in
     if fntsz g = 16 then
       (if 32 \<le> c \<and> c \<le> 129 then
          (let g = draw_glyph ch g; y = con_y g - 16 in
           if y < 16 then
             (let x = con_x g + 16 in
              g\<lparr>con_y := YLeftConfig g, con_x := (if 719 < x then 0 else x)\<rparr>)
           else g\<lparr>con_y := y\<rparr>)
        else if c = 10 then
          (let x = con_x g + 16 in
           g\<lparr>con_y := YLeftConfig g, con_x := (if 720 - 16 < x then 0 else x)\<rparr>)
        else if c = 27 then g\<lparr>con_y := 575\<rparr>
        else if c = 7 then g\<lparr>con_y := 639\<rparr>
        else if c = 13 then g\<lparr>con_y := YLeftConfig g\<rparr>
        else g)
     else
       (if 30 \<le> c \<and> c \<le> 129 then
          (let g = draw_glyph ch g; y = con_y g - 8 in
           if y < 8 then g\<lparr>con_y := YLeftConfig g, con_x := con_x g + 8\<rparr>
           else g\<lparr>con_y := y\<rparr>)
        else if c = 10 then
          (let x = con_x g + 8 in
           g\<lparr>con_y := YLeftConfig g, con_x := (if 720 - 8 < x then 0 else x)\<rparr>)
        else if c = 27 then g\<lparr>con_y := 575\<rparr>
        else if c = 7 then g\<lparr>con_y := 639\<rparr>
        else if c = 13 then g\<lparr>con_y := YLeftConfig g\<rparr>
        else g))"

fun putc_all :: "string \<Rightarrow> gfx_con_t \<Rightarrow> gfx_con_t" where
  "putc_all [] g = g"
| "putc_all (c # cs) g = putc_all cs (gfx_putc c g)"

definition gfx_puts :: "string \<Rightarrow> gfx_con_t \<Rightarrow> gfx_con_t" where
  "gfx_puts s g = (if mute g then g else putc_all s g)"

definition gfx_puts_small :: "string \<Rightarrow> gfx_con_t \<Rightarrow> gfx_con_t" where
  "gfx_puts_small s g = (gfx_puts s (g\<lparr>fntsz := 8\<rparr>))\<lparr>fntsz := 16\<rparr>"

definition gfx_puts_limit :: "string \<Rightarrow> u32 \<Rightarrow> gfx_con_t \<Rightarrow> gfx_con_t" where
  "gfx_puts_limit s limit g =
    (if mute g then g
     else
       (let len = (of_nat (length s) :: u32);
            limit = (if limit < len then limit - 3 else limit);
            g = putc_all (take (unat (min len limit)) s) g
        in if limit + 3 < len then gfx_puts ''...'' g else g))"

definition gfx_putc_small :: "char \<Rightarrow> gfx_con_t \<Rightarrow> gfx_con_t" where
  "gfx_putc_small c g = (gfx_putc c (g\<lparr>fntsz := 8\<rparr>))\<lparr>fntsz := 16\<rparr>"

definition gfx_put_small_sep :: "gfx_con_t \<Rightarrow> gfx_con_t" where
  "gfx_put_small_sep g = (gfx_putc (CHR 0x0A) (g\<lparr>fntsz := 8\<rparr>))\<lparr>fntsz := fntsz g\<rparr>"

definition gfx_put_big_sep :: "gfx_con_t \<Rightarrow> gfx_con_t" where
  "gfx_put_big_sep g = (gfx_putc (CHR 0x0A) (g\<lparr>fntsz := 16\<rparr>))\<lparr>fntsz := fntsz g\<rparr>"

section \<open>Numbers and formats\<close>

function putn_digits :: "nat \<Rightarrow> nat \<Rightarrow> string" where
  "putn_digits base v =
     (if base < 2 then []
      else
        (let d = ''0123456789ABCDEFghijklmnopqrstuvwxyz'' ! (v mod base) in
         if v div base = 0 then [d] else putn_digits base (v div base) @ [d]))"
  by pat_completeness auto
termination
  by (relation "measure snd") (auto simp: div_greater_zero_iff)

declare putn_digits.simps [simp del]

text \<open>
  \<open>fill\<close> is 0 for a plain \<^verbatim>\<open>%d\<close>. With a blank fill the cursor is moved instead of printing
  blanks, and it moves backwards when the number is wider than the field.
\<close>

definition gfx_putn :: "u32 \<Rightarrow> nat \<Rightarrow> nat \<Rightarrow> int \<Rightarrow> gfx_con_t \<Rightarrow> gfx_con_t" where
  "gfx_putn v base fill fcnt g =
    (if 36 < base then g
     else
       (let minus = (base = 10 \<and> bit v 31);
            v = (if minus then 0 - v else v);
            ds = putn_digits base (unat v);
            s = (if minus then CHR ''-'' # ds else ds);
            c = fcnt - int (length s)
        in if fill = 0 then gfx_puts s g
           else if fill = 32 then gfx_puts s (g\<lparr>con_y := con_y g - word_of_int (c * 16)\<rparr>)
           else gfx_puts (replicate (nat c) (char_of fill) @ s) g))"

datatype garg = Num u32 | Str string

fun va_num :: "garg list \<Rightarrow> u32 \<times> garg list" where
  "va_num (Num n # ap) = (n, ap)"
| "va_num ap = (0, ap)"

fun va_str :: "garg list \<Rightarrow> string \<times> garg list" where
  "va_str (Str s # ap) = (s, ap)"
| "va_str ap = ([], ap)"

definition is_digit :: "char \<Rightarrow> bool" where
  "is_digit c = (48 \<le> (of_char c :: nat) \<and> (of_char c :: nat) \<le> 57)"

definition printf_flags :: "string \<Rightarrow> nat \<times> int \<times> string" where
  "printf_flags f =
    (case f of
       a # f' \<Rightarrow>
         if is_digit a \<or> a = CHR '' '' then
           (case f' of
              b # f'' \<Rightarrow>
                if is_digit b then (of_char a, int (of_char b) - 48, f'')
                else (32, int (of_char a) - 48, f')
            | [] \<Rightarrow> (32, int (of_char a) - 48, f'))
         else (0, 0, f)
     | [] \<Rightarrow> (0, 0, f))"

lemma printf_flags_length: "printf_flags f = (fill, n, f') \<Longrightarrow> length f' \<le> length f"
  by (auto simp: printf_flags_def split: list.splits if_splits)

definition printf_conv ::
    "char \<Rightarrow> nat \<Rightarrow> int \<Rightarrow> garg list \<Rightarrow> gfx_con_t \<Rightarrow> garg list \<times> gfx_con_t" where
  "printf_conv k fill fcnt ap g =
    (if k = CHR ''c'' then (let (n, ap) = va_num ap in (ap, gfx_putc (char_of (unat n mod 256)) g))
     else if k = CHR ''s'' then (let (s, ap) = va_str ap in (ap, gfx_puts s g))
     else if k = CHR ''d'' then (let (n, ap) = va_num ap in (ap, gfx_putn n 10 fill fcnt g))
     else if k \<in> {CHR ''p'', CHR ''P'', CHR ''x'', CHR ''X''} then
       (let (n, ap) = va_num ap in (ap, gfx_putn n 16 fill fcnt g))
     else if k = CHR ''k'' then (let (n, ap) = va_num ap in (ap, g\<lparr>fgcol := n\<rparr>))
     else if k = CHR ''K'' then (let (n, ap) = va_num ap in (ap, g\<lparr>bgcol := n, fillbg := True\<rparr>))
     else if k = CHR ''b'' then
       (let (n, ap) = va_num ap in (ap, g\<lparr>con_y := YLEFT - n, YLeftConfig := YLEFT - n\<rparr>))
     else if k = CHR ''%'' then (ap, gfx_putc (CHR ''%'') g)
     else (ap, gfx_putc k (gfx_putc (CHR ''%'') g)))"

function gfx_vprintf :: "string \<Rightarrow> garg list \<Rightarrow> gfx_con_t \<Rightarrow> gfx_con_t" where
  "gfx_vprintf fmt ap g =
    (case fmt of
       [] \<Rightarrow> g
     | f # fs \<Rightarrow>
         if f \<noteq> CHR ''%'' then gfx_vprintf fs ap (gfx_putc f g)
         else
           (case printf_flags fs of (fill, fcnt, rest) \<Rightarrow>
              (case rest of
                 [] \<Rightarrow> g
               | k # rest' \<Rightarrow>
                   (case printf_conv k fill fcnt ap g of (ap', g') \<Rightarrow> gfx_vprintf rest' ap' g'))))"
  by pat_completeness auto
termination
  by (relation "measure (\<lambda>(fmt, ap, g). length fmt)")
    (auto dest!: printf_flags_length [OF sym])

declare gfx_vprintf.simps [simp del]

definition gfx_printf :: "string \<Rightarrow> garg list \<Rightarrow> gfx_con_t \<Rightarrow> gfx_con_t" where
  "gfx_printf fmt ap g = (if mute g then g else gfx_vprintf fmt ap g)"

definition gfx_box :: "int \<Rightarrow> int \<Rightarrow> int \<Rightarrow> int \<Rightarrow> u32 \<Rightarrow> gfx_con_t \<Rightarrow> gfx_con_t" where
  "gfx_box x0 y0 x1 y1 col g = g\<lparr>fb := Filled x0 y0 x1 y1 col # fb g\<rparr>"

definition gfx_boxGrey :: "int \<Rightarrow> int \<Rightarrow> int \<Rightarrow> int \<Rightarrow> u8 \<Rightarrow> gfx_con_t \<Rightarrow> gfx_con_t" where
  "gfx_boxGrey x0 y0 x1 y1 shade g = g\<lparr>fb := FilledGrey x0 y0 x1 y1 shade # fb g\<rparr>"

section \<open>Calls to the console\<close>

text \<open>
  The payload's own code is modelled by the sequence of calls it makes. \<open>gfx_exec\<close> gives the
  meaning of one call and \<open>gfx_run\<close> that of a sequence, newest call first.
\<close>

datatype gfx_call =
    Box int int int int u32
  | BoxGrey int int int int u8
  | SetPos u32 u32
  | SetCol u32 bool u32
  | Puts_limit string u32
  | Printf string "garg list"
  | SetMute bool
  | SetFntsz u32

fun gfx_exec :: "gfx_call \<Rightarrow> gfx_con_t \<Rightarrow> gfx_con_t" where
  "gfx_exec (Box x0 y0 x1 y1 c) g = gfx_box x0 y0 x1 y1 c g"
| "gfx_exec (BoxGrey x0 y0 x1 y1 c) g = gfx_boxGrey x0 y0 x1 y1 c g"
| "gfx_exec (SetPos x y) g = gfx_con_setpos x y g"
| "gfx_exec (SetCol f b k) g = gfx_con_setcol f b k g"
| "gfx_exec (Puts_limit s n) g = gfx_puts_limit s n g"
| "gfx_exec (Printf f ap) g = gfx_printf f ap g"
| "gfx_exec (SetMute b) g = g\<lparr>mute := b\<rparr>"
| "gfx_exec (SetFntsz n) g = g\<lparr>fntsz := n\<rparr>"

fun gfx_run :: "gfx_call list \<Rightarrow> gfx_con_t \<Rightarrow> gfx_con_t" where
  "gfx_run [] g = g"
| "gfx_run (c # cs) g = gfx_exec c (gfx_run cs g)"

text \<open>The mute flag is what the last \<open>SetMute\<close> made it.\<close>

fun mute_after :: "gfx_call list \<Rightarrow> bool \<Rightarrow> bool" where
  "mute_after [] b = b"
| "mute_after (SetMute c # cs) b = c"
| "mute_after (_ # cs) b = mute_after cs b"

lemma mute_gfx_putc [simp]: "mute (gfx_putc c g) = mute g"
  by (simp add: gfx_putc_def draw_glyph_def Let_def)

lemma mute_putc_all [simp]: "mute (putc_all s g) = mute g"
  by (induction s arbitrary: g) simp_all

lemma mute_gfx_puts [simp]: "mute (gfx_puts s g) = mute g"
  by (simp add: gfx_puts_def)

lemma mute_gfx_putn [simp]: "mute (gfx_putn v base fill fcnt g) = mute g"
  by (simp add: gfx_putn_def Let_def)

lemma mute_printf_conv [simp]: "mute (snd (printf_conv k fill fcnt ap g)) = mute g"
  by (simp add: printf_conv_def case_prod_beta Let_def)

lemma mute_gfx_vprintf: "mute (gfx_vprintf fmt ap g) = mute g"
proof (induction fmt ap g rule: gfx_vprintf.induct)
  case (1 fmt ap g)
  show ?case
  proof (cases fmt)
    case Nil
    then show ?thesis by (subst gfx_vprintf.simps) simp
  next
    case (Cons f fs)
    obtain fill fcnt rest where flags: "printf_flags fs = (fill, fcnt, rest)"
      using prod_cases3 by blast
    have conv: "mute (gfx_vprintf rest' ap' g') = mute g"
      if "f = CHR ''%''" "rest = k # rest'" "printf_conv k fill fcnt ap g = (ap', g')" for k rest' ap' g'
      using 1(2) [OF Cons _ flags [symmetric] refl that(2) that(3) [symmetric]] that(1)
        mute_printf_conv [of k fill fcnt ap g] by (simp add: that(3))
    show ?thesis
      by (subst gfx_vprintf.simps)
        (use Cons flags conv 1(1) [OF Cons] in \<open>simp split: list.split prod.split\<close>)
  qed
qed

lemma mute_gfx_exec: "mute (gfx_exec c g) = mute_after [c] (mute g)"
  by (cases c)
    (auto simp: gfx_box_def gfx_boxGrey_def gfx_con_setpos_def gfx_con_setcol_def gfx_puts_limit_def
      gfx_printf_def mute_gfx_vprintf Let_def)

lemma mute_gfx_run: "mute (gfx_run cs g) = mute_after cs (mute g)"
proof (induction cs)
  case (Cons c cs)
  then show ?case by (cases c) (simp_all only: gfx_run.simps mute_gfx_exec mute_after.simps)
qed simp

end
