(* ===== verification/Machine.thy ===== *)
theory Machine
  imports Volume Gfx
begin

text \<open>
  The machine the payload runs on: the SD card, the screen, the POWER button, the heap and
  the global variables of the C files, threaded through every program by the state monad.

  The environment is adversarial. A schedule \<open>env\<close> lists what happens at the next calls into
  FatFs: a call goes through, it fails with an I/O error, or the console loses power during
  it. A program that has stopped (power lost, switched off, rebooted, another payload started,
  waiting for a key that never comes) keeps \<open>halted\<close> set, and from then on no primitive changes
  anything (\<open>onward\<close>). A schedule that has run out means no further
  fault.
\<close>

section \<open>Faults and halts\<close>

datatype io_error = Io_Disk | Io_Int | Io_Not_Ready | Io_Denied | Io_Write_Protected | Io_No_Filesystem

fun io_code :: "io_error \<Rightarrow> nat" where
  "io_code Io_Disk = 1"
| "io_code Io_Int = 2"
| "io_code Io_Not_Ready = 3"
| "io_code Io_Denied = 7"
| "io_code Io_Write_Protected = 10"
| "io_code Io_No_Filesystem = 13"

text \<open>The codes with which a call reports a fault of the card; 12 is \<^verbatim>\<open>FR_NOT_ENABLED\<close>.\<close>

definition io_err :: "nat \<Rightarrow> bool" where
  "io_err e = (e \<in> {1, 2, 3, 7, 10, 12, 13})"

text \<open>
  The number says how far the call got before the fault. For a call that changes one
  directory entry, 0 means that the card is unchanged and any other number that the change
  is on the card; for a write it counts bytes.
\<close>

datatype fault = Fine | Fail io_error nat | Cut nat

datatype halt =
    Power_Lost
  | Powered_Off
  | Rebooted
  | Launched string
  | Waiting
  | Hung
  | Out_Of_Fuel

section \<open>The state\<close>

datatype callback = App_Callback | Cfw_Callback

text \<open>The static variables of one updater's C file.\<close>

record ui_globals =
  g_last_error_stage :: string
  g_last_error_code :: nat
  g_commit_warning_code :: nat
  g_ui_page :: nat
  g_copy_title :: string
  g_copy_detail :: string
  g_copy_base_percent :: int
  g_copy_span_percent :: int

record world =
  vol :: node
  env :: "fault list"
  halted :: "halt option"
  con0 :: gfx_con_t
  screen :: "gfx_call list"
  power_btn :: "bool list"
  vol_btn :: "bool list"
  app :: ui_globals
  cfw :: ui_globals
  g_copy_progress_callback :: "callback option"
  g_copy_quiet :: bool
  sd_mounted :: bool
  sd_ok :: bool
  FSBuffSize :: nat
  explorerCopyMode :: nat
  heap_avail :: nat

type_synonym 'a prog = "(world, 'a) state"

abbreviation running :: "world \<Rightarrow> bool" where
  "running w \<equiv> halted w = None"

text \<open>The console as the calls made so far have left it.\<close>

definition gfx_con :: "world \<Rightarrow> gfx_con_t" where
  "gfx_con w = gfx_run (screen w) (con0 w)"

definition console_muted :: "world \<Rightarrow> bool" where
  "console_muted w = mute (gfx_con w)"

lemma console_muted_code [code]: "console_muted w = mute_after (screen w) (mute (con0 w))"
  by (simp add: console_muted_def gfx_con_def mute_gfx_run)

section \<open>Primitive programs\<close>

text \<open>
  \<open>disk act err part\<close> is one call into FatFs: \<open>act\<close> is its effect, \<open>err e k\<close> what it returns on
  the I/O error \<open>e\<close> after \<open>k\<close> steps and \<open>part k\<close> what has reached the card then. On an
  unmounted volume every call returns \<^verbatim>\<open>FR_NOT_ENABLED\<close>.
\<close>

definition disk ::
    "(node \<Rightarrow> 'a \<times> node) \<Rightarrow> (nat \<Rightarrow> nat \<Rightarrow> 'a) \<Rightarrow> (nat \<Rightarrow> node \<Rightarrow> node) \<Rightarrow> 'a prog" where
  "disk act err part = State (\<lambda>w.
    if \<not> running w then (err 3 0, w)
    else if \<not> sd_mounted w then (err 12 0, w)
    else case env w of
        [] \<Rightarrow> (case act (vol w) of (r, v) \<Rightarrow> (r, w\<lparr>vol := v\<rparr>))
      | Fine # e \<Rightarrow> (case act (vol w) of (r, v) \<Rightarrow> (r, w\<lparr>vol := v, env := e\<rparr>))
      | Fail x k # e \<Rightarrow> (err (io_code x) k, w\<lparr>vol := part k (vol w), env := e\<rparr>)
      | Cut k # e \<Rightarrow> (err 3 k, w\<lparr>vol := part k (vol w), env := e, halted := Some Power_Lost\<rparr>))"

text \<open>A change of memory: globals, screen, keys. It leaves the card and the schedule alone.\<close>

definition mem :: "(world \<Rightarrow> world) \<Rightarrow> unit prog" where
  "mem f = State (\<lambda>w. if running w
     then ((), (f w)\<lparr>vol := vol w, env := env w, halted := halted w, sd_mounted := sd_mounted w,
                     FSBuffSize := FSBuffSize w, heap_avail := heap_avail w\<rparr>)
     else ((), w))"

definition stop :: "halt \<Rightarrow> unit prog" where
  "stop h = State (\<lambda>w. if running w then ((), w\<lparr>halted := Some h\<rparr>) else ((), w))"

definition ask :: "(world \<Rightarrow> 'a) \<Rightarrow> 'a prog" where
  "ask f = State (\<lambda>w. (f w, w))"

definition sd_unmount :: "unit prog" where
  "sd_unmount = State (\<lambda>w. if running w then ((), w\<lparr>sd_mounted := False\<rparr>) else ((), w))"

definition gfx :: "gfx_call list \<Rightarrow> unit prog" where
  "gfx cs = mem (\<lambda>w. w\<lparr>screen := rev cs @ screen w\<rparr>)"

text \<open>\<^verbatim>\<open>for (...) if ((res = body(x)) != 0) break;\<close>: run while the result stays zero.\<close>

fun for_ok :: "('a \<Rightarrow> nat prog) \<Rightarrow> 'a list \<Rightarrow> nat prog" where
  "for_ok body [] = State_Monad.return 0"
| "for_ok body (x # xs) =
     do { r \<leftarrow> body x; if r = 0 then for_ok body xs else State_Monad.return r }"

section \<open>Frame properties\<close>

text \<open>
  An observation of the card is apart from a path when it does not see what happens at or
  below that path; \<open>apart_new\<close>: when it does not see a new, empty directory there.
\<close>

definition apart :: "path \<Rightarrow> (node \<Rightarrow> 'b) \<Rightarrow> bool" where
  "apart p q = (\<forall>r n v. q (put_at (p @ r) n v) = q v \<and> q (del_at (p @ r) v) = q v)"

definition apart_new :: "path \<Rightarrow> (node \<Rightarrow> 'b) \<Rightarrow> bool" where
  "apart_new p q = (\<forall>a v. get_at p v = None \<longrightarrow> room_at p v \<longrightarrow> q (put_at p (Dir a []) v) = q v)"

text \<open>
  \<open>onward M w w'\<close>: what every program does to the world around the card. The schedule only
  gets shorter, the heap and the configured buffer size stay, and where \<open>M\<close> is set the card
  stays mounted. A program started on a stopped machine changes nothing.
\<close>

definition onward :: "bool \<Rightarrow> world \<Rightarrow> world \<Rightarrow> bool" where
  "onward M w w' = (suffix (env w') (env w) \<and> FSBuffSize w' = FSBuffSize w \<and>
     heap_avail w' = heap_avail w \<and> (M \<longrightarrow> sd_mounted w' = sd_mounted w) \<and> (\<not> running w \<longrightarrow> w' = w))"

text \<open>
  \<open>keeps_val M q V m\<close>: on a well-formed card and whatever the schedule, \<open>m\<close> leaves what the
  observation \<open>q\<close> sees of the card as it was, and the card well-formed, and its result
  satisfies \<open>V\<close>.
\<close>

definition keeps_val :: "bool \<Rightarrow> (node \<Rightarrow> 'b) \<Rightarrow> ('a \<Rightarrow> bool) \<Rightarrow> 'a prog \<Rightarrow> bool" where
  "keeps_val M q V m = (\<forall>w. wf_node (vol w) \<longrightarrow>
     V (fst (run_state m w)) \<and> onward M w (snd (run_state m w)) \<and>
     wf_node (vol (snd (run_state m w))) \<and>
     q (vol (snd (run_state m w))) = q (vol w))"

abbreviation keeps :: "bool \<Rightarrow> (node \<Rightarrow> 'b) \<Rightarrow> 'a prog \<Rightarrow> bool" where
  "keeps M q m \<equiv> keeps_val M q (\<lambda>_. True) m"

text \<open>\<open>offline m\<close>: \<open>m\<close> does not touch the card at all.\<close>

definition offline :: "'a prog \<Rightarrow> bool" where
  "offline m = (\<forall>w. vol (snd (run_state m w)) = vol w \<and> env (snd (run_state m w)) = env w \<and>
     onward True w (snd (run_state m w)) \<and>
     (running w \<longrightarrow> halted (snd (run_state m w)) \<noteq> Some Power_Lost))"

text \<open>\<open>quiet m\<close>: an offline program that always returns.\<close>

definition quiet :: "'a prog \<Rightarrow> bool" where
  "quiet m = (offline m \<and> (\<forall>w. halted (snd (run_state m w)) = halted w))"

section \<open>Hoare triples with a halt condition\<close>

text \<open>
  A steady machine has its card mounted, enough memory for the copy routines, and no I/O
  error ahead; the power may still fail at any call.
\<close>

fun is_fail :: "fault \<Rightarrow> bool" where
  "is_fail (Fail x k) = True"
| "is_fail _ = False"

definition steady :: "world \<Rightarrow> bool" where
  "steady w = (sd_mounted w \<and> 0 < FSBuffSize w \<and> FSBuffSize w \<le> heap_avail w \<and> 8192 \<le> heap_avail w \<and>
     list_all (\<lambda>f. \<not> is_fail f) (env w))"

text \<open>
  \<open>triple M C P m Q\<close>: started on a running machine whose card is well-formed and satisfies
  \<open>P\<close>, the program ends running with \<open>Q\<close> of its result, or stopped for the reason \<open>h\<close> with \<open>C h\<close>
  of the card. With \<open>M\<close> set the machine is steady at both ends; without it the schedule is
  arbitrary.
\<close>

definition after :: "bool \<Rightarrow> (halt \<Rightarrow> node \<Rightarrow> bool) \<Rightarrow> (node \<Rightarrow> bool) \<Rightarrow> world \<Rightarrow> bool" where
  "after M C P w = (wf_node (vol w) \<and>
     (case halted w of None \<Rightarrow> (M \<longrightarrow> steady w) \<and> P (vol w) | Some h \<Rightarrow> C h (vol w)))"

definition triple ::
    "bool \<Rightarrow> (halt \<Rightarrow> node \<Rightarrow> bool) \<Rightarrow> (node \<Rightarrow> bool) \<Rightarrow> 'a prog \<Rightarrow> ('a \<Rightarrow> node \<Rightarrow> bool) \<Rightarrow> bool" where
  "triple M C P m Q = (\<forall>w. wf_node (vol w) \<longrightarrow>
     (if running w
      then (M \<longrightarrow> steady w) \<and> P (vol w) \<longrightarrow> after M C (Q (fst (run_state m w))) (snd (run_state m w))
      else snd (run_state m w) = w))"

section \<open>One call into FatFs\<close>

lemma disk_cases:
  obtains
    (halted) "\<not> running w" "run_state (disk act err part) w = (err 3 0, w)"
  | (unmounted) "running w" "\<not> sd_mounted w" "run_state (disk act err part) w = (err 12 0, w)"
  | (fine) e where "running w" "sd_mounted w" "env w = Fine # e \<or> env w = [] \<and> e = []"
      "run_state (disk act err part) w = (fst (act (vol w)), w\<lparr>vol := snd (act (vol w)), env := e\<rparr>)"
  | (fail) x k e where "running w" "sd_mounted w" "env w = Fail x k # e"
      "run_state (disk act err part) w = (err (io_code x) k, w\<lparr>vol := part k (vol w), env := e\<rparr>)"
  | (cut) k e where "running w" "sd_mounted w" "env w = Cut k # e"
      "run_state (disk act err part) w =
         (err 3 k, w\<lparr>vol := part k (vol w), env := e, halted := Some Power_Lost\<rparr>)"
proof (cases "running w \<and> sd_mounted w")
  case False
  then show ?thesis
    by (cases "running w") (auto intro: halted unmounted simp: disk_def)
next
  case True
  show ?thesis
  proof (cases "env w")
    case Nil
    with True show ?thesis
      by (intro fine [of "[]"]) (simp_all add: disk_def case_prod_beta)
  next
    case (Cons f e)
    with True show ?thesis
      by (cases f) (auto intro: fine [of e] fail [of _ _ e] cut [of _ e] simp: disk_def case_prod_beta)
  qed
qed

lemma io_code_pos [simp]: "io_code x \<noteq> 0"
  by (cases x) auto

lemma io_err_simps [simp]:
  "io_err (io_code x)" "io_err 3" "io_err 12" "\<not> io_err 0" "\<not> io_err 4" "\<not> io_err 5" "\<not> io_err 8"
  by (cases x) (auto simp: io_err_def)

lemma io_err_pos [simp]: "io_err e \<Longrightarrow> 0 < e"
  by (auto simp: io_err_def)

section \<open>Observations\<close>

lemma apart_put_at: "apart p q \<Longrightarrow> q (put_at p n v) = q v"
  and apart_del_at: "apart p q \<Longrightarrow> q (del_at p v) = q v"
  unfolding apart_def by (metis append_Nil2)+

lemma apart_append: "apart p q \<Longrightarrow> apart (p @ r) q"
  by (simp add: apart_def)

lemma apart_get_at [simp]: "p \<parallel> q \<Longrightarrow> apart p (get_at q)"
  by (simp add: apart_def get_at_put_at_apart get_at_del_at_apart parallel_append_left)

lemma apart_file_at [simp]: "p \<parallel> q \<Longrightarrow> apart p (file_at q)"
  by (simp add: apart_def file_at_def get_at_put_at_apart get_at_del_at_apart parallel_append_left)

lemma apart_dir_at [simp]: "\<not> prefix p q \<Longrightarrow> apart p (dir_at q)"
  by (simp add: apart_def) (metis append_prefixD dir_at_del_at dir_at_put_at)

lemma apart_const [simp]: "apart p (\<lambda>_. c)"
  by (simp add: apart_def)

lemma apart_compose: "apart p q \<Longrightarrow> apart p (\<lambda>v. f (q v))"
  by (simp add: apart_def)

lemma apart_compose2: "apart p q \<Longrightarrow> apart p r \<Longrightarrow> apart p (\<lambda>v. f (q v) (r v))"
  by (simp add: apart_def)

lemma apart_eq: "apart p q \<Longrightarrow> apart p (\<lambda>v. q v = x)"
  by (rule apart_compose)

lemma apart_new_apart: "apart p q \<Longrightarrow> apart_new p q"
  by (simp add: apart_new_def apart_put_at)

lemma apart_new_get_at [simp]: "\<not> prefix q p \<Longrightarrow> apart_new p (get_at q)"
proof (cases "p \<parallel> q")
  case True
  then show ?thesis by (simp add: apart_new_apart)
next
  case False
  assume "\<not> prefix q p"
  with False obtain r where "q = p @ r" and "r \<noteq> []"
    by (auto simp: parallel_def prefix_def)
  then show ?thesis
    by (auto simp: apart_new_def get_at_append get_at_put_at neq_Nil_conv)
qed

lemma apart_new_compose: "apart_new p q \<Longrightarrow> apart_new p (\<lambda>v. f (q v))"
  by (simp add: apart_new_def)

lemma apart_new_compose2: "apart_new p q \<Longrightarrow> apart_new p r \<Longrightarrow> apart_new p (\<lambda>v. f (q v) (r v))"
  by (simp add: apart_new_def)

section \<open>Rules for frames\<close>

lemma onward_refl [simp]: "onward M w w"
  by (simp add: onward_def)

lemma onward_trans: "onward M w w' \<Longrightarrow> onward M w' w'' \<Longrightarrow> onward M w w''"
  by (auto simp: onward_def intro: suffix_order.trans)

lemma onward_weaken: "onward True w w' \<Longrightarrow> onward M w w'"
  by (simp add: onward_def)

lemma keeps_weaken: "keeps_val M q V m \<Longrightarrow> (\<And>a. V a \<Longrightarrow> U a) \<Longrightarrow> keeps_val M q U m"
  by (simp add: keeps_val_def)

text \<open>Observations with values reduce to those that are true or false.\<close>

lemma keeps_bool:
  assumes "\<And>x. keeps_val M (\<lambda>v. q v = x) V m"
  shows "keeps_val M q V m"
  using assms by (auto simp: keeps_val_def)

lemma keeps_bind_val:
  assumes "keeps_val M q V m" and "\<And>a. V a \<Longrightarrow> keeps_val M q U (f a)"
  shows "keeps_val M q U (State_Monad.bind m f)"
  unfolding keeps_val_def run_state_bind_fst_snd
proof (intro allI impI)
  fix w :: world
  assume "wf_node (vol w)"
  define a w' where "a = fst (run_state m w)" and "w' = snd (run_state m w)"
  have 1: "V a" "onward M w w'" "wf_node (vol w')" "q (vol w') = q (vol w)"
    using assms(1) \<open>wf_node (vol w)\<close> by (simp_all add: keeps_val_def a_def w'_def)
  from assms(2) [OF \<open>V a\<close>] \<open>wf_node (vol w')\<close> 1
  show "U (fst (run_state (f (fst (run_state m w))) (snd (run_state m w)))) \<and>
      onward M w (snd (run_state (f (fst (run_state m w))) (snd (run_state m w)))) \<and>
      wf_node (vol (snd (run_state (f (fst (run_state m w))) (snd (run_state m w))))) \<and>
      q (vol (snd (run_state (f (fst (run_state m w))) (snd (run_state m w))))) = q (vol w)"
    unfolding a_def [symmetric] w'_def [symmetric]
    by (auto simp: keeps_val_def intro: onward_trans)
qed

lemma keeps_bind [keeps_intros]:
  "keeps M q m \<Longrightarrow> (\<And>a. keeps M q (f a)) \<Longrightarrow> keeps M q (State_Monad.bind m f)"
  by (rule keeps_bind_val)

lemma keeps_bind2:
  "keeps_val M q (\<lambda>(a, b). V a b) m \<Longrightarrow> (\<And>a b. V a b \<Longrightarrow> keeps_val M q U (f a b)) \<Longrightarrow>
     keeps_val M q U (State_Monad.bind m (\<lambda>(a, b). f a b))"
  by (rule keeps_bind_val, assumption) auto

lemma keeps_bind3:
  "keeps_val M q (\<lambda>(a, b, c). V a b c) m \<Longrightarrow> (\<And>a b c. V a b c \<Longrightarrow> keeps_val M q U (f a b c)) \<Longrightarrow>
     keeps_val M q U (State_Monad.bind m (\<lambda>(a, b, c). f a b c))"
  by (rule keeps_bind_val, assumption) auto

lemma keeps_return_val: "V a \<Longrightarrow> keeps_val M q V (State_Monad.return a)"
  by (simp add: keeps_val_def)

lemma keeps_return [keeps_intros]: "keeps M q (State_Monad.return a)"
  by (simp add: keeps_return_val)

lemma keeps_if [keeps_intros]:
  "(b \<Longrightarrow> keeps_val M q V m) \<Longrightarrow> (\<not> b \<Longrightarrow> keeps_val M q V n) \<Longrightarrow> keeps_val M q V (if b then m else n)"
  by simp

lemma keeps_prod [keeps_intros]:
  "(\<And>a b. keeps_val M q V (f a b)) \<Longrightarrow> keeps_val M q V (case p of (a, b) \<Rightarrow> f a b)"
  by (cases p) simp

lemma keeps_let [keeps_intros]: "(\<And>x. keeps_val M q V (f x)) \<Longrightarrow> keeps_val M q V (Let a f)"
  by simp

lemma keeps_disk:
  assumes "\<And>v. wf_node v \<Longrightarrow> V (fst (act v)) \<and> wf_node (snd (act v)) \<and> q (snd (act v)) = q v"
    and "\<And>k v. wf_node v \<Longrightarrow> wf_node (part k v) \<and> q (part k v) = q v"
    and "\<And>e k. V (err e k)"
  shows "keeps_val M q V (disk act err part)"
  unfolding keeps_val_def
proof (intro allI impI)
  fix w :: world
  assume wf: "wf_node (vol w)"
  let ?r = "run_state (disk act err part) w"
  show "V (fst ?r) \<and> onward M w (snd ?r) \<and> wf_node (vol (snd ?r)) \<and>
      q (vol (snd ?r)) = q (vol w)"
    by (cases rule: disk_cases [where w = w and act = act and err = err and part = part])
      (auto simp: assms wf onward_def suffix_def)
qed

lemma keeps_offline: "offline m \<Longrightarrow> keeps M q m"
  by (simp add: keeps_val_def offline_def onward_weaken)

lemma keeps_for_ok [keeps_intros]:
  assumes "\<And>x. x \<in> set xs \<Longrightarrow> keeps M q (body x)"
  shows "keeps M q (for_ok body xs)"
  using assms by (induction xs) (simp_all add: keeps_bind keeps_return)

section \<open>Programs that leave the card alone\<close>

lemma offline_bind [intro]:
  assumes "offline m" and "\<And>a. offline (f a)"
  shows "offline (State_Monad.bind m f)"
  unfolding offline_def run_state_bind_fst_snd
proof
  fix w :: world
  define a w' where "a = fst (run_state m w)" and "w' = snd (run_state m w)"
  from assms(1) have "vol w' = vol w" "env w' = env w" "onward True w w'"
    "running w \<longrightarrow> halted w' \<noteq> Some Power_Lost"
    by (auto simp: offline_def w'_def)
  with assms(2) [of a]
  show "vol (snd (run_state (f (fst (run_state m w))) (snd (run_state m w)))) = vol w \<and>
      env (snd (run_state (f (fst (run_state m w))) (snd (run_state m w)))) = env w \<and>
      onward True w (snd (run_state (f (fst (run_state m w))) (snd (run_state m w)))) \<and>
      (running w \<longrightarrow> halted (snd (run_state (f (fst (run_state m w))) (snd (run_state m w)))) \<noteq> Some Power_Lost)"
    unfolding a_def [symmetric] w'_def [symmetric] offline_def
    by (metis onward_def onward_trans)
qed

lemma quiet_bind [intro]: "quiet m \<Longrightarrow> (\<And>a. quiet (f a)) \<Longrightarrow> quiet (State_Monad.bind m f)"
  by (auto simp: quiet_def case_prod_beta)

lemma quiet_return [intro, simp]: "quiet (State_Monad.return a)"
  by (simp add: quiet_def offline_def)

lemma quiet_mem [intro, simp]: "quiet (mem f)"
  by (simp add: quiet_def offline_def mem_def onward_def)

lemma quiet_ask [intro, simp]: "quiet (ask f)"
  by (simp add: quiet_def offline_def ask_def)

lemma quiet_gfx [intro, simp]: "quiet (gfx cs)"
  by (simp add: gfx_def)

lemma quiet_if [intro]: "quiet m \<Longrightarrow> quiet n \<Longrightarrow> quiet (if b then m else n)"
  by simp

lemma quiet_if_iff [simp]: "quiet (if b then m else n) = (if b then quiet m else quiet n)"
  by simp

lemma quiet_offline [intro]: "quiet m \<Longrightarrow> offline m"
  by (simp add: quiet_def)

lemma offline_stop [intro, simp]: "h \<noteq> Power_Lost \<Longrightarrow> offline (stop h)"
  by (simp add: offline_def stop_def onward_def)

lemma keeps_quiet: "quiet m \<Longrightarrow> keeps M q m"
  by (rule keeps_offline) (simp add: quiet_def)

lemma keeps_mem [keeps_intros]: "keeps M q (mem f)"
  and keeps_ask [keeps_intros]: "keeps M q (ask g)"
  and keeps_gfx [keeps_intros]: "keeps M q (gfx cs)"
  by (auto intro: keeps_offline)

lemma keeps_stop [keeps_intros]: "keeps M q (stop h)"
  by (simp add: keeps_val_def stop_def onward_def)

lemma keeps_sd_unmount [keeps_intros]: "keeps False q sd_unmount"
  by (simp add: keeps_val_def sd_unmount_def onward_def)

lemma offline_if [intro]: "offline m \<Longrightarrow> offline n \<Longrightarrow> offline (if b then m else n)"
  by simp

lemma keeps_bind_quiet:
  "quiet m \<Longrightarrow> (\<And>a. keeps_val M q U (f a)) \<Longrightarrow> keeps_val M q U (State_Monad.bind m f)"
  by (rule keeps_bind_val [OF keeps_quiet])

lemma keeps_bind_offline:
  "offline m \<Longrightarrow> (\<And>a. keeps_val M q U (f a)) \<Longrightarrow> keeps_val M q U (State_Monad.bind m f)"
  by (rule keeps_bind_val [OF keeps_offline])

lemma keeps_bind_ask [keeps_binds]:
  "(\<And>a. keeps_val M q U (f a)) \<Longrightarrow> keeps_val M q U (State_Monad.bind (ask g) f)"
  by (rule keeps_bind_quiet) auto

lemma keeps_bind_gfx [keeps_binds]:
  "(\<And>a. keeps_val M q U (f a)) \<Longrightarrow> keeps_val M q U (State_Monad.bind (gfx cs) f)"
  by (rule keeps_bind_quiet) auto

section \<open>Rules for triples\<close>

lemma steady_onward:
  assumes "onward True w w'" and "steady w"
  shows "steady w'"
proof -
  from assms obtain e where "env w = e @ env w'"
    by (auto simp: onward_def suffix_def)
  with assms show ?thesis
    by (simp add: steady_def onward_def)
qed

lemma after_mono:
  "after M C P w \<Longrightarrow> (\<And>v. P v \<Longrightarrow> P' v) \<Longrightarrow> (\<And>h v. C h v \<Longrightarrow> C' h v) \<Longrightarrow> after M C' P' w"
  by (auto simp: after_def split: option.splits)

lemma tripleI:
  assumes "\<And>w. wf_node (vol w) \<Longrightarrow> running w \<Longrightarrow> (M \<Longrightarrow> steady w) \<Longrightarrow> P (vol w) \<Longrightarrow>
      after M C (Q (fst (run_state m w))) (snd (run_state m w))"
    and "\<And>w. wf_node (vol w) \<Longrightarrow> \<not> running w \<Longrightarrow> snd (run_state m w) = w"
  shows "triple M C P m Q"
  using assms by (simp add: triple_def)

lemma tripleD:
  "triple M C P m Q \<Longrightarrow> wf_node (vol w) \<Longrightarrow> running w \<Longrightarrow> (M \<Longrightarrow> steady w) \<Longrightarrow> P (vol w) \<Longrightarrow>
     after M C (Q (fst (run_state m w))) (snd (run_state m w))"
  by (simp add: triple_def)

lemma triple_stopped:
  "triple M C P m Q \<Longrightarrow> wf_node (vol w) \<Longrightarrow> \<not> running w \<Longrightarrow> snd (run_state m w) = w"
  by (simp add: triple_def)

lemma triple_weaken:
  assumes "triple M C P m Q" and "\<And>v. P' v \<Longrightarrow> P v" and "\<And>a v. Q a v \<Longrightarrow> Q' a v"
    and "\<And>h v. C h v \<Longrightarrow> C' h v"
  shows "triple M C' P' m Q'"
  by (rule tripleI) (blast intro: after_mono [OF tripleD [OF assms(1)]] assms(2-4),
      rule triple_stopped [OF assms(1)])

lemma triple_pre: "triple M C P m Q \<Longrightarrow> (\<And>v. P' v \<Longrightarrow> P v) \<Longrightarrow> triple M C P' m Q"
  by (rule triple_weaken)

lemma triple_post: "triple M C P m Q \<Longrightarrow> (\<And>a v. Q a v \<Longrightarrow> Q' a v) \<Longrightarrow> triple M C P m Q'"
  by (rule triple_weaken)

lemma triple_return: "(\<And>v. P v \<Longrightarrow> Q a v) \<Longrightarrow> triple M C P (State_Monad.return a) Q"
  by (simp add: triple_def after_def split: option.splits)

text \<open>\<open>yields V m\<close>: the result of \<open>m\<close> satisfies \<open>V\<close>, whatever the state.\<close>

definition yields :: "('a \<Rightarrow> bool) \<Rightarrow> 'a prog \<Rightarrow> bool" where
  "yields V m = (\<forall>w. V (fst (run_state m w)))"

lemma yields_disk:
  assumes "\<And>v. V (fst (act v))" and "\<And>e k. io_err e \<Longrightarrow> V (err e k)"
  shows "yields V (disk act err part)"
  unfolding yields_def
proof
  fix w :: world
  show "V (fst (run_state (disk act err part) w))"
    by (cases rule: disk_cases [where w = w and act = act and err = err and part = part])
      (simp_all add: assms)
qed

lemma yields_bind: "yields U m \<Longrightarrow> (\<And>a. U a \<Longrightarrow> yields V (f a)) \<Longrightarrow> yields V (State_Monad.bind m f)"
  by (simp add: yields_def case_prod_beta)

lemma yields_return: "V a \<Longrightarrow> yields V (State_Monad.return a)"
  by (simp add: yields_def)

lemma yields_mono: "yields U m \<Longrightarrow> (\<And>a. U a \<Longrightarrow> V a) \<Longrightarrow> yields V m"
  by (simp add: yields_def)

lemma triple_bind_val:
  assumes "triple M C P m R" and val: "\<And>w. wf_node (vol w) \<Longrightarrow> V (fst (run_state m w))"
    and "\<And>a. V a \<Longrightarrow> triple M C (R a) (f a) Q"
  shows "triple M C P (State_Monad.bind m f) Q"
proof (rule tripleI)
  fix w :: world
  assume wf: "wf_node (vol w)" and "running w" and "M \<Longrightarrow> steady w" and "P (vol w)"
  note V = val [OF wf]
  from wf \<open>running w\<close> \<open>M \<Longrightarrow> steady w\<close> \<open>P (vol w)\<close> have m: "after M C (R (fst (run_state m w))) (snd (run_state m w))"
    by (rule tripleD [OF assms(1)])
  show "after M C (Q (fst (run_state (State_Monad.bind m f) w))) (snd (run_state (State_Monad.bind m f) w))"
    unfolding run_state_bind_fst_snd
  proof (cases "running (snd (run_state m w))")
    case True
    with m show "after M C (Q (fst (run_state (f (fst (run_state m w))) (snd (run_state m w)))))
        (snd (run_state (f (fst (run_state m w))) (snd (run_state m w))))"
      by (intro tripleD [OF assms(3) [OF V]]) (auto simp: after_def)
  next
    case False
    with m have "snd (run_state (f (fst (run_state m w))) (snd (run_state m w))) = snd (run_state m w)"
      by (intro triple_stopped [OF assms(3) [OF V]]) (auto simp: after_def)
    with m False show "after M C (Q (fst (run_state (f (fst (run_state m w))) (snd (run_state m w)))))
        (snd (run_state (f (fst (run_state m w))) (snd (run_state m w))))"
      by (auto simp: after_def)
  qed
next
  fix w :: world
  assume wf: "wf_node (vol w)" and "\<not> running w"
  note V = val [OF wf]
  from wf \<open>\<not> running w\<close> show "snd (run_state (State_Monad.bind m f) w) = w"
    unfolding run_state_bind_fst_snd
    by (simp add: triple_stopped [OF assms(1)] triple_stopped [OF assms(3) [OF V]])
qed

lemma triple_bind_yields:
  "triple M C P m R \<Longrightarrow> yields V m \<Longrightarrow> (\<And>a. V a \<Longrightarrow> triple M C (R a) (f a) Q) \<Longrightarrow>
    triple M C P (State_Monad.bind m f) Q"
  by (rule triple_bind_val) (auto simp: yields_def)

lemma triple_bind:
  assumes "triple M C P m R" and "\<And>a. triple M C (R a) (f a) Q"
  shows "triple M C P (State_Monad.bind m f) Q"
  by (rule triple_bind_yields [OF assms(1), where V = "\<lambda>_. True"]) (simp_all add: yields_def assms(2))

text \<open>Sequencing with the specification of the first program adapted on the way.\<close>

lemma triple_seq:
  assumes "triple M C' P' m R" and "\<And>v. P v \<Longrightarrow> P' v" and "\<And>h v. C' h v \<Longrightarrow> C h v"
    and "\<And>a. triple M C (R a) (f a) Q"
  shows "triple M C P (State_Monad.bind m f) Q"
  by (rule triple_bind [OF triple_weaken [OF assms(1-2) _ assms(3)] assms(4)])

lemma triple_seq2:
  assumes "triple M C' P' m (\<lambda>(a, b). R a b)" and "yields (\<lambda>(a, b). V a b) m"
    and "\<And>v. P v \<Longrightarrow> P' v" and "\<And>h v. C' h v \<Longrightarrow> C h v"
    and "\<And>a b. V a b \<Longrightarrow> triple M C (R a b) (f a b) Q"
  shows "triple M C P (State_Monad.bind m (\<lambda>(a, b). f a b)) Q"
proof (rule triple_bind_yields [OF _ assms(2)])
  show "triple M C P m (\<lambda>(a, b). R a b)"
    by (rule triple_weaken [OF assms(1)]) (auto simp: assms(3,4))
qed (auto simp: assms(5))

lemma triple_seq3:
  assumes "triple M C' P' m (\<lambda>(a, b, c). R a b c)" and "yields (\<lambda>(a, b, c). V a b c) m"
    and "\<And>v. P v \<Longrightarrow> P' v" and "\<And>h v. C' h v \<Longrightarrow> C h v"
    and "\<And>a b c. V a b c \<Longrightarrow> triple M C (R a b c) (f a b c) Q"
  shows "triple M C P (State_Monad.bind m (\<lambda>(a, b, c). f a b c)) Q"
proof (rule triple_bind_yields [OF _ assms(2)])
  show "triple M C P m (\<lambda>(a, b, c). R a b c)"
    by (rule triple_weaken [OF assms(1)]) (auto simp: assms(3,4))
qed (auto simp: assms(5))

lemma triple_check:
  assumes "\<And>v. res \<noteq> (0 :: nat) \<Longrightarrow> P v \<Longrightarrow> Q res v" and "res = 0 \<Longrightarrow> triple M C P n Q"
  shows "triple M C P (if res \<noteq> 0 then State_Monad.return res else n) Q"
  using assms by (auto intro: triple_return)

lemma triple_const: "triple M C P m Q \<Longrightarrow> triple M C (\<lambda>v. P v \<and> A) m (\<lambda>a v. Q a v \<and> A)"
  by (cases A) (auto simp: triple_def)

lemma triple_bind2:
  "triple M C P m (\<lambda>(a, b). R a b) \<Longrightarrow> (\<And>a b. triple M C (R a b) (f a b) Q) \<Longrightarrow>
     triple M C P (State_Monad.bind m (\<lambda>(a, b). f a b)) Q"
  by (rule triple_bind, assumption) auto

lemma triple_bind3:
  "triple M C P m (\<lambda>(a, b, c). R a b c) \<Longrightarrow> (\<And>a b c. triple M C (R a b c) (f a b c) Q) \<Longrightarrow>
     triple M C P (State_Monad.bind m (\<lambda>(a, b, c). f a b c)) Q"
  by (rule triple_bind, assumption) auto

lemma triple_if:
  "(b \<Longrightarrow> triple M C P m Q) \<Longrightarrow> (\<not> b \<Longrightarrow> triple M C P n Q) \<Longrightarrow> triple M C P (if b then m else n) Q"
  by simp

lemma triple_let: "(\<And>x. x = a \<Longrightarrow> triple M C P (f x) Q) \<Longrightarrow> triple M C P (Let a f) Q"
  by simp

text \<open>A precondition that does not hold of any card.\<close>

lemma triple_fact:
  assumes "A \<Longrightarrow> triple M C P m Q" and "keeps M q m"
  shows "triple M C (\<lambda>v. A \<and> P v) m Q"
proof (cases A)
  case False
  with assms(2) show ?thesis
    by (intro tripleI) (auto simp: keeps_val_def onward_def)
qed (use assms in simp)

lemma triple_absurd: "keeps M q m \<Longrightarrow> (\<And>v. \<not> P v) \<Longrightarrow> triple M C P m Q"
  by (intro tripleI) (auto simp: keeps_val_def onward_def)

text \<open>One call: what it does when it goes through, fails, or is cut off.\<close>

lemma triple_disk:
  assumes "\<And>v. P v \<Longrightarrow> wf_node v \<Longrightarrow> wf_node (snd (act v)) \<and> Q (fst (act v)) (snd (act v))"
    and "\<And>k v. P v \<Longrightarrow> wf_node v \<Longrightarrow> wf_node (part k v) \<and> C Power_Lost (part k v)"
    and "\<And>e k v. \<not> M \<Longrightarrow> P v \<Longrightarrow> io_err e \<Longrightarrow> wf_node v \<Longrightarrow> Q (err e k) (part k v)"
    and "\<And>v. \<not> M \<Longrightarrow> P v \<Longrightarrow> wf_node v \<Longrightarrow> Q (err 12 0) v"
  shows "triple M C P (disk act err part) Q"
  unfolding triple_def
proof (intro allI impI)
  fix w :: world
  assume wf: "wf_node (vol w)"
  let ?r = "run_state (disk act err part) w"
  show "if running w then (M \<longrightarrow> steady w) \<and> P (vol w) \<longrightarrow> after M C (Q (fst ?r)) (snd ?r)
    else snd ?r = w"
    by (cases rule: disk_cases [where w = w and act = act and err = err and part = part])
      (use wf in \<open>auto simp: after_def assms steady_def\<close>)
qed

text \<open>A program that leaves the card alone keeps every statement about the card.\<close>

lemma triple_offline:
  assumes "offline m" and "\<And>h v. h \<noteq> Power_Lost \<Longrightarrow> P v \<Longrightarrow> C h v"
  shows "triple M C P m (\<lambda>_. P)"
proof (rule tripleI)
  fix w :: world
  have o: "vol (snd (run_state m w)) = vol w" "onward True w (snd (run_state m w))"
    "running w \<longrightarrow> halted (snd (run_state m w)) \<noteq> Some Power_Lost"
    using assms(1) by (auto simp: offline_def)
  { assume "wf_node (vol w)" and "running w" and "M \<Longrightarrow> steady w" and "P (vol w)"
    with o assms(2) show "after M C P (snd (run_state m w))"
      by (auto simp: after_def intro: steady_onward split: option.splits) }
  { assume "\<not> running w"
    with o(2) show "snd (run_state m w) = w" by (simp add: onward_def) }
qed

lemma triple_quiet:
  assumes "quiet m"
  shows "triple M C P m (\<lambda>_. P)"
proof (rule tripleI)
  fix w :: world
  have o: "vol (snd (run_state m w)) = vol w" "onward True w (snd (run_state m w))"
    "halted (snd (run_state m w)) = halted w"
    using assms by (auto simp: quiet_def offline_def)
  { assume "wf_node (vol w)" and "running w" and "M \<Longrightarrow> steady w" and "P (vol w)"
    with o show "after M C P (snd (run_state m w))"
      by (auto simp: after_def intro: steady_onward) }
  { assume "\<not> running w"
    with o(2) show "snd (run_state m w) = w" by (simp add: onward_def) }
qed

lemma triple_bind_quiet:
  "quiet m \<Longrightarrow> (\<And>a. triple M C P (f a) Q) \<Longrightarrow> triple M C P (State_Monad.bind m f) Q"
  by (rule triple_bind [OF triple_quiet])

text \<open>
  The frame rule: what a program leaves alone stays true, at its end and wherever the
  machine stops.
\<close>

lemma triple_frame:
  assumes m: "triple M C P m Q" and keeps: "keeps False F m"
  shows "triple M (\<lambda>h v. C h v \<and> F v) (\<lambda>v. P v \<and> F v) m (\<lambda>a v. Q a v \<and> F v)"
proof (rule tripleI)
  fix w :: world
  let ?w = "snd (run_state m w)"
  assume wf: "wf_node (vol w)"
  { assume "running w" "M \<Longrightarrow> steady w" and PF: "P (vol w) \<and> F (vol w)"
    then have "F (vol ?w)"
      using keeps wf by (simp add: keeps_val_def)
    with tripleD [OF m wf \<open>running w\<close> \<open>M \<Longrightarrow> steady w\<close>] PF
    show "after M (\<lambda>h v. C h v \<and> F v) (\<lambda>v. Q (fst (run_state m w)) v \<and> F v) ?w"
      by (auto simp: after_def split: option.splits) }
  { assume "\<not> running w"
    with wf show "?w = w" by (rule triple_stopped [OF m]) }
qed

lemma triple_true:
  assumes "keeps M q m"
  shows "triple M (\<lambda>_ _. True) (\<lambda>_. True) m (\<lambda>_ _. True)"
proof (rule tripleI)
  fix w :: world
  assume "wf_node (vol w)"
  with assms have o: "onward M w (snd (run_state m w))" "wf_node (vol (snd (run_state m w)))"
    by (simp_all add: keeps_val_def)
  { assume "M \<Longrightarrow> steady w"
    with o show "after M (\<lambda>_ _. True) (\<lambda>_. True) (snd (run_state m w))"
      by (cases M) (auto simp: after_def intro: steady_onward split: option.splits) }
  { assume "\<not> running w"
    with o show "snd (run_state m w) = w" by (simp add: onward_def) }
qed

text \<open>Naming what the card holds at the start.\<close>

lemma triple_ghost:
  assumes keeps: "keeps M q m" and P: "\<And>v. P v \<Longrightarrow> R (g v)"
    and m: "\<And>x. R x \<Longrightarrow> triple M C (\<lambda>v. P v \<and> g v = x) m Q"
  shows "triple M C P m Q"
proof (rule tripleI)
  fix w :: world
  assume "wf_node (vol w)" "running w" "M \<Longrightarrow> steady w" "P (vol w)"
  then show "after M C (Q (fst (run_state m w))) (snd (run_state m w))"
    by (intro tripleD [OF m [OF P]]) auto
next
  fix w :: world
  assume "wf_node (vol w)" "\<not> running w"
  with keeps show "snd (run_state m w) = w" by (simp add: keeps_val_def onward_def)
qed

lemma keeps_False: "keeps M q m \<Longrightarrow> keeps False q m"
  by (simp add: keeps_val_def onward_def)

lemma triple_keeps:
  assumes "keeps M F m"
  shows "triple M (\<lambda>h. F) F m (\<lambda>_. F)"
  using triple_frame [OF triple_true [OF assms] keeps_False [OF assms]] by simp

end
