(* ===== verification/FatFs.thy ===== *)
theory FatFs
  imports Machine
begin

text \<open>
  The calls into FatFs (\<^verbatim>\<open>TegraExplorer/bdk/libs/fatfs/ff.c\<close>, configured by
  \<^verbatim>\<open>TegraExplorer/source/libs/fatfs/ffconf.h\<close>: long names, exFAT, no relative paths, no file
  locking) at the level of its interface: result codes and the effect on the tree. Cluster
  chains and sectors are below this model. A file under construction becomes visible with
  its new size when \<^verbatim>\<open>f_sync\<close> or \<^verbatim>\<open>f_close\<close> writes the directory entry, as in
  \<^verbatim>\<open>ff.c\<close>; until then the card holds the empty file that \<^verbatim>\<open>FA_CREATE_ALWAYS\<close> left. A directory
  operation is taken to be atomic with respect to a loss of power.
\<close>

unbundle bit_operations_syntax

section \<open>Result codes and attributes\<close>

type_synonym FRESULT = nat

abbreviation (input) FR_OK :: FRESULT where "FR_OK \<equiv> 0"
abbreviation (input) FR_DISK_ERR :: FRESULT where "FR_DISK_ERR \<equiv> 1"
abbreviation (input) FR_INT_ERR :: FRESULT where "FR_INT_ERR \<equiv> 2"
abbreviation (input) FR_NOT_READY :: FRESULT where "FR_NOT_READY \<equiv> 3"
abbreviation (input) FR_NO_FILE :: FRESULT where "FR_NO_FILE \<equiv> 4"
abbreviation (input) FR_NO_PATH :: FRESULT where "FR_NO_PATH \<equiv> 5"
abbreviation (input) FR_INVALID_NAME :: FRESULT where "FR_INVALID_NAME \<equiv> 6"
abbreviation (input) FR_DENIED :: FRESULT where "FR_DENIED \<equiv> 7"
abbreviation (input) FR_EXIST :: FRESULT where "FR_EXIST \<equiv> 8"
abbreviation (input) FR_INVALID_OBJECT :: FRESULT where "FR_INVALID_OBJECT \<equiv> 9"
abbreviation (input) FR_WRITE_PROTECTED :: FRESULT where "FR_WRITE_PROTECTED \<equiv> 10"
abbreviation (input) FR_NO_FILESYSTEM :: FRESULT where "FR_NO_FILESYSTEM \<equiv> 13"
abbreviation (input) FR_NOT_ENOUGH_CORE :: FRESULT where "FR_NOT_ENOUGH_CORE \<equiv> 17"
abbreviation (input) FR_INVALID_PARAMETER :: FRESULT where "FR_INVALID_PARAMETER \<equiv> 19"

text \<open>Attribute bits: 0 read-only, 1 hidden, 2 system, 4 directory, 5 archive.\<close>

definition AM_RDO :: u8 where "AM_RDO = 0x01"
definition AM_DIR :: u8 where "AM_DIR = 0x10"
definition AM_ARC :: u8 where "AM_ARC = 0x20"

abbreviation read_only :: "node \<Rightarrow> bool" where
  "read_only n \<equiv> bit (attr_of n) 0"

record FILINFO =
  fsize :: nat
  fattrib :: u8
  fname :: string

definition no_info :: FILINFO where
  "no_info = \<lparr>fsize = 0, fattrib = 0, fname = ''''\<rparr>"

fun get_fileinfo :: "string \<Rightarrow> node \<Rightarrow> FILINFO" where
  "get_fileinfo s (File a c) = \<lparr>fsize = length c, fattrib = unset_bit 4 a, fname = s\<rparr>"
| "get_fileinfo s (Dir a es) = \<lparr>fsize = 0, fattrib = set_bit 4 a, fname = s\<rparr>"

section \<open>Path names\<close>

fun split_on :: "char \<Rightarrow> string \<Rightarrow> string list" where
  "split_on c [] = [[]]"
| "split_on c (x # xs) =
     (if x = c then [] # split_on c xs
      else (case split_on c xs of [] \<Rightarrow> [[x]] | y # ys \<Rightarrow> (x # y) # ys))"

definition after_drive :: "string \<Rightarrow> string" where
  "after_drive s = (case strrchr_after s (CHR '':'') of None \<Rightarrow> s | Some t \<Rightarrow> t)"

definition path_keys :: "string \<Rightarrow> path" where
  "path_keys s = filter (\<lambda>k. k \<noteq> []) (split_on (CHR ''/'') (after_drive s))"

datatype follow = Origin | Found node | No_File | No_Path

definition follow_path :: "path \<Rightarrow> node \<Rightarrow> follow" where
  "follow_path p v =
    (if p = [] then Origin
     else case get_at p v of
         Some n \<Rightarrow> Found n
       | None \<Rightarrow> if dir_at (butlast p) v then No_File else No_Path)"

section \<open>Directory operations\<close>

definition stat_act :: "path \<Rightarrow> node \<Rightarrow> FRESULT \<times> FILINFO" where
  "stat_act p v =
    (case follow_path p v of
       Origin \<Rightarrow> (FR_INVALID_NAME, no_info)
     | Found n \<Rightarrow> (FR_OK, get_fileinfo (last p) n)
     | No_File \<Rightarrow> (FR_NO_FILE, no_info)
     | No_Path \<Rightarrow> (FR_NO_PATH, no_info))"

definition f_stat :: "string \<Rightarrow> (FRESULT \<times> FILINFO) prog" where
  "f_stat s = disk (\<lambda>v. (stat_act (path_keys s) v, v)) (\<lambda>e k. (e, no_info)) (\<lambda>k v. v)"

text \<open>A directory operation that is interrupted has happened or has not.\<close>

definition dir_op :: "(node \<Rightarrow> FRESULT \<times> node) \<Rightarrow> FRESULT prog" where
  "dir_op act = disk act (\<lambda>e k. e) (\<lambda>k v. if k = 0 then v else snd (act v))"

definition unlink_act :: "path \<Rightarrow> node \<Rightarrow> FRESULT \<times> node" where
  "unlink_act p v =
    (case follow_path p v of
       Origin \<Rightarrow> (FR_INVALID_NAME, v)
     | Found n \<Rightarrow>
         if read_only n then (FR_DENIED, v)
         else (case n of
             Dir a (e # es) \<Rightarrow> (FR_DENIED, v)
           | _ \<Rightarrow> (FR_OK, del_at p v))
     | No_File \<Rightarrow> (FR_NO_FILE, v)
     | No_Path \<Rightarrow> (FR_NO_PATH, v))"

definition f_unlink :: "string \<Rightarrow> FRESULT prog" where
  "f_unlink s = dir_op (unlink_act (path_keys s))"

definition mkdir_act :: "path \<Rightarrow> node \<Rightarrow> FRESULT \<times> node" where
  "mkdir_act p v =
    (case follow_path p v of
       Origin \<Rightarrow> (FR_EXIST, v)
     | Found n \<Rightarrow> (FR_EXIST, v)
     | No_File \<Rightarrow> (FR_OK, put_at p (Dir AM_DIR []) v)
     | No_Path \<Rightarrow> (FR_NO_PATH, v))"

definition f_mkdir :: "string \<Rightarrow> FRESULT prog" where
  "f_mkdir s = dir_op (mkdir_act (path_keys s))"

fun renamed :: "node \<Rightarrow> node" where
  "renamed (File a c) = File (a OR AM_ARC) c"
| "renamed (Dir a es) = Dir a es"

definition rename_act :: "path \<Rightarrow> path \<Rightarrow> node \<Rightarrow> FRESULT \<times> node" where
  "rename_act p q v =
    (case follow_path p v of
       Origin \<Rightarrow> (FR_INVALID_NAME, v)
     | Found n \<Rightarrow>
         (if p = q then (FR_OK, put_at q (renamed n) (del_at p v))
          else case follow_path q v of
              Origin \<Rightarrow> (FR_EXIST, v)
            | Found m \<Rightarrow> (FR_EXIST, v)
            | No_File \<Rightarrow> (FR_OK, put_at q (renamed n) (del_at p v))
            | No_Path \<Rightarrow> (FR_NO_PATH, v))
     | No_File \<Rightarrow> (FR_NO_FILE, v)
     | No_Path \<Rightarrow> (FR_NO_PATH, v))"

definition f_rename :: "string \<Rightarrow> string \<Rightarrow> FRESULT prog" where
  "f_rename s t = dir_op (rename_act (path_keys s) (path_keys t))"

definition chmod_act :: "path \<Rightarrow> u8 \<Rightarrow> u8 \<Rightarrow> node \<Rightarrow> FRESULT \<times> node" where
  "chmod_act p a m v =
    (case follow_path p v of
       Origin \<Rightarrow> (FR_INVALID_NAME, v)
     | Found n \<Rightarrow>
         (let m = m AND 0x27
          in (FR_OK, put_at p (set_attr ((a AND m) OR (attr_of n AND NOT m)) n) v))
     | No_File \<Rightarrow> (FR_NO_FILE, v)
     | No_Path \<Rightarrow> (FR_NO_PATH, v))"

definition f_chmod :: "string \<Rightarrow> u8 \<Rightarrow> u8 \<Rightarrow> FRESULT prog" where
  "f_chmod s a m = dir_op (chmod_act (path_keys s) a m)"

section \<open>Directories\<close>

fun dir_entries :: "node \<Rightarrow> FILINFO list" where
  "dir_entries (File a c) = []"
| "dir_entries (Dir a es) = map (\<lambda>e. get_fileinfo (fst e) (snd e)) es"

definition opendir_act :: "path \<Rightarrow> node \<Rightarrow> FRESULT \<times> FILINFO list" where
  "opendir_act p v =
    (case get_at p v of
       Some (Dir a es) \<Rightarrow> (FR_OK, dir_entries (Dir a es))
     | _ \<Rightarrow> (FR_NO_PATH, []))"

definition f_opendir :: "string \<Rightarrow> (FRESULT \<times> FILINFO list) prog" where
  "f_opendir s = disk (\<lambda>v. (opendir_act (path_keys s) v, v)) (\<lambda>e k. (e, [])) (\<lambda>k v. v)"

text \<open>Reading past the last entry yields an empty name.\<close>

definition f_readdir :: "FILINFO list \<Rightarrow> (FRESULT \<times> FILINFO) prog" where
  "f_readdir es = disk
     (\<lambda>v. ((FR_OK, case es of [] \<Rightarrow> no_info | i # _ \<Rightarrow> i), v)) (\<lambda>e k. (e, no_info)) (\<lambda>k v. v)"

section \<open>Files\<close>

record FIL =
  fil_path :: path
  fptr :: nat
  objsize :: nat
  fdata :: string
  writable :: bool
  modified :: bool
  ferr :: FRESULT

datatype open_mode = FA_READ_OPEN_EXISTING | FA_CREATE_ALWAYS_WRITE

definition no_fil :: "path \<Rightarrow> FIL" where
  "no_fil p = \<lparr>fil_path = p, fptr = 0, objsize = 0, fdata = [], writable = False,
     modified = False, ferr = FR_INVALID_OBJECT\<rparr>"

definition open_read_act :: "path \<Rightarrow> node \<Rightarrow> FRESULT \<times> FIL" where
  "open_read_act p v =
    (case follow_path p v of
       Origin \<Rightarrow> (FR_INVALID_NAME, no_fil p)
     | Found (File a c) \<Rightarrow> (FR_OK, (no_fil p)\<lparr>objsize := length c, ferr := FR_OK\<rparr>)
     | Found (Dir a es) \<Rightarrow> (FR_NO_FILE, no_fil p)
     | No_File \<Rightarrow> (FR_NO_FILE, no_fil p)
     | No_Path \<Rightarrow> (FR_NO_PATH, no_fil p))"

definition new_fil :: "path \<Rightarrow> FIL" where
  "new_fil p = (no_fil p)\<lparr>writable := True, modified := True, ferr := FR_OK\<rparr>"

definition open_create_act :: "path \<Rightarrow> node \<Rightarrow> (FRESULT \<times> FIL) \<times> node" where
  "open_create_act p v =
    (case follow_path p v of
       Origin \<Rightarrow> ((FR_INVALID_NAME, no_fil p), v)
     | Found n \<Rightarrow>
         if read_only n \<or> is_dir n then ((FR_DENIED, no_fil p), v)
         else ((FR_OK, new_fil p), put_at p (File AM_ARC []) v)
     | No_File \<Rightarrow> ((FR_OK, new_fil p), put_at p (File AM_ARC []) v)
     | No_Path \<Rightarrow> ((FR_NO_PATH, no_fil p), v))"

definition f_open :: "string \<Rightarrow> open_mode \<Rightarrow> (FRESULT \<times> FIL) prog" where
  "f_open s mode =
    (case mode of
       FA_READ_OPEN_EXISTING \<Rightarrow>
         disk (\<lambda>v. (open_read_act (path_keys s) v, v)) (\<lambda>e k. (e, no_fil (path_keys s))) (\<lambda>k v. v)
     | FA_CREATE_ALWAYS_WRITE \<Rightarrow>
         disk (open_create_act (path_keys s)) (\<lambda>e k. (e, no_fil (path_keys s)))
           (\<lambda>k v. if k = 0 then v else snd (open_create_act (path_keys s) v)))"

definition f_size :: "FIL \<Rightarrow> nat" where "f_size fp = objsize fp"
definition f_tell :: "FIL \<Rightarrow> nat" where "f_tell fp = fptr fp"

definition read_act :: "FIL \<Rightarrow> nat \<Rightarrow> node \<Rightarrow> FRESULT \<times> string \<times> FIL" where
  "read_act fp n v =
    (if ferr fp \<noteq> FR_OK then (ferr fp, [], fp)
     else if writable fp then (FR_DENIED, [], fp)
     else
       (let got = take (min n (objsize fp - fptr fp))
                    (drop (fptr fp) (case file_at (fil_path fp) v of Some c \<Rightarrow> c | None \<Rightarrow> []))
        in (FR_OK, got, fp\<lparr>fptr := fptr fp + length got\<rparr>)))"

definition f_read :: "FIL \<Rightarrow> nat \<Rightarrow> (FRESULT \<times> string \<times> FIL) prog" where
  "f_read fp n = disk (\<lambda>v. (read_act fp n v, v)) (\<lambda>e k. (e, [], fp\<lparr>ferr := e\<rparr>)) (\<lambda>k v. v)"

definition append_fil :: "FIL \<Rightarrow> string \<Rightarrow> FIL" where
  "append_fil fp s = fp\<lparr>
     fdata := take (fptr fp) (fdata fp) @ s @ drop (fptr fp + length s) (fdata fp),
     fptr := fptr fp + length s,
     objsize := max (objsize fp) (fptr fp + length s),
     modified := True\<rparr>"

text \<open>
  A write that fails may have transferred some of its bytes; the handle then refuses more. On
  a full card, the fault \<open>Io_Denied\<close>, it stops early and still returns \<^verbatim>\<open>FR_OK\<close> with the number
  of bytes it wrote, as \<^verbatim>\<open>ff.c\<close> does when no cluster is left.
\<close>

definition write_act :: "FIL \<Rightarrow> string \<Rightarrow> FRESULT \<times> nat \<times> FIL" where
  "write_act fp s =
    (if ferr fp \<noteq> FR_OK then (ferr fp, 0, fp)
     else if \<not> writable fp then (FR_DENIED, 0, fp)
     else (FR_OK, length s, append_fil fp s))"

definition f_write :: "FIL \<Rightarrow> string \<Rightarrow> (FRESULT \<times> nat \<times> FIL) prog" where
  "f_write fp s = disk (\<lambda>v. (write_act fp s, v))
     (\<lambda>e k. if e = FR_DENIED then (FR_OK, min k (length s), append_fil fp (take k s))
            else (e, min k (length s), (append_fil fp (take k s))\<lparr>ferr := e\<rparr>)) (\<lambda>k v. v)"

definition commit_fil :: "FIL \<Rightarrow> string \<Rightarrow> node \<Rightarrow> node" where
  "commit_fil fp c v =
    (if modified fp then
       (case get_at (fil_path fp) v of
          Some (File a c') \<Rightarrow> put_at (fil_path fp) (File (a OR AM_ARC) c) v
        | _ \<Rightarrow> v)
     else v)"

text \<open>
  A sector is written or it is not: when the power fails, a whole number of sectors of the new
  contents is on the card.
\<close>

definition f_sync :: "FIL \<Rightarrow> (FRESULT \<times> FIL) prog" where
  "f_sync fp = disk
     (\<lambda>v. ((FR_OK, fp\<lparr>modified := False\<rparr>), commit_fil fp (fdata fp) v))
     (\<lambda>e k. (e, fp))
     (\<lambda>k v. if k = 0 then v else commit_fil fp (take (512 * (k - 1)) (fdata fp)) v)"

definition f_close :: "FIL \<Rightarrow> FRESULT prog" where
  "f_close fp = do { (res, fp) \<leftarrow> f_sync fp; State_Monad.return res }"

section \<open>Names and paths\<close>

lemma split_on_notin: "\<forall>k \<in> set (split_on c s). c \<notin> set k"
  by (induction s) (auto split: list.splits)

lemma split_on_subset: "\<forall>k \<in> set (split_on c s). set k \<subseteq> set s"
  by (induction s) (auto split: list.splits)

lemma good_path_keys: "\<forall>k \<in> set (path_keys s). good_name k"
proof -
  have "CHR '':'' \<notin> set (after_drive s)"
    by (auto simp: after_drive_def strrchr_after_None split: option.splits dest: strrchr_after_notin)
  then show ?thesis
    using split_on_notin [of "CHR ''/''" "after_drive s"]
      split_on_subset [of "CHR ''/''" "after_drive s"]
    unfolding path_keys_def good_name_def by auto
qed

lemma split_on_neq_Nil [simp]: "split_on c s \<noteq> []"
  by (cases s) (auto split: list.splits)

lemma split_on_append: "split_on c (s @ c # t) = split_on c s @ split_on c t"
  by (induction s) (auto split: list.splits simp: neq_Nil_conv)

lemma split_on_single: "c \<notin> set s \<Longrightarrow> split_on c s = [s]"
  by (induction s) auto

lemma path_keys_slash:
  assumes "CHR '':'' \<notin> set u"
  shows "path_keys (s @ CHR ''/'' # u) = path_keys s @ filter (\<lambda>k. k \<noteq> []) (split_on (CHR ''/'') u)"
proof -
  have "after_drive (s @ CHR ''/'' # u) = after_drive s @ CHR ''/'' # u"
    using assms by (simp add: after_drive_def strrchr_after_append_notin split: option.splits)
  then show ?thesis by (simp add: path_keys_def split_on_append)
qed

lemma follow_path_Found: "follow_path p v = Found n \<longleftrightarrow> p \<noteq> [] \<and> get_at p v = Some n"
  by (auto simp: follow_path_def split: option.splits)

lemma follow_path_No_File:
  "follow_path p v = No_File \<longleftrightarrow> room_at p v \<and> get_at p v = None"
  by (auto simp: follow_path_def room_at_def split: option.splits)

lemmas follow_FoundD = follow_path_Found [THEN iffD1]
lemmas follow_No_FileD = follow_path_No_File [THEN iffD1]

lemma follow_path_room:
  "room_at p v \<Longrightarrow> follow_path p v = (case get_at p v of None \<Rightarrow> No_File | Some n \<Rightarrow> Found n)"
  by (auto simp: follow_path_def room_at_def split: option.splits)

section \<open>Frame and well-formedness\<close>

lemmas wf_at = wf_put_at wf_del_at wf_get_at

lemma unlink_act_frame:
  "wf_node v \<Longrightarrow> wf_node (snd (unlink_act (path_keys s) v))"
  "apart (path_keys s) q \<Longrightarrow> q (snd (unlink_act (path_keys s) v)) = q v"
  by (auto simp: unlink_act_def wf_del_at good_path_keys apart_del_at
      split: follow.splits node.splits list.splits)

lemma mkdir_act_frame:
  "wf_node v \<Longrightarrow> wf_node (snd (mkdir_act (path_keys s) v))"
  by (auto simp: mkdir_act_def wf_put_at good_path_keys split: follow.splits)

lemma mkdir_act_apart: "apart_new p q \<Longrightarrow> q (snd (mkdir_act p v)) = q v"
  by (auto simp: mkdir_act_def apart_new_def follow_path_No_File split: follow.splits)

lemma rename_act_frame:
  "wf_node v \<Longrightarrow> wf_node (snd (rename_act (path_keys s) (path_keys t) v))"
  "apart (path_keys s) q \<Longrightarrow> apart (path_keys t) q \<Longrightarrow>
     q (snd (rename_act (path_keys s) (path_keys t) v)) = q v"
proof -
  have "wf_node n \<Longrightarrow> wf_node (renamed n)" for n by (cases n) auto
  then show "wf_node v \<Longrightarrow> wf_node (snd (rename_act (path_keys s) (path_keys t) v))"
    by (auto simp: rename_act_def good_path_keys follow_path_Found
        intro!: wf_put_at wf_del_at intro: wf_get_at split: follow.splits)
  show "apart (path_keys s) q \<Longrightarrow> apart (path_keys t) q \<Longrightarrow>
     q (snd (rename_act (path_keys s) (path_keys t) v)) = q v"
    by (auto simp: rename_act_def apart_put_at apart_del_at split: follow.splits)
qed

lemma chmod_act_frame:
  "wf_node v \<Longrightarrow> wf_node (snd (chmod_act (path_keys s) a m v))"
  "apart (path_keys s) q \<Longrightarrow> q (snd (chmod_act (path_keys s) a m v)) = q v"
  by (auto simp: chmod_act_def Let_def good_path_keys follow_path_Found
      apart_put_at intro!: wf_put_at intro: wf_get_at split: follow.splits)

lemma open_create_act_frame:
  "wf_node v \<Longrightarrow> wf_node (snd (open_create_act (path_keys s) v))"
  "apart (path_keys s) q \<Longrightarrow> q (snd (open_create_act (path_keys s) v)) = q v"
  by (auto simp: open_create_act_def wf_put_at good_path_keys apart_put_at
      split: follow.splits)

lemma keeps_f_stat [keeps_intros]: "keeps M q (f_stat s)"
  unfolding f_stat_def by (rule keeps_disk) auto

lemma keeps_dir_op:
  assumes "\<And>v. wf_node v \<Longrightarrow> wf_node (snd (act v)) \<and> q (snd (act v)) = q v"
  shows "keeps M q (dir_op act)"
  unfolding dir_op_def by (rule keeps_disk) (simp_all add: assms)

lemma keeps_f_unlink [keeps_intros]: "apart (path_keys s) q \<Longrightarrow> keeps M q (f_unlink s)"
  unfolding f_unlink_def by (rule keeps_dir_op) (simp add: unlink_act_frame)

lemma keeps_f_mkdir [keeps_intros]: "apart_new (path_keys s) q \<Longrightarrow> keeps M q (f_mkdir s)"
  unfolding f_mkdir_def by (rule keeps_dir_op) (simp add: mkdir_act_frame mkdir_act_apart)

lemma keeps_f_rename [keeps_intros]:
  "apart (path_keys s) q \<Longrightarrow> apart (path_keys t) q \<Longrightarrow> keeps M q (f_rename s t)"
  unfolding f_rename_def by (rule keeps_dir_op) (simp add: rename_act_frame)

lemma keeps_f_chmod [keeps_intros]: "apart (path_keys s) q \<Longrightarrow> keeps M q (f_chmod s a m)"
  unfolding f_chmod_def by (rule keeps_dir_op) (simp add: chmod_act_frame)

lemma fname_get_fileinfo [simp]: "fname (get_fileinfo k n) = k"
  by (cases n) auto

lemma keeps_f_opendir:
  "keeps_val M q (\<lambda>(r, es). \<forall>i \<in> set es. good_name (fname i)) (f_opendir s)"
proof -
  have "\<forall>i \<in> set (snd (opendir_act p v)). good_name (fname i)" if "wf_node v" for p v
    using wf_get_at [OF that, of p]
    by (fastforce simp: opendir_act_def list_all_iff split: option.splits node.splits)
  then show ?thesis
    unfolding f_opendir_def by (intro keeps_disk) (simp_all add: case_prod_beta)
qed

lemma keeps_f_readdir:
  "keeps_val M q (\<lambda>(r, i). r = FR_OK \<longrightarrow> i = (case es of [] \<Rightarrow> no_info | i # _ \<Rightarrow> i) \<or> fname i = []) (f_readdir es)"
  unfolding f_readdir_def by (rule keeps_disk) (auto simp: no_info_def)

lemma keeps_f_open_read:
  "keeps_val M q (\<lambda>(r, fp). fil_path fp = path_keys s \<and> \<not> modified fp) (f_open s FA_READ_OPEN_EXISTING)"
  unfolding f_open_def open_mode.case
  by (rule keeps_disk) (auto simp: open_read_act_def no_fil_def split: follow.splits node.splits)

lemma keeps_f_open_create:
  assumes "apart (path_keys s) q"
  shows "keeps_val M q (\<lambda>(r, fp). fil_path fp = path_keys s) (f_open s FA_CREATE_ALWAYS_WRITE)"
proof -
  have "fil_path (snd (fst (open_create_act p v))) = p" for p v
    by (auto simp: open_create_act_def no_fil_def new_fil_def split: follow.splits)
  then show ?thesis
    unfolding f_open_def open_mode.case
    by (intro keeps_disk) (auto simp: assms open_create_act_frame case_prod_beta no_fil_def)
qed

lemma keeps_f_read:
  "keeps_val M q (\<lambda>(r, s, fp'). fil_path fp' = fil_path fp \<and> modified fp' = modified fp) (f_read fp n)"
  unfolding f_read_def by (rule keeps_disk) (auto simp: read_act_def Let_def)

lemma keeps_f_write:
  "keeps_val M q (\<lambda>(r, n, fp'). fil_path fp' = fil_path fp) (f_write fp s)"
  unfolding f_write_def by (rule keeps_disk) (auto simp: write_act_def append_fil_def)

lemma yields_f_open_create:
  "yields (\<lambda>(r, fp). r = FR_OK \<longrightarrow> fp = new_fil (path_keys s)) (f_open s FA_CREATE_ALWAYS_WRITE)"
  unfolding f_open_def open_mode.case
  by (rule yields_disk) (auto simp: open_create_act_def split: follow.splits)

text \<open>Handles name their object by the path they were opened with.\<close>

definition good_fil :: "FIL \<Rightarrow> bool" where
  "good_fil fp = (\<forall>k \<in> set (fil_path fp). good_name k)"

lemma good_fil_path_keys: "fil_path fp = path_keys s \<Longrightarrow> good_fil fp"
  by (simp add: good_fil_def good_path_keys)

lemma commit_fil_frame:
  "good_fil fp \<Longrightarrow> wf_node v \<Longrightarrow> wf_node (commit_fil fp c v)"
  "apart (fil_path fp) q \<Longrightarrow> q (commit_fil fp c v) = q v"
  "\<not> modified fp \<Longrightarrow> commit_fil fp c v = v"
  by (auto simp: commit_fil_def good_fil_def wf_put_at apart_put_at
      split: option.splits node.splits)

lemma keeps_f_sync:
  assumes "good_fil fp" and "\<not> modified fp \<or> apart (fil_path fp) q"
  shows "keeps_val M q (\<lambda>(r, fp'). fil_path fp' = fil_path fp \<and> (modified fp' \<longrightarrow> modified fp)) (f_sync fp)"
  unfolding f_sync_def
  by (rule keeps_disk) (use assms commit_fil_frame in auto)

lemma keeps_f_close [keeps_intros]:
  "good_fil fp \<Longrightarrow> \<not> modified fp \<or> apart (fil_path fp) q \<Longrightarrow> keeps M q (f_close fp)"
  unfolding f_close_def
  by (rule keeps_bind_val [OF keeps_f_sync]) (auto intro!: keeps_intros)

lemmas keeps_bind_fatfs [keeps_binds] =
  keeps_bind2 [OF keeps_f_open_read] keeps_bind2 [OF keeps_f_open_create]
  keeps_bind3 [OF keeps_f_read] keeps_bind3 [OF keeps_f_write] keeps_bind2 [OF keeps_f_sync]
  keeps_bind2 [OF keeps_f_opendir] keeps_bind2 [OF keeps_f_readdir]

lemma keeps_bind_dir_ops [keeps_binds]:
  "(\<And>r i. keeps_val M q U (g (r, i))) \<Longrightarrow> keeps_val M q U (State_Monad.bind (f_stat s) g)"
  "apart (path_keys s) q \<Longrightarrow> (\<And>r. keeps_val M q U (f r)) \<Longrightarrow> keeps_val M q U (State_Monad.bind (f_unlink s) f)"
  "apart_new (path_keys s) q \<Longrightarrow> (\<And>r. keeps_val M q U (f r)) \<Longrightarrow>
     keeps_val M q U (State_Monad.bind (f_mkdir s) f)"
  "apart (path_keys s) q \<Longrightarrow> apart (path_keys t) q \<Longrightarrow> (\<And>r. keeps_val M q U (f r)) \<Longrightarrow>
     keeps_val M q U (State_Monad.bind (f_rename s t) f)"
  "apart (path_keys s) q \<Longrightarrow> (\<And>r. keeps_val M q U (f r)) \<Longrightarrow>
     keeps_val M q U (State_Monad.bind (f_chmod s a m) f)"
  "good_fil fp \<Longrightarrow> \<not> modified fp \<or> apart (fil_path fp) q \<Longrightarrow> (\<And>r. keeps_val M q U (f r)) \<Longrightarrow>
     keeps_val M q U (State_Monad.bind (f_close fp) f)"
  by (auto intro: keeps_bind_val keeps_intros)

end
