(* ===== verification/Ui_Common.thy ===== *)
theory Ui_Common
  imports FatFs
begin

text \<open>
  What the screens of the two updaters share: the palette, the key wait, and the calls that
  leave the payload. The two C files carry their own copies of the routines; where the copies
  have the same text they are modelled once here and named after the first.
\<close>

section \<open>Colours and pages\<close>

definition UI_BG :: u32 where "UI_BG = 0xFF17131D"
definition UI_PANEL :: u32 where "UI_PANEL = 0xFF211A2C"
definition UI_PANEL_2 :: u32 where "UI_PANEL_2 = 0xFF2B2337"
definition UI_ACCENT :: u32 where "UI_ACCENT = 0xFFA855F7"
definition UI_TEXT :: u32 where "UI_TEXT = 0xFFF5F3F7"
definition UI_MUTED :: u32 where "UI_MUTED = 0xFFB9B1C2"
definition UI_SUCCESS :: u32 where "UI_SUCCESS = 0xFF4ADE80"
definition UI_ERROR :: u32 where "UI_ERROR = 0xFFFF5C7A"
definition UI_WARNING :: u32 where "UI_WARNING = 0xFFFBBF24"
definition UI_BAR_BG :: u32 where "UI_BAR_BG = 0xFF3A3047"

abbreviation (input) UI_PAGE_NONE :: nat where "UI_PAGE_NONE \<equiv> 0"
abbreviation (input) UI_PAGE_PROGRESS :: nat where "UI_PAGE_PROGRESS \<equiv> 1"
abbreviation (input) UI_PAGE_RESULT :: nat where "UI_PAGE_RESULT \<equiv> 2"

text \<open>A \<^verbatim>\<open>const char *\<close> argument that may be \<^verbatim>\<open>NULL\<close> is an option.\<close>

definition or_default :: "string option \<Rightarrow> string \<Rightarrow> string" where
  "or_default s d = (case s of Some x \<Rightarrow> x | None \<Rightarrow> d)"

definition nonempty_ptr :: "string option \<Rightarrow> bool" where
  "nonempty_ptr s = (case s of Some x \<Rightarrow> x \<noteq> [] | None \<Rightarrow> False)"

definition EPRINTF :: "string \<Rightarrow> garg list \<Rightarrow> unit prog" where
  "EPRINTF text args =
     gfx [Printf (''%k'' @ text @ ''%k'' @ [CHR 0x0A]) (Num 0xFFFF0000 # args @ [Num 0xFFCCCCCC])]"

definition WPRINTF :: "string \<Rightarrow> garg list \<Rightarrow> unit prog" where
  "WPRINTF text args =
     gfx [Printf (''%k'' @ text @ ''%k'' @ [CHR 0x0A]) (Num 0xFFFFDD00 # args @ [Num 0xFFCCCCCC])]"

section \<open>Waiting for the POWER key\<close>

text \<open>
  Every poll of \<^verbatim>\<open>btn_read\<close> takes one sample. \<open>btn_wait b\<close> is
  \<^verbatim>\<open>while ((btn_read() & BTN_POWER) == b) usleep(10000);\<close>: it consumes samples up to and
  including the first that differs, and never returns when none does.
\<close>

definition btn_wait :: "bool \<Rightarrow> bool list \<Rightarrow> bool list option" where
  "btn_wait b bs = (case dropWhile (\<lambda>x. x = b) bs of [] \<Rightarrow> None | _ # r \<Rightarrow> Some r)"

definition poll_while :: "bool \<Rightarrow> unit prog" where
  "poll_while b = do {
     bs \<leftarrow> ask power_btn;
     (case btn_wait b bs of
        None \<Rightarrow> stop Waiting
      | Some r \<Rightarrow> mem (\<lambda>w. w\<lparr>power_btn := r\<rparr>))
   }"

definition ui_wait_for_power :: "unit prog" where
  "ui_wait_for_power = do { poll_while True; poll_while False; poll_while True }"

section \<open>Leaving the payload\<close>

datatype power_state = POWER_OFF | POWER_OFF_REBOOT

definition power_set_state :: "power_state \<Rightarrow> unit prog" where
  "power_set_state s =
     (case s of POWER_OFF \<Rightarrow> stop Powered_Off | POWER_OFF_REBOOT \<Rightarrow> stop Rebooted)"

definition sd_mount :: "bool prog" where
  "sd_mount = do {
     m \<leftarrow> ask sd_mounted;
     if m then State_Monad.return True
     else do {
       ok \<leftarrow> ask sd_ok;
       if ok then do {
         State (\<lambda>w. if running w then ((), w\<lparr>sd_mounted := True\<rparr>) else ((), w));
         State_Monad.return True
       }
       else do {
         gfx [SetMute False];
         EPRINTF ''Failed to init SD card.'' [];
         State_Monad.return False
       }
     }
   }"

text \<open>
  \<^verbatim>\<open>launch_payload\<close> of \<^verbatim>\<open>main.c\<close> reads the whole file, unmounts the card, relocates the
  payload and jumps to it; the relocation is below this model. It returns only on failure,
  and it has unmounted the card by then.
\<close>

definition launch_payload :: "string \<Rightarrow> nat prog" where
  "launch_payload path = do {
     ok \<leftarrow> sd_mount;
     if ok then do {
       (res, fp) \<leftarrow> f_open path FA_READ_OPEN_EXISTING;
       if res \<noteq> FR_OK then do {
         EPRINTF (''Payload file is missing!'' @ [CHR 0x0A] @ ''(%s)'') [Str path];
         sd_unmount;
         State_Monad.return 1
       }
       else do {
         (res, buf, fp) \<leftarrow> f_read fp (f_size fp);
         if res \<noteq> FR_OK then do {
           f_close fp;
           sd_unmount;
           State_Monad.return 1
         }
         else do {
           f_close fp;
           sd_unmount;
           stop (Launched path);
           State_Monad.return 1
         }
       }
     }
     else State_Monad.return 1
   }"

section \<open>Path tests\<close>

definition path_exists :: "string \<Rightarrow> bool prog" where
  "path_exists path = do { (res, info) \<leftarrow> f_stat path; State_Monad.return (res = FR_OK) }"

end
