(* ===== verification/App_Ui.thy ===== *)
theory App_Ui
  imports Ui_Common
begin

text \<open>
  The screens of the application updater, the upper part of
  \<^verbatim>\<open>TegraExplorer/source/aio_app_updater.c\<close>. Each routine is the sequence of console calls it
  makes and the change of the file's static variables, the field \<open>app\<close> of the machine.
\<close>

abbreviation (input) APP_FILE_EMPTY :: nat where "APP_FILE_EMPTY \<equiv> 1001"
abbreviation (input) APP_FILE_DIRECTORY :: nat where "APP_FILE_DIRECTORY \<equiv> 1002"

definition app_upd :: "(ui_globals \<Rightarrow> ui_globals) \<Rightarrow> unit prog" where
  "app_upd f = mem (\<lambda>w. w\<lparr>app := f (app w)\<rparr>)"

section \<open>Error texts\<close>

definition app_ui_error_cause :: "string option \<Rightarrow> nat \<Rightarrow> string option" where
  "app_ui_error_cause sp code =
    (case sp of
       None \<Rightarrow> None
     | Some stage \<Rightarrow>
    if stage = [] \<or> stage = ''OK'' then None
    else if stage = ''PACKAGE'' then
      (if code = APP_FILE_EMPTY then Some ''Prepared AIO MOD file is empty.''
       else if code = APP_FILE_DIRECTORY then Some ''Prepared AIO MOD path is a directory.''
       else if code = FR_NO_FILE \<or> code = FR_NO_PATH then Some ''Prepared AIO MOD file was not found.''
       else if code = FR_NOT_READY then Some ''SD card is not ready. Reinsert it and try again.''
       else if code = FR_NO_FILESYSTEM then Some ''SD filesystem could not be read.''
       else if code = FR_DISK_ERR then Some ''SD read error. Check the card and try again.''
       else Some ''Prepared AIO MOD file could not be read from the SD card.'')
    else if stage = ''INSTALLED-NRO'' then
      (if code = APP_FILE_EMPTY then Some ''Installed AIO MOD file is empty.''
       else if code = APP_FILE_DIRECTORY then Some ''Installed AIO MOD path is a directory.''
       else if code = FR_NO_FILE \<or> code = FR_NO_PATH then
         Some ''Installed AIO MOD file was not found at the expected path.''
       else if code = FR_NOT_READY then Some ''SD card is not ready. Reinsert it and try again.''
       else if code = FR_NO_FILESYSTEM then Some ''SD filesystem could not be read.''
       else if code = FR_DISK_ERR then Some ''SD read error. Check the card and try again.''
       else Some ''Installed AIO MOD file could not be read from the SD card.'')
    else if stage = ''BOOT-PAYLOAD'' then Some ''Saved boot payload could not be restored.''
    else if strstr stage ''VERIFY'' then Some ''Copied file size did not match its source.''
    else if strstr stage ''JOURNAL'' \<or> stage = ''STATE'' \<or> stage = ''UNKNOWN-STATE'' then
      Some ''Update state on the SD card is missing or invalid.''
    else if strstr stage ''CLEANUP'' \<or> stage = ''COMMIT'' then
      Some ''Temporary update files could not be removed.''
    else if code = FR_NOT_READY then Some ''SD card not ready. Reinsert it and try again.''
    else if code = FR_NO_FILESYSTEM then Some ''SD filesystem could not be read.''
    else if code = FR_WRITE_PROTECTED then Some ''SD card is write-protected.''
    else if code = FR_DENIED then Some ''SD access denied. Check free space and card state.''
    else if code = FR_DISK_ERR then Some ''SD read/write failed. Check free space and card health.''
    else if strstr stage ''ROLLBACK'' then Some ''Recovery of the previous AIO MOD failed.''
    else if stage = ''BACKUP'' then Some ''Could not save the current AIO MOD for recovery.''
    else if stage = ''INSTALL'' \<or> stage = ''INSTALL-INTERRUPTED'' then
      Some ''Installing the new AIO MOD was interrupted.''
    else Some ''Update failed. Report the stage and code below.'')"

definition app_ui_set_error :: "string \<Rightarrow> nat \<Rightarrow> unit prog" where
  "app_ui_set_error stage code =
     app_upd (\<lambda>g. g\<lparr>g_last_error_stage := stage, g_last_error_code := code\<rparr>)"

section \<open>Progress page\<close>

definition app_ui_draw_shell :: "unit prog" where
  "app_ui_draw_shell = gfx [
     SetMute False, SetFntsz 16,
     Box 0 0 1279 719 UI_BG, Box 0 0 1279 64 UI_PANEL, Box 0 62 1279 65 UI_ACCENT,
     SetPos 54 22, SetCol UI_TEXT False UI_BG, Printf ''AIO MOD'' [],
     SetPos 1000 22, SetCol UI_MUTED False UI_BG, Printf ''APP UPDATER'' []]"

definition app_ui_prepare_progress_page :: "unit prog" where
  "app_ui_prepare_progress_page = do {
     page \<leftarrow> ask (\<lambda>w. g_ui_page (app w));
     if page = UI_PAGE_PROGRESS then State_Monad.return ()
     else do {
       app_ui_draw_shell;
       app_upd (\<lambda>g. g\<lparr>g_ui_page := UI_PAGE_PROGRESS\<rparr>);
       gfx [SetPos 100 625, SetCol UI_MUTED False UI_BG,
            Printf ''Do not power off your console while the update is in progress.'' []]
     }
   }"

definition ui_clear_text_row :: "int \<Rightarrow> int \<Rightarrow> int \<Rightarrow> int \<Rightarrow> gfx_call" where
  "ui_clear_text_row x0 y0 x1 y1 = Box x0 y0 x1 y1 UI_BG"

definition clamp_percent :: "int \<Rightarrow> int" where
  "clamp_percent p = (let p = (if p < 0 then 0 else p) in if 100 < p then 100 else p)"

definition bar_fill :: "int \<Rightarrow> int" where
  "bar_fill percent = 100 + ((1179 - 100) * percent) div 100"

definition app_ui_draw_progress :: "string option \<Rightarrow> int \<Rightarrow> string option \<Rightarrow> unit prog" where
  "app_ui_draw_progress title percent0 detail = (let percent = clamp_percent percent0 in do {
     app_ui_prepare_progress_page;
     gfx [ui_clear_text_row 100 118 1180 160, ui_clear_text_row 100 174 1180 215,
          ui_clear_text_row 100 228 1180 292, ui_clear_text_row 100 372 1180 410,
          SetPos 100 130, SetCol UI_TEXT False UI_BG,
          Printf ''%s'' [Str (or_default title ''Working...'')],
          SetPos 100 186, SetCol UI_MUTED False UI_BG,
          Printf ''%s'' [Str (or_default detail ''Please wait...'')],
          Box 100 325 1179 357 UI_BAR_BG];
     (if 0 < percent then gfx [Box 100 325 (bar_fill percent) 357 UI_ACCENT]
      else State_Monad.return ());
     gfx [SetPos 100 382, SetCol UI_TEXT False UI_BG,
          Printf ''%d%%'' [Num (word_of_int percent)]]
   })"

section \<open>Copy progress\<close>

text \<open>\<open>out\<close> is the caller's buffer; it is left alone when it is too small.\<close>

definition app_ui_compact_copy_path :: "string option \<Rightarrow> string \<Rightarrow> nat \<Rightarrow> string" where
  "app_ui_compact_copy_path source out out_size =
    (if out_size < 8 then out
     else case source of
         None \<Rightarrow> ''aio-switch-updater-mod.nro''
       | Some src \<Rightarrow>
           (let name = (case strrchr_after src (CHR ''/'') of Some n \<Rightarrow> n | None \<Rightarrow> src);
                name = (if name = [] then ''aio-switch-updater-mod.nro'' else name)
            in strncpy_term name out_size))"

definition app_ui_copy_progress_callback :: "string \<Rightarrow> nat \<Rightarrow> unit prog" where
  "app_ui_copy_progress_callback source file_percent = do {
     g \<leftarrow> ask app;
     let overall = g_copy_base_percent g + (int file_percent * g_copy_span_percent g) div 100;
     app_ui_draw_progress (Some (g_copy_title g)) overall (Some (g_copy_detail g));
     let display_path = app_ui_compact_copy_path (Some source) [] 96;
     gfx [SetPos 100 232, SetCol UI_MUTED False UI_BG, Printf ''Current file:'' [],
          SetPos 100 260, SetCol UI_TEXT False UI_BG, Puts_limit display_path 60,
          SetPos 1080 260, SetCol UI_MUTED False UI_BG,
          Printf ''%3d%%'' [Num (of_nat file_percent)]]
   }"

section \<open>Result pages\<close>

definition app_ui_result_page ::
    "u32 \<Rightarrow> string option \<Rightarrow> string option \<Rightarrow> string option \<Rightarrow> string option \<Rightarrow> string option
       \<Rightarrow> string option \<Rightarrow> nat \<Rightarrow> unit prog" where
  "app_ui_result_page color title msg1 msg2 act1 act2 stage code = do {
     app_ui_draw_shell;
     app_upd (\<lambda>g. g\<lparr>g_ui_page := UI_PAGE_RESULT\<rparr>);
     gfx [Box 100 120 1179 525 UI_PANEL_2, Box 100 120 108 525 color,
          SetPos 150 158, SetCol color False UI_BG,
          Printf ''%s'' [Str (or_default title ''Update status'')],
          SetPos 150 225, SetCol UI_TEXT False UI_BG, Printf ''%s'' [Str (or_default msg1 '''')]];
     (if nonempty_ptr msg2 then gfx [SetPos 150 257, Printf ''%s'' [Str (or_default msg2 '''')]]
      else State_Monad.return ());
     (case app_ui_error_cause stage code of
        Some cause \<Rightarrow>
          gfx [SetPos 150 294, SetCol UI_WARNING False UI_BG, Printf ''%s'' [Str cause]]
      | None \<Rightarrow> State_Monad.return ());
     (if nonempty_ptr stage then
        gfx [SetPos 150 326, SetCol UI_MUTED False UI_BG,
             Printf ''Report code: %s / %d'' [Str (or_default stage ''''), Num (of_nat code)]]
      else State_Monad.return ());
     gfx [SetPos 150 426, SetCol UI_TEXT False UI_BG,
          Printf ''%s'' [Str (or_default act1 ''Press POWER to continue.'')]];
     (if nonempty_ptr act2 then
        gfx [SetPos 150 458, SetCol UI_MUTED False UI_BG, Printf ''%s'' [Str (or_default act2 '''')]]
      else State_Monad.return ());
     gfx [SetPos 100 625, SetCol UI_MUTED False UI_BG,
          Printf ''Need support? Take a photo of this screen before pressing POWER.'' []]
   }"

definition app_ui_success_wait :: "unit prog" where
  "app_ui_success_wait = do {
     app_ui_result_page UI_SUCCESS (Some ''Update completed successfully'')
       (Some ''The new AIO MOD was installed and verified.'')
       (Some ''Temporary update files were removed.'')
       (Some ''Press POWER to continue.'') (Some '''') (Some ''OK'') 0;
     ui_wait_for_power
   }"

definition app_ui_warning_wait :: "string \<Rightarrow> nat \<Rightarrow> unit prog" where
  "app_ui_warning_wait stage code = do {
     app_ui_result_page UI_WARNING (Some ''Update installed with a warning'')
       (Some ''The new AIO MOD is installed, but final cleanup was incomplete.'')
       (Some ''Temporary update files may remain on the SD card.'')
       (Some ''Press POWER to continue.'') (Some ''Please report the code shown above.'')
       (Some stage) code;
     ui_wait_for_power
   }"

definition app_ui_rollback_success_wait :: "unit prog" where
  "app_ui_rollback_success_wait = do {
     g \<leftarrow> ask app;
     app_ui_result_page UI_WARNING (Some ''Update cancelled safely'')
       (Some ''An error occurred during the update.'')
       (Some ''The previous AIO MOD was restored successfully.'')
       (Some ''Press POWER to continue.'') (Some '''')
       (Some (g_last_error_stage g)) (g_last_error_code g);
     ui_wait_for_power
   }"

definition app_ui_unchanged_wait :: "unit prog" where
  "app_ui_unchanged_wait = do {
     g \<leftarrow> ask app;
     app_ui_result_page UI_ERROR (Some ''Update could not be started'')
       (Some ''The installed AIO MOD was not modified.'')
       (Some ''Your previous installation is still available.'')
       (Some ''Press POWER to continue.'') (Some '''')
       (Some (g_last_error_stage g)) (g_last_error_code g);
     ui_wait_for_power
   }"

definition app_ui_fatal_wait_poweroff :: "string \<Rightarrow> nat \<Rightarrow> unit prog" where
  "app_ui_fatal_wait_poweroff stage code = do {
     app_ui_result_page UI_ERROR (Some ''Recovery required'')
       (Some ''The update could not be recovered automatically.'')
       (Some ''The recovery backup has been preserved.'')
       (Some ''Press POWER to turn off the console.'')
       (Some ''Do not delete the recovery files from the SD card.'')
       (Some stage) code;
     ui_wait_for_power;
     power_set_state POWER_OFF
   }"

end
