(* ===== verification/Cfw_Ui.thy ===== *)
theory Cfw_Ui
  imports App_Ui
begin

text \<open>
  The screens of the custom-firmware updater, the upper part of
  \<^verbatim>\<open>TegraExplorer/source/tegraexplorer/aio_cfw_updater.c\<close>, over that file's static variables,
  the field \<open>cfw\<close> of the machine. The legacy directory \<^verbatim>\<open>Next\<close> must never show on screen.
\<close>

definition UPDATE_NEW :: string where "UPDATE_NEW = ''sd:/aio-mod-update/new''"

definition cfw_upd :: "(ui_globals \<Rightarrow> ui_globals) \<Rightarrow> unit prog" where
  "cfw_upd f = mem (\<lambda>w. w\<lparr>cfw := f (cfw w)\<rparr>)"

definition cfw_ui_set_error :: "string \<Rightarrow> nat \<Rightarrow> unit prog" where
  "cfw_ui_set_error stage code =
     cfw_upd (\<lambda>g. g\<lparr>g_last_error_stage := stage, g_last_error_code := code\<rparr>)"

section \<open>Progress page\<close>

definition cfw_ui_draw_shell :: "unit prog" where
  "cfw_ui_draw_shell = gfx [
     SetMute False, SetFntsz 16,
     Box 0 0 1279 719 UI_BG, Box 0 0 1279 64 UI_PANEL, Box 0 62 1279 65 UI_ACCENT,
     SetPos 54 22, SetCol UI_TEXT False UI_BG, Printf ''AIO MOD'' [],
     SetPos 1000 22, SetCol UI_MUTED False UI_BG, Printf ''CFW UPDATER'' []]"

definition cfw_ui_prepare_progress_page :: "unit prog" where
  "cfw_ui_prepare_progress_page = do {
     page \<leftarrow> ask (\<lambda>w. g_ui_page (cfw w));
     if page = UI_PAGE_PROGRESS then State_Monad.return ()
     else do {
       cfw_ui_draw_shell;
       cfw_upd (\<lambda>g. g\<lparr>g_ui_page := UI_PAGE_PROGRESS\<rparr>);
       gfx [SetPos 100 625, SetCol UI_MUTED False UI_BG,
            Printf ''Do not power off your console while the update is in progress.'' []]
     }
   }"

definition cfw_ui_draw_progress :: "string option \<Rightarrow> int \<Rightarrow> string option \<Rightarrow> unit prog" where
  "cfw_ui_draw_progress title percent0 detail = (let percent = clamp_percent percent0 in do {
     cfw_ui_prepare_progress_page;
     gfx [ui_clear_text_row 100 118 1180 160, ui_clear_text_row 100 174 1180 215,
          ui_clear_text_row 100 228 1180 292, ui_clear_text_row 100 372 1180 410,
          SetPos 100 130, SetCol UI_TEXT False UI_BG,
          Printf ''%s'' [Str (or_default title ''Working...'')],
          SetPos 100 186, SetCol UI_MUTED False UI_BG,
          Printf ''%s'' [Str (or_default detail ''Please wait...'')],
          Box 100 325 1179 357 UI_BAR_BG];
     (if 0 < percent then gfx [Box 100 325 (bar_fill percent) 357 UI_ACCENT]
      else State_Monad.return ());
     gfx [SetPos 100 382, SetCol UI_TEXT False UI_BG,
          Printf ''%d%%'' [Num (word_of_int percent)]]
   })"

section \<open>Copy progress\<close>

definition strip_new_prefix :: "string \<Rightarrow> string" where
  "strip_new_prefix path =
    (let pre = UPDATE_NEW @ ''/'' in
     if prefix pre path then drop (length pre) path else path)"

definition cfw_ui_compact_copy_path :: "string option \<Rightarrow> string \<Rightarrow> nat \<Rightarrow> string" where
  "cfw_ui_compact_copy_path source out out_size =
    (if out_size < 8 then out
     else case source of
         None \<Rightarrow> ''Unknown file''
       | Some src \<Rightarrow>
           (let path = strip_new_prefix src in
            if prefix ''Next/'' path \<or> path = ''Next'' then ''Updating compatibility files...''
            else if length path \<le> 60 then strncpy_term path out_size
            else ''...'' @ drop (length path - (60 - 3)) path))"

definition cfw_ui_copy_progress_callback :: "string \<Rightarrow> nat \<Rightarrow> unit prog" where
  "cfw_ui_copy_progress_callback source file_percent = do {
     page \<leftarrow> ask (\<lambda>w. g_ui_page (cfw w));
     if page \<noteq> UI_PAGE_PROGRESS then State_Monad.return ()
     else do {
       let display_path = cfw_ui_compact_copy_path (Some source) [] 96;
       gfx [ui_clear_text_row 100 228 1180 292,
            SetPos 100 232, SetCol UI_MUTED False UI_BG, Printf ''Current file:'' [],
            SetPos 100 260, SetCol UI_TEXT False UI_BG, Puts_limit display_path 60,
            SetPos 1080 260, SetCol UI_MUTED False UI_BG,
            Printf ''%3d%%'' [Num (of_nat file_percent)]]
     }
   }"

section \<open>Result pages\<close>

definition cfw_ui_result_page ::
    "u32 \<Rightarrow> string option \<Rightarrow> string option \<Rightarrow> string option \<Rightarrow> string option \<Rightarrow> string option
       \<Rightarrow> string option \<Rightarrow> nat \<Rightarrow> unit prog" where
  "cfw_ui_result_page color title msg1 msg2 act1 act2 stage code = do {
     cfw_ui_draw_shell;
     cfw_upd (\<lambda>g. g\<lparr>g_ui_page := UI_PAGE_RESULT\<rparr>);
     gfx [Box 100 120 1179 525 UI_PANEL_2, Box 100 120 108 525 color,
          SetPos 150 158, SetCol color False UI_BG,
          Printf ''%s'' [Str (or_default title ''Update status'')],
          SetPos 150 225, SetCol UI_TEXT False UI_BG, Printf ''%s'' [Str (or_default msg1 '''')]];
     (if nonempty_ptr msg2 then gfx [SetPos 150 257, Printf ''%s'' [Str (or_default msg2 '''')]]
      else State_Monad.return ());
     (if nonempty_ptr stage then
        gfx [SetPos 150 326, SetCol UI_MUTED False UI_BG,
             Printf ''Report code: %s / %d'' [Str (or_default stage ''''), Num (of_nat code)]]
      else State_Monad.return ());
     gfx [SetPos 150 426, SetCol UI_TEXT False UI_BG,
          Printf ''%s'' [Str (or_default act1 ''Press POWER to continue.'')]];
     (if nonempty_ptr act2 then
        gfx [SetPos 150 458, SetCol UI_MUTED False UI_BG, Printf ''%s'' [Str (or_default act2 '''')]]
      else State_Monad.return ());
     gfx [SetPos 100 625, SetCol UI_MUTED False UI_BG,
          Printf ''Need support? Take a photo of this screen before pressing POWER.'' []]
   }"

definition cfw_ui_success_wait :: "unit prog" where
  "cfw_ui_success_wait = do {
     cfw_ui_result_page UI_SUCCESS (Some ''Update completed successfully'')
       (Some ''The new CFW was installed and verified.'')
       (Some ''Temporary update files were removed.'')
       (Some ''Press POWER to start the new CFW.'') (Some '''') (Some ''OK'') 0;
     ui_wait_for_power
   }"

definition cfw_ui_warning_wait :: "string \<Rightarrow> nat \<Rightarrow> unit prog" where
  "cfw_ui_warning_wait stage code = do {
     cfw_ui_result_page UI_WARNING (Some ''Update installed with a warning'')
       (Some ''The new CFW is installed, but final cleanup was incomplete.'')
       (Some ''Temporary update files may remain on the SD card.'')
       (Some ''Press POWER to start the new CFW.'') (Some ''Please report the code shown above.'')
       (Some stage) code;
     ui_wait_for_power
   }"

definition cfw_ui_rollback_success_wait :: "unit prog" where
  "cfw_ui_rollback_success_wait = do {
     g \<leftarrow> ask cfw;
     cfw_ui_result_page UI_WARNING (Some ''Update cancelled safely'')
       (Some ''An error occurred during the update.'')
       (Some ''The previous CFW was restored successfully.'')
       (Some ''Press POWER to start the previous CFW.'') (Some '''')
       (Some (g_last_error_stage g)) (g_last_error_code g);
     ui_wait_for_power
   }"

definition cfw_ui_unchanged_wait :: "unit prog" where
  "cfw_ui_unchanged_wait = do {
     g \<leftarrow> ask cfw;
     cfw_ui_result_page UI_ERROR (Some ''Update could not be started'')
       (Some ''The installed CFW was not modified.'')
       (Some ''Your previous installation is still available.'')
       (Some ''Press POWER to return to the previous CFW.'') (Some '''')
       (Some (g_last_error_stage g)) (g_last_error_code g);
     ui_wait_for_power
   }"

text \<open>The message argument is discarded by the source as well.\<close>

definition cfw_ui_fatal_wait_poweroff :: "string \<Rightarrow> nat \<Rightarrow> string \<Rightarrow> unit prog" where
  "cfw_ui_fatal_wait_poweroff stage code message = do {
     cfw_ui_result_page UI_ERROR (Some ''Recovery required'')
       (Some ''The update could not be recovered automatically.'')
       (Some ''The recovery backup has been preserved.'')
       (Some ''Press POWER to turn off the console.'')
       (Some ''Do not delete the recovery files from the SD card.'')
       (Some stage) code;
     ui_wait_for_power;
     power_set_state POWER_OFF
   }"

end
