(* ===== verification/Fs_Copy.thy ===== *)
theory Fs_Copy
  imports Cfw_Ui
begin

text \<open>
  The file manager's routines: path arithmetic (\<^verbatim>\<open>source/fs/fsutils.c\<close>, \<^verbatim>\<open>source/utils/utils.c\<close>),
  directory listing (\<^verbatim>\<open>source/fs/readers/folderReader.c\<close>) and the copy and delete engine
  (\<^verbatim>\<open>source/fs/fscopy.c\<close>). The copy loop recurses on the number of bytes left. The recursive
  folder routines take a bound on the depth; the entry points pass the height of the volume.
  An \<^verbatim>\<open>ErrCode_t\<close> is its \<^verbatim>\<open>err\<close> field: \<^verbatim>\<open>loc\<close> and \<^verbatim>\<open>file\<close> only feed the error dialog.
\<close>

type_synonym ErrCode_t = nat

abbreviation (input) TE_ERR_SAME_LOC :: ErrCode_t where "TE_ERR_SAME_LOC \<equiv> 20"
abbreviation (input) TE_ERR_PATH_IN_PATH :: ErrCode_t where "TE_ERR_PATH_IN_PATH \<equiv> 23"
abbreviation (input) CMODE_CopyFolder :: nat where "CMODE_CopyFolder \<equiv> 3"
abbreviation COPY_MODE_CANCEL :: u8 where "COPY_MODE_CANCEL \<equiv> 1"
abbreviation COPY_MODE_PRINT :: u8 where "COPY_MODE_PRINT \<equiv> 2"

section \<open>Paths\<close>

text \<open>For an empty first argument the C code reads \<^verbatim>\<open>current[-1]\<close>; no caller passes one.\<close>

definition CombinePaths :: "string \<Rightarrow> string \<Rightarrow> string" where
  "CombinePaths current add =
    (if current \<noteq> [] \<and> last current = CHR ''/'' then current @ add
     else current @ ''/'' @ add)"

text \<open>\<open>None\<close> where the C code would write through a null pointer.\<close>

definition EscapeFolder :: "string \<Rightarrow> string option" where
  "EscapeFolder current =
    (case strrchr_after current (CHR ''/'') of
       None \<Rightarrow> None
     | Some t \<Rightarrow>
         (let pre = take (length current - length t - 1) current in
          Some (if pre \<noteq> [] \<and> last pre = CHR '':'' then pre @ ''/'' else pre)))"

record FSEntry_t =
  entry_name :: string
  optionUnion :: u8
  entry_size :: nat
  showSize :: bool
  sizeDef :: nat

definition isDir :: "FSEntry_t \<Rightarrow> bool" where
  "isDir e = bit (optionUnion e) 4"

definition base_name :: "string \<Rightarrow> string" where
  "base_name path = (case strrchr_after path (CHR ''/'') of Some t \<Rightarrow> t | None \<Rightarrow> path)"

definition GetFileInfo :: "string \<Rightarrow> FSEntry_t prog" where
  "GetFileInfo path = do {
     (res, fno) \<leftarrow> f_stat path;
     let name = base_name path;
     State_Monad.return \<lparr>entry_name = (if name = [] then ''Root'' else name),
       optionUnion = fattrib fno, entry_size = 0, showSize = False, sizeDef = 0\<rparr>
   }"

fun MaskIn :: "string \<Rightarrow> u32 \<Rightarrow> char \<Rightarrow> string" where
  "MaskIn [] bitstream msk = []"
| "MaskIn (c # cs) bitstream msk =
     (if bitstream AND 1 = 0 then msk else c) # MaskIn cs (drop_bit 1 bitstream) msk"

definition GetFileAttribs :: "FSEntry_t \<Rightarrow> string" where
  "GetFileAttribs entry = MaskIn ''RHSVDA'' (ucast (optionUnion entry)) (CHR ''-'')"

definition FileExists :: "string \<Rightarrow> bool prog" where
  "FileExists path = do {
     (fr, fno) \<leftarrow> f_stat path;
     State_Monad.return (fr AND FR_NO_FILE = 0)
   }"

definition StrEndsWith :: "string \<Rightarrow> string \<Rightarrow> bool" where
  "StrEndsWith s e =
    (case e of
       [] \<Rightarrow> True
     | c # _ \<Rightarrow> (case strrchr_after s c of Some t \<Rightarrow> c # t = e | None \<Rightarrow> False))"

section \<open>Directory listing\<close>

function shrink_size :: "nat \<Rightarrow> nat \<Rightarrow> nat \<times> nat" where
  "shrink_size siz type =
     (if 1024 < siz then shrink_size (siz div 1024) (Suc type) else (siz, type))"
  by pat_completeness auto
termination
  by (relation "measure fst") auto

declare shrink_size.simps [simp del]

definition new_entry :: "FILINFO \<Rightarrow> FSEntry_t" where
  "new_entry fno =
    (let e = \<lparr>entry_name = fname fno, optionUnion = fattrib fno, entry_size = 0,
              showSize = False, sizeDef = 0\<rparr>
     in if isDir e then e
        else (case shrink_size (fsize fno) 0 of (siz, type) \<Rightarrow>
                e\<lparr>showSize := True, entry_size := siz, sizeDef := min type 3\<rparr>))"

fun read_entries :: "FILINFO list \<Rightarrow> (FRESULT \<times> FSEntry_t list) prog" where
  "read_entries [] = do { (res, fno) \<leftarrow> f_readdir []; State_Monad.return (res, []) }"
| "read_entries (i # is) = do {
     (res, fno) \<leftarrow> f_readdir (i # is);
     if res \<noteq> FR_OK \<or> fname fno = [] then State_Monad.return (res, [])
     else do {
       (res, out) \<leftarrow> read_entries is;
       State_Monad.return (res, new_entry fno # out)
     }
   }"

definition ReadFolder :: "string \<Rightarrow> (FRESULT \<times> FSEntry_t list) prog" where
  "ReadFolder path = do {
     (res, dir) \<leftarrow> f_opendir path;
     if res \<noteq> FR_OK then State_Monad.return (res, [])
     else read_entries dir
   }"

section \<open>Copying a file\<close>

definition FileCopySetProgressCallback :: "callback option \<Rightarrow> unit prog" where
  "FileCopySetProgressCallback cb = mem (\<lambda>w. w\<lparr>g_copy_progress_callback := cb\<rparr>)"

definition FileCopySetQuiet :: "bool \<Rightarrow> unit prog" where
  "FileCopySetQuiet q = mem (\<lambda>w. w\<lparr>g_copy_quiet := q\<rparr>)"

definition call_progress :: "string \<Rightarrow> nat \<Rightarrow> unit prog" where
  "call_progress locin percent = do {
     cb \<leftarrow> ask g_copy_progress_callback;
     (case cb of
        None \<Rightarrow> State_Monad.return ()
      | Some App_Callback \<Rightarrow> app_ui_copy_progress_callback locin percent
      | Some Cfw_Callback \<Rightarrow> cfw_ui_copy_progress_callback locin percent)
   }"

definition vol_key_pressed :: "bool prog" where
  "vol_key_pressed = do {
     bs \<leftarrow> ask vol_btn;
     mem (\<lambda>w. w\<lparr>vol_btn := tl bs\<rparr>);
     State_Monad.return (case bs of [] \<Rightarrow> False | b # _ \<Rightarrow> b)
   }"

definition copy_percent :: "nat \<Rightarrow> nat \<Rightarrow> nat" where
  "copy_percent totalsize remaining =
     (if totalsize = 0 then 100 else ((totalsize - remaining) * 100) div totalsize)"

text \<open>
  The presentation step at the end of each round: the printed percentage, and the callback
  at every fifth per cent. It returns the new \<^verbatim>\<open>last_callback_percent\<close>.
\<close>

definition copy_report :: "string \<Rightarrow> bool \<Rightarrow> u32 \<Rightarrow> u32 \<Rightarrow> nat \<Rightarrow> nat \<Rightarrow> nat prog" where
  "copy_report locin prt x y percent last_pct = do {
     (if prt then gfx [SetPos x y, Printf ''%3d%%'' [Num (of_nat percent)]]
      else State_Monad.return ());
     cb \<leftarrow> ask g_copy_progress_callback;
     if cb \<noteq> None \<and> (percent = 100 \<or> last_pct + 5 \<le> percent) then do {
       call_progress locin percent;
       State_Monad.return percent
     }
     else State_Monad.return last_pct
   }"

text \<open>
  \<open>bufsz\<close> is \<^verbatim>\<open>TConf.FSBuffSize\<close>; \<^verbatim>\<open>FileCopy\<close> has checked that it is not zero. The result is the
  error code and the two open files.
\<close>

function copy_loop ::
    "string \<Rightarrow> string \<Rightarrow> u8 \<Rightarrow> bool \<Rightarrow> u32 \<Rightarrow> u32 \<Rightarrow> nat \<Rightarrow> nat \<Rightarrow> nat \<Rightarrow> nat \<Rightarrow> FIL \<Rightarrow> FIL
       \<Rightarrow> (ErrCode_t \<times> FIL \<times> FIL) prog" where
  "copy_loop locin locout options prt x y bufsz totalsize remaining last_pct inp outp =
    (if remaining = 0 \<or> bufsz = 0 then State_Monad.return (FR_OK, inp, outp)
     else do {
       (res, buff, inp) \<leftarrow> f_read inp (min remaining bufsz);
       if res \<noteq> FR_OK then State_Monad.return (res, inp, outp)
       else if length buff \<noteq> min remaining bufsz then State_Monad.return (FR_DISK_ERR, inp, outp)
       else do {
         (res, written, outp) \<leftarrow> f_write outp buff;
         if res \<noteq> FR_OK then State_Monad.return (res, inp, outp)
         else if written \<noteq> length buff then State_Monad.return (FR_DISK_ERR, inp, outp)
         else do {
           last_pct \<leftarrow> copy_report locin prt x y
             (copy_percent totalsize (remaining - min remaining bufsz)) last_pct;
           cancel \<leftarrow> (if options AND COPY_MODE_CANCEL \<noteq> 0 then vol_key_pressed
                     else State_Monad.return False);
           if cancel then do {
             f_unlink locout;
             State_Monad.return (FR_OK, inp, outp)
           }
           else copy_loop locin locout options prt x y bufsz totalsize
                  (remaining - min remaining bufsz) last_pct inp outp
         }
       }
     })"
  by pat_completeness auto
termination
  by (relation "measure (\<lambda>(a, b, c, d, e, f, g, h, remaining, i). remaining)") auto

declare copy_loop.simps [simp del]

definition first_error :: "ErrCode_t \<Rightarrow> FRESULT \<Rightarrow> ErrCode_t" where
  "first_error err res = (if err = FR_OK \<and> res \<noteq> FR_OK then res else err)"

definition FileCopy :: "string \<Rightarrow> string \<Rightarrow> u8 \<Rightarrow> ErrCode_t prog" where
  "FileCopy locin locout options = do {
     (x, y) \<leftarrow> ask (\<lambda>w. gfx_con_getpos (gfx_con w));
     if locin = locout then State_Monad.return TE_ERR_SAME_LOC
     else do {
       (res, inp) \<leftarrow> f_open locin FA_READ_OPEN_EXISTING;
       if res \<noteq> FR_OK then State_Monad.return res
       else do {
         (res, in_info) \<leftarrow> f_stat locin;
         if res \<noteq> FR_OK then do { f_close inp; State_Monad.return res }
         else do {
           (res, outp) \<leftarrow> f_open locout FA_CREATE_ALWAYS_WRITE;
           if res \<noteq> FR_OK then do { f_close inp; State_Monad.return res }
           else do {
             muted \<leftarrow> ask g_copy_quiet;
             let prt = (options AND COPY_MODE_PRINT \<noteq> 0 \<and> \<not> muted);
             (if prt then gfx [Printf ''[  0%%]'' []] else State_Monad.return ());
             let x = (if prt then x + 16 else x);
             bufsz \<leftarrow> ask FSBuffSize;
             avail \<leftarrow> ask heap_avail;
             if avail < bufsz \<or> bufsz = 0 then do {
               f_close outp;
               f_close inp;
               State_Monad.return FR_NOT_ENOUGH_CORE
             }
             else do {
               let totalsize = f_size inp;
               call_progress locin 0;
               (err, inp, outp) \<leftarrow>
                 copy_loop locin locout options prt x y bufsz totalsize totalsize 0 inp outp;
               (if totalsize = 0 then call_progress locin 100 else State_Monad.return ());
               res \<leftarrow> f_close outp;
               let err = first_error err res;
               res \<leftarrow> f_close inp;
               let err = first_error err res;
               err \<leftarrow> (if err = FR_OK then f_chmod locout (fattrib in_info) 0x3A
                      else State_Monad.return err);
               (if prt then gfx [SetPos (x - 16) y] else State_Monad.return ());
               State_Monad.return err
             }
           }
         }
       }
     }
   }"

section \<open>Folders\<close>

definition BoxRestOfScreen :: "unit prog" where
  "BoxRestOfScreen = do {
     (x, y) \<leftarrow> ask (\<lambda>w. gfx_con_getpos (gfx_con w));
     gfx [BoxGrey (uint x) (uint y) (uint YLEFT) (uint y + 16) 0x1B]
   }"

definition name_limit :: "u32 \<Rightarrow> u32" where
  "name_limit x = (YLEFT - x) div 16 - 10"

fun FolderCopy_fuel :: "nat \<Rightarrow> string \<Rightarrow> string \<Rightarrow> ErrCode_t prog" where
  "FolderCopy_fuel 0 locin locout = do { stop Out_Of_Fuel; State_Monad.return FR_INT_ERR }"
| "FolderCopy_fuel (Suc n) locin locout = do {
     mode \<leftarrow> ask explorerCopyMode;
     if CMODE_CopyFolder \<le> mode \<and> strstr locout locin then State_Monad.return TE_ERR_PATH_IN_PATH
     else if locin = locout then State_Monad.return TE_ERR_SAME_LOC
     else do {
       let dstPath = CombinePaths locout (base_name locin);
       (x, y) \<leftarrow> ask (\<lambda>w. gfx_con_getpos (gfx_con w));
       (res, fileVec) \<leftarrow> ReadFolder locin;
       ret \<leftarrow> (if res \<noteq> FR_OK then State_Monad.return res
         else do {
           f_mkdir dstPath;
           for_ok (\<lambda>e.
             if isDir e then FolderCopy_fuel n (CombinePaths locin (entry_name e)) dstPath
             else do {
               muted \<leftarrow> ask g_copy_quiet;
               (if \<not> muted then do {
                  gfx [Puts_limit (entry_name e) (name_limit x)];
                  BoxRestOfScreen
                } else State_Monad.return ());
               ret \<leftarrow> FileCopy (CombinePaths locin (entry_name e))
                       (CombinePaths dstPath (entry_name e)) COPY_MODE_PRINT;
               (if \<not> muted then gfx [SetPos x y] else State_Monad.return ());
               State_Monad.return ret
             }) fileVec
         });
       if ret = FR_OK then do {
         (res, fno) \<leftarrow> f_stat locin;
         if res \<noteq> FR_OK then State_Monad.return res
         else f_chmod dstPath (fattrib fno) 0x3A
       }
       else State_Monad.return ret
     }
   }"

definition FolderCopy :: "string \<Rightarrow> string \<Rightarrow> ErrCode_t prog" where
  "FolderCopy locin locout = do {
     h \<leftarrow> ask (\<lambda>w. height (vol w));
     FolderCopy_fuel (Suc h) locin locout
   }"

fun FolderDelete_fuel :: "nat \<Rightarrow> string \<Rightarrow> ErrCode_t prog" where
  "FolderDelete_fuel 0 path = do { stop Out_Of_Fuel; State_Monad.return FR_INT_ERR }"
| "FolderDelete_fuel (Suc n) path = do {
     (x, y) \<leftarrow> ask (\<lambda>w. gfx_con_getpos (gfx_con w));
     (res, fileVec) \<leftarrow> ReadFolder path;
     ret \<leftarrow> (if res \<noteq> FR_OK then State_Monad.return res
       else for_ok (\<lambda>e.
         if isDir e then FolderDelete_fuel n (CombinePaths path (entry_name e))
         else do {
           gfx [Puts_limit (entry_name e) (name_limit x)];
           BoxRestOfScreen;
           res \<leftarrow> f_unlink (CombinePaths path (entry_name e));
           gfx [SetPos x y];
           State_Monad.return res
         }) fileVec);
     if ret = FR_OK then f_unlink path else State_Monad.return ret
   }"

definition FolderDelete :: "string \<Rightarrow> ErrCode_t prog" where
  "FolderDelete path = do {
     h \<leftarrow> ask (\<lambda>w. height (vol w));
     FolderDelete_fuel (Suc h) path
   }"

section \<open>Paths of combined names\<close>

lemma path_keys_CombinePaths:
  assumes "good_name n"
  shows "path_keys (CombinePaths p n) = path_keys p @ [n]"
proof -
  have n: "n \<noteq> []" "CHR ''/'' \<notin> set n" "CHR '':'' \<notin> set n"
    using assms by (auto simp: good_name_def)
  have sl: "path_keys (s @ CHR ''/'' # n) = path_keys s @ [n]" for s
    using n by (simp add: path_keys_slash split_on_single)
  show ?thesis
  proof (cases "p \<noteq> [] \<and> last p = CHR ''/''")
    case True
    then obtain s where "p = s @ [CHR ''/'']"
      by (metis append_butlast_last_id)
    then show ?thesis
      using sl [of s] path_keys_slash [of "[]" s] by (simp add: CombinePaths_def)
  next
    case False
    then show ?thesis using sl by (auto simp: CombinePaths_def)
  qed
qed

section \<open>The screen\<close>

lemma quiet_let [intro]: "(\<And>x. quiet (f x)) \<Longrightarrow> quiet (Let a f)"
  by simp

lemma quiet_app_ui [simp]:
  "quiet app_ui_draw_shell" "quiet app_ui_prepare_progress_page"
  "quiet (app_ui_draw_progress t p d)" "quiet (app_ui_set_error s c)" "quiet (app_upd f)"
  "quiet (app_ui_copy_progress_callback s n)"
  "quiet (app_ui_result_page col ti m1 m2 a1 a2 st c)"
  unfolding app_ui_draw_shell_def app_ui_prepare_progress_page_def app_ui_draw_progress_def
    app_ui_set_error_def app_upd_def app_ui_copy_progress_callback_def app_ui_result_page_def
  by (auto intro!: quiet_bind quiet_if quiet_let split: option.splits)

lemma quiet_cfw_ui [simp]:
  "quiet cfw_ui_draw_shell" "quiet cfw_ui_prepare_progress_page"
  "quiet (cfw_ui_draw_progress t p d)" "quiet (cfw_ui_set_error s c)" "quiet (cfw_upd f)"
  "quiet (cfw_ui_copy_progress_callback s n)"
  "quiet (cfw_ui_result_page col ti m1 m2 a1 a2 st c)"
  unfolding cfw_ui_draw_shell_def cfw_ui_prepare_progress_page_def cfw_ui_draw_progress_def
    cfw_ui_set_error_def cfw_upd_def cfw_ui_copy_progress_callback_def cfw_ui_result_page_def
  by (auto intro!: quiet_bind quiet_if quiet_let split: option.splits)

lemma quiet_copy [simp]:
  "quiet (FileCopySetProgressCallback cb)" "quiet (FileCopySetQuiet b)" "quiet (call_progress s n)"
  "quiet vol_key_pressed" "quiet (copy_report s p x y n l)" "quiet BoxRestOfScreen"
  unfolding FileCopySetProgressCallback_def FileCopySetQuiet_def call_progress_def
    vol_key_pressed_def copy_report_def BoxRestOfScreen_def
  by (auto intro!: quiet_bind quiet_if quiet_let split: option.splits callback.splits prod.splits)

end
