(* ===== verification/Journal.thy ===== *)
theory Journal
  imports Fs_Copy
begin

text \<open>
  The routines on the SD card that \<^verbatim>\<open>aio_app_updater.c\<close> and \<^verbatim>\<open>aio_cfw_updater.c\<close> carry in two
  copies with the same text: creating a directory unless it is there, reading the update
  journal, and leaving for the installed firmware. A journal that was read is the C string
  left in the caller's buffer; \<open>None\<close> is the result \<^verbatim>\<open>false\<close>.
\<close>

definition mkdir_if_needed :: "string \<Rightarrow> FRESULT prog" where
  "mkdir_if_needed path = do {
     res \<leftarrow> f_mkdir path;
     State_Monad.return (if res = FR_OK \<or> res = FR_EXIST then FR_OK else res)
   }"

definition journal_line :: "string \<Rightarrow> string" where
  "journal_line buf = takeWhile (\<lambda>c. c \<noteq> CHR 0x00 \<and> c \<noteq> CHR 0x0D \<and> c \<noteq> CHR 0x0A) buf"

definition read_state_from :: "string \<Rightarrow> nat \<Rightarrow> string option prog" where
  "read_state_from path out_size =
    (if out_size < 2 then State_Monad.return None
     else do {
       (res, fp) \<leftarrow> f_open path FA_READ_OPEN_EXISTING;
       if res \<noteq> FR_OK then State_Monad.return None
       else do {
         (res, out, fp) \<leftarrow> f_read fp (out_size - 1);
         f_close fp;
         if res \<noteq> FR_OK \<or> out = [] then State_Monad.return None
         else State_Monad.return (if journal_line out = [] then None else Some (journal_line out))
       }
     })"

definition state_is :: "string option \<Rightarrow> string \<Rightarrow> bool" where
  "state_is state expected = (state = Some expected)"

definition STATE_STAGED :: string where "STATE_STAGED = ''STAGED''"
definition STATE_BACKUP_IN_PROGRESS :: string where "STATE_BACKUP_IN_PROGRESS = ''BACKUP_IN_PROGRESS''"
definition STATE_BACKUP_COMPLETE :: string where "STATE_BACKUP_COMPLETE = ''BACKUP_COMPLETE''"
definition STATE_COPY_IN_PROGRESS :: string where "STATE_COPY_IN_PROGRESS = ''COPY_IN_PROGRESS''"
definition STATE_COPY_COMPLETE :: string where "STATE_COPY_COMPLETE = ''COPY_COMPLETE''"
definition STATE_ROLLBACK_IN_PROGRESS :: string where
  "STATE_ROLLBACK_IN_PROGRESS = ''ROLLBACK_IN_PROGRESS''"
definition STATE_ROLLBACK_COMPLETE :: string where "STATE_ROLLBACK_COMPLETE = ''ROLLBACK_COMPLETE''"
definition STATE_COMMIT_IN_PROGRESS :: string where "STATE_COMMIT_IN_PROGRESS = ''COMMIT_IN_PROGRESS''"

lemmas state_defs = STATE_STAGED_def STATE_BACKUP_IN_PROGRESS_def STATE_BACKUP_COMPLETE_def
  STATE_COPY_IN_PROGRESS_def STATE_COPY_COMPLETE_def STATE_ROLLBACK_IN_PROGRESS_def
  STATE_ROLLBACK_COMPLETE_def STATE_COMMIT_IN_PROGRESS_def

text \<open>
  \<open>fatal\<close> is the updater's own \<^verbatim>\<open>ui_fatal_wait_poweroff("BOOT", 1)\<close>. \<^verbatim>\<open>launch_payload\<close> comes back
  only when it failed.
\<close>

definition boot_installed_cfw_now :: "unit prog \<Rightarrow> bool \<Rightarrow> unit prog" where
  "boot_installed_cfw_now fatal patched_or_mariko =
    (if patched_or_mariko then power_set_state POWER_OFF_REBOOT
     else do {
       e \<leftarrow> path_exists ''sd:/bootloader/update.bin'';
       (if e then do { launch_payload ''sd:/bootloader/update.bin''; State_Monad.return () }
        else State_Monad.return ());
       e \<leftarrow> path_exists ''sd:/atmosphere/reboot_payload.bin'';
       (if e then do { launch_payload ''sd:/atmosphere/reboot_payload.bin''; State_Monad.return () }
        else State_Monad.return ());
       e \<leftarrow> path_exists ''sd:/payload.bin'';
       (if e then do { launch_payload ''sd:/payload.bin''; State_Monad.return () }
        else State_Monad.return ());
       fatal
     })"

end
