(* ===== verification/App_Updater.thy ===== *)
theory App_Updater
  imports Journal
begin

text \<open>
  The transaction of \<^verbatim>\<open>TegraExplorer/source/aio_app_updater.c\<close>: it replaces the installed
  application by the staged one, keeps a verified backup, and records its progress in a
  journal on the card, so that the next boot can finish or undo an interrupted update. One
  definition per C function; \<open>app_\<close> marks the functions that both updaters have.
\<close>

section \<open>Paths\<close>

definition APP_UPDATE_ROOT :: string where "APP_UPDATE_ROOT = ''sd:/aio-mod-app-update''"
definition APP_UPDATE_READY :: string where "APP_UPDATE_READY = APP_UPDATE_ROOT @ ''/ready''"
definition APP_UPDATE_STATE :: string where "APP_UPDATE_STATE = APP_UPDATE_ROOT @ ''/state''"
definition APP_UPDATE_STATE_TMP :: string where "APP_UPDATE_STATE_TMP = APP_UPDATE_ROOT @ ''/state.tmp''"
definition APP_UPDATE_NEW_DIR :: string where "APP_UPDATE_NEW_DIR = APP_UPDATE_ROOT @ ''/new''"
definition APP_UPDATE_BACKUP_DIR :: string where "APP_UPDATE_BACKUP_DIR = APP_UPDATE_ROOT @ ''/backup''"
definition APP_NEW_NRO :: string where
  "APP_NEW_NRO = APP_UPDATE_NEW_DIR @ ''/switch/aio-switch-updater-mod/aio-switch-updater-mod.nro''"
definition APP_BACKUP_NRO :: string where
  "APP_BACKUP_NRO = APP_UPDATE_BACKUP_DIR @ ''/aio-switch-updater-mod.nro''"
definition APP_TARGET_NRO :: string where
  "APP_TARGET_NRO = ''sd:/switch/aio-switch-updater-mod/aio-switch-updater-mod.nro''"
definition MARIKO_SAVED_PAYLOAD :: string where "MARIKO_SAVED_PAYLOAD = ''sd:/payload.bin.aio''"
definition ROOT_PAYLOAD :: string where "ROOT_PAYLOAD = ''sd:/payload.bin''"

lemmas app_path_defs = APP_UPDATE_ROOT_def APP_UPDATE_READY_def APP_UPDATE_STATE_def
  APP_UPDATE_STATE_TMP_def APP_UPDATE_NEW_DIR_def APP_UPDATE_BACKUP_DIR_def APP_NEW_NRO_def
  APP_BACKUP_NRO_def APP_TARGET_NRO_def MARIKO_SAVED_PAYLOAD_def ROOT_PAYLOAD_def

section \<open>Files\<close>

definition ui_begin_copy :: "string option \<Rightarrow> string option \<Rightarrow> int \<Rightarrow> int \<Rightarrow> unit prog" where
  "ui_begin_copy title detail base_percent span_percent = do {
     app_upd (\<lambda>g. g\<lparr>g_copy_title := or_default title ''Copying file'',
                    g_copy_detail := or_default detail ''Please wait...'',
                    g_copy_base_percent := base_percent, g_copy_span_percent := span_percent\<rparr>);
     FileCopySetQuiet True;
     FileCopySetProgressCallback (Some App_Callback);
     g \<leftarrow> ask app;
     app_ui_draw_progress (Some (g_copy_title g)) (g_copy_base_percent g) (Some (g_copy_detail g))
   }"

definition ui_end_copy :: "unit prog" where
  "ui_end_copy = do { FileCopySetProgressCallback None; FileCopySetQuiet False }"

definition nonempty_file_status :: "string \<Rightarrow> nat prog" where
  "nonempty_file_status path = do {
     (res, info) \<leftarrow> f_stat path;
     State_Monad.return
       (if res \<noteq> FR_OK then res
        else if bit (fattrib info) 4 then APP_FILE_DIRECTORY
        else if fsize info = 0 then APP_FILE_EMPTY
        else FR_OK)
   }"

definition valid_nonempty_file :: "string \<Rightarrow> bool prog" where
  "valid_nonempty_file path = do {
     s \<leftarrow> nonempty_file_status path;
     State_Monad.return (s = FR_OK)
   }"

definition app_file_sizes_match :: "string \<Rightarrow> string \<Rightarrow> bool prog" where
  "app_file_sizes_match a b = do {
     (ra, ia) \<leftarrow> f_stat a;
     if ra \<noteq> FR_OK then State_Monad.return False
     else do {
       (rb, ib) \<leftarrow> f_stat b;
       State_Monad.return
         (rb = FR_OK \<and> \<not> (bit (fattrib ia) 4 \<or> bit (fattrib ib) 4) \<and>
          0 < fsize ia \<and> fsize ia = fsize ib)
     }
   }"

definition remove_path_if_exists :: "string \<Rightarrow> FRESULT prog" where
  "remove_path_if_exists path = do {
     (res, info) \<leftarrow> f_stat path;
     if res = FR_NO_FILE \<or> res = FR_NO_PATH then State_Monad.return FR_OK
     else if res \<noteq> FR_OK then State_Monad.return res
     else if bit (fattrib info) 4 then FolderDelete path
     else do {
       res \<leftarrow> f_unlink path;
       State_Monad.return (if res = FR_NO_FILE then FR_OK else res)
     }
   }"

section \<open>The journal\<close>

definition app_read_state :: "nat \<Rightarrow> string option prog" where
  "app_read_state out_size = do {
     s \<leftarrow> read_state_from APP_UPDATE_STATE out_size;
     if s \<noteq> None then State_Monad.return s
     else read_state_from APP_UPDATE_STATE_TMP out_size
   }"

text \<open>The part of \<^verbatim>\<open>write_state\<close> from the first \<^verbatim>\<open>f_write\<close> to \<^verbatim>\<open>f_close\<close>.\<close>

definition app_write_line :: "FIL \<Rightarrow> string \<Rightarrow> FRESULT prog" where
  "app_write_line fp state = do {
     (res, written, fp) \<leftarrow> f_write fp state;
     let res = (if res = FR_OK \<and> written \<noteq> length state then FR_DISK_ERR else res);
     (res, fp) \<leftarrow> (if res = FR_OK then do {
         (res, nl_written, fp) \<leftarrow> f_write fp [CHR 0x0A];
         State_Monad.return (if res = FR_OK \<and> nl_written \<noteq> 1 then FR_DISK_ERR else res, fp)
       } else State_Monad.return (res, fp));
     (res, fp) \<leftarrow> (if res = FR_OK then f_sync fp else State_Monad.return (res, fp));
     f_close fp;
     State_Monad.return res
   }"

definition app_write_state :: "string \<Rightarrow> FRESULT prog" where
  "app_write_state state = do {
     res \<leftarrow> mkdir_if_needed APP_UPDATE_ROOT;
     if res \<noteq> FR_OK then State_Monad.return res
     else do {
       remove_path_if_exists APP_UPDATE_STATE_TMP;
       (res, fp) \<leftarrow> f_open APP_UPDATE_STATE_TMP FA_CREATE_ALWAYS_WRITE;
       if res \<noteq> FR_OK then State_Monad.return res
       else do {
         res \<leftarrow> app_write_line fp state;
         if res \<noteq> FR_OK then State_Monad.return res
         else do {
           res \<leftarrow> remove_path_if_exists APP_UPDATE_STATE;
           if res \<noteq> FR_OK then State_Monad.return res
           else f_rename APP_UPDATE_STATE_TMP APP_UPDATE_STATE
         }
       }
     }
   }"

section \<open>Verified copies\<close>

text \<open>
  The comparison loop; \<open>left\<close> is \<^verbatim>\<open>f_size(&first) - f_tell(&first)\<close>. The cast to the 32-bit
  \<^verbatim>\<open>UINT\<close> makes the chunk empty when a multiple of four gigabytes is left, and the loop then
  never ends.
\<close>

function contents_loop :: "nat \<Rightarrow> FIL \<Rightarrow> FIL \<Rightarrow> (bool \<times> FIL \<times> FIL) prog" where
  "contents_loop left first second =
    (if left = 0 then State_Monad.return (True, first, second)
     else
       (let size = min (left mod 2 ^ 32) 4096 in
        if size = 0 then do { stop Hung; State_Monad.return (False, first, second) }
        else do {
          (res1, buf1, first) \<leftarrow> f_read first size;
          if res1 \<noteq> FR_OK then State_Monad.return (False, first, second)
          else do {
            (res2, buf2, second) \<leftarrow> f_read second size;
            if res2 \<noteq> FR_OK \<or> length buf1 \<noteq> size \<or> length buf2 \<noteq> size \<or> buf1 \<noteq> buf2
            then State_Monad.return (False, first, second)
            else contents_loop (left - size) first second
          }
        }))"
  by pat_completeness auto
termination
  by (relation "measure fst") auto

declare contents_loop.simps [simp del]

definition file_contents_match :: "string \<Rightarrow> string \<Rightarrow> bool prog" where
  "file_contents_match a b = do {
     (res, first) \<leftarrow> f_open a FA_READ_OPEN_EXISTING;
     if res \<noteq> FR_OK then State_Monad.return False
     else do {
       (res, second) \<leftarrow> f_open b FA_READ_OPEN_EXISTING;
       if res \<noteq> FR_OK then do { f_close first; State_Monad.return False }
       else do {
         avail \<leftarrow> ask heap_avail;
         (match, first, second) \<leftarrow>
           (if 8192 \<le> avail \<and> f_size first = f_size second
            then contents_loop (f_size first - f_tell first) first second
            else State_Monad.return (False, first, second));
         res2 \<leftarrow> f_close second;
         res1 \<leftarrow> f_close first;
         State_Monad.return (match \<and> res2 = FR_OK \<and> res1 = FR_OK)
       }
     }
   }"

definition copy_verified :: "string \<Rightarrow> string \<Rightarrow> FRESULT prog" where
  "copy_verified src dst = do {
     ok \<leftarrow> valid_nonempty_file src;
     if \<not> ok then State_Monad.return FR_NO_FILE
     else do {
       res \<leftarrow> FileCopy src dst COPY_MODE_PRINT;
       if res \<noteq> FR_OK then State_Monad.return res
       else do {
         sizes \<leftarrow> app_file_sizes_match src dst;
         match \<leftarrow> (if sizes then file_contents_match src dst else State_Monad.return False);
         State_Monad.return (if match then FR_OK else FR_DISK_ERR)
       }
     }
   }"

section \<open>The boot payload\<close>

definition restore_mariko_payload :: "FRESULT prog" where
  "restore_mariko_payload = do {
     ok \<leftarrow> valid_nonempty_file MARIKO_SAVED_PAYLOAD;
     if \<not> ok then State_Monad.return FR_NO_FILE
     else copy_verified MARIKO_SAVED_PAYLOAD ROOT_PAYLOAD
   }"

definition app_boot_installed_cfw_now :: "bool \<Rightarrow> unit prog" where
  "app_boot_installed_cfw_now = boot_installed_cfw_now (app_ui_fatal_wait_poweroff ''BOOT'' 1)"

definition app_boot_installed_cfw :: "bool \<Rightarrow> unit prog" where
  "app_boot_installed_cfw patched_or_mariko = do {
     g \<leftarrow> ask app;
     (if g_commit_warning_code g \<noteq> 0
      then app_ui_warning_wait ''COMMIT'' (g_commit_warning_code g)
      else app_ui_success_wait);
     app_boot_installed_cfw_now patched_or_mariko
   }"

definition restore_boot_payload_if_needed :: "bool \<Rightarrow> bool prog" where
  "restore_boot_payload_if_needed patched_or_mariko =
    (if \<not> patched_or_mariko then State_Monad.return True
     else do {
       res \<leftarrow> restore_mariko_payload;
       if res \<noteq> FR_OK then do {
         app_ui_set_error ''BOOT-PAYLOAD'' res;
         State_Monad.return False
       }
       else State_Monad.return True
     })"

section \<open>The transaction\<close>

text \<open>\<^verbatim>\<open>ui_fatal_wait_poweroff(g_last_error_stage, g_last_error_code);\<close>\<close>

definition app_fatal_last_error :: "unit prog" where
  "app_fatal_last_error = do {
     g \<leftarrow> ask app;
     app_ui_fatal_wait_poweroff (g_last_error_stage g) (g_last_error_code g)
   }"

definition cleanup_transaction :: "bool \<Rightarrow> FRESULT prog" where
  "cleanup_transaction patched_or_mariko = do {
     res \<leftarrow> remove_path_if_exists APP_UPDATE_NEW_DIR;
     let result = (if res \<noteq> FR_OK then res else FR_OK);
     res \<leftarrow> remove_path_if_exists APP_UPDATE_BACKUP_DIR;
     let result = (if res \<noteq> FR_OK \<and> result = FR_OK then res else result);
     res \<leftarrow> remove_path_if_exists APP_UPDATE_READY;
     let result = (if res \<noteq> FR_OK \<and> result = FR_OK then res else result);
     res \<leftarrow> remove_path_if_exists APP_UPDATE_STATE_TMP;
     let result = (if res \<noteq> FR_OK \<and> result = FR_OK then res else result);
     result \<leftarrow> (if result = FR_OK then remove_path_if_exists APP_UPDATE_STATE
               else State_Monad.return result);
     result \<leftarrow> (if result = FR_OK then remove_path_if_exists APP_UPDATE_ROOT
               else State_Monad.return result);
     if result = FR_OK \<and> patched_or_mariko then remove_path_if_exists MARIKO_SAVED_PAYLOAD
     else State_Monad.return result
   }"

definition prepare_backup :: "FRESULT prog" where
  "prepare_backup = do {
     res \<leftarrow> mkdir_if_needed APP_UPDATE_BACKUP_DIR;
     if res \<noteq> FR_OK then State_Monad.return res
     else do {
       remove_path_if_exists APP_BACKUP_NRO;
       ui_begin_copy (Some ''Backing up current AIO MOD'') (Some ''Creating a recovery copy...'') 15 20;
       res \<leftarrow> copy_verified APP_TARGET_NRO APP_BACKUP_NRO;
       ui_end_copy;
       State_Monad.return res
     }
   }"

text \<open>The part of \<^verbatim>\<open>rollback_transaction\<close> after the old application has been restored.\<close>

definition app_rollback_finish :: "bool \<Rightarrow> bool prog" where
  "app_rollback_finish patched_or_mariko = do {
     res \<leftarrow> app_write_state STATE_ROLLBACK_COMPLETE;
     if res \<noteq> FR_OK then do {
       app_ui_set_error ''ROLLBACK-STATE'' FR_DISK_ERR;
       ok \<leftarrow> restore_boot_payload_if_needed patched_or_mariko;
       if \<not> ok then do {
         app_fatal_last_error;
         State_Monad.return False
       }
       else do {
         app_fatal_last_error;
         State_Monad.return False
       }
     }
     else do {
       ok \<leftarrow> restore_boot_payload_if_needed patched_or_mariko;
       if \<not> ok then do {
         app_fatal_last_error;
         State_Monad.return False
       }
       else do {
         app_ui_draw_progress (Some ''Finalizing recovery'') 92
           (Some ''Cleaning temporary recovery files...'');
         res \<leftarrow> cleanup_transaction patched_or_mariko;
         (if res \<noteq> FR_OK then app_upd (\<lambda>g. g\<lparr>g_commit_warning_code := res\<rparr>)
          else State_Monad.return ());
         app_ui_rollback_success_wait;
         app_boot_installed_cfw_now patched_or_mariko;
         State_Monad.return True
       }
     }
   }"

definition app_rollback_transaction :: "bool \<Rightarrow> bool prog" where
  "app_rollback_transaction patched_or_mariko = do {
     app_ui_draw_progress (Some ''Restoring previous AIO MOD'') 35
       (Some ''Reverting the application safely...'');
     res \<leftarrow> app_write_state STATE_ROLLBACK_IN_PROGRESS;
     if res \<noteq> FR_OK then do {
       app_ui_set_error ''ROLLBACK-JOURNAL'' FR_DISK_ERR;
       app_fatal_last_error;
       State_Monad.return False
     }
     else do {
       ok \<leftarrow> valid_nonempty_file APP_BACKUP_NRO;
       if \<not> ok then do {
         app_ui_set_error ''ROLLBACK-BACKUP'' FR_NO_FILE;
         app_fatal_last_error;
         State_Monad.return False
       }
       else do {
         ui_begin_copy (Some ''Restoring previous AIO MOD'')
           (Some ''Restoring the verified backup...'') 40 35;
         res \<leftarrow> copy_verified APP_BACKUP_NRO APP_TARGET_NRO;
         ui_end_copy;
         if res \<noteq> FR_OK then do {
           app_ui_set_error ''ROLLBACK-COPY'' res;
           app_fatal_last_error;
           State_Monad.return False
         }
         else app_rollback_finish patched_or_mariko
       }
     }
   }"

definition abort_before_changes :: "bool \<Rightarrow> unit prog" where
  "abort_before_changes patched_or_mariko = do {
     ok \<leftarrow> restore_boot_payload_if_needed patched_or_mariko;
     if \<not> ok then app_fatal_last_error
     else do {
       app_ui_draw_progress (Some ''Cancelling update'') 90 (Some ''Removing prepared update files...'');
       res \<leftarrow> cleanup_transaction patched_or_mariko;
       g \<leftarrow> ask app;
       (if res \<noteq> FR_OK \<and> g_last_error_code g = 0 then app_ui_set_error ''CLEANUP'' res
        else State_Monad.return ());
       app_ui_unchanged_wait;
       app_boot_installed_cfw_now patched_or_mariko
     }
   }"

text \<open>The part of \<^verbatim>\<open>commit_transaction\<close> after the journal has been advanced.\<close>

definition app_commit_finish :: "bool \<Rightarrow> unit prog" where
  "app_commit_finish patched_or_mariko = do {
     ok \<leftarrow> restore_boot_payload_if_needed patched_or_mariko;
     if \<not> ok then app_fatal_last_error
     else do {
       app_ui_draw_progress (Some ''Finalizing update'') 97
         (Some ''Cleaning temporary update files...'');
       res \<leftarrow> cleanup_transaction patched_or_mariko;
       (if res \<noteq> FR_OK then app_upd (\<lambda>g. g\<lparr>g_commit_warning_code := res\<rparr>)
        else State_Monad.return ());
       app_ui_draw_progress (Some ''Finalizing update'') 100 (Some ''AIO MOD update verified.'');
       app_boot_installed_cfw patched_or_mariko
     }
   }"

definition app_commit_transaction :: "bool \<Rightarrow> unit prog" where
  "app_commit_transaction patched_or_mariko = do {
     app_ui_draw_progress (Some ''Finalizing update'') 94 (Some ''Saving final update state...'');
     res \<leftarrow> app_write_state STATE_COMMIT_IN_PROGRESS;
     if res \<noteq> FR_OK then do {
       app_ui_set_error ''COMMIT-JOURNAL'' FR_DISK_ERR;
       app_rollback_transaction patched_or_mariko;
       State_Monad.return ()
     }
     else app_commit_finish patched_or_mariko
   }"

section \<open>Entry points\<close>

definition aio_app_update_pending :: "bool prog" where
  "aio_app_update_pending = do {
     a \<leftarrow> path_exists APP_UPDATE_READY;
     if a then State_Monad.return True else do {
       b \<leftarrow> path_exists APP_UPDATE_STATE;
       if b then State_Monad.return True else do {
         c \<leftarrow> path_exists APP_UPDATE_STATE_TMP;
         if c then State_Monad.return True else path_exists APP_UPDATE_BACKUP_DIR
       }
     }
   }"

text \<open>\<^verbatim>\<open>rollback_transaction(patched_or_mariko); return;\<close>, the result unused.\<close>

definition app_roll :: "string \<Rightarrow> nat \<Rightarrow> bool \<Rightarrow> unit prog" where
  "app_roll stage code patched_or_mariko = do {
     app_ui_set_error stage code;
     app_rollback_transaction patched_or_mariko;
     State_Monad.return ()
   }"

definition app_abort :: "string \<Rightarrow> nat \<Rightarrow> bool \<Rightarrow> unit prog" where
  "app_abort stage code patched_or_mariko = do {
     app_ui_set_error stage code;
     abort_before_changes patched_or_mariko
   }"

text \<open>
  The body of \<^verbatim>\<open>aio_app_update_run\<close> from the bottom up: the installation proper, entered with
  the journal at \<^verbatim>\<open>BACKUP_COMPLETE\<close>, in three parts; the backup phase before it; the checks before both; the
  dispatch on the journal.
\<close>

definition app_run_copied :: "bool \<Rightarrow> unit prog" where
  "app_run_copied p = do {
     app_ui_draw_progress (Some ''Verifying installation'') 90
       (Some ''Checking the installed AIO MOD NRO...'');
     ok \<leftarrow> app_file_sizes_match APP_NEW_NRO APP_TARGET_NRO;
     if \<not> ok then app_roll ''INSTALL-VERIFY'' FR_DISK_ERR p
     else do {
       res \<leftarrow> app_write_state STATE_COPY_COMPLETE;
       if res \<noteq> FR_OK then app_roll ''JOURNAL-INSTALL'' FR_DISK_ERR p
       else app_commit_transaction p
     }
   }"

definition app_run_copy :: "bool \<Rightarrow> unit prog" where
  "app_run_copy p = do {
     ui_begin_copy (Some ''Installing new AIO MOD'')
       (Some ''Replacing the application outside Horizon...'') 42 43;
     res \<leftarrow> copy_verified APP_NEW_NRO APP_TARGET_NRO;
     ui_end_copy;
     if res \<noteq> FR_OK then app_roll ''INSTALL'' res p
     else app_run_copied p
   }"

definition app_run_install :: "bool \<Rightarrow> unit prog" where
  "app_run_install p = do {
     app_ui_draw_progress (Some ''Verifying backup'') 38 (Some ''Checking the recovery copy...'');
     ok \<leftarrow> valid_nonempty_file APP_BACKUP_NRO;
     ok \<leftarrow> (if ok then app_file_sizes_match APP_BACKUP_NRO APP_TARGET_NRO
            else State_Monad.return False);
     if \<not> ok then app_roll ''BACKUP-VERIFY'' FR_DISK_ERR p
     else do {
       res \<leftarrow> app_write_state STATE_COPY_IN_PROGRESS;
       if res \<noteq> FR_OK then app_roll ''JOURNAL-INSTALL'' FR_DISK_ERR p
       else app_run_copy p
     }
   }"

definition app_run_unknown :: "bool \<Rightarrow> unit prog" where
  "app_run_unknown p = do {
     app_ui_set_error ''UNKNOWN-STATE'' 1;
     ok \<leftarrow> valid_nonempty_file APP_BACKUP_NRO;
     if ok then do { app_rollback_transaction p; State_Monad.return () }
     else abort_before_changes p
   }"

definition app_run_backup :: "string option \<Rightarrow> bool \<Rightarrow> unit prog" where
  "app_run_backup state p =
    (if state_is state STATE_BACKUP_IN_PROGRESS then do {
       res \<leftarrow> prepare_backup;
       if res \<noteq> FR_OK then app_abort ''BACKUP'' res p
       else do {
         res \<leftarrow> app_write_state STATE_BACKUP_COMPLETE;
         if res \<noteq> FR_OK then app_abort ''JOURNAL-BACKUP'' FR_DISK_ERR p
         else app_run_install p
       }
     }
     else if state_is state STATE_BACKUP_COMPLETE then app_run_install p
     else app_run_unknown p)"

definition app_run_staged :: "string option \<Rightarrow> bool \<Rightarrow> unit prog" where
  "app_run_staged state p = do {
     app_ui_draw_progress (Some ''Validating update'') 8
       (Some ''Checking the prepared AIO MOD package...'');
     file_status \<leftarrow> nonempty_file_status APP_NEW_NRO;
     if file_status \<noteq> FR_OK then
       (if state_is state STATE_STAGED then app_abort ''PACKAGE'' file_status p
        else app_roll ''PACKAGE'' file_status p)
     else do {
       file_status \<leftarrow> nonempty_file_status APP_TARGET_NRO;
       if file_status \<noteq> FR_OK then do {
         app_ui_set_error ''INSTALLED-NRO'' file_status;
         ok \<leftarrow> valid_nonempty_file APP_BACKUP_NRO;
         if ok then do { app_rollback_transaction p; State_Monad.return () }
         else abort_before_changes p
       }
       else do {
         app_ui_draw_progress (Some ''Validating update'') 10 (Some ''AIO MOD package verified.'');
         if state_is state STATE_STAGED then do {
           res \<leftarrow> app_write_state STATE_BACKUP_IN_PROGRESS;
           if res \<noteq> FR_OK then app_abort ''JOURNAL-BACKUP'' FR_DISK_ERR p
           else app_run_backup (Some STATE_BACKUP_IN_PROGRESS) p
         }
         else app_run_backup state p
       }
     }
   }"

definition app_run_dispatch :: "string option \<Rightarrow> bool \<Rightarrow> unit prog" where
  "app_run_dispatch state p =
    (if state_is state STATE_COMMIT_IN_PROGRESS then do {
       app_ui_draw_progress (Some ''Finalizing update'') 96 (Some ''Resuming final cleanup...'');
       ok \<leftarrow> restore_boot_payload_if_needed p;
       if \<not> ok then app_fatal_last_error
       else do {
         res \<leftarrow> cleanup_transaction p;
         (if res \<noteq> FR_OK then app_upd (\<lambda>g. g\<lparr>g_commit_warning_code := res\<rparr>)
          else State_Monad.return ());
         app_boot_installed_cfw p
       }
     }
     else if state_is state STATE_ROLLBACK_COMPLETE then do {
       app_ui_draw_progress (Some ''Finalizing recovery'') 94 (Some ''Resuming recovery cleanup...'');
       ok \<leftarrow> restore_boot_payload_if_needed p;
       if \<not> ok then app_fatal_last_error
       else do {
         res \<leftarrow> cleanup_transaction p;
         (if res \<noteq> FR_OK then app_ui_set_error ''ROLLBACK-CLEANUP'' res
          else State_Monad.return ());
         app_ui_rollback_success_wait;
         app_boot_installed_cfw_now p
       }
     }
     else if state_is state STATE_ROLLBACK_IN_PROGRESS then app_roll ''ROLLBACK-RESUME'' 0 p
     else if state_is state STATE_COPY_IN_PROGRESS then do {
       app_ui_set_error ''INSTALL-INTERRUPTED'' 0;
       app_ui_draw_progress (Some ''Interrupted update detected'') 30
         (Some ''Restoring the previous AIO MOD...'');
       app_rollback_transaction p;
       State_Monad.return ()
     }
     else if state_is state STATE_COPY_COMPLETE then app_commit_transaction p
     else app_run_staged state p)"

definition aio_app_update_run :: "bool \<Rightarrow> unit prog" where
  "aio_app_update_run patched_or_mariko = do {
     app_ui_draw_progress (Some ''Preparing AIO MOD update'') 5 (Some ''Reading update journal...'');
     state \<leftarrow> app_read_state 64;
     ready \<leftarrow> (if state = None then path_exists APP_UPDATE_READY else State_Monad.return False);
     if state = None \<and> ready then do {
       res \<leftarrow> app_write_state STATE_STAGED;
       if res \<noteq> FR_OK then app_abort ''JOURNAL'' FR_DISK_ERR patched_or_mariko
       else app_run_dispatch (Some STATE_STAGED) patched_or_mariko
     }
     else if state = None then do {
       backup \<leftarrow> valid_nonempty_file APP_BACKUP_NRO;
       if backup then app_roll ''JOURNAL'' FR_INVALID_OBJECT patched_or_mariko
       else app_abort ''STATE'' 1 patched_or_mariko
     }
     else app_run_dispatch state patched_or_mariko
   }"

end
