(* ===== verification/Copy_Frame.thy ===== *)
theory Copy_Frame
  imports Fs_Copy
begin

text \<open>
  Which parts of the card the copy and delete engine can touch, whatever the schedule of
  faults: a copy changes nothing outside its destination, and a deletion nothing outside the
  deleted tree.
\<close>

definition copy_fils :: "path \<Rightarrow> FIL \<Rightarrow> FIL \<Rightarrow> bool" where
  "copy_fils p inp outp = (good_fil inp \<and> \<not> modified inp \<and> fil_path outp = p)"

lemma copy_filsI:
  "good_fil inp \<Longrightarrow> \<not> modified inp \<Longrightarrow> fil_path outp = p \<Longrightarrow>
     fil_path i = fil_path inp \<and> modified i = modified inp \<Longrightarrow> fil_path out = fil_path outp \<Longrightarrow>
     copy_fils p i out"
  by (auto simp: copy_fils_def good_fil_def)

lemma keeps_copy_loop:
  assumes out: "apart (path_keys locout) q"
  shows "copy_fils (path_keys locout) inp outp \<Longrightarrow>
    keeps_val M q (\<lambda>(r, i, out). copy_fils (path_keys locout) i out)
    (copy_loop locin locout options prt x y bufsz totalsize remaining last_pct inp outp)"
proof (induction remaining arbitrary: last_pct inp outp rule: less_induct)
  case (less remaining)
  show ?case
  proof (cases "remaining = 0 \<or> bufsz = 0")
    case True
    with less.prems show ?thesis
      by (subst copy_loop.simps) (simp add: keeps_return_val)
  next
    case False
    have step: "copy_fils (path_keys locout) i out"
      if "fil_path i = fil_path inp \<and> modified i = modified inp" "fil_path out = fil_path outp" for i out
      using less.prems that by (auto simp: copy_fils_def good_fil_def)
    show ?thesis
      apply (subst copy_loop.simps)
      apply (subst if_not_P [OF False])
      apply ((rule keeps_binds keeps_if keeps_let keeps_return_val out
            | (rule keeps_bind_quiet, (simp; fail)) | (rule less.IH)
            | (use False in \<open>simp add: step; fail\<close>))+)
      done
  qed
qed

lemmas keeps_bind_copy_loop = keeps_bind3 [OF keeps_copy_loop]

lemma keeps_FileCopy [keeps_intros]:
  assumes "apart (path_keys locout) q"
  shows "keeps M q (FileCopy locin locout options)"
  unfolding FileCopy_def
  by ((rule keeps_prod keeps_if keeps_let keeps_return assms keeps_bind_copy_loop keeps_binds
        | (rule keeps_bind_quiet, (simp; fail))
        | rule keeps_bind keeps_f_chmod
        | (simp add: assms copy_fils_def good_fil_path_keys; fail))+)

lemma keeps_read_entries:
  "\<forall>i \<in> set is. good_name (fname i) \<Longrightarrow>
     keeps_val M q (\<lambda>(r, out). \<forall>e \<in> set out. good_name (entry_name e)) (read_entries is)"
proof (induction "is")
  case Nil
  show ?case by (auto intro!: keeps_binds keeps_return_val)
next
  case (Cons i "is")
  then have IH: "keeps_val M q (\<lambda>(r, out). \<forall>e \<in> set out. good_name (entry_name e)) (read_entries is)"
    by simp
  have "entry_name (new_entry i) = fname i" for i
    by (simp add: new_entry_def Let_def case_prod_beta)
  then show ?case
    using Cons.prems unfolding read_entries.simps
    by (intro keeps_bind2 [OF keeps_f_readdir] keeps_if keeps_return_val keeps_bind2 [OF IH]) auto
qed

lemma keeps_ReadFolder:
  "keeps_val M q (\<lambda>(r, out). \<forall>e \<in> set out. good_name (entry_name e)) (ReadFolder path)"
  unfolding ReadFolder_def
  by (intro keeps_bind2 [OF keeps_f_opendir] keeps_if keeps_return_val keeps_read_entries) auto

lemmas keeps_bind_ReadFolder [keeps_binds] = keeps_bind2 [OF keeps_ReadFolder]

lemma keeps_FolderDelete_fuel:
  "apart (path_keys path) q \<Longrightarrow> keeps M q (FolderDelete_fuel n path)"
proof (induction n arbitrary: path)
  case 0
  show ?case by (auto intro!: keeps_intros)
next
  case (Suc n)
  have body: "keeps M q (if isDir e then FolderDelete_fuel n (CombinePaths path (entry_name e))
         else do {
           gfx [Puts_limit (entry_name e) (name_limit x)];
           BoxRestOfScreen;
           res \<leftarrow> f_unlink (CombinePaths path (entry_name e));
           gfx [SetPos x y];
           State_Monad.return res
         })" if "good_name (entry_name e)" for e x y
    by ((rule keeps_if keeps_binds keeps_return Suc.IH
          | (rule keeps_bind_quiet, (simp; fail))
          | (use that Suc.prems in \<open>simp add: path_keys_CombinePaths apart_append; fail\<close>))+)
  show ?case
    unfolding FolderDelete_fuel.simps
    by ((rule keeps_prod keeps_if keeps_binds keeps_return keeps_f_unlink body
          | rule keeps_bind keeps_for_ok | (use Suc.prems in \<open>simp; fail\<close>))+)
qed

lemma keeps_FolderDelete [keeps_intros]: "apart (path_keys path) q \<Longrightarrow> keeps M q (FolderDelete path)"
  unfolding FolderDelete_def by (intro keeps_bind_ask keeps_FolderDelete_fuel)

end
