(* ===== verification/Journal_Logic.thy ===== *)
theory Journal_Logic
  imports Journal Copy_Frame
begin

text \<open>
  The update journal as a data structure on the card: the file \<^verbatim>\<open>state\<close> and its shadow
  \<^verbatim>\<open>state.tmp\<close>. The locale \<open>journal_writer\<close> is the interface \<^verbatim>\<open>write_state\<close> relies on: a routine
  that removes a path and a routine that writes one line through an open handle. Its lemmas
  say what a reader of the journal finds when the power fails at any point of \<^verbatim>\<open>write_state\<close>.
  Both updaters provide the interface.
\<close>

section \<open>What a reader finds\<close>

definition entry_of :: "node option \<Rightarrow> string option" where
  "entry_of x =
    (case x of
       Some (File a c) \<Rightarrow> (let l = journal_line (take 63 c) in if l = [] then None else Some l)
     | _ \<Rightarrow> None)"

definition read_line :: "path \<Rightarrow> node \<Rightarrow> string option" where
  "read_line p v =
    (case file_at p v of
       None \<Rightarrow> None
     | Some c \<Rightarrow> (let l = journal_line (take 63 c) in if l = [] then None else Some l))"

text \<open>An object that \<^verbatim>\<open>f_unlink\<close> can remove and \<^verbatim>\<open>FA_CREATE_ALWAYS\<close> can replace, or nothing.\<close>

definition plain :: "node option \<Rightarrow> bool" where
  "plain x = (case x of None \<Rightarrow> True | Some n \<Rightarrow> \<not> is_dir n \<and> \<not> read_only n)"

text \<open>Entries that fit the 64-byte buffer of the reader and hold no line end.\<close>

definition entry_ok :: "string \<Rightarrow> bool" where
  "entry_ok s = (s \<noteq> [] \<and> length s < 63 \<and> journal_line s = s)"

lemma read_line_get_at: "get_at p v = x \<Longrightarrow> read_line p v =
    (case x of Some (File a c) \<Rightarrow> (let l = journal_line (take 63 c) in if l = [] then None else Some l) | _ \<Rightarrow> None)"
  by (auto simp: read_line_def file_at_def split: option.splits node.splits)

lemma read_line_entry_of: "read_line p v = entry_of (get_at p v)"
  by (auto simp: read_line_def entry_of_def file_at_def split: option.splits node.splits)

lemma read_line_None [simp]: "get_at p v = None \<Longrightarrow> read_line p v = None"
  by (simp add: read_line_get_at)

lemma read_line_entry:
  assumes "entry_ok s" and "get_at p v = Some (File a (s @ [CHR 0x0A]))"
  shows "read_line p v = Some s"
proof -
  have s: "\<forall>c \<in> set s. c \<noteq> CHR 0x00 \<and> c \<noteq> CHR 0x0D \<and> c \<noteq> CHR 0x0A"
    using assms(1) by (auto simp: entry_ok_def journal_line_def takeWhile_eq_all_conv)
  then have "journal_line (s @ [CHR 0x0A]) = s"
    by (simp add: journal_line_def takeWhile_append2)
  with assms show ?thesis
    by (auto simp: read_line_get_at entry_ok_def)
qed

lemma entry_of_entry: "entry_ok s \<Longrightarrow> entry_of (Some (File a (s @ [CHR 0x0A]))) = Some s"
  using read_line_entry [of s "[]" "File a (s @ [CHR 0x0A])" a] by (simp add: read_line_entry_of)

lemma read_line_file: "read_line p v = Some s \<Longrightarrow> \<exists>a c. get_at p v = Some (File a c)"
  by (auto simp: read_line_def file_at_iff split: option.splits)

lemma apart_read_line [simp]: "p \<parallel> q \<Longrightarrow> apart p (read_line q)"
  unfolding read_line_def by (rule apart_compose) simp

lemma apart_new_read_line [simp]: "\<not> prefix q p \<Longrightarrow> apart_new p (read_line q)"
  unfolding read_line_def file_at_def by (rule apart_new_compose) simp

section \<open>Calls that the journal makes\<close>

lemma keeps_mkdir_if_needed [keeps_intros]:
  "apart_new (path_keys s) q \<Longrightarrow> keeps M q (mkdir_if_needed s)"
  unfolding mkdir_if_needed_def by ((rule keeps_binds keeps_return | assumption)+)

lemma triple_mkdir_if_needed:
  assumes "path_keys s = [r]" and "apart_new [r] F"
  shows "triple M (\<lambda>h v. F v \<and> (M \<longrightarrow> get_at [r] v = None \<or> dir_at [r] v))
    (\<lambda>v. F v \<and> (M \<longrightarrow> is_dir v \<and> (get_at [r] v = None \<or> dir_at [r] v)))
    (mkdir_if_needed s) (\<lambda>e v. F v \<and> (M \<longrightarrow> e = FR_OK \<and> dir_at [r] v))"
proof -
  have dir: "dir_at [r] (put_at [r] (Dir a []) v)" if "is_dir v" for a v
    using that get_at_put_at [of "[r]" v "Dir a []"]
    by (simp add: dir_at_def room_at_def)
  have act: "F (snd (mkdir_act [r] v)) = F v" "wf_node v \<Longrightarrow> wf_node (snd (mkdir_act [r] v))" for v
    using mkdir_act_apart [OF assms(2)] mkdir_act_frame [of v s] assms(1) by auto
  have root: "is_dir v \<Longrightarrow> get_at [r] v = None \<or> dir_at [r] v \<Longrightarrow>
      fst (mkdir_act [r] v) \<in> {FR_OK, FR_EXIST} \<and> dir_at [r] (snd (mkdir_act [r] v))" for v
    by (cases "get_at [r] v")
      (simp_all add: mkdir_act_def follow_path_def dir_at_Nil_iff dir)
  show ?thesis
    unfolding mkdir_if_needed_def f_mkdir_def dir_op_def assms(1)
    by (rule triple_bind [OF triple_disk
          [where Q = "\<lambda>e v. F v \<and> (M \<longrightarrow> (e = FR_OK \<or> e = FR_EXIST) \<and> dir_at [r] v)"]])
      (use root in \<open>auto simp: act intro!: triple_return\<close>)
qed

lemma triple_f_stat:
  assumes "path_keys s = p" and "p \<noteq> []" and "\<And>v. P v \<Longrightarrow> C Power_Lost v"
  shows "triple M C (\<lambda>v. P v \<and> get_at p v = x) (f_stat s)
    (\<lambda>(r, i) v. (P v \<and> get_at p v = x) \<and>
       (r = FR_OK \<longrightarrow> (\<exists>n. x = Some n \<and> i = get_fileinfo (last p) n)) \<and>
       (r = FR_NO_FILE \<or> r = FR_NO_PATH \<longrightarrow> x = None) \<and>
       (M \<longrightarrow> r = FR_OK \<or> r = FR_NO_FILE \<or> r = FR_NO_PATH))"
  unfolding f_stat_def assms(1)
  by (rule triple_disk)
    (use assms in \<open>auto simp: stat_act_def follow_path_def split: option.splits\<close>)

lemma fattrib_dir [simp]: "bit (fattrib (get_fileinfo k n)) 4 = is_dir n"
  by (cases n) (simp_all add: bit_simps)

lemma triple_f_unlink_file:
  assumes p: "path_keys s = p" "p \<noteq> []"
  shows "triple M (\<lambda>h v. get_at p v = Some (File a c) \<or> get_at p v = None)
    (\<lambda>v. get_at p v = Some (File a c)) (f_unlink s)
    (\<lambda>e v. (get_at p v = Some (File a c) \<or> get_at p v = None) \<and> (e = FR_OK \<longrightarrow> get_at p v = None) \<and>
       e \<noteq> FR_NO_FILE \<and> (M \<longrightarrow> \<not> bit a 0 \<longrightarrow> e = FR_OK))"
proof -
  have act: "unlink_act p v = (if bit a 0 then (FR_DENIED, v) else (FR_OK, del_at p v))"
    if "get_at p v = Some (File a c)" for v
    using that p by (simp add: unlink_act_def follow_path_def)
  have wf: "wf_node v \<Longrightarrow> wf_node (del_at p v)" for v
    using wf_del_at [of v p] good_path_keys [of s] p by simp
  show ?thesis
    unfolding f_unlink_def dir_op_def p
    by (rule triple_disk) (auto simp: act wf get_at_del_at p dest: io_err_pos)
qed

lemma triple_f_write:
  assumes "ferr fp = FR_OK" and "writable fp" and "\<And>v. P v \<Longrightarrow> C Power_Lost v"
  shows "triple M C P (f_write fp s) (\<lambda>(r, n, fp') v. P v \<and> (M \<longrightarrow> r = FR_OK \<and> n = length s))"
  unfolding f_write_def
  by (rule triple_disk) (use assms in \<open>auto simp: write_act_def\<close>)

lemma yields_f_write:
  assumes "ferr fp = FR_OK" and "writable fp"
  shows "yields (\<lambda>(r, n, fp'). fil_path fp' = fil_path fp \<and>
       (r = FR_OK \<longrightarrow> n = length s \<longrightarrow> fp' = append_fil fp s)) (f_write fp s)"
  unfolding f_write_def
  by (rule yields_disk) (use assms in \<open>auto simp: write_act_def append_fil_def min_def split: if_splits\<close>)

text \<open>
  A file that is being written: an ordinary file whose contents on the card are one of \<open>X\<close>.
\<close>

definition written :: "path \<Rightarrow> string set \<Rightarrow> node \<Rightarrow> bool" where
  "written p X v = (\<exists>c \<in> X. get_at p v = Some (File AM_ARC c))"

lemma written_mono: "written p X v \<Longrightarrow> X \<subseteq> Y \<Longrightarrow> written p Y v"
  by (auto simp: written_def)

lemma commit_fil_written:
  assumes "written p X v" and "fil_path fp = p" and "p \<noteq> []"
  shows "c \<in> X \<Longrightarrow> written p X (commit_fil fp c v)"
    and "modified fp \<Longrightarrow> get_at p (commit_fil fp c v) = Some (File AM_ARC c)"
proof -
  from assms obtain c' where c': "c' \<in> X" "get_at p v = Some (File AM_ARC c')" by (auto simp: written_def)
  moreover have "get_at p (put_at p n v) = Some n" for n
    using c' assms(3) by (simp add: get_at_put_at get_at_room)
  ultimately show "c \<in> X \<Longrightarrow> written p X (commit_fil fp c v)"
    and "modified fp \<Longrightarrow> get_at p (commit_fil fp c v) = Some (File AM_ARC c)"
    using assms(2) by (auto simp: commit_fil_def written_def)
qed

text \<open>The contents an interrupted \<^verbatim>\<open>f_sync\<close> may leave: whole sectors.\<close>

definition sectors :: "string \<Rightarrow> string set" where
  "sectors c = {take (512 * k) c | k. True}"

lemma sectors_self: "c \<in> sectors c"
  unfolding sectors_def by (intro CollectI exI [of _ "length c"]) simp

lemma sectors_short: "length c \<le> 512 \<Longrightarrow> sectors c \<subseteq> {[], c}"
proof
  fix x
  assume "length c \<le> 512" and "x \<in> sectors c"
  then obtain k where "x = take (512 * k) c" by (auto simp: sectors_def)
  with \<open>length c \<le> 512\<close> show "x \<in> {[], c}" by (cases k) auto
qed

lemma triple_f_sync:
  assumes "fil_path fp = p" and "path_keys t = p" and "p \<noteq> []" and "sectors (fdata fp) \<subseteq> X"
  shows "triple M (\<lambda>h. written p X) (written p X) (f_sync fp)
    (\<lambda>(r, fp') v. written p X v \<and> (M \<longrightarrow> r = FR_OK) \<and>
       (r = FR_OK \<longrightarrow> modified fp \<longrightarrow> get_at p v = Some (File AM_ARC (fdata fp))))"
proof -
  have "good_fil fp" using assms good_path_keys [of t] by (simp add: good_fil_def)
  moreover have "fdata fp \<in> X" "take (512 * k) (fdata fp) \<in> X" for k
    using assms(4) sectors_self [of "fdata fp"] by (auto simp: sectors_def)
  ultimately show ?thesis
    unfolding f_sync_def
    by (intro triple_disk)
      (auto simp: commit_fil_written [OF _ assms(1,3)] commit_fil_frame(1))
qed

lemma yields_f_sync:
  "yields (\<lambda>(r, fp'). fil_path fp' = fil_path fp \<and> fdata fp' = fdata fp \<and>
     (r = FR_OK \<longrightarrow> \<not> modified fp')) (f_sync fp)"
  unfolding f_sync_def by (rule yields_disk) auto

text \<open>Closing a handle: one that was synchronised changes nothing.\<close>

lemma triple_f_close:
  assumes "fil_path fp = p" and "path_keys t = p" and "p \<noteq> []" and "sectors (fdata fp) \<subseteq> X"
  shows "triple M (\<lambda>h. written p X) (written p X) (f_close fp)
    (\<lambda>r v. written p X v \<and> (M \<longrightarrow> r = FR_OK) \<and>
       (r = FR_OK \<longrightarrow> modified fp \<longrightarrow> get_at p v = Some (File AM_ARC (fdata fp))))"
  unfolding f_close_def
  by (rule triple_bind2 [OF triple_f_sync [OF assms]]) (rule triple_return)

lemma triple_f_close_clean:
  assumes "\<not> modified fp" and "\<And>v. P v \<Longrightarrow> C Power_Lost v"
  shows "triple M C P (f_close fp) (\<lambda>r v. P v \<and> (M \<longrightarrow> r = FR_OK))"
  unfolding f_close_def f_sync_def commit_fil_frame(3) [OF assms(1)] if_cancel
  by (rule triple_bind2 [OF triple_disk [where Q = "\<lambda>(r, fp) v. P v \<and> (M \<longrightarrow> r = FR_OK)"]])
    (use assms(2) in \<open>auto intro: triple_return\<close>)

lemma plain_AM_ARC [simp]: "plain (Some (File AM_ARC c))"
  by (simp add: plain_def AM_ARC_def bit_numeral_rec)

lemma triple_f_open_create:
  assumes "path_keys s = p" and "apart p F" and "Y (Some (File AM_ARC []))"
  shows "triple M (\<lambda>h v. F v \<and> (M \<longrightarrow> Y (get_at p v)))
    (\<lambda>v. F v \<and> (M \<longrightarrow> room_at p v \<and> plain (get_at p v) \<and> Y (get_at p v)))
    (f_open s FA_CREATE_ALWAYS_WRITE)
    (\<lambda>(r, fp) v. F v \<and> (M \<longrightarrow> r = FR_OK) \<and>
       (r = FR_OK \<longrightarrow> fp = new_fil p \<and> get_at p v = Some (File AM_ARC [])))"
proof -
  have F: "F (put_at p n v) = F v" for n v by (rule apart_put_at [OF assms(2)])
  have wf: "wf_node v \<Longrightarrow> wf_node (snd (open_create_act p v))" for v
    using open_create_act_frame(1) [of v s] assms(1) by simp
  have ok: "fst (fst (open_create_act p v)) = FR_OK \<Longrightarrow>
      snd (fst (open_create_act p v)) = new_fil p \<and>
      get_at p (snd (open_create_act p v)) = Some (File AM_ARC [])" for v
    by (auto simp: open_create_act_def get_at_put_at get_at_room split: follow.splits if_splits
        dest!: follow_FoundD follow_No_FileD)
  have steady_ok: "room_at p v \<Longrightarrow> plain (get_at p v) \<Longrightarrow> fst (fst (open_create_act p v)) = FR_OK" for v
    by (auto simp: open_create_act_def follow_path_room plain_def split: option.splits)
  show ?thesis
    unfolding f_open_def open_mode.case assms(1)
    apply (rule triple_disk)
    subgoal for v
      using ok [of v] steady_ok [of v] wf [of v]
      by (auto simp: F open_create_act_def split: follow.splits prod.splits if_splits)
    subgoal for k v
      using ok [of v] steady_ok [of v] wf [of v] assms(3)
      by (auto simp: F open_create_act_def split: follow.splits if_splits)
    subgoal for e k v
      by (auto simp: F open_create_act_def split: follow.splits if_splits)
    subgoal for v by auto
    done
qed

lemma triple_f_rename:
  assumes "path_keys s = p" and "path_keys t = q" and "p \<parallel> q" and "entry = File AM_ARC c"
  shows "triple M
    (\<lambda>h v. (get_at q v = x \<and> get_at p v = Some entry) \<or> (get_at q v = Some entry \<and> get_at p v = None))
    (\<lambda>v. get_at q v = x \<and> get_at p v = Some entry \<and> (M \<longrightarrow> x = None \<and> room_at q v))
    (f_rename s t)
    (\<lambda>r v. (r \<noteq> FR_OK \<and> \<not> M \<and> get_at q v = x \<and> get_at p v = Some entry) \<or>
           ((M \<longrightarrow> r = FR_OK) \<and> get_at q v = Some entry \<and> get_at p v = None))"
proof -
  let ?R = "\<lambda>r v. (r \<noteq> FR_OK \<and> \<not> M \<and> get_at q v = x \<and> get_at p v = Some entry) \<or>
           ((M \<longrightarrow> r = FR_OK) \<and> get_at q v = Some entry \<and> get_at p v = None)"
  have pq: "p \<noteq> q" "p \<noteq> []" "q \<noteq> []"
    using assms(3) by auto
  have moved: "get_at q (put_at q entry (del_at p v)) = Some entry \<and>
      get_at p (put_at q entry (del_at p v)) = None" if "room_at q v" for v
    using fat.look_move_new [OF assms(3) that] fat.look_move_old [OF assms(3)]
    unfolding fat.move_def by simp
  have entry: "renamed entry = entry"
    by (simp add: assms(4))
  have act: "?R (fst (rename_act p q v)) (snd (rename_act p q v))"
    if "get_at q v = x" "get_at p v = Some entry" "M \<longrightarrow> x = None \<and> room_at q v" for v
    using that moved [of v] pq
    by (cases "follow_path q v")
      (auto simp: rename_act_def entry follow_path_def [of p] follow_path_room
        dest: follow_FoundD follow_No_FileD)
  have wf: "wf_node v \<Longrightarrow> wf_node (snd (rename_act p q v))" for v
    using rename_act_frame(1) [of v s t] assms(1,2) by simp
  show ?thesis
    unfolding f_rename_def dir_op_def assms(1,2)
    apply (rule triple_disk)
    subgoal for v using act [of v] wf [of v] by auto
    subgoal for k v using act [of v] wf [of v] by auto
    subgoal for e k v using act [of v] by auto
    subgoal for v by auto
    done
qed

section \<open>The interface of the journal writer\<close>

text \<open>
  What an interrupted write of the line \<open>s\<close> may leave: on a steady machine nothing or the whole
  line, otherwise anything.
\<close>

definition torn :: "bool \<Rightarrow> string \<Rightarrow> string set" where
  "torn M s = (if M then {[], s @ [CHR 0x0A]} else UNIV)"

text \<open>
  \<open>sound\<close> says for which machines the writer reports a line that did not reach the card whole:
  the application updater checks every count of bytes written, the firmware updater does not
  and is only sound on a steady machine.
\<close>

locale journal_writer =
  fixes rm :: "string \<Rightarrow> FRESULT prog"
    and write_line :: "FIL \<Rightarrow> string \<Rightarrow> FRESULT prog"
    and root st tmp :: string
    and r a b :: string
    and sound :: "bool \<Rightarrow> bool"
  assumes rm_keeps: "apart (path_keys s) (q :: node \<Rightarrow> bool) \<Longrightarrow> keeps M q (rm s)"
    and rm_file: "path_keys s = p \<Longrightarrow> p \<noteq> [] \<Longrightarrow> x = None \<or> (\<exists>a c. x = Some (File a c)) \<Longrightarrow>
      triple M (\<lambda>h v. get_at p v = x \<or> get_at p v = None) (\<lambda>v. get_at p v = x) (rm s)
        (\<lambda>e v. (get_at p v = x \<or> get_at p v = None) \<and> (e = FR_OK \<longrightarrow> get_at p v = None) \<and>
               (M \<longrightarrow> plain x \<longrightarrow> e = FR_OK))"
    and line_keeps: "fil_path fp = path_keys t \<Longrightarrow> apart (path_keys t) (q :: node \<Rightarrow> bool) \<Longrightarrow> keeps M q (write_line fp s)"
    and line_ok: "path_keys t = p \<Longrightarrow> p \<noteq> [] \<Longrightarrow> length s < 512 \<Longrightarrow> sound M \<Longrightarrow>
      triple M (\<lambda>h. written p (torn M s))
      (\<lambda>v. get_at p v = Some (File AM_ARC [])) (write_line (new_fil p) s)
      (\<lambda>e v. written p (torn M s) v \<and> (M \<longrightarrow> e = FR_OK) \<and>
             (e = FR_OK \<longrightarrow> get_at p v = Some (File AM_ARC (s @ [CHR 0x0A]))))"
    and paths: "path_keys root = [r]" "path_keys st = [r, a]" "path_keys tmp = [r, b]" "a \<noteq> b"
begin

definition write_state :: "string \<Rightarrow> FRESULT prog" where
  "write_state state = do {
     res \<leftarrow> mkdir_if_needed root;
     if res \<noteq> FR_OK then State_Monad.return res
     else do {
       rm tmp;
       (res, fp) \<leftarrow> f_open tmp FA_CREATE_ALWAYS_WRITE;
       if res \<noteq> FR_OK then State_Monad.return res
       else do {
         res \<leftarrow> write_line fp state;
         if res \<noteq> FR_OK then State_Monad.return res
         else do {
           res \<leftarrow> rm st;
           if res \<noteq> FR_OK then State_Monad.return res
           else f_rename tmp st
         }
       }
     }
   }"

text \<open>The reader prefers \<^verbatim>\<open>state\<close> and falls back to \<^verbatim>\<open>state.tmp\<close>.\<close>

definition journal :: "node \<Rightarrow> string option" where
  "journal v = (case read_line [r, a] v of Some s \<Rightarrow> Some s | None \<Rightarrow> read_line [r, b] v)"

text \<open>A card on which the journal can be written.\<close>

definition fit :: "node \<Rightarrow> bool" where
  "fit v = (is_dir v \<and> (get_at [r] v = None \<or> dir_at [r] v) \<and> plain (get_at [r, a] v) \<and> plain (get_at [r, b] v))"

lemma write_state_keeps:
  fixes q :: "node \<Rightarrow> bool"
  assumes "apart [r, a] q" and "apart [r, b] q" and "apart_new [r] q"
  shows "keeps M q (write_state s)"
  unfolding write_state_def
  by ((rule keeps_bind_fatfs(2) keeps_if keeps_return keeps_f_rename
      | rule keeps_bind [OF rm_keeps] keeps_bind [OF line_keeps] keeps_bind [OF keeps_mkdir_if_needed]
      | assumption | (simp add: assms paths; fail))+)

text \<open>
  The entry of the journal while \<^verbatim>\<open>write_state\<close> runs: \<open>j\<close>, what \<^verbatim>\<open>state\<close> held before, if it held a
  valid entry, or the new one. \<open>M\<close> selects the steady machine, on which the call succeeds and
  neither file ever holds anything but its old entry \<open>j\<close> or \<open>t\<close>, no entry or the new one.
\<close>

definition between :: "string option \<Rightarrow> string \<Rightarrow> node \<Rightarrow> bool" where
  "between j s v = (j \<noteq> None \<longrightarrow> journal v = j \<or> journal v = Some s)"

definition tmp_ok :: "string option \<Rightarrow> string \<Rightarrow> node option \<Rightarrow> bool" where
  "tmp_ok t s x = (plain x \<and> entry_of x \<in> {t, None, Some s})"

definition calm :: "string option \<Rightarrow> string option \<Rightarrow> string \<Rightarrow> node \<Rightarrow> bool" where
  "calm j t s v = (fit v \<and> read_line [r, a] v \<in> {j, None, Some s} \<and> read_line [r, b] v \<in> {t, None, Some s})"

abbreviation opened :: "bool \<Rightarrow> string option \<Rightarrow> node \<Rightarrow> bool" where
  "opened M j v \<equiv> read_line [r, a] v = j \<and> (M \<longrightarrow> plain (get_at [r, a] v) \<and> dir_at [r] v)"

lemma opened_apart: "apart [r, b] (opened M j)"
proof -
  have ab: "[r, b] \<parallel> [r, a]" using paths(4) by auto
  then have "apart [r, b] (read_line [r, a])" "apart [r, b] (get_at [r, a])" "apart [r, b] (dir_at [r])"
    by simp_all
  then show ?thesis by (simp add: apart_def)
qed

lemma dir_root: "dir_at [r] v \<Longrightarrow> is_dir v \<and> room_at [r, a] v \<and> room_at [r, b] v"
  by (cases v) (auto simp: dir_at_def room_at_def)

lemma opened_calm: "opened M j v \<Longrightarrow> M \<Longrightarrow> tmp_ok t s (get_at [r, b] v) \<Longrightarrow> calm j t s v"
  using dir_root [of v] by (auto simp: calm_def fit_def tmp_ok_def read_line_entry_of)

lemma mkdir_phase:
  "triple M (\<lambda>h v. read_line [r, a] v = j \<and> (M \<longrightarrow> fit v \<and> read_line [r, b] v = t))
    (\<lambda>v. read_line [r, a] v = j \<and> (M \<longrightarrow> fit v \<and> read_line [r, b] v = t)) (mkdir_if_needed root)
    (\<lambda>e v. (M \<longrightarrow> e = FR_OK \<and> tmp_ok t s (get_at [r, b] v)) \<and> opened M j v)"
proof -
  let ?F = "\<lambda>v. read_line [r, a] v = j \<and>
      (M \<longrightarrow> is_dir v \<and> plain (get_at [r, a] v) \<and> plain (get_at [r, b] v) \<and> read_line [r, b] v = t)"
  have "is_dir (put_at [r] n v) = is_dir v" for n v by (cases v) auto
  moreover have "apart_new [r] (read_line [r, a])" "apart_new [r] (get_at [r, a])"
    "apart_new [r] (get_at [r, b])" "apart_new [r] (read_line [r, b])"
    by simp_all
  ultimately have "apart_new [r] ?F" by (simp add: apart_new_def)
  from triple_mkdir_if_needed [OF paths(1) this, of M] show ?thesis
    by (rule triple_weaken) (auto simp: fit_def tmp_ok_def read_line_entry_of)
qed

lemma rm_tmp_phase:
  "triple M (\<lambda>h v. opened M j v \<and> (M \<longrightarrow> tmp_ok t s (get_at [r, b] v)))
    (\<lambda>v. opened M j v \<and> (M \<longrightarrow> tmp_ok t s (get_at [r, b] v))) (rm tmp)
    (\<lambda>_ v. opened M j v \<and> (M \<longrightarrow> tmp_ok t s (get_at [r, b] v)))"
proof (cases M)
  case True
  have "triple M (\<lambda>h v. tmp_ok t s (get_at [r, b] v)) (\<lambda>v. tmp_ok t s (get_at [r, b] v)) (rm tmp)
      (\<lambda>_ v. tmp_ok t s (get_at [r, b] v))"
  proof (rule triple_ghost [where R = "tmp_ok t s"])
    show "keeps M (\<lambda>_. True) (rm tmp)" by (rule rm_keeps) simp
    fix x
    assume x: "tmp_ok t s x"
    then have "x = None \<or> (\<exists>a c. x = Some (File a c))"
      by (auto simp: tmp_ok_def plain_def split: option.splits elim: is_dir.elims)
    from rm_file [OF paths(3) list.distinct(2) this, of M]
    show "triple M (\<lambda>h v. tmp_ok t s (get_at [r, b] v))
        (\<lambda>v. tmp_ok t s (get_at [r, b] v) \<and> get_at [r, b] v = x)
        (rm tmp) (\<lambda>_ v. tmp_ok t s (get_at [r, b] v))"
      by (rule triple_weaken) (use x in \<open>auto simp: tmp_ok_def plain_def entry_of_def\<close>)
  qed
  moreover have "keeps False (opened M j) (rm tmp)"
    using opened_apart by (intro rm_keeps) (simp add: paths)
  ultimately show ?thesis
    by (rule triple_weaken [OF triple_frame]) (auto simp: True)
next
  case False
  have "keeps M (opened M j) (rm tmp)"
    using opened_apart by (intro rm_keeps) (simp add: paths)
  from triple_keeps [OF this] False show ?thesis by simp
qed

lemma open_phase:
  "triple M (\<lambda>h v. opened M j v \<and> (M \<longrightarrow> tmp_ok t s (get_at [r, b] v)))
    (\<lambda>v. opened M j v \<and> (M \<longrightarrow> tmp_ok t s (get_at [r, b] v))) (f_open tmp FA_CREATE_ALWAYS_WRITE)
    (\<lambda>(e, fp) v. opened M j v \<and> (M \<longrightarrow> e = FR_OK) \<and>
       (e = FR_OK \<longrightarrow> fp = new_fil [r, b] \<and> get_at [r, b] v = Some (File AM_ARC [])))"
  by (rule triple_weaken [OF triple_f_open_create [OF paths(3) opened_apart, where Y = "tmp_ok t s"]])
    (auto dest: dir_root simp: tmp_ok_def entry_of_def journal_line_def)

lemma line_phase:
  assumes "entry_ok s" and "sound M"
  shows "triple M (\<lambda>h v. opened M j v \<and> (M \<longrightarrow> tmp_ok t s (get_at [r, b] v)))
    (\<lambda>v. opened M j v \<and> get_at [r, b] v = Some (File AM_ARC [])) (write_line (new_fil [r, b]) s)
    (\<lambda>e v. opened M j v \<and> (M \<longrightarrow> e = FR_OK) \<and>
       (e = FR_OK \<longrightarrow> get_at [r, b] v = Some (File AM_ARC (s @ [CHR 0x0A]))))"
proof -
  have keeps: "keeps False (opened M j) (write_line (new_fil [r, b]) s)"
    using opened_apart
    by (intro line_keeps [where t = tmp]) (simp_all add: paths new_fil_def no_fil_def)
  have len: "length s < 512" using assms(1) by (simp add: entry_ok_def)
  have empty: "entry_of (Some (File AM_ARC [])) = None"
    by (simp add: entry_of_def journal_line_def)
  have ok: "tmp_ok t s x" if "x = Some (File AM_ARC c)" "c \<in> torn M s" M for x c
    using that empty entry_of_entry [OF assms(1)] by (auto simp: torn_def tmp_ok_def)
  from triple_frame [OF line_ok [OF paths(3) list.distinct(2) len assms(2)] keeps] show ?thesis
    by (rule triple_weaken) (use ok in \<open>auto simp: written_def\<close>)
qed

text \<open>The two steps that replace \<^verbatim>\<open>state\<close>, given that \<^verbatim>\<open>state.tmp\<close> holds the new entry.\<close>

definition swapping :: "bool \<Rightarrow> string option \<Rightarrow> string \<Rightarrow> node \<Rightarrow> bool" where
  "swapping M j s v = ((M \<or> j \<noteq> None \<longrightarrow> read_line [r, a] v = j \<or> read_line [r, a] v = None) \<and>
     get_at [r, b] v = Some (File AM_ARC (s @ [CHR 0x0A])) \<and>
     (M \<longrightarrow> dir_at [r] v \<and> plain (get_at [r, a] v)))"

lemma swapping_calm:
  assumes "entry_ok s" and "swapping M j s v" and M
  shows "calm j t s v"
proof -
  have "read_line [r, b] v = Some s"
    using assms by (intro read_line_entry) (auto simp: swapping_def)
  with assms dir_root [of v] show ?thesis by (auto simp: calm_def fit_def swapping_def)
qed

lemma swapping_between: "entry_ok s \<Longrightarrow> swapping M j s v \<Longrightarrow> between j s v"
  by (auto simp: between_def journal_def swapping_def read_line_entry split: option.splits)

lemma rm_state_phase:
  "triple M (\<lambda>h. swapping M j s)
    (\<lambda>v. opened M j v \<and> get_at [r, b] v = Some (File AM_ARC (s @ [CHR 0x0A]))) (rm st)
    (\<lambda>e v. swapping M j s v \<and> (e = FR_OK \<longrightarrow> M \<or> j \<noteq> None \<longrightarrow> get_at [r, a] v = None) \<and> (M \<longrightarrow> e = FR_OK))"
proof -
  have ab: "[r, a] \<parallel> [r, b]" using paths(4) by auto
  let ?F = "\<lambda>v. get_at [r, b] v = Some (File AM_ARC (s @ [CHR 0x0A])) \<and> (M \<longrightarrow> dir_at [r] v)"
  have F: "keeps M' ?F (rm st)" for M'
  proof (rule rm_keeps)
    have "apart [r, a] (get_at [r, b])" "apart [r, a] (dir_at [r])" using ab by simp_all
    then show "apart (path_keys st) ?F" by (simp add: apart_def paths)
  qed
  show ?thesis
  proof (cases "M \<or> j \<noteq> None")
    case True
    show ?thesis
    proof (rule triple_ghost [where g = "get_at [r, a]"
          and R = "\<lambda>x. (x = None \<or> (\<exists>a c. x = Some (File a c))) \<and> (M \<longrightarrow> plain x)", OF F])
      fix v
      assume "opened M j v \<and> get_at [r, b] v = Some (File AM_ARC (s @ [CHR 0x0A]))"
      with True show "(get_at [r, a] v = None \<or> (\<exists>b c. get_at [r, a] v = Some (File b c))) \<and>
          (M \<longrightarrow> plain (get_at [r, a] v))"
        using read_line_file [of "[r, a]" v]
        by (auto simp: plain_def split: option.splits elim: is_dir.elims)
    next
      fix x
      assume x: "(x = None \<or> (\<exists>a c. x = Some (File a c))) \<and> (M \<longrightarrow> plain x)"
      show "triple M (\<lambda>h. swapping M j s)
        (\<lambda>v. (opened M j v \<and> get_at [r, b] v = Some (File AM_ARC (s @ [CHR 0x0A]))) \<and> get_at [r, a] v = x)
        (rm st) (\<lambda>e v. swapping M j s v \<and> (e = FR_OK \<longrightarrow> M \<or> j \<noteq> None \<longrightarrow> get_at [r, a] v = None) \<and> (M \<longrightarrow> e = FR_OK))"
      proof (cases "\<exists>v. read_line [r, a] v = j \<and> get_at [r, a] v = x")
        case False
        then show ?thesis
          by (intro tripleI) (use F [of M] in \<open>auto simp: keeps_val_def onward_def\<close>)
      next
        case True
        then have j: "get_at [r, a] v = x \<Longrightarrow> read_line [r, a] v = j" for v
          by (auto simp: read_line_get_at)
        have sw: "swapping M j s v" if "get_at [r, a] v = x \<or> get_at [r, a] v = None"
          "get_at [r, b] v = Some (File AM_ARC (s @ [CHR 0x0A]))" "M \<longrightarrow> dir_at [r] v" for v
          using that x j [of v] by (auto simp: swapping_def plain_def)
        from triple_frame [OF rm_file [OF paths(2) list.distinct(2) conjunct1 [OF x]] F] show ?thesis
          by (rule triple_weaken) (use x sw in \<open>auto\<close>)
      qed
    qed
  next
    case False
    with triple_keeps [OF F [of M]] show ?thesis
      by (intro triple_weaken [OF triple_keeps [OF F [of M]]]) (auto simp: swapping_def)
  qed
qed

lemma rename_phase:
  assumes "entry_ok s"
  shows "triple M (\<lambda>h v. between j s v \<and> (M \<longrightarrow> calm j t s v))
    (\<lambda>v. swapping M j s v \<and> (M \<or> j \<noteq> None \<longrightarrow> get_at [r, a] v = None)) (f_rename tmp st)
    (\<lambda>e v. between j s v \<and> (M \<longrightarrow> e = FR_OK \<and> fit v) \<and>
       (e = FR_OK \<longrightarrow> read_line [r, a] v = Some s \<and> get_at [r, b] v = None))"
proof -
  have ba: "[r, b] \<parallel> [r, a]" using paths(4) by auto
  let ?e = "File AM_ARC (s @ [CHR 0x0A])"
  let ?F = "\<lambda>v. M \<longrightarrow> dir_at [r] v"
  have F: "keeps M' ?F (f_rename tmp st)" for M'
  proof -
    have "apart [r, a] (dir_at [r])" "apart [r, b] (dir_at [r])" by simp_all
    then show ?thesis by (intro keeps_f_rename) (simp_all add: apart_def paths)
  qed
  have moved: "between j s v \<and> read_line [r, a] v = Some s" if "get_at [r, a] v = Some ?e" for v
    using that assms by (simp add: between_def journal_def read_line_entry)
  have kept: "between j s v" if "get_at [r, b] v = Some ?e" "get_at [r, a] v = None" for v
    using that assms by (simp add: between_def journal_def read_line_entry)
  have fit: "fit v" if "dir_at [r] v" "plain (get_at [r, a] v)" "plain (get_at [r, b] v)" for v
    using that dir_root [of v] by (simp add: fit_def)
  have pN: "plain None" by (simp add: plain_def)
  have calm: "calm j t s v" if "dir_at [r] v" "plain (get_at [r, a] v)" "plain (get_at [r, b] v)"
    "read_line [r, a] v \<in> {j, None, Some s}" "read_line [r, b] v \<in> {t, None, Some s}" for v
    using that fit [of v] by (simp add: calm_def)
  have tmp: "read_line [r, b] v = Some s" if "get_at [r, b] v = Some ?e" for v
    using that assms by (simp add: read_line_entry)
  show ?thesis
  proof (rule triple_ghost [where g = "get_at [r, a]"
        and R = "\<lambda>x. M \<or> j \<noteq> None \<longrightarrow> x = None", OF F])
    fix x :: "node option"
    assume x: "M \<or> j \<noteq> None \<longrightarrow> x = None"
    have still: "between j s v" if "get_at [r, a] v = x" "get_at [r, b] v = Some ?e" for v
      using kept [of v] that x by (cases "j = None") (auto simp: between_def)
    from triple_frame [OF triple_f_rename [where x = x and c = "s @ [CHR 0x0A]",
          OF paths(3,2) ba refl] F]
    show "triple M (\<lambda>h v. between j s v \<and> (M \<longrightarrow> calm j t s v))
      (\<lambda>v. (swapping M j s v \<and> (M \<or> j \<noteq> None \<longrightarrow> get_at [r, a] v = None)) \<and> get_at [r, a] v = x)
      (f_rename tmp st)
      (\<lambda>e v. between j s v \<and> (M \<longrightarrow> e = FR_OK \<and> fit v) \<and>
         (e = FR_OK \<longrightarrow> read_line [r, a] v = Some s \<and> get_at [r, b] v = None))"
      apply (rule triple_weaken)
      subgoal for v using x dir_root [of v] by (auto simp: swapping_def)
      subgoal for e v
        by (elim conjE disjE; use moved [of v] still [of v] fit [of v] pN in simp)
      subgoal for h v
        by (elim conjE disjE; use moved [of v] still [of v] calm [of v] tmp [of v] pN x in simp)
      done
  qed auto
qed

text \<open>
  \<^verbatim>\<open>write_state\<close> on any card: at every point where the machine may stop, a valid entry in
  \<^verbatim>\<open>state\<close> has survived or the new one is there; when it reports success the new one is.
\<close>

theorem write_state_triple:
  assumes "entry_ok s" and "sound M"
  shows "triple M (\<lambda>h v. between j s v \<and> (M \<longrightarrow> calm j t s v))
    (\<lambda>v. read_line [r, a] v = j \<and> (M \<longrightarrow> fit v \<and> read_line [r, b] v = t)) (write_state s)
    (\<lambda>e v. between j s v \<and> (M \<longrightarrow> e = FR_OK \<and> fit v) \<and>
       (e = FR_OK \<longrightarrow> read_line [r, a] v = Some s \<and> get_at [r, b] v = None))"
proof -
  have early: "between j s v" if "read_line [r, a] v = j" for v
    using that by (auto simp: between_def journal_def split: option.splits)
  have sw: "between j s v \<and> (M \<longrightarrow> calm j t s v)" if "swapping M j s v" for v
    using swapping_between [OF assms(1) that] swapping_calm [OF assms(1) that] by blast
  show ?thesis
    unfolding write_state_def
    apply (rule triple_seq [OF mkdir_phase [of M j t s]], assumption, simp add: early calm_def)
    apply (rule triple_check, simp add: early)
    apply (rule triple_seq [OF rm_tmp_phase [of M j t s]], simp, simp add: early opened_calm)
    apply (rule triple_seq2 [OF open_phase [of M j t s] yields_f_open_create], assumption, simp add: early opened_calm)
    apply (rule triple_check, simp add: early)
    apply (drule (1) mp, hypsubst, unfold paths(3))
    apply (rule triple_seq [OF line_phase [OF assms, of j t]], simp, simp add: early opened_calm)
    apply (rule triple_check, simp add: early)
    apply (rule triple_seq [OF rm_state_phase [of M j s]], simp, blast dest: sw)
    apply (rule triple_check, use sw in force)
    apply (rule triple_pre [OF rename_phase [OF assms(1)]], simp)
    done
qed

end

end
