(* ===== verification/Looks.thy ===== *)
theory Looks
  imports Journal_Logic
begin

text \<open>
  What both updaters use to reason about their runs: programs that only look at the card,
  results that speak about the card at the end, waiting for keys and starting payloads, and
  the writing of a journal line.
\<close>

section \<open>Programs that only look\<close>

text \<open>\<open>looks v V m\<close>: on the card \<open>v\<close>, \<open>m\<close> changes nothing and its result satisfies \<open>V\<close>.\<close>

definition looks :: "node \<Rightarrow> ('a \<Rightarrow> bool) \<Rightarrow> 'a prog \<Rightarrow> bool" where
  "looks v V m = (\<forall>w. vol w = v \<longrightarrow> vol (snd (run_state m w)) = v \<and> V (fst (run_state m w)))"

lemma looks_bind:
  "looks v V m \<Longrightarrow> (\<And>a. V a \<Longrightarrow> looks v U (f a)) \<Longrightarrow> looks v U (State_Monad.bind m f)"
  by (simp add: looks_def case_prod_beta)

lemma looks_bind2:
  "looks v (\<lambda>(a, b). V a b) m \<Longrightarrow> (\<And>a b. V a b \<Longrightarrow> looks v U (f a b)) \<Longrightarrow>
     looks v U (State_Monad.bind m (\<lambda>(a, b). f a b))"
  by (rule looks_bind, assumption) auto

lemma looks_bind3:
  "looks v (\<lambda>(a, b, c). V a b c) m \<Longrightarrow> (\<And>a b c. V a b c \<Longrightarrow> looks v U (f a b c)) \<Longrightarrow>
     looks v U (State_Monad.bind m (\<lambda>(a, b, c). f a b c))"
  by (rule looks_bind, assumption) auto

lemma looks_return: "V a \<Longrightarrow> looks v V (State_Monad.return a)"
  by (simp add: looks_def)

lemma looks_mono: "looks v V m \<Longrightarrow> (\<And>a. V a \<Longrightarrow> U a) \<Longrightarrow> looks v U m"
  by (simp add: looks_def)

lemma looks_if:
  "(b \<Longrightarrow> looks v V m) \<Longrightarrow> (\<not> b \<Longrightarrow> looks v V n) \<Longrightarrow> looks v V (if b then m else n)"
  by simp

lemma looks_if_ok:
  "(r \<noteq> (0 :: nat) \<Longrightarrow> looks v V m) \<Longrightarrow> (r = 0 \<Longrightarrow> looks v V n) \<Longrightarrow> looks v V (if r \<noteq> 0 then m else n)"
  by simp

lemma looks_offline: "offline m \<Longrightarrow> looks v (\<lambda>_. True) m"
  by (simp add: looks_def offline_def)

lemma looks_disk:
  assumes "V (act v)" and "\<And>e k. e \<noteq> 0 \<Longrightarrow> V (err e k)"
  shows "looks v V (disk (\<lambda>v. (act v, v)) err (\<lambda>k v. v))"
  unfolding looks_def
proof (intro allI impI)
  fix w :: world
  assume "vol w = v"
  then show "vol (snd (run_state (disk (\<lambda>v. (act v, v)) err (\<lambda>k v. v)) w)) = v \<and>
      V (fst (run_state (disk (\<lambda>v. (act v, v)) err (\<lambda>k v. v)) w))"
    by (cases rule: disk_cases [where w = w and act = "\<lambda>v. (act v, v)" and err = err and part = "\<lambda>k v. v"])
      (simp_all add: assms)
qed

lemma looks_f_stat:
  "looks v (\<lambda>(r, i). r = FR_OK \<longrightarrow>
     (\<exists>n. get_at (path_keys s) v = Some n \<and> i = get_fileinfo (last (path_keys s)) n)) (f_stat s)"
  unfolding f_stat_def
  by (rule looks_disk) (auto simp: stat_act_def follow_path_Found split: follow.splits)

section \<open>Reading files\<close>

text \<open>A handle open for reading stands at position \<open>n\<close> of a file with the bytes \<open>c\<close>.\<close>

definition reading :: "node \<Rightarrow> string \<Rightarrow> nat \<Rightarrow> FIL \<Rightarrow> bool" where
  "reading v c n fp = (file_at (fil_path fp) v = Some c \<and> \<not> modified fp \<and> fptr fp = n \<and> objsize fp = length c)"

lemma looks_f_open_read:
  "looks v (\<lambda>(r, fp). \<not> modified fp \<and> (r = FR_OK \<longrightarrow>
     (\<exists>c. file_at (path_keys s) v = Some c \<and> reading v c 0 fp))) (f_open s FA_READ_OPEN_EXISTING)"
  unfolding f_open_def open_mode.case
  by (rule looks_disk)
    (auto simp: open_read_act_def reading_def no_fil_def follow_path_Found file_at_iff
      split: follow.splits node.splits)

lemma looks_f_read:
  assumes "reading v c n fp"
  shows "looks v (\<lambda>(r, s, fp'). \<not> modified fp' \<and>
    (r = FR_OK \<longrightarrow> s = take k (drop n c) \<and> reading v c (n + length s) fp')) (f_read fp k)"
  unfolding f_read_def
  by (rule looks_disk) (use assms in \<open>auto simp: read_act_def reading_def Let_def take_min_rest\<close>)

lemma looks_f_close: "\<not> modified fp \<Longrightarrow> looks v (\<lambda>_. True) (f_close fp)"
proof -
  assume "\<not> modified fp"
  then have "looks v (\<lambda>_. True) (f_sync fp)"
    unfolding f_sync_def commit_fil_frame(3) [OF \<open>\<not> modified fp\<close>] if_cancel
    by (intro looks_disk) auto
  then show ?thesis
    unfolding f_close_def by (rule looks_bind) (auto intro: looks_return)
qed

section \<open>Results that speak about the card\<close>

text \<open>\<open>ends R m\<close>: wherever it starts, \<open>m\<close> ends with a result and a card related by \<open>R\<close>.\<close>

definition ends :: "('a \<Rightarrow> node \<Rightarrow> bool) \<Rightarrow> 'a prog \<Rightarrow> bool" where
  "ends R m = (\<forall>w. R (fst (run_state m w)) (vol (snd (run_state m w))))"

lemma ends_bind: "(\<And>a. ends R (f a)) \<Longrightarrow> ends R (State_Monad.bind m f)"
  by (simp add: ends_def case_prod_beta)

lemma ends_if: "(b \<Longrightarrow> ends R m) \<Longrightarrow> (\<not> b \<Longrightarrow> ends R n) \<Longrightarrow> ends R (if b then m else n)"
  by simp

lemma ends_return: "(\<And>v. R a v) \<Longrightarrow> ends R (State_Monad.return a)"
  by (simp add: ends_def)

lemma ends_looks: "(\<And>v. looks v (\<lambda>a. R a v) m) \<Longrightarrow> ends R m"
  by (simp add: ends_def looks_def)

lemma triple_ends:
  "triple M C P m Q \<Longrightarrow> ends R m \<Longrightarrow> triple M C P m (\<lambda>a v. Q a v \<and> R a v)"
  by (auto simp: triple_def ends_def after_def split: option.splits)

section \<open>Rules\<close>

lemma apart_new_const [simp]: "apart_new p (\<lambda>_. c)"
  by (simp add: apart_new_def)

lemma triple_reads:
  assumes "\<And>q :: node \<Rightarrow> bool. keeps M q m" and "\<And>h v. P v \<Longrightarrow> C h v"
  shows "triple M C P m (\<lambda>_. P)"
  by (rule triple_weaken [OF triple_keeps [OF assms(1) [of P]]]) (simp_all add: assms(2))

text \<open>Observations built from others.\<close>

lemma apart_eqI: "apart p q \<Longrightarrow> apart p (\<lambda>v. q v = x)"
  and apart_conjI: "apart p F \<Longrightarrow> apart p G \<Longrightarrow> apart p (\<lambda>v. F v \<and> G v)"
  and apart_disjI: "apart p F \<Longrightarrow> apart p G \<Longrightarrow> apart p (\<lambda>v. F v \<or> G v)"
  and apart_new_eqI: "apart_new p q \<Longrightarrow> apart_new p (\<lambda>v. q v = x)"
  and apart_new_conjI: "apart_new p F \<Longrightarrow> apart_new p G \<Longrightarrow> apart_new p (\<lambda>v. F v \<and> G v)"
  and apart_new_disjI: "apart_new p F \<Longrightarrow> apart_new p G \<Longrightarrow> apart_new p (\<lambda>v. F v \<or> G v)"
  by (simp_all add: apart_def apart_new_def)

lemma apart_new_file_at [simp]: "\<not> prefix q p \<Longrightarrow> apart_new p (file_at q)"
  unfolding file_at_def by (rule apart_new_compose) simp

lemmas apart_rules = apart_eqI apart_conjI apart_disjI apart_new_eqI apart_new_conjI apart_new_disjI
  apart_get_at apart_file_at apart_read_line apart_new_get_at apart_new_file_at apart_new_read_line

lemma entry_ok_states [simp]:
  "entry_ok STATE_STAGED" "entry_ok STATE_BACKUP_IN_PROGRESS" "entry_ok STATE_BACKUP_COMPLETE"
  "entry_ok STATE_COPY_IN_PROGRESS" "entry_ok STATE_COPY_COMPLETE"
  "entry_ok STATE_ROLLBACK_IN_PROGRESS" "entry_ok STATE_ROLLBACK_COMPLETE"
  "entry_ok STATE_COMMIT_IN_PROGRESS"
  by (simp_all add: entry_ok_def state_defs journal_line_def)

lemma keeps_read_state_from [keeps_intros]: "keeps M q (read_state_from s n)"
  unfolding read_state_from_def
  by ((rule keeps_binds keeps_if keeps_return | (simp add: good_fil_path_keys; fail))+)

lemma looks_read_state_from:
  "looks v (\<lambda>s. s = None \<or> s = read_line (path_keys f) v) (read_state_from f 64)"
proof -
  have line: "read_line (path_keys f) v = Some (journal_line (take 63 c))"
    if "file_at (path_keys f) v = Some c" "journal_line (take 63 c) \<noteq> []" for c
    using that by (simp add: read_line_def)
  show ?thesis
    unfolding read_state_from_def
    apply (rule looks_if, rule looks_return, simp)
    apply (rule looks_bind2 [OF looks_f_open_read])
    apply (rule looks_if_ok, rule looks_return, simp)
    apply (elim conjE, drule (1) mp, elim exE conjE)
    apply (rule looks_bind3 [OF looks_f_read], assumption)
    apply (rule looks_bind [OF looks_f_close], simp)
    apply (rule looks_if, rule looks_return, simp)
    apply (rule looks_return, use line in auto)
    done
qed

lemma offline_poll_while [simp]: "offline (poll_while b)"
  unfolding poll_while_def
  by (intro offline_bind) (auto simp: quiet_offline split: option.splits)

lemma offline_power [simp]: "offline ui_wait_for_power" "offline (power_set_state ps)"
  unfolding ui_wait_for_power_def power_set_state_def
  by ((rule offline_bind | (simp split: power_state.splits; fail))+)

lemma keeps_path_exists [keeps_intros]: "keeps M q (path_exists s)"
  unfolding path_exists_def by ((rule keeps_bind keeps_prod keeps_return keeps_f_stat)+)

lemma keeps_launch_payload [keeps_intros]: "keeps False q (launch_payload s)"
  unfolding launch_payload_def sd_mount_def EPRINTF_def
  by ((rule keeps_bind_fatfs keeps_bind_dir_ops keeps_if keeps_return keeps_mem keeps_ask keeps_gfx keeps_stop
        keeps_sd_unmount | rule keeps_bind | (simp add: good_fil_path_keys; fail)
        | (simp add: keeps_val_def onward_def; fail))+)

lemma keeps_boot_installed_cfw_now [keeps_intros]:
  "offline fatal \<Longrightarrow> keeps False q (boot_installed_cfw_now fatal p)"
  unfolding boot_installed_cfw_now_def
  by ((rule keeps_bind keeps_if keeps_return keeps_path_exists keeps_launch_payload
      keeps_offline | (simp; fail))+)

section \<open>Journal lines\<close>

text \<open>The end of \<^verbatim>\<open>write_state\<close>'s writing: \<^verbatim>\<open>f_sync\<close> unless there was an error, then \<^verbatim>\<open>f_close\<close>.\<close>

lemma triple_finish_line:
  assumes fp: "fil_path fp = p" "p \<noteq> []" "res = FR_OK \<longrightarrow> modified fp \<and> fdata fp = s @ [CHR 0x0A]"
    and t: "path_keys t = p" and s: "length s < 512"
  shows "triple M (\<lambda>h. written p (torn M s)) (\<lambda>v. written p (torn M s) v \<and> (M \<longrightarrow> res = FR_OK))
      (do {
         (res, fp) \<leftarrow> (if res = FR_OK then f_sync fp else State_Monad.return (res, fp));
         f_close fp;
         State_Monad.return res
       })
      (\<lambda>e v. written p (torn M s) v \<and> (M \<longrightarrow> e = FR_OK) \<and>
             (e = FR_OK \<longrightarrow> get_at p v = Some (File AM_ARC (s @ [CHR 0x0A]))))" (is "triple _ ?C _ _ ?Q")
proof (cases "res = FR_OK")
  case True
  with fp have "modified fp" "fdata fp = s @ [CHR 0x0A]" by simp_all
  moreover have sec: "sectors (s @ [CHR 0x0A]) \<subseteq> torn M s"
    using sectors_short [of "s @ [CHR 0x0A]"] s by (simp add: torn_def)
  ultimately have sync: "triple M ?C (written p (torn M s)) (f_sync fp)
      (\<lambda>(r, fp') v. written p (torn M s) v \<and> (M \<longrightarrow> r = FR_OK) \<and>
        (r = FR_OK \<longrightarrow> get_at p v = Some (File AM_ARC (s @ [CHR 0x0A]))))"
    using triple_f_sync [OF fp(1) t fp(2), of "torn M s" M] by simp
  have clean: "triple M ?C (?Q e) (do { f_close fp'; State_Monad.return e }) ?Q" if "\<not> modified fp'" for e fp'
    by (rule triple_seq [OF triple_f_close_clean [OF that, where P = "?Q e" and C = ?C]])
      (auto intro: triple_return)
  have failed: "triple M ?C (\<lambda>v. written p (torn M s) v \<and> \<not> M) (do { f_close fp'; State_Monad.return e }) ?Q"
    if "fil_path fp' = p" "fdata fp' = s @ [CHR 0x0A]" "e \<noteq> FR_OK" for e fp'
    by (rule triple_seq [OF triple_const [OF triple_f_close [OF that(1) t fp(2), of "torn M s"], where A = "\<not> M"]])
      (use that sec in \<open>auto intro: triple_return\<close>)
  show ?thesis
    unfolding if_P [OF True]
    apply (rule triple_seq2 [OF sync yields_f_sync], simp, assumption)
    subgoal for e fp'
      apply (cases "e = FR_OK")
      subgoal by (rule triple_pre [OF clean], auto)
      subgoal by (rule triple_pre [OF failed], use fp True in auto)
      done
    done
next
  case False
  show ?thesis
  proof (cases M)
    case True
    have "keeps M (\<lambda>_. True) (do {
         (res, fp) \<leftarrow> (if res = FR_OK then f_sync fp else State_Monad.return (res, fp));
         f_close fp;
         State_Monad.return res
       })"
      using False good_fil_path_keys [of fp t] fp(1) t
      by (auto intro!: keeps_bind [OF keeps_f_close] keeps_return)
    then show ?thesis
      by (rule triple_absurd) (use False True in auto)
  next
    assume "\<not> M"
    then have any: "sectors (fdata fp) \<subseteq> torn M s" by (simp add: torn_def)
    show ?thesis
      unfolding if_not_P [OF False]
      by (simp, rule triple_seq [OF triple_f_close [OF fp(1) t fp(2) any]])
        (use False \<open>\<not> M\<close> in \<open>auto intro: triple_return\<close>)
  qed
qed

end
