(* ===== verification/App_Frame.thy ===== *)
theory App_Frame
  imports App_Updater Looks
begin

text \<open>
  Frame lemmas for the application updater: each routine leaves alone every path of the card
  that is apart from the paths it names, under any schedule of faults.
\<close>

section \<open>Path constants\<close>

definition ROOT_k :: path where "ROOT_k = [''aio-mod-app-update'']"
definition STATE_k :: path where "STATE_k = [''aio-mod-app-update'', ''state'']"
definition TMP_k :: path where "TMP_k = [''aio-mod-app-update'', ''state.tmp'']"
definition READY_k :: path where "READY_k = [''aio-mod-app-update'', ''ready'']"
definition BACKUP_k :: path where
  "BACKUP_k = [''aio-mod-app-update'', ''backup'', ''aio-switch-updater-mod.nro'']"
definition NEW_k :: path where
  "NEW_k = [''aio-mod-app-update'', ''new'', ''switch'', ''aio-switch-updater-mod'',
     ''aio-switch-updater-mod.nro'']"
definition TARGET_k :: path where
  "TARGET_k = [''switch'', ''aio-switch-updater-mod'', ''aio-switch-updater-mod.nro'']"

lemmas app_keys = ROOT_k_def STATE_k_def TMP_k_def READY_k_def BACKUP_k_def NEW_k_def TARGET_k_def

lemma app_paths [path_simps]:
  "path_keys APP_UPDATE_ROOT = ROOT_k"
  "path_keys APP_UPDATE_READY = READY_k"
  "path_keys APP_UPDATE_STATE = STATE_k"
  "path_keys APP_UPDATE_STATE_TMP = TMP_k"
  "path_keys APP_UPDATE_NEW_DIR = [''aio-mod-app-update'', ''new'']"
  "path_keys APP_UPDATE_BACKUP_DIR = [''aio-mod-app-update'', ''backup'']"
  "path_keys APP_NEW_NRO = NEW_k"
  "path_keys APP_BACKUP_NRO = BACKUP_k"
  "path_keys APP_TARGET_NRO = TARGET_k"
  "path_keys MARIKO_SAVED_PAYLOAD = [''payload.bin.aio'']"
  "path_keys ROOT_PAYLOAD = [''payload.bin'']"
  by (simp_all add: path_keys_def after_drive_def app_path_defs app_keys)

lemma app_keys_apart [simp]:
  "STATE_k \<parallel> TARGET_k" "TMP_k \<parallel> TARGET_k" "BACKUP_k \<parallel> TARGET_k" "NEW_k \<parallel> TARGET_k"
  "ROOT_k \<parallel> TARGET_k" "READY_k \<parallel> TARGET_k" "TARGET_k \<parallel> STATE_k" "TARGET_k \<parallel> TMP_k"
  "TARGET_k \<parallel> BACKUP_k" "TARGET_k \<parallel> NEW_k" "TARGET_k \<parallel> READY_k" "STATE_k \<parallel> TMP_k" "TMP_k \<parallel> STATE_k"
  "STATE_k \<parallel> BACKUP_k" "BACKUP_k \<parallel> STATE_k" "TMP_k \<parallel> BACKUP_k" "BACKUP_k \<parallel> TMP_k"
  "STATE_k \<parallel> NEW_k" "NEW_k \<parallel> STATE_k" "TMP_k \<parallel> NEW_k" "NEW_k \<parallel> TMP_k" "BACKUP_k \<parallel> NEW_k"
  "NEW_k \<parallel> BACKUP_k" "STATE_k \<parallel> READY_k" "TMP_k \<parallel> READY_k" "BACKUP_k \<parallel> READY_k"
  by (simp_all add: app_keys)

section \<open>Screens and keys\<close>

lemma offline_ui [simp]:
  "offline app_ui_success_wait" "offline (app_ui_warning_wait s c)"
  "offline app_ui_rollback_success_wait" "offline app_ui_unchanged_wait"
  "offline (app_ui_fatal_wait_poweroff s c)"
  "offline app_fatal_last_error"
  unfolding app_ui_success_wait_def app_ui_warning_wait_def
    app_ui_rollback_success_wait_def app_ui_unchanged_wait_def
    app_ui_fatal_wait_poweroff_def app_fatal_last_error_def
  by ((rule offline_bind | (simp add: quiet_offline split: power_state.splits; fail))+)

lemma quiet_begin_end_copy [simp]: "quiet (ui_begin_copy t d b s)" "quiet ui_end_copy"
  unfolding ui_begin_copy_def ui_end_copy_def by (auto intro!: quiet_bind)

section \<open>Routines that only read\<close>

lemma keeps_reads [keeps_intros]:
  "keeps M q (path_exists s)" "keeps M q (nonempty_file_status s)" "keeps M q (valid_nonempty_file s)"
  "keeps M q (app_file_sizes_match s t)"
  unfolding path_exists_def nonempty_file_status_def valid_nonempty_file_def app_file_sizes_match_def
  by ((rule keeps_bind keeps_prod keeps_if keeps_return keeps_f_stat)+)

lemma keeps_app_read_state [keeps_intros]: "keeps M q (app_read_state n)"
  unfolding app_read_state_def by (intro keeps_bind keeps_if keeps_return keeps_read_state_from)

definition readers :: "FIL \<Rightarrow> FIL \<Rightarrow> bool" where
  "readers a b = (good_fil a \<and> \<not> modified a \<and> good_fil b \<and> \<not> modified b)"

lemma keeps_contents_loop:
  "readers a b \<Longrightarrow> keeps_val M q (\<lambda>(r, a, b). readers a b) (contents_loop left a b)"
proof (induction left arbitrary: a b rule: less_induct)
  case (less left)
  have step: "readers a' b'" "readers a' b"
    if "fil_path a' = fil_path a \<and> modified a' = modified a"
      "fil_path b' = fil_path b \<and> modified b' = modified b" for a' b'
    using less.prems that by (auto simp: readers_def good_fil_def)
  show ?case
    apply (subst contents_loop.simps)
    apply ((rule keeps_binds keeps_if keeps_return_val
          | (rule keeps_bind_offline, (simp; fail)) | rule less.IH
          | (use less.prems step in \<open>auto; fail\<close>) | subst Let_def)+)
    done
qed

lemma keeps_file_contents_match [keeps_intros]: "keeps M q (file_contents_match a b)"
  unfolding file_contents_match_def
  by ((rule keeps_binds keeps_return keeps_bind3 [where V = "\<lambda>r a b. readers a b"]
        keeps_if keeps_contents_loop keeps_return_val
      | (simp add: readers_def good_fil_path_keys; fail))+)

section \<open>Routines that write\<close>

lemma keeps_remove_path_if_exists [keeps_intros]:
  "apart (path_keys s) q \<Longrightarrow> keeps M q (remove_path_if_exists s)"
  unfolding remove_path_if_exists_def
  by ((rule keeps_bind keeps_prod keeps_if keeps_return keeps_f_stat keeps_f_unlink
      keeps_FolderDelete | assumption)+)

lemma keeps_copy_verified [keeps_intros]:
  "apart (path_keys dst) q \<Longrightarrow> keeps M q (copy_verified src dst)"
  unfolding copy_verified_def
  by ((rule keeps_bind keeps_if keeps_return keeps_reads keeps_FileCopy keeps_file_contents_match
      | assumption)+)

lemma keeps_app_write_line:
  assumes "fil_path fp = path_keys t" and "apart (path_keys t) q"
  shows "keeps M q (app_write_line fp s)"
proof -
  have sync: "keeps_val M q (\<lambda>(r, fp). fil_path fp = path_keys t)
      (if r = 0 then f_sync fp else State_Monad.return (r, fp))"
    if "fil_path fp = path_keys t" for r fp
    using that assms(2)
    by (auto intro!: keeps_return_val keeps_weaken [OF keeps_f_sync] simp: good_fil_path_keys)
  have close: "keeps M q (f_close fp)" if "fil_path fp = path_keys t" for fp
    using that assms(2) by (auto intro!: keeps_f_close simp: good_fil_path_keys)
  have nl: "keeps_val M q (\<lambda>(r, fp). fil_path fp = path_keys t)
      (if r = 0 then do {
         (res, n, fp) \<leftarrow> f_write fp u;
         State_Monad.return (g res n, fp)
       } else State_Monad.return (r, fp))" if "fil_path fp = path_keys t" for r fp u g
    using that by (auto intro!: keeps_return_val keeps_bind3 [OF keeps_f_write])
  show ?thesis
    unfolding app_write_line_def
    using assms(1)
    by (intro keeps_bind3 [OF keeps_f_write] keeps_let keeps_bind2 [OF nl] keeps_bind2 [OF sync]
        keeps_bind [OF close] keeps_return) simp_all
qed

lemma keeps_app_write_state [keeps_intros]:
  assumes "apart (STATE_k) q" and "apart (TMP_k) q" and "apart_new ROOT_k q"
  shows "keeps M q (app_write_state s)"
proof -
  show ?thesis
    unfolding app_write_state_def
    by ((rule keeps_bind_fatfs(2) keeps_if keeps_return keeps_f_rename
        | rule keeps_bind [OF keeps_mkdir_if_needed] keeps_bind [OF keeps_remove_path_if_exists]
        | rule keeps_bind [OF keeps_app_write_line] | assumption
        | (simp add: assms path_simps; fail))+)
qed

lemma keeps_cleanup_transaction [keeps_intros]:
  assumes "apart (ROOT_k) q" and "apart ([''payload.bin.aio'']) q"
  shows "keeps M q (cleanup_transaction p)"
proof -
  have "apart (ROOT_k @ r) q" for r by (rule apart_append [OF assms(1)])
  note apart = this [of "[''new'']"] this [of "[''backup'']"] this [of "[''ready'']"]
    this [of "[''state.tmp'']"] this [of "[''state'']"]
  show ?thesis
    unfolding cleanup_transaction_def
    by ((rule keeps_bind keeps_if keeps_return keeps_let keeps_remove_path_if_exists
        | (use assms apart in \<open>simp add: path_simps app_keys; fail\<close>))+)
qed

lemma keeps_restore_boot_payload_if_needed [keeps_intros]:
  "apart ([''payload.bin'']) q \<Longrightarrow> keeps M q (restore_boot_payload_if_needed p)"
  unfolding restore_boot_payload_if_needed_def restore_mariko_payload_def
  by ((rule keeps_bind keeps_if keeps_return keeps_reads keeps_copy_verified keeps_quiet
      | (simp add: path_simps; fail))+)

lemma keeps_app_boot [keeps_intros]:
  "keeps False q (app_boot_installed_cfw_now p)" "keeps False q (app_boot_installed_cfw p)"
  unfolding app_boot_installed_cfw_now_def app_boot_installed_cfw_def
  by ((rule keeps_bind keeps_boot_installed_cfw_now keeps_if keeps_ask keeps_offline offline_ui)+)

lemma keeps_abort_before_changes [keeps_intros]:
  assumes "apart (ROOT_k) q" and "apart ([''payload.bin.aio'']) q" and "apart ([''payload.bin'']) q"
  shows "keeps False q (abort_before_changes p)"
  unfolding abort_before_changes_def
  by ((rule keeps_if keeps_ask keeps_restore_boot_payload_if_needed
      keeps_cleanup_transaction keeps_app_boot assms | rule keeps_bind
      | (rule keeps_offline, simp; fail) | (rule keeps_quiet, simp; fail))+)

lemma keeps_app_rollback_finish [keeps_intros]:
  assumes "apart ROOT_k q" and "apart [''payload.bin.aio''] q" and "apart [''payload.bin''] q"
  shows "keeps False q (app_rollback_finish p)"
proof -
  have "apart STATE_k q" "apart TMP_k q" "apart_new ROOT_k q"
    using apart_append [OF assms(1), of "[''state'']"] apart_append [OF assms(1), of "[''state.tmp'']"]
      assms(1) by (simp_all add: app_keys apart_new_apart)
  then show ?thesis
    unfolding app_rollback_finish_def
    using assms
    by (intro keeps_bind keeps_if keeps_return keeps_app_write_state
        keeps_restore_boot_payload_if_needed keeps_cleanup_transaction keeps_app_boot;
        (simp add: keeps_offline keeps_quiet)?)
qed

lemma keeps_app_commit_finish [keeps_intros]:
  assumes "apart ROOT_k q" and "apart [''payload.bin.aio''] q" and "apart [''payload.bin''] q"
  shows "keeps False q (app_commit_finish p)"
  unfolding app_commit_finish_def
  by ((rule keeps_if keeps_return keeps_restore_boot_payload_if_needed
      keeps_cleanup_transaction keeps_app_boot assms | rule keeps_bind
      | (rule keeps_offline, simp; fail) | (rule keeps_quiet, simp; fail))+)

end
