(* ===== verification/App_Sound.thy ===== *)
theory App_Sound
  imports App_Frame
begin

text \<open>
  What the results of the application updater's routines mean, under any schedule of faults:
  a comparison that reports equality has compared the two files, a copy that reports success
  has produced the source's bytes, a journal entry that was written can be read back.
\<close>

section \<open>Comparing files\<close>

lemma looks_contents_loop:
  assumes "length a = length b"
  shows "reading v a n first \<Longrightarrow> reading v b n second \<Longrightarrow> left = length a - n \<Longrightarrow>
    looks v (\<lambda>(r, first, second). \<not> modified first \<and> \<not> modified second \<and> (r \<longrightarrow> drop n a = drop n b))
      (contents_loop left first second)"
proof (induction left arbitrary: n first second rule: less_induct)
  case (less left)
  let ?V = "\<lambda>n (r, first, second). \<not> modified first \<and> \<not> modified second \<and> (r \<longrightarrow> drop n a = drop n b)"
  have unmodified: "\<not> modified first" "\<not> modified second"
    using less.prems by (auto simp: reading_def)
  show ?case
  proof (cases "left = 0")
    case True
    with less.prems assms unmodified show ?thesis
      by (subst contents_loop.simps) (auto intro!: looks_return)
  next
    case False
    define size where "size = min (left mod 2 ^ 32) 4096"
    have le: "size \<le> left" by (simp add: size_def le_trans [OF min.cobounded1 mod_less_eq_dividend])
    have rest: "looks v (?V n) (contents_loop (left - size) first' second')"
      if "size \<noteq> 0" "take size (drop n a) = take size (drop n b)"
        "reading v a (n + size) first'" "reading v b (n + size) second'" for first' second'
    proof (rule looks_mono)
      show "looks v (?V (n + size)) (contents_loop (left - size) first' second')"
        using that False le less.prems(3) by (intro less.IH) auto
      fix x
      assume "?V (n + size) x"
      moreover have "drop n a = drop n b" if "drop (n + size) a = drop (n + size) b"
        using \<open>take size (drop n a) = take size (drop n b)\<close> that
        by (metis append_take_drop_id drop_drop add.commute)
      ultimately show "?V n x" by (cases x) auto
    qed
    show ?thesis
      apply (subst contents_loop.simps)
      apply (simp only: False if_False Let_def size_def [symmetric])
      apply (rule looks_if)
       apply (rule looks_bind [OF looks_offline])
        apply simp
       apply (rule looks_return, use unmodified in simp)
      apply (rule looks_bind3 [OF looks_f_read [OF less.prems(1)]])
      apply (rule looks_if)
       apply (rule looks_return, use unmodified in simp)
      apply (rule looks_bind3 [OF looks_f_read [OF less.prems(2)]])
      apply (rule looks_if)
       apply (rule looks_return, use unmodified in simp)
      apply (rule rest)
         apply auto
      done
  qed
qed

lemma looks_file_contents_match:
  "looks v (\<lambda>r. r \<longrightarrow> (\<exists>c. file_at (path_keys s) v = Some c \<and> file_at (path_keys t) v = Some c))
     (file_contents_match s t)"
proof -
  have loop: "looks v (\<lambda>(m, first, second). \<not> modified first \<and> \<not> modified second \<and> (m \<longrightarrow> a = b))
      (if B \<and> f_size first = f_size second
       then contents_loop (f_size first - f_tell first) first second
       else State_Monad.return (False, first, second))"
    if "reading v a 0 first" "reading v b 0 second" for B a b first second
    using that looks_contents_loop [of a b v 0 first second]
    by (auto simp: f_size_def f_tell_def reading_def intro!: looks_return)
  show ?thesis
    unfolding file_contents_match_def
    apply (rule looks_bind2 [OF looks_f_open_read])
    apply (rule looks_if_ok)
     apply (rule looks_return, simp)
    apply (rule looks_bind2 [OF looks_f_open_read])
    apply (rule looks_if_ok)
     apply (rule looks_bind [OF looks_f_close], simp)
     apply (rule looks_return, simp)
    apply (elim conjE, drule (1) mp, drule (1) mp, elim exE conjE)
    apply (rule looks_bind [OF looks_offline], blast)
    apply (rule looks_bind3 [OF loop], assumption, assumption)
    apply (rule looks_bind [OF looks_f_close], simp)
    apply (rule looks_bind [OF looks_f_close], simp)
    apply (rule looks_return, auto)
    done
qed

lemma looks_sizes_match:
  "looks v (\<lambda>r. r \<longrightarrow> (\<exists>c. file_at (path_keys s) v = Some c \<and> c \<noteq> [])) (app_file_sizes_match s t)"
proof -
  have "bit (fattrib (get_fileinfo k n)) 4 \<longleftrightarrow> is_dir n" for k n
    by (cases n) (simp_all add: bit_simps)
  moreover have "\<exists>c. file_at p v = Some c \<and> c \<noteq> []"
    if "get_at p v = Some n" "\<not> is_dir n" "fsize (get_fileinfo k n) = l" "0 < l" for p n k l
    using that by (cases n) (auto simp: file_at_iff)
  ultimately show ?thesis
    unfolding app_file_sizes_match_def
    by (intro looks_bind2 [OF looks_f_stat] looks_if looks_return) auto
qed

section \<open>Verified copies\<close>

text \<open>Success of \<^verbatim>\<open>copy_verified\<close>, under any schedule: both files hold the same bytes.\<close>

definition same_files :: "path \<Rightarrow> path \<Rightarrow> node \<Rightarrow> bool" where
  "same_files p q v = (\<exists>c. c \<noteq> [] \<and> file_at p v = Some c \<and> file_at q v = Some c)"

lemma ends_copy_verified:
  "ends (\<lambda>r v. r = FR_OK \<longrightarrow> same_files (path_keys src) (path_keys dst) v) (copy_verified src dst)"
proof -
  have verify: "looks v (\<lambda>r. r = FR_OK \<longrightarrow> same_files (path_keys src) (path_keys dst) v)
    (do {
      sizes \<leftarrow> app_file_sizes_match src dst;
      match \<leftarrow> (if sizes then file_contents_match src dst else State_Monad.return False);
      State_Monad.return (if match then FR_OK else FR_DISK_ERR)
    })" for v
  proof (rule looks_bind [OF looks_sizes_match])
    fix sizes
    assume nonempty: "sizes \<longrightarrow> (\<exists>c. file_at (path_keys src) v = Some c \<and> c \<noteq> [])"
    have "looks v (\<lambda>m. m \<longrightarrow> same_files (path_keys src) (path_keys dst) v)
        (if sizes then file_contents_match src dst else State_Monad.return False)"
      using nonempty looks_mono [OF looks_file_contents_match [of v src dst]]
      by (auto simp: same_files_def intro: looks_return)
    then show "looks v (\<lambda>r. r = FR_OK \<longrightarrow> same_files (path_keys src) (path_keys dst) v)
      (do {
        match \<leftarrow> (if sizes then file_contents_match src dst else State_Monad.return False);
        State_Monad.return (if match then FR_OK else FR_DISK_ERR)
      })"
      by (rule looks_bind) (auto intro: looks_return)
  qed
  show ?thesis
    unfolding copy_verified_def
    by (intro ends_bind ends_if ends_looks [OF verify]) (auto intro: ends_return)
qed

section \<open>The journal of the application updater\<close>

lemma triple_remove_path_if_exists:
  assumes p: "path_keys s = p" "p \<noteq> []" and x: "x = None \<or> (\<exists>a c. x = Some (File a c))"
  shows "triple M (\<lambda>h v. get_at p v = x \<or> get_at p v = None) (\<lambda>v. get_at p v = x)
    (remove_path_if_exists s)
    (\<lambda>e v. (get_at p v = x \<or> get_at p v = None) \<and> (e = FR_OK \<longrightarrow> get_at p v = None) \<and>
           (M \<longrightarrow> plain x \<longrightarrow> e = FR_OK))"
proof -
  have unlink: "triple M (\<lambda>h v. get_at p v = x \<or> get_at p v = None) (\<lambda>v. get_at p v = x)
      (do { res \<leftarrow> f_unlink s; State_Monad.return (if res = FR_NO_FILE then FR_OK else res) })
      (\<lambda>e v. (get_at p v = x \<or> get_at p v = None) \<and> (e = FR_OK \<longrightarrow> get_at p v = None) \<and>
           (M \<longrightarrow> plain x \<longrightarrow> e = FR_OK))"
    if "x = Some n" for n
  proof -
    from x that obtain a c where "x = Some (File a c)" by auto
    then show ?thesis
      by (intro triple_bind [OF triple_f_unlink_file [OF p, of M a c, folded \<open>x = Some (File a c)\<close>]] triple_return)
        (auto simp: plain_def)
  qed
  have keeps: "keeps M (\<lambda>_. True) (FolderDelete s)"
    "keeps M (\<lambda>_. True) (do { res \<leftarrow> f_unlink s; State_Monad.return (if res = FR_NO_FILE then FR_OK else res) })"
    by (auto intro!: keeps_FolderDelete keeps_bind keeps_f_unlink keeps_return)
  show ?thesis
    unfolding remove_path_if_exists_def
    apply (rule triple_bind2)
     apply (rule triple_pre [OF triple_f_stat [OF p, where P = "\<lambda>v. get_at p v = x" and x = x]], simp, simp)
    apply (rule triple_if, rule triple_return, simp)
    apply (rule triple_if, rule triple_return, simp)
    apply (rule triple_if, rule triple_absurd [OF keeps(1)])
     apply (use x in auto)[1]
    apply (cases x)
     apply (rule triple_absurd [OF keeps(2)], simp)
    apply (rule triple_pre [OF unlink], assumption, simp)
    done
qed

lemma triple_app_write_line:
  assumes p: "path_keys t = p" "p \<noteq> []" and s: "length s < 512"
  shows "triple M (\<lambda>h. written p (torn M s))
      (\<lambda>v. get_at p v = Some (File AM_ARC [])) (app_write_line (new_fil p) s)
      (\<lambda>e v. written p (torn M s) v \<and> (M \<longrightarrow> e = FR_OK) \<and>
             (e = FR_OK \<longrightarrow> get_at p v = Some (File AM_ARC (s @ [CHR 0x0A]))))"
proof -
  let ?X = "torn M s"
  let ?Q = "\<lambda>c e v. written p ?X v \<and> (M \<longrightarrow> e = FR_OK) \<and>
             (e = FR_OK \<longrightarrow> get_at p v = Some (File AM_ARC c))"
  have finish: "triple M (\<lambda>h. written p ?X) (\<lambda>v. written p ?X v \<and> (M \<longrightarrow> res = FR_OK))
      (do {
         (res, fp) \<leftarrow> (if res = FR_OK then f_sync fp else State_Monad.return (res, fp));
         f_close fp;
         State_Monad.return res
       }) (?Q (s @ [CHR 0x0A]))"
    if "fil_path fp = p" "res = FR_OK \<longrightarrow> modified fp \<and> fdata fp = s @ [CHR 0x0A]" for res fp
    using triple_finish_line [OF that(1) p(2) that(2) p(1) s] .
  have fresh: "ferr (new_fil p) = FR_OK" "writable (new_fil p)" "fil_path (new_fil p) = p"
    by (simp_all add: new_fil_def no_fil_def)
  then have second: "ferr (append_fil (new_fil p) s) = FR_OK" "writable (append_fil (new_fil p) s)"
      "fil_path (append_fil (new_fil p) s) = p"
    by (simp_all add: append_fil_def)
  let ?nl = "\<lambda>res fp. if res = FR_OK then do {
         (res, nl_written, fp) \<leftarrow> f_write fp [CHR 0x0A];
         State_Monad.return (if res = FR_OK \<and> nl_written \<noteq> 1 then FR_DISK_ERR else res, fp)
       } else State_Monad.return (res, fp)"
  have nl: "triple M (\<lambda>h. written p ?X) (\<lambda>v. written p ?X v \<and> (M \<longrightarrow> res = FR_OK)) (?nl res fp)
      (\<lambda>(r, fp) v. written p ?X v \<and> (M \<longrightarrow> r = FR_OK))"
    "yields (\<lambda>(r, fp). fil_path fp = p \<and> (r = FR_OK \<longrightarrow> modified fp \<and> fdata fp = s @ [CHR 0x0A])) (?nl res fp)"
    if "fil_path fp = p" "res = FR_OK \<longrightarrow> fp = append_fil (new_fil p) s" for res fp
  proof -
    have data: "fdata (append_fil (append_fil (new_fil p) s) u) = s @ u"
        "modified (append_fil (append_fil (new_fil p) s) u)" for u
      by (simp_all add: append_fil_def new_fil_def no_fil_def)
    show "triple M (\<lambda>h. written p ?X) (\<lambda>v. written p ?X v \<and> (M \<longrightarrow> res = FR_OK)) (?nl res fp)
        (\<lambda>(r, fp) v. written p ?X v \<and> (M \<longrightarrow> r = FR_OK))"
    proof (cases "res = FR_OK")
      case True
      with that have fp: "fp = append_fil (new_fil p) s" by simp
      show ?thesis
        unfolding if_P [OF True] fp
        by (rule triple_seq3 [OF triple_f_write [OF second(1,2), where P = "written p ?X"]
              yields_f_write [OF second(1,2)]]) (auto intro!: triple_return)
    qed (auto intro: triple_return)
    show "yields (\<lambda>(r, fp). fil_path fp = p \<and> (r = FR_OK \<longrightarrow> modified fp \<and> fdata fp = s @ [CHR 0x0A])) (?nl res fp)"
    proof (cases "res = FR_OK")
      case True
      with that have fp: "fp = append_fil (new_fil p) s" by simp
      show ?thesis
        unfolding if_P [OF True] fp
        by (rule yields_bind [OF yields_f_write [OF second(1,2)]])
          (use data [of "[CHR 0x0A]"] in \<open>auto intro!: yields_return simp: second(3) split: if_splits\<close>)
    qed (use that in \<open>auto intro: yields_return\<close>)
  qed
  show ?thesis
    unfolding app_write_line_def
    apply (rule triple_seq3 [OF triple_f_write [OF fresh(1,2), where P = "written p ?X"]
        yields_f_write [OF fresh(1,2)]])
       apply assumption
      apply (auto simp: written_def torn_def)[2]
    apply (rule triple_let)
    apply (rule triple_seq2 [OF nl])
          apply (auto simp: fresh)[5]
     apply assumption
    apply (rule finish; simp)
    done
qed

interpretation app_journal: journal_writer remove_path_if_exists app_write_line
  APP_UPDATE_ROOT APP_UPDATE_STATE APP_UPDATE_STATE_TMP "''aio-mod-app-update''" "''state''" "''state.tmp''"
  "\<lambda>_. True"
proof unfold_locales
  show "apart (path_keys s) q \<Longrightarrow> keeps M q (remove_path_if_exists s)" for s q M
    by (rule keeps_remove_path_if_exists)
qed (simp_all add: triple_remove_path_if_exists keeps_app_write_line triple_app_write_line app_paths app_keys)

lemma app_write_state_journal: "app_write_state = app_journal.write_state"
  by (rule ext) (simp only: app_write_state_def app_journal.write_state_def)

end
