(* ===== verification/App_Safety.thy ===== *)
theory App_Safety
  imports App_Sound
begin

text \<open>
  What one boot of the application updater leaves on the card, wherever it is cut off and
  whatever fails on the way.
\<close>

section \<open>The promise\<close>

definition journal_entry :: "node \<Rightarrow> string option" where
  "journal_entry v = (case read_line STATE_k v of Some s \<Rightarrow> Some s | None \<Rightarrow> read_line TMP_k v)"

text \<open>A prepared update: the installed application, the new one, no backup, the journal new.\<close>

definition staged :: "string \<Rightarrow> string \<Rightarrow> node \<Rightarrow> bool" where
  "staged old new v = (wf_node v \<and> file_at TARGET_k v = Some old \<and> file_at NEW_k v = Some new \<and>
     get_at BACKUP_k v = None \<and> get_at TMP_k v = None \<and>
     (read_line STATE_k v = None \<or> read_line STATE_k v = Some STATE_STAGED))"

text \<open>
  The card is safe: the application is whole, old or new; or the verified backup is there and
  the journal sends the next boot to the rollback.
\<close>

definition intact :: "string \<Rightarrow> string \<Rightarrow> node \<Rightarrow> bool" where
  "intact old new v = (file_at TARGET_k v = Some old \<or> file_at TARGET_k v = Some new)"

definition recoverable :: "string \<Rightarrow> string \<Rightarrow> node \<Rightarrow> bool" where
  "recoverable old new v = (intact old new v \<or>
     (file_at BACKUP_k v = Some old \<and>
      (journal_entry v = Some STATE_COPY_IN_PROGRESS \<or> journal_entry v = Some STATE_ROLLBACK_IN_PROGRESS)))"

section \<open>Rules\<close>

lemma app_journal_entry: "app_journal.journal = journal_entry"
  by (rule ext) (simp only: app_journal.journal_def journal_entry_def app_keys)

text \<open>The frame of \<^verbatim>\<open>write_state\<close>: every statement on files other than the journal's.\<close>

lemma triple_write_state_apart:
  assumes "entry_ok s" and "apart STATE_k F" and "apart TMP_k F" and "apart_new ROOT_k F"
  shows "triple False (\<lambda>h v. (j \<noteq> None \<longrightarrow> journal_entry v = j \<or> journal_entry v = Some s) \<and> F v)
    (\<lambda>v. read_line STATE_k v = j \<and> F v) (app_write_state s)
    (\<lambda>e v. ((j \<noteq> None \<longrightarrow> journal_entry v = j \<or> journal_entry v = Some s) \<and>
       (e = FR_OK \<longrightarrow> read_line STATE_k v = Some s)) \<and> F v)"
proof -
  have "keeps False F (app_write_state s)"
    using assms(2-4) by (intro keeps_app_write_state)
  from triple_frame [OF app_journal.write_state_triple [OF assms(1) TrueI, of False j None]
      this [unfolded app_write_state_journal]]
  show ?thesis
    unfolding app_write_state_journal app_journal.between_def app_journal_entry app_keys
    by (rule triple_weaken) auto
qed

text \<open>The same when nothing is known of the journal.\<close>

lemma triple_write_state_keeps:
  assumes "entry_ok s" and "apart STATE_k F" and "apart TMP_k F" and "apart_new ROOT_k F"
  shows "triple False (\<lambda>h. F) F (app_write_state s)
    (\<lambda>e v. (e = FR_OK \<longrightarrow> read_line STATE_k v = Some s) \<and> F v)"
proof (rule triple_ghost [where g = "read_line STATE_k" and R = "\<lambda>_. True"])
  show "keeps False F (app_write_state s)"
    using assms(2-4) by (intro keeps_app_write_state)
  fix j
  show "triple False (\<lambda>h. F) (\<lambda>v. F v \<and> read_line STATE_k v = j) (app_write_state s)
      (\<lambda>e v. (e = FR_OK \<longrightarrow> read_line STATE_k v = Some s) \<and> F v)"
    by (rule triple_weaken [OF triple_write_state_apart [OF assms, of j]]) auto
qed simp

lemma triple_copy_verified:
  assumes "path_keys src = p" and "path_keys dst = q" and "apart q F" and "\<And>h v. F v \<Longrightarrow> C h v"
  shows "triple False C F (copy_verified src dst) (\<lambda>r v. F v \<and> (r = FR_OK \<longrightarrow> same_files p q v))"
proof -
  have "keeps False F (copy_verified src dst)"
    using assms(2,3) by (intro keeps_copy_verified) simp
  from triple_ends [OF triple_keeps [OF this] ends_copy_verified] show ?thesis
    by (rule triple_weaken) (simp_all add: assms)
qed

lemma not_prefix_ROOT_k [simp]:
  "\<not> prefix STATE_k ROOT_k" "\<not> prefix TMP_k ROOT_k" "\<not> prefix BACKUP_k ROOT_k" "\<not> prefix NEW_k ROOT_k"
  "\<not> prefix TARGET_k ROOT_k" "\<not> prefix READY_k ROOT_k"
  by (simp_all add: app_keys)

lemma intact_apart: "p \<parallel> TARGET_k \<Longrightarrow> apart p (intact old new)"
  unfolding intact_def [abs_def] by (intro apart_rules)

lemma recoverable_intact: "intact old new v \<Longrightarrow> recoverable old new v"
  by (simp add: recoverable_def)

section \<open>Cancelling and rolling back\<close>

lemma payload_apart [simp]: "[''payload.bin''] \<parallel> TARGET_k" "[''payload.bin.aio''] \<parallel> TARGET_k"
  by (simp_all add: app_keys)

text \<open>Everything that leaves the application alone.\<close>

lemma triple_intact:
  assumes "keeps False (intact old new) m"
  shows "triple False (\<lambda>h. recoverable old new) (intact old new) m (\<lambda>_. intact old new)"
  by (rule triple_weaken [OF triple_keeps [OF assms]]) (auto intro: recoverable_intact)

lemma triple_abort:
  "triple False (\<lambda>h. recoverable old new) (intact old new) (abort_before_changes p) (\<lambda>_. intact old new)"
  by (intro triple_intact keeps_abort_before_changes intact_apart) simp_all

lemma triple_app_abort:
  "triple False (\<lambda>h. recoverable old new) (intact old new) (app_abort s c p) (\<lambda>_. intact old new)"
  unfolding app_abort_def by (rule triple_bind_quiet [OF _ triple_abort]) simp

text \<open>What \<^verbatim>\<open>rollback_transaction\<close> needs: the backup, and the journal unless the application is whole.\<close>

definition armed :: "string \<Rightarrow> string \<Rightarrow> node \<Rightarrow> bool" where
  "armed old new v = (file_at BACKUP_k v = Some old \<and>
     (intact old new v \<or> read_line STATE_k v = Some STATE_COPY_IN_PROGRESS \<or>
      read_line STATE_k v = Some STATE_ROLLBACK_IN_PROGRESS))"

lemma triple_write_rollback:
  "triple False (\<lambda>h. recoverable old new) (armed old new) (app_write_state STATE_ROLLBACK_IN_PROGRESS)
    (\<lambda>e v. recoverable old new v \<and>
       (e = FR_OK \<longrightarrow> file_at BACKUP_k v = Some old \<and> read_line STATE_k v = Some STATE_ROLLBACK_IN_PROGRESS))"
proof (rule triple_ghost [where g = "\<lambda>v. (read_line STATE_k v, file_at TARGET_k v)"
      and R = "\<lambda>(j, t). t = Some old \<or> t = Some new \<or> j = Some STATE_COPY_IN_PROGRESS \<or>
        j = Some STATE_ROLLBACK_IN_PROGRESS"])
  show "keeps False (\<lambda>_. True) (app_write_state STATE_ROLLBACK_IN_PROGRESS)"
    by (intro keeps_app_write_state) simp_all
  fix x
  assume x: "case x of (j, t) \<Rightarrow> t = Some old \<or> t = Some new \<or> j = Some STATE_COPY_IN_PROGRESS \<or>
        j = Some STATE_ROLLBACK_IN_PROGRESS"
  obtain j t where [simp]: "x = (j, t)" by (cases x)
  let ?F = "\<lambda>v. file_at BACKUP_k v = Some old \<and> file_at TARGET_k v = t"
  have F: "apart STATE_k ?F" "apart TMP_k ?F" "apart_new ROOT_k ?F"
    by (intro apart_rules; simp)+
  from triple_write_state_apart [OF entry_ok_states(6) F, of j]
  show "triple False (\<lambda>h. recoverable old new)
      (\<lambda>v. armed old new v \<and> (read_line STATE_k v, file_at TARGET_k v) = x)
      (app_write_state STATE_ROLLBACK_IN_PROGRESS)
      (\<lambda>e v. recoverable old new v \<and> (e = FR_OK \<longrightarrow>
         file_at BACKUP_k v = Some old \<and> read_line STATE_k v = Some STATE_ROLLBACK_IN_PROGRESS))"
    by (rule triple_weaken) (use x in \<open>auto simp: armed_def recoverable_def intact_def\<close>)
qed (auto simp: armed_def intact_def)

lemma triple_fatal:
  "(\<And>h v. P v \<Longrightarrow> C h v) \<Longrightarrow> triple M C P app_fatal_last_error (\<lambda>_. P)"
  by (rule triple_offline) simp_all

lemma triple_error_fatal:
  assumes "\<And>v. P v \<Longrightarrow> recoverable old new v"
  shows "triple False (\<lambda>h. recoverable old new) P
    (do { app_ui_set_error s c; app_fatal_last_error; State_Monad.return b })
    (\<lambda>_. recoverable old new)"
  by (rule triple_bind_quiet, simp, rule triple_bind [OF triple_fatal])
    (auto intro: triple_return assms)

lemma triple_rollback:
  "triple False (\<lambda>h. recoverable old new) (armed old new) (app_rollback_transaction p)
     (\<lambda>_. recoverable old new)"
proof -
  let ?B = "\<lambda>v. file_at BACKUP_k v = Some old \<and> read_line STATE_k v = Some STATE_ROLLBACK_IN_PROGRESS"
  have B: "recoverable old new v" if "?B v" for v
    using that by (simp add: recoverable_def journal_entry_def)
  have B_apart: "apart TARGET_k ?B"
    by (intro apart_rules; simp)
  have restored: "intact old new v" if "?B v" "same_files BACKUP_k TARGET_k v" for v
    using that by (auto simp: same_files_def intact_def)
  have rest: "triple False (\<lambda>h. recoverable old new) (intact old new) (app_rollback_finish p)
      (\<lambda>_. intact old new)"
    by (intro triple_intact keeps_app_rollback_finish intact_apart) simp_all
  show ?thesis
    unfolding app_rollback_transaction_def
    apply (rule triple_bind_quiet, simp)
    apply (rule triple_bind [OF triple_write_rollback])
    apply (rule triple_if)
     apply (rule triple_pre [OF triple_error_fatal [where P = "recoverable old new"]], simp, simp)
    apply (rule triple_pre [where P = ?B])
     apply (rule triple_bind [OF triple_reads [OF keeps_reads(3) B]], assumption)
     apply (rule triple_if)
      apply (rule triple_error_fatal [OF B], assumption)
     apply (rule triple_bind_quiet, simp)
     apply (rule triple_bind [OF triple_copy_verified [OF app_paths(8,9) B_apart B]], assumption)
     apply (rule triple_bind_quiet, simp)
     apply (rule triple_if)
      apply (rule triple_error_fatal, use B in blast)
     apply (rule triple_weaken [OF rest])
       apply (use restored in auto)[1]
      apply (rule recoverable_intact, assumption)
     apply assumption
    apply simp
    done
qed

lemma triple_roll_back:
  "triple False (\<lambda>h. recoverable old new) (armed old new)
    (do { app_rollback_transaction p; State_Monad.return () }) (\<lambda>_. recoverable old new)"
  by (rule triple_bind [OF triple_rollback triple_return])

lemma triple_app_roll:
  "triple False (\<lambda>h. recoverable old new) (armed old new) (app_roll s c p) (\<lambda>_. recoverable old new)"
  unfolding app_roll_def by (rule triple_bind_quiet [OF _ triple_roll_back]) simp

section \<open>Committing and installing\<close>

lemma triple_commit:
  "triple False (\<lambda>h. recoverable old new)
    (\<lambda>v. file_at BACKUP_k v = Some old \<and> intact old new v) (app_commit_transaction p)
    (\<lambda>_. recoverable old new)"
proof -
  let ?F = "\<lambda>v. file_at BACKUP_k v = Some old \<and> intact old new v"
  have F: "apart STATE_k ?F" "apart TMP_k ?F"
    by (intro apart_conjI apart_rules intact_apart; simp)+
  have F_new: "apart_new ROOT_k ?F"
    by (intro apart_new_conjI apart_rules apart_new_apart [OF intact_apart]; simp)
  have rest: "triple False (\<lambda>h. recoverable old new) (intact old new) (app_commit_finish p)
      (\<lambda>_. intact old new)"
    by (intro triple_intact keeps_app_commit_finish intact_apart) simp_all
  have rec: "\<And>h v. ?F v \<Longrightarrow> recoverable old new v"
    by (auto intro: recoverable_intact)
  show ?thesis
    unfolding app_commit_transaction_def
    apply (rule triple_bind_quiet, simp)
    apply (rule triple_seq [OF triple_write_state_keeps [OF entry_ok_states(8) F F_new]], assumption)
     apply (rule rec, assumption)
    apply (rule triple_if)
     apply (rule triple_bind_quiet, simp)
     apply (rule triple_pre [OF triple_roll_back], simp add: armed_def)
    apply (rule triple_weaken [OF rest])
      apply simp
     apply (rule recoverable_intact, assumption)
    apply assumption
    done
qed

lemma triple_copied:
  "triple False (\<lambda>h. recoverable old new)
    (\<lambda>v. file_at BACKUP_k v = Some old \<and> file_at TARGET_k v = Some new) (app_run_copied p)
    (\<lambda>_. recoverable old new)"
proof -
  let ?N = "\<lambda>v. file_at BACKUP_k v = Some old \<and> file_at TARGET_k v = Some new"
  have N: "recoverable old new v" "armed old new v" if "?N v" for v
    using that by (simp_all add: recoverable_def armed_def intact_def)
  have apart: "apart STATE_k ?N" "apart TMP_k ?N" "apart_new ROOT_k ?N"
    by (intro apart_rules; simp)+
  show ?thesis
    unfolding app_run_copied_def
    apply (rule triple_bind_quiet, simp)
    apply (rule triple_bind [OF triple_reads [OF keeps_reads(4) N(1)]], assumption)
    apply (rule triple_if)
     apply (rule triple_pre [OF triple_app_roll N(2)], assumption)
    apply (rule triple_seq [OF triple_write_state_keeps [OF entry_ok_states(5) apart]], assumption)
     apply (rule N, assumption)
    apply (rule triple_if)
     apply (rule triple_pre [OF triple_app_roll], use N in blast)
    apply (rule triple_pre [OF triple_commit], simp add: intact_def)
    done
qed

lemma triple_copy:
  "triple False (\<lambda>h. recoverable old new)
    (\<lambda>v. file_at BACKUP_k v = Some old \<and> file_at NEW_k v = Some new \<and>
       read_line STATE_k v = Some STATE_COPY_IN_PROGRESS) (app_run_copy p)
    (\<lambda>_. recoverable old new)"
proof -
  let ?J = "\<lambda>v. file_at BACKUP_k v = Some old \<and> file_at NEW_k v = Some new \<and>
      read_line STATE_k v = Some STATE_COPY_IN_PROGRESS"
  have J: "recoverable old new v" "armed old new v" if "?J v" for v
    using that by (simp_all add: recoverable_def armed_def intact_def journal_entry_def)
  have apart: "apart TARGET_k ?J"
    by (intro apart_rules; simp)
  show ?thesis
    unfolding app_run_copy_def
    apply (rule triple_bind_quiet, simp)
    apply (rule triple_bind [OF triple_copy_verified [OF app_paths(7,9) apart J(1)]], assumption)
    apply (rule triple_bind_quiet, simp)
    apply (rule triple_if)
     apply (rule triple_pre [OF triple_app_roll], use J in blast)
    apply (rule triple_pre [OF triple_copied], auto simp: same_files_def)
    done
qed

lemma triple_install:
  "triple False (\<lambda>h. recoverable old new)
    (\<lambda>v. file_at BACKUP_k v = Some old \<and> file_at TARGET_k v = Some old \<and> file_at NEW_k v = Some new)
    (app_run_install p) (\<lambda>_. recoverable old new)"
proof -
  let ?P = "\<lambda>v. file_at BACKUP_k v = Some old \<and> file_at TARGET_k v = Some old \<and> file_at NEW_k v = Some new"
  have P: "recoverable old new v" "armed old new v" if "?P v" for v
    using that by (simp_all add: recoverable_def armed_def intact_def)
  have apart: "apart STATE_k ?P" "apart TMP_k ?P" "apart_new ROOT_k ?P"
    by (intro apart_rules; simp)+
  have verified: "triple False (\<lambda>h. recoverable old new) ?P
      (if ok then app_file_sizes_match APP_BACKUP_NRO APP_TARGET_NRO else State_Monad.return False)
      (\<lambda>_. ?P)" for ok
    by (rule triple_if) (auto intro: triple_reads [OF keeps_reads(4)] P triple_return)
  show ?thesis
    unfolding app_run_install_def
    apply (rule triple_bind_quiet, simp)
    apply (rule triple_bind [OF triple_reads [OF keeps_reads(3) P(1)]], assumption)
    apply (rule triple_bind [OF verified])
    apply (rule triple_if)
     apply (rule triple_pre [OF triple_app_roll P(2)], assumption)
    apply (rule triple_seq [OF triple_write_state_keeps [OF entry_ok_states(4) apart]], assumption)
     apply (rule P(1), assumption)
    apply (rule triple_if)
     apply (rule triple_pre [OF triple_app_roll], use P in blast)
    apply (rule triple_pre [OF triple_copy], simp)
    done
qed

section \<open>The whole boot\<close>

lemma keeps_prepare_backup:
  assumes "apart [''aio-mod-app-update'', ''backup''] q"
  shows "keeps M q prepare_backup"
proof -
  have "apart BACKUP_k q" using apart_append [OF assms, of "[''aio-switch-updater-mod.nro'']"]
    by (simp add: app_keys)
  with assms show ?thesis
    unfolding prepare_backup_def
    by (intro keeps_bind keeps_if keeps_return keeps_mkdir_if_needed keeps_remove_path_if_exists
        keeps_copy_verified; (simp add: app_paths keeps_quiet apart_new_apart)?)
qed

lemma triple_prepare_backup:
  "triple False (\<lambda>h. recoverable old new)
    (\<lambda>v. file_at TARGET_k v = Some old \<and> file_at NEW_k v = Some new) prepare_backup
    (\<lambda>e v. (file_at TARGET_k v = Some old \<and> file_at NEW_k v = Some new) \<and>
       (e = FR_OK \<longrightarrow> file_at BACKUP_k v = Some old))"
proof -
  let ?P = "\<lambda>v. file_at TARGET_k v = Some old \<and> file_at NEW_k v = Some new"
  have tail: "ends (\<lambda>r v. r = FR_OK \<longrightarrow> same_files TARGET_k BACKUP_k v)
      (do { res \<leftarrow> copy_verified APP_TARGET_NRO APP_BACKUP_NRO; ui_end_copy; State_Monad.return res })"
    using ends_copy_verified [of APP_TARGET_NRO APP_BACKUP_NRO] quiet_begin_end_copy(2)
    by (simp add: ends_def case_prod_beta quiet_def offline_def app_paths)
  have "ends (\<lambda>r v. r = FR_OK \<longrightarrow> same_files TARGET_k BACKUP_k v) prepare_backup"
    unfolding prepare_backup_def
    by (rule ends_bind, rule ends_if, rule ends_return, simp) (rule ends_bind, rule ends_bind, rule tail)
  moreover have "keeps False ?P prepare_backup"
    by (intro keeps_prepare_backup apart_rules) (simp_all add: app_keys)
  ultimately have "triple False (\<lambda>h. ?P) ?P prepare_backup
      (\<lambda>r v. ?P v \<and> (r = FR_OK \<longrightarrow> same_files TARGET_k BACKUP_k v))"
    by (intro triple_ends triple_keeps)
  then show ?thesis
    by (rule triple_weaken) (auto simp: same_files_def recoverable_def intact_def)
qed

lemma triple_run_backup:
  "triple False (\<lambda>h. recoverable old new)
    (\<lambda>v. file_at TARGET_k v = Some old \<and> file_at NEW_k v = Some new)
    (app_run_backup (Some STATE_BACKUP_IN_PROGRESS) p) (\<lambda>_. recoverable old new)"
proof -
  let ?P = "\<lambda>v. file_at BACKUP_k v = Some old \<and> file_at TARGET_k v = Some old \<and> file_at NEW_k v = Some new"
  have apart: "apart STATE_k ?P" "apart TMP_k ?P" "apart_new ROOT_k ?P"
    by (intro apart_rules; simp)+
  have abort: "triple False (\<lambda>h. recoverable old new) Q (app_abort s c p) (\<lambda>_. recoverable old new)"
    if "\<And>v. Q v \<Longrightarrow> intact old new v" for Q s c
    by (rule triple_weaken [OF triple_app_abort]) (auto intro: that recoverable_intact)
  show ?thesis
    unfolding app_run_backup_def state_is_def simp_thms if_True
    apply (rule triple_bind [OF triple_prepare_backup])
    apply (rule triple_if, rule abort, simp add: intact_def)
    apply (rule triple_seq [OF triple_write_state_keeps [OF entry_ok_states(3) apart]], simp)
     apply (simp add: recoverable_def intact_def)
    apply (rule triple_if, rule abort, simp add: intact_def)
    apply (rule triple_pre [OF triple_install], simp)
    done
qed

lemma looks_valid_nonempty_file:
  "looks v (\<lambda>r. r \<longrightarrow> (\<exists>c. file_at (path_keys s) v = Some c \<and> c \<noteq> [])) (valid_nonempty_file s)"
proof -
  have "\<exists>c. file_at p v = Some c \<and> c \<noteq> []"
    if "get_at p v = Some n" "\<not> is_dir n" "0 < fsize (get_fileinfo k n)" for p n k
    using that by (cases n) (auto simp: file_at_iff)
  then show ?thesis
    unfolding valid_nonempty_file_def nonempty_file_status_def
    by (intro looks_bind [where V = "\<lambda>r. r = FR_OK \<longrightarrow> (\<exists>c. file_at (path_keys s) v = Some c \<and> c \<noteq> [])"]
        looks_bind2 [OF looks_f_stat] looks_return) auto
qed

lemma looks_app_read_state:
  "looks v (\<lambda>s. s = None \<or> s = read_line STATE_k v \<or> s = read_line TMP_k v) (app_read_state 64)"
proof -
  note l = looks_read_state_from [of v]
  show ?thesis
    unfolding app_read_state_def
    by (rule looks_bind [OF l [of APP_UPDATE_STATE]], rule looks_if)
      (use l [of APP_UPDATE_STATE_TMP] in \<open>auto intro: looks_return looks_mono simp: app_paths\<close>)
qed

lemma triple_no_backup:
  "triple False (\<lambda>h. recoverable old new)
    (\<lambda>v. file_at TARGET_k v = Some old \<and> file_at NEW_k v = Some new \<and> get_at BACKUP_k v = None)
    (valid_nonempty_file APP_BACKUP_NRO)
    (\<lambda>ok v. (file_at TARGET_k v = Some old \<and> file_at NEW_k v = Some new \<and> get_at BACKUP_k v = None) \<and> \<not> ok)"
proof -
  let ?P = "\<lambda>v. file_at TARGET_k v = Some old \<and> file_at NEW_k v = Some new \<and> get_at BACKUP_k v = None"
  have e: "ends (\<lambda>r v. r \<longrightarrow> (\<exists>c. file_at BACKUP_k v = Some c \<and> c \<noteq> [])) (valid_nonempty_file APP_BACKUP_NRO)"
    using looks_valid_nonempty_file [of _ APP_BACKUP_NRO] by (intro ends_looks) (simp add: app_paths)
  have "triple False (\<lambda>h. recoverable old new) ?P (valid_nonempty_file APP_BACKUP_NRO) (\<lambda>_. ?P)"
    by (rule triple_reads [OF keeps_reads(3)]) (simp add: recoverable_def intact_def)
  from triple_ends [OF this e] show ?thesis
    by (rule triple_post) (auto simp: file_at_iff)
qed

lemma triple_run_staged:
  "triple False (\<lambda>h. recoverable old new)
    (\<lambda>v. file_at TARGET_k v = Some old \<and> file_at NEW_k v = Some new \<and> get_at BACKUP_k v = None)
    (app_run_staged (Some STATE_STAGED) p) (\<lambda>_. recoverable old new)"
proof -
  let ?P = "\<lambda>v. file_at TARGET_k v = Some old \<and> file_at NEW_k v = Some new \<and> get_at BACKUP_k v = None"
  have P: "recoverable old new v" "intact old new v" if "?P v" for v
    using that by (simp_all add: recoverable_def intact_def)
  have apart: "apart STATE_k ?P" "apart TMP_k ?P" "apart_new ROOT_k ?P"
    by (intro apart_rules; simp)+
  have abort: "triple False (\<lambda>h. recoverable old new) Q (app_abort s c p) (\<lambda>_. recoverable old new)"
    "triple False (\<lambda>h. recoverable old new) Q (abort_before_changes p) (\<lambda>_. recoverable old new)"
    if "\<And>v. Q v \<Longrightarrow> ?P v" for Q s c
    by (rule triple_weaken [OF triple_app_abort] triple_weaken [OF triple_abort];
        use that P in \<open>blast intro: recoverable_intact\<close>)+
  note backup = triple_no_backup [of old new]
  show ?thesis
    unfolding app_run_staged_def state_is_def simp_thms if_True
    apply (rule triple_bind_quiet, simp)
    apply (rule triple_bind [OF triple_reads [OF keeps_reads(2) P(1)]], assumption)
    apply (rule triple_if, rule abort, assumption)
    apply (rule triple_bind [OF triple_reads [OF keeps_reads(2) P(1)]], assumption)
    apply (rule triple_if)
     apply (rule triple_bind_quiet, simp)
     apply (rule triple_bind [OF backup])
     apply (rule triple_if)
      apply (rule triple_pre [OF triple_roll_back], simp)
     apply (rule abort, simp)
    apply (rule triple_bind_quiet, simp)
    apply (rule triple_seq [OF triple_write_state_keeps [OF entry_ok_states(2) apart]], assumption)
     apply (rule P, assumption)
    apply (rule triple_if, rule abort, simp)
    apply (rule triple_pre [OF triple_run_backup], simp)
    done
qed

text \<open>Every entry of the dispatch stops where the machine stops.\<close>

lemma keeps_transactions:
  "keeps False (\<lambda>_. c) (app_rollback_transaction p)"
  "keeps False (\<lambda>_. c) (app_commit_transaction p)"
  "keeps False (\<lambda>_. c) (app_roll s n p)"
  "keeps False (\<lambda>_. c) (app_abort s n p)"
proof -
  show r: "keeps False (\<lambda>_. c) (app_rollback_transaction p)"
    unfolding app_rollback_transaction_def
    by (intro keeps_bind keeps_if keeps_return keeps_app_write_state keeps_reads keeps_copy_verified
        keeps_app_rollback_finish; (simp add: keeps_offline keeps_quiet)?)
  show "keeps False (\<lambda>_. c) (app_commit_transaction p)"
    unfolding app_commit_transaction_def
    by (intro keeps_bind keeps_if keeps_return keeps_app_write_state r keeps_app_commit_finish;
        (simp add: keeps_offline keeps_quiet)?)
  show "keeps False (\<lambda>_. c) (app_roll s n p)"
    unfolding app_roll_def by (intro keeps_bind keeps_return r; (simp add: keeps_quiet)?)
  show "keeps False (\<lambda>_. c) (app_abort s n p)"
    unfolding app_abort_def
    by (intro keeps_bind keeps_abort_before_changes; (simp add: keeps_quiet)?)
qed

lemma keeps_run_install: "keeps False (\<lambda>_. c) (app_run_install p)"
  unfolding app_run_install_def app_run_copy_def app_run_copied_def
  by (intro keeps_bind keeps_if keeps_return keeps_app_write_state keeps_reads keeps_copy_verified
      keeps_transactions; (simp add: keeps_offline keeps_quiet)?)

lemma keeps_run_staged: "keeps False (\<lambda>_. c) (app_run_staged state p)"
  unfolding app_run_staged_def app_run_backup_def app_run_unknown_def
  by (intro keeps_bind keeps_if keeps_return keeps_app_write_state keeps_reads keeps_prepare_backup
      keeps_run_install keeps_transactions keeps_abort_before_changes;
      (simp add: keeps_offline keeps_quiet)?)

lemma keeps_run_dispatch: "keeps False (\<lambda>_. c) (app_run_dispatch state p)"
  unfolding app_run_dispatch_def
  by (intro keeps_bind keeps_if keeps_return keeps_run_staged keeps_transactions
      keeps_restore_boot_payload_if_needed keeps_cleanup_transaction keeps_app_boot;
      (simp add: keeps_offline keeps_quiet)?)

lemma staged_dispatch: "app_run_dispatch (Some STATE_STAGED) p = app_run_staged (Some STATE_STAGED) p"
  by (simp add: app_run_dispatch_def state_is_def state_defs)

lemma triple_run:
  "triple False (\<lambda>h. recoverable old new) (staged old new) (aio_app_update_run p)
     (\<lambda>_. recoverable old new)"
proof -
  let ?P = "\<lambda>v. file_at TARGET_k v = Some old \<and> file_at NEW_k v = Some new \<and> get_at BACKUP_k v = None"
  have P: "recoverable old new v" if "?P v" for v
    using that by (simp add: recoverable_def intact_def)
  have apart: "apart STATE_k ?P" "apart TMP_k ?P" "apart_new ROOT_k ?P"
    by (intro apart_rules; simp)+
  have abort: "triple False (\<lambda>h. recoverable old new) Q (app_abort s c p) (\<lambda>_. recoverable old new)"
    if "\<And>v. Q v \<Longrightarrow> ?P v" for Q s c
    by (rule triple_weaken [OF triple_app_abort])
      (use that in \<open>auto simp: intact_def intro: recoverable_intact\<close>)
  have reads: "triple False (\<lambda>h. recoverable old new) (staged old new) (app_read_state 64) (\<lambda>_. staged old new)"
    by (rule triple_reads [OF keeps_app_read_state]) (auto simp: staged_def recoverable_def intact_def)
  have state: "triple False (\<lambda>h. recoverable old new) (staged old new) (app_read_state 64)
      (\<lambda>s v. ?P v \<and> (s = None \<or> s = Some STATE_STAGED))"
    by (rule triple_post [OF triple_ends [OF reads ends_looks [OF looks_app_read_state]]])
      (auto simp: staged_def)
  have dispatch: "triple False (\<lambda>h. recoverable old new) (\<lambda>v. ?P v \<and> s = Some STATE_STAGED)
      (app_run_dispatch s p) (\<lambda>_. recoverable old new)" for s
  proof (cases "s = Some STATE_STAGED")
    case True
    then show ?thesis using triple_run_staged [of old new p] by (simp add: staged_dispatch)
  next
    case False
    then show ?thesis by (intro triple_absurd [OF keeps_run_dispatch]) simp
  qed
  note backup = triple_no_backup [of old new]
  show ?thesis
    unfolding aio_app_update_run_def
    apply (rule triple_bind_quiet, simp)
    apply (rule triple_bind [OF state])
    subgoal for u s
      apply (rule triple_bind [where R = "\<lambda>_ v. ?P v \<and> (s = None \<or> s = Some STATE_STAGED)"])
       apply (rule triple_if)
        apply (rule triple_reads [OF keeps_reads(1)], use P in blast)
       apply (rule triple_return, assumption)
      apply (rule triple_if)
       apply (rule triple_seq [OF triple_write_state_keeps [OF entry_ok_states(1) apart]], blast)
        apply (rule P, assumption)
       apply (rule triple_if, rule abort, blast)
       apply (rule triple_pre [OF dispatch], simp)
      apply (rule triple_if)
       apply (rule triple_seq [OF backup], blast, assumption)
       apply (rule triple_if)
        apply (rule triple_pre [OF triple_app_roll], simp)
       apply (rule abort, simp)
      apply (rule triple_pre [OF dispatch], auto)
      done
    done
qed

lemma run_staged_recoverable:
  assumes "staged old new (vol w)"
  shows "recoverable old new (vol (snd (run_state (aio_app_update_run p) w)))"
proof (cases "running w")
  case True
  have "wf_node (vol w)" using assms by (simp add: staged_def)
  from tripleD [OF triple_run this True _ assms, of p] show ?thesis
    by (auto simp: after_def split: option.splits)
next
  case False
  then have "snd (run_state (aio_app_update_run p) w) = w"
    using triple_stopped [OF triple_run] assms by (simp add: staged_def)
  with assms show ?thesis by (simp add: staged_def recoverable_def intact_def)
qed

end
