(* ===== verification/Sprintf.thy ===== *)
theory Sprintf
  imports Gfx
begin

text \<open>
  Formatting into a buffer, \<^verbatim>\<open>TegraExplorer/bdk/utils/sprintf.c\<close>. It shares the syntax of its
  formats with the console's \<^verbatim>\<open>gfx_printf\<close>, but knows fewer conversions: \<^verbatim>\<open>%c\<close>, \<^verbatim>\<open>%s\<close>, \<^verbatim>\<open>%d\<close>,
  \<^verbatim>\<open>%p\<close>, \<^verbatim>\<open>%P\<close>, \<^verbatim>\<open>%x\<close>, \<^verbatim>\<open>%X\<close> and \<^verbatim>\<open>%%\<close>. Any other conversion is copied to the buffer as it
  stands and consumes no argument. The result is what the buffer holds up to the terminating
  zero the routine writes, for arguments without embedded zeros.
\<close>

function sprintf_digits :: "nat \<Rightarrow> nat \<Rightarrow> string" where
  "sprintf_digits base v =
     (if base < 2 then []
      else
        (let d = ''0123456789abcdefghijklmnopqrstuvwxyz'' ! (v mod base) in
         if v div base = 0 then [d] else sprintf_digits base (v div base) @ [d]))"
  by pat_completeness auto
termination
  by (relation "measure snd") (auto simp: div_greater_zero_iff)

declare sprintf_digits.simps [simp del]

definition sprintf_putn :: "u32 \<Rightarrow> nat \<Rightarrow> nat \<Rightarrow> int \<Rightarrow> string" where
  "sprintf_putn v base fill fcnt =
    (if 36 < base then []
     else
       (let ds = sprintf_digits base (unat v) in
        if fill = 0 then ds else replicate (nat (fcnt - int (length ds))) (char_of fill) @ ds))"

definition sprintf_conv :: "char \<Rightarrow> nat \<Rightarrow> int \<Rightarrow> garg list \<Rightarrow> garg list \<times> string" where
  "sprintf_conv k fill fcnt ap =
    (if k = CHR ''c'' then (let (n, ap) = va_num ap in (ap, [char_of (unat n mod 256)]))
     else if k = CHR ''s'' then (let (s, ap) = va_str ap in (ap, s))
     else if k = CHR ''d'' then (let (n, ap) = va_num ap in (ap, sprintf_putn n 10 fill fcnt))
     else if k \<in> {CHR ''p'', CHR ''P'', CHR ''x'', CHR ''X''} then
       (let (n, ap) = va_num ap in (ap, sprintf_putn n 16 fill fcnt))
     else if k = CHR ''%'' then (ap, ''%'')
     else (ap, [CHR ''%'', k]))"

function s_printf :: "string \<Rightarrow> garg list \<Rightarrow> string" where
  "s_printf fmt ap =
    (case fmt of
       [] \<Rightarrow> []
     | f # fs \<Rightarrow>
         if f \<noteq> CHR ''%'' then f # s_printf fs ap
         else
           (case printf_flags fs of (fill, fcnt, rest) \<Rightarrow>
              (case rest of
                 [] \<Rightarrow> []
               | k # rest' \<Rightarrow>
                   (case sprintf_conv k fill fcnt ap of (ap', s) \<Rightarrow> s @ s_printf rest' ap'))))"
  by pat_completeness auto
termination
  by (relation "measure (\<lambda>(fmt, ap). length fmt)")
    (auto dest!: printf_flags_length [OF sym])

declare s_printf.simps [simp del]

section \<open>Formats the payload uses\<close>

lemma s_printf_Nil [simp]: "s_printf [] ap = []"
  by (subst s_printf.simps) simp

lemma s_printf_char: "c \<noteq> CHR ''%'' \<Longrightarrow> s_printf (c # f) ap = c # s_printf f ap"
  by (subst s_printf.simps) simp

lemma s_printf_plain: "CHR ''%'' \<notin> set f \<Longrightarrow> s_printf (f @ g) ap = f @ s_printf g ap"
  by (induction f) (auto simp: s_printf_char)

lemma s_printf_conv:
  assumes "\<not> is_digit k" and "k \<noteq> CHR '' ''"
  shows "s_printf (CHR ''%'' # k # f) ap =
    (case sprintf_conv k 0 0 ap of (ap', s) \<Rightarrow> s @ s_printf f ap')"
  using assms by (subst s_printf.simps) (simp add: printf_flags_def)

lemma s_printf_string: "s_printf (CHR ''%'' # CHR ''s'' # f) (Str s # ap) = s @ s_printf f ap"
  by (simp add: s_printf_conv is_digit_def sprintf_conv_def)

lemma s_printf_decimal:
  "s_printf (CHR ''%'' # CHR ''d'' # f) (Num n # ap) = sprintf_digits 10 (unat n) @ s_printf f ap"
  by (simp add: s_printf_conv is_digit_def sprintf_conv_def sprintf_putn_def Let_def)

text \<open>\<^verbatim>\<open>%u\<close> is not a conversion of this \<^verbatim>\<open>s_printf\<close>: it comes out as it is written.\<close>

lemma s_printf_unsigned:
  "s_printf (CHR ''%'' # CHR ''u'' # f) ap = CHR ''%'' # CHR ''u'' # s_printf f ap"
  by (simp add: s_printf_conv is_digit_def sprintf_conv_def)

lemmas s_printf_simps = s_printf_char s_printf_string s_printf_decimal s_printf_unsigned

end
