(* ===== verification/Cfw_Updater.thy ===== *)
theory Cfw_Updater
  imports Journal Sprintf
begin

text \<open>
  The transaction of \<^verbatim>\<open>TegraExplorer/source/tegraexplorer/aio_cfw_updater.c\<close>: it moves the
  managed top-level paths of the installed firmware into a backup directory, copies the staged
  package to the root of the card, verifies its core and discards the backup, or moves the
  backup back. One definition per C function; \<open>cfw_\<close> marks the functions that both updaters
  have. The fault injection of the source is compiled out (\<^verbatim>\<open>AIO_CFW_ENABLE_FAULT_TESTS\<close> is 0).
\<close>

section \<open>Paths\<close>

definition UPDATE_ROOT :: string where "UPDATE_ROOT = ''sd:/aio-mod-update''"
definition UPDATE_BACKUP :: string where "UPDATE_BACKUP = ''sd:/aio-mod-update/backup''"
definition UPDATE_READY :: string where "UPDATE_READY = ''sd:/aio-mod-update/ready''"
definition UPDATE_STATE :: string where "UPDATE_STATE = ''sd:/aio-mod-update/state''"
definition UPDATE_STATE_TMP :: string where "UPDATE_STATE_TMP = ''sd:/aio-mod-update/state.tmp''"
definition UPDATE_PAYLOAD_NEXT :: string where "UPDATE_PAYLOAD_NEXT = ''sd:/aio-mod-update/payload.next''"
definition UPDATE_UPDATER_SAVED :: string where
  "UPDATE_UPDATER_SAVED = ''sd:/aio-mod-update/updater-live.bin''"
definition MARIKO_PAYLOAD_FALLBACK :: string where "MARIKO_PAYLOAD_FALLBACK = ''sd:/payload.bin.aio''"

lemmas cfw_path_defs = UPDATE_ROOT_def UPDATE_NEW_def UPDATE_BACKUP_def UPDATE_READY_def
  UPDATE_STATE_def UPDATE_STATE_TMP_def UPDATE_PAYLOAD_NEXT_def UPDATE_UPDATER_SAVED_def
  MARIKO_PAYLOAD_FALLBACK_def

text \<open>Journal entries that only this updater uses.\<close>

definition STATE_FINALIZE_PAYLOAD :: string where "STATE_FINALIZE_PAYLOAD = ''FINALIZE_BOOT_PAYLOAD''"
definition STATE_PENDING_BOOT :: string where "STATE_PENDING_BOOT = ''PENDING_BOOT''"
definition STATE_ROLLBACK_FAILED :: string where "STATE_ROLLBACK_FAILED = ''ROLLBACK_FAILED''"

lemmas cfw_state_defs = state_defs STATE_FINALIZE_PAYLOAD_def STATE_PENDING_BOOT_def
  STATE_ROLLBACK_FAILED_def

definition managed_paths :: "string list" where
  "managed_paths = [''atmosphere'', ''bootloader'', ''Next'', ''scripts'', ''boot.dat'', ''boot.ini'',
     ''exosphere.ini'', ''hbmenu.nro'', ''payload.bin'']"

definition is_hidden_legacy_path :: "string \<Rightarrow> bool" where
  "is_hidden_legacy_path name = (name = ''Next'')"

section \<open>Removing\<close>

text \<open>As with the folder routines, \<open>remove_tree_silent\<close> passes the height of the volume as the depth.\<close>

fun remove_tree_fuel :: "nat \<Rightarrow> string \<Rightarrow> FRESULT prog" where
  "remove_tree_fuel 0 path = do { stop Out_Of_Fuel; State_Monad.return FR_INT_ERR }"
| "remove_tree_fuel (Suc n) path = do {
     (read_res, entries) \<leftarrow> ReadFolder path;
     if read_res \<noteq> FR_OK then State_Monad.return read_res
     else do {
       result \<leftarrow> for_ok (\<lambda>e.
         if isDir e then remove_tree_fuel n (CombinePaths path (entry_name e))
         else f_unlink (CombinePaths path (entry_name e))) entries;
       if result \<noteq> FR_OK then State_Monad.return result else f_unlink path
     }
   }"

declare remove_tree_fuel.simps [simp del]

definition remove_tree_silent :: "string \<Rightarrow> FRESULT prog" where
  "remove_tree_silent path = do {
     h \<leftarrow> ask (\<lambda>w. height (vol w));
     remove_tree_fuel (Suc h) path
   }"

definition remove_path_silent :: "string \<Rightarrow> FRESULT prog" where
  "remove_path_silent path = do {
     (res, fno) \<leftarrow> f_stat path;
     if res = FR_NO_FILE \<or> res = FR_NO_PATH then State_Monad.return FR_OK
     else if res \<noteq> FR_OK then State_Monad.return res
     else if bit (fattrib fno) 4 then remove_tree_silent path
     else f_unlink path
   }"

section \<open>Markers and journal\<close>

definition absent_marker_path :: "u32 \<Rightarrow> string" where
  "absent_marker_path index = s_printf ''%s/.absent%u'' [Str UPDATE_BACKUP, Num index]"

definition create_absent_marker :: "u32 \<Rightarrow> FRESULT prog" where
  "create_absent_marker index = do {
     let marker = absent_marker_path index;
     e \<leftarrow> path_exists marker;
     if e then State_Monad.return FR_OK
     else do {
       (res, fp) \<leftarrow> f_open marker FA_CREATE_ALWAYS_WRITE;
       (if res = FR_OK then do { f_close fp; State_Monad.return () } else State_Monad.return ());
       State_Monad.return res
     }
   }"

definition cfw_read_state :: "nat \<Rightarrow> string option prog" where
  "cfw_read_state out_size = do {
     s \<leftarrow> read_state_from UPDATE_STATE out_size;
     if s \<noteq> None then State_Monad.return s
     else read_state_from UPDATE_STATE_TMP out_size
   }"

text \<open>
  The part of \<^verbatim>\<open>write_state\<close> from the first \<^verbatim>\<open>f_write\<close> to \<^verbatim>\<open>f_close\<close>, in three steps. A short write of the entry
  skips the line end and is not reported.
\<close>

definition cfw_line_close :: "FRESULT \<Rightarrow> FIL \<Rightarrow> FRESULT prog" where
  "cfw_line_close res fp = do {
     (res, fp) \<leftarrow> (if res = FR_OK then f_sync fp else State_Monad.return (res, fp));
     f_close fp;
     State_Monad.return res
   }"

definition cfw_line_end :: "string \<Rightarrow> FRESULT \<Rightarrow> nat \<Rightarrow> FIL \<Rightarrow> FRESULT prog" where
  "cfw_line_end state res written fp =
    (if res = FR_OK \<and> written = length state then do {
       (res, nl_written, fp) \<leftarrow> f_write fp [CHR 0x0A];
       cfw_line_close (if res = FR_OK \<and> nl_written \<noteq> 1 then FR_DISK_ERR else res) fp
     }
     else cfw_line_close res fp)"

definition cfw_write_line :: "FIL \<Rightarrow> string \<Rightarrow> FRESULT prog" where
  "cfw_write_line fp state = do {
     (res, written, fp) \<leftarrow> f_write fp state;
     cfw_line_end state res written fp
   }"

definition cfw_write_state :: "string \<Rightarrow> FRESULT prog" where
  "cfw_write_state state = do {
     res \<leftarrow> mkdir_if_needed UPDATE_ROOT;
     if res \<noteq> FR_OK then State_Monad.return res
     else do {
       remove_path_silent UPDATE_STATE_TMP;
       (res, fp) \<leftarrow> f_open UPDATE_STATE_TMP FA_CREATE_ALWAYS_WRITE;
       if res \<noteq> FR_OK then State_Monad.return res
       else do {
         res \<leftarrow> cfw_write_line fp state;
         if res \<noteq> FR_OK then State_Monad.return res
         else do {
           res \<leftarrow> remove_path_silent UPDATE_STATE;
           if res \<noteq> FR_OK then State_Monad.return res
           else f_rename UPDATE_STATE_TMP UPDATE_STATE
         }
       }
     }
   }"

definition cfw_file_sizes_match :: "string \<Rightarrow> string \<Rightarrow> bool prog" where
  "cfw_file_sizes_match a b = do {
     (ra, fa) \<leftarrow> f_stat a;
     if ra \<noteq> FR_OK then State_Monad.return False
     else do {
       (rb, fb) \<leftarrow> f_stat b;
       State_Monad.return
         (rb = FR_OK \<and> \<not> (bit (fattrib fa) 4 \<or> bit (fattrib fb) 4) \<and> fsize fa = fsize fb)
     }
   }"

section \<open>Backup\<close>

definition backup_src :: "bool \<Rightarrow> string \<Rightarrow> string" where
  "backup_src patched_or_mariko name =
    (if patched_or_mariko \<and> name = ''payload.bin'' then s_printf ''%s'' [Str MARIKO_PAYLOAD_FALLBACK]
     else s_printf ''sd:/%s'' [Str name])"

definition backup_dst :: "string \<Rightarrow> string" where
  "backup_dst name = s_printf ''%s/%s'' [Str UPDATE_BACKUP, Str name]"

definition root_path :: "string \<Rightarrow> string" where
  "root_path name = s_printf ''sd:/%s'' [Str name]"

text \<open>One round of the loop in \<^verbatim>\<open>move_managed_to_backup\<close>; \<^verbatim>\<open>continue\<close> is the result \<^verbatim>\<open>FR_OK\<close>.\<close>

definition move_one_to_backup :: "bool \<Rightarrow> nat \<times> string \<Rightarrow> FRESULT prog" where
  "move_one_to_backup patched_or_mariko = (\<lambda>(i, name). do {
     let src = backup_src patched_or_mariko name;
     let dst = backup_dst name;
     let absent_marker = absent_marker_path (of_nat i);
     src_exists \<leftarrow> path_exists src;
     dst_exists \<leftarrow> path_exists dst;
     was_absent \<leftarrow> path_exists absent_marker;
     if dst_exists then State_Monad.return (if \<not> src_exists then FR_OK else FR_EXIST)
     else if was_absent then State_Monad.return FR_OK
     else if \<not> src_exists then create_absent_marker (of_nat i)
     else do {
       (if is_hidden_legacy_path name
        then cfw_ui_draw_progress (Some ''Backing up current CFW'') (12 + (int i + 1) * 18 div 9)
               (Some ''Saving current configuration...'')
        else cfw_ui_draw_progress (Some ''Backing up current CFW'') (12 + (int i + 1) * 18 div 9)
               (Some (s_printf ''Saving %s'' [Str name])));
       f_rename src dst
     }
   })"

definition move_managed_to_backup :: "bool \<Rightarrow> FRESULT prog" where
  "move_managed_to_backup patched_or_mariko = do {
     res \<leftarrow> mkdir_if_needed UPDATE_BACKUP;
     if res \<noteq> FR_OK then State_Monad.return res
     else for_ok (move_one_to_backup patched_or_mariko) (List.enumerate 0 managed_paths)
   }"

section \<open>Rollback\<close>

text \<open>The loop of \<^verbatim>\<open>restore_backup\<close>: it goes on after an error and returns the last one.\<close>

fun restore_loop :: "FRESULT \<Rightarrow> string list \<Rightarrow> FRESULT prog" where
  "restore_loop result [] = State_Monad.return result"
| "restore_loop result (name # names) = do {
     let src = backup_dst name;
     let dst = root_path name;
     e \<leftarrow> path_exists src;
     if \<not> e then restore_loop result names
     else do {
       res \<leftarrow> remove_path_silent dst;
       res \<leftarrow> (if res = FR_OK then f_rename src dst else State_Monad.return res);
       if res \<noteq> FR_OK then do {
         (if \<not> is_hidden_legacy_path name
          then EPRINTF (''Could not restore %s'' @ [CHR 0x0A]) [Str name]
          else State_Monad.return ());
         restore_loop res names
       }
       else restore_loop result names
     }
   }"

definition restore_backup :: "bool \<Rightarrow> FRESULT prog" where
  "restore_backup patched_or_mariko = do {
     cfw_ui_draw_progress (Some ''Restoring previous CFW'') 35 (Some ''Reverting changes safely...'');
     result \<leftarrow> restore_loop FR_OK managed_paths;
     e \<leftarrow> (if patched_or_mariko then path_exists MARIKO_PAYLOAD_FALLBACK else State_Monad.return False);
     if e then do {
       res \<leftarrow> remove_path_silent ''sd:/payload.bin'';
       res \<leftarrow> (if res = FR_OK then f_rename MARIKO_PAYLOAD_FALLBACK ''sd:/payload.bin''
              else State_Monad.return res);
       if res \<noteq> FR_OK then do {
         EPRINTF (''Could not restore the previous boot payload.'' @ [CHR 0x0A]) [];
         State_Monad.return res
       }
       else State_Monad.return result
     }
     else State_Monad.return result
   }"

text \<open>The first loop of \<^verbatim>\<open>rollback_transaction\<close>; \<open>res\<close> is the variable of that name.\<close>

fun rollback_loop :: "FRESULT \<Rightarrow> (nat \<times> string) list \<Rightarrow> FRESULT prog" where
  "rollback_loop res [] = State_Monad.return res"
| "rollback_loop res ((i, name) # names) = do {
     let absent_marker = absent_marker_path (of_nat i);
     has_backup \<leftarrow> path_exists (backup_dst name);
     was_absent \<leftarrow> path_exists absent_marker;
     if has_backup \<or> was_absent then do {
       res \<leftarrow> remove_path_silent (root_path name);
       if res \<noteq> FR_OK then State_Monad.return res
       else if \<not> has_backup \<and> was_absent then do {
         res \<leftarrow> f_unlink absent_marker;
         if res \<noteq> FR_OK \<and> res \<noteq> FR_NO_FILE then State_Monad.return res
         else rollback_loop res names
       }
       else rollback_loop res names
     }
     else rollback_loop res names
   }"

text \<open>The part of \<^verbatim>\<open>rollback_transaction\<close> between the two changes of \<^verbatim>\<open>gfx_con.mute\<close>.\<close>

definition rollback_body :: "bool \<Rightarrow> FRESULT prog" where
  "rollback_body patched_or_mariko = do {
     res \<leftarrow> rollback_loop FR_OK (List.enumerate 0 managed_paths);
     res \<leftarrow> (if res = FR_OK then restore_backup patched_or_mariko else State_Monad.return res);
     (if res = FR_OK \<and> patched_or_mariko then do {
        remove_path_silent UPDATE_PAYLOAD_NEXT;
        remove_path_silent UPDATE_UPDATER_SAVED;
        remove_path_silent MARIKO_PAYLOAD_FALLBACK;
        State_Monad.return ()
      } else State_Monad.return ());
     if res \<noteq> FR_OK then do {
       cfw_write_state STATE_ROLLBACK_FAILED;
       State_Monad.return res
     }
     else remove_path_silent UPDATE_ROOT
   }"

text \<open>\<^verbatim>\<open>bool previous_mute = gfx_con.mute; gfx_con.mute = true; ... gfx_con.mute = previous_mute;\<close>\<close>

definition with_mute :: "'a prog \<Rightarrow> 'a prog" where
  "with_mute m = do {
     previous_mute \<leftarrow> ask console_muted;
     gfx [SetMute True];
     r \<leftarrow> m;
     gfx [SetMute previous_mute];
     State_Monad.return r
   }"

definition cfw_rollback_transaction :: "bool \<Rightarrow> FRESULT prog" where
  "cfw_rollback_transaction patched_or_mariko = do {
     res \<leftarrow> cfw_write_state STATE_ROLLBACK_IN_PROGRESS;
     if res \<noteq> FR_OK then State_Monad.return res
     else do {
       cfw_ui_draw_progress (Some ''Restoring previous CFW'') 30
         (Some ''An update error occurred. Restoring the backup...'');
       with_mute (rollback_body patched_or_mariko)
     }
   }"

section \<open>Installing the package\<close>

definition copy_staged_entry :: "FSEntry_t \<Rightarrow> FRESULT prog" where
  "copy_staged_entry entry = do {
     let src = s_printf ''%s/%s'' [Str UPDATE_NEW, Str (entry_name entry)];
     let dst = s_printf ''sd:/%s'' [Str (entry_name entry)];
     if isDir entry then FolderCopy src ''sd:/''
     else FileCopy src dst COPY_MODE_PRINT
   }"

text \<open>One round of the loop in \<^verbatim>\<open>copy_staged_root\<close>; \<open>count\<close> is \<^verbatim>\<open>entries.count\<close>.\<close>

definition copy_one_staged :: "bool \<Rightarrow> nat \<Rightarrow> nat \<times> FSEntry_t \<Rightarrow> FRESULT prog" where
  "copy_one_staged patched_or_mariko count = (\<lambda>(i, e).
     if is_hidden_legacy_path (entry_name e) then State_Monad.return FR_OK
     else if patched_or_mariko \<and> entry_name e = ''payload.bin'' then State_Monad.return FR_OK
     else do {
       let ui_detail = s_printf ''Copying %s%s''
             [Str (entry_name e), Str (if isDir e then ''/'' else [])];
       let ui_pct = 34 + ((int i + 1) * 38) div (if count \<noteq> 0 then int count else 1);
       cfw_ui_draw_progress (Some ''Installing new CFW'') ui_pct (Some ui_detail);
       FileCopySetQuiet True;
       FileCopySetProgressCallback (Some Cfw_Callback);
       result \<leftarrow> copy_staged_entry e;
       FileCopySetProgressCallback None;
       FileCopySetQuiet False;
       State_Monad.return result
     })"

definition copy_staged_root :: "bool \<Rightarrow> FRESULT prog" where
  "copy_staged_root patched_or_mariko = do {
     (read_res, entries) \<leftarrow> ReadFolder UPDATE_NEW;
     if read_res \<noteq> FR_OK then State_Monad.return read_res
     else for_ok (copy_one_staged patched_or_mariko (length entries)) (List.enumerate 0 entries)
   }"

definition staged_package_valid :: "bool \<Rightarrow> bool prog" where
  "staged_package_valid patched_or_mariko = do {
     e \<leftarrow> path_exists (UPDATE_NEW @ ''/atmosphere/package3'');
     if \<not> e then State_Monad.return False
     else if patched_or_mariko then path_exists (UPDATE_NEW @ ''/payload.bin'')
     else do {
       a \<leftarrow> path_exists (UPDATE_NEW @ ''/bootloader/update.bin'');
       if a then State_Monad.return True
       else do {
         b \<leftarrow> path_exists (UPDATE_NEW @ ''/atmosphere/reboot_payload.bin'');
         if b then State_Monad.return True
         else path_exists (UPDATE_NEW @ ''/payload.bin'')
       }
     }
   }"

definition installed_core_valid :: "bool \<Rightarrow> bool prog" where
  "installed_core_valid patched_or_mariko = do {
     ok \<leftarrow> cfw_file_sizes_match (UPDATE_NEW @ ''/atmosphere/package3'') ''sd:/atmosphere/package3'';
     if \<not> ok then State_Monad.return False
     else if patched_or_mariko then State_Monad.return True
     else do {
       a \<leftarrow> path_exists (UPDATE_NEW @ ''/bootloader/update.bin'');
       if a then cfw_file_sizes_match (UPDATE_NEW @ ''/bootloader/update.bin'') ''sd:/bootloader/update.bin''
       else do {
         b \<leftarrow> path_exists (UPDATE_NEW @ ''/atmosphere/reboot_payload.bin'');
         if b then cfw_file_sizes_match (UPDATE_NEW @ ''/atmosphere/reboot_payload.bin'')
                     ''sd:/atmosphere/reboot_payload.bin''
         else do {
           c \<leftarrow> path_exists (UPDATE_NEW @ ''/payload.bin'');
           if c then cfw_file_sizes_match (UPDATE_NEW @ ''/payload.bin'') ''sd:/payload.bin''
           else State_Monad.return False
         }
       }
     }
   }"

text \<open>The part of \<^verbatim>\<open>finalize_patched_payload\<close> that swaps the payloads once the copy is verified.\<close>

definition finalize_swap :: "string \<Rightarrow> FRESULT prog" where
  "finalize_swap staged = do {
     e \<leftarrow> path_exists ''sd:/payload.bin'';
     saved \<leftarrow> (if e then path_exists UPDATE_UPDATER_SAVED else State_Monad.return True);
     res \<leftarrow> (if e \<and> \<not> saved then f_rename ''sd:/payload.bin'' UPDATE_UPDATER_SAVED
            else State_Monad.return FR_OK);
     if res \<noteq> FR_OK then State_Monad.return res
     else do {
       e \<leftarrow> path_exists ''sd:/payload.bin'';
       res \<leftarrow> (if \<not> e then f_rename UPDATE_PAYLOAD_NEXT ''sd:/payload.bin''
              else State_Monad.return FR_OK);
       if res \<noteq> FR_OK then State_Monad.return res
       else do {
         ok \<leftarrow> cfw_file_sizes_match staged ''sd:/payload.bin'';
         if \<not> ok then State_Monad.return FR_DISK_ERR
         else do {
           remove_path_silent UPDATE_PAYLOAD_NEXT;
           State_Monad.return FR_OK
         }
       }
     }
   }"

definition finalize_patched_payload :: "FRESULT prog" where
  "finalize_patched_payload = do {
     let staged = UPDATE_NEW @ ''/payload.bin'';
     e \<leftarrow> path_exists staged;
     if \<not> e then State_Monad.return FR_NO_FILE
     else do {
       same \<leftarrow> cfw_file_sizes_match staged ''sd:/payload.bin'';
       if same then do {
         remove_path_silent UPDATE_PAYLOAD_NEXT;
         State_Monad.return FR_OK
       }
       else do {
         res \<leftarrow> remove_path_silent UPDATE_PAYLOAD_NEXT;
         if res \<noteq> FR_OK then State_Monad.return res
         else do {
           WPRINTF ''Preparing boot payload... '' [];
           copy_res \<leftarrow> FileCopy staged UPDATE_PAYLOAD_NEXT COPY_MODE_PRINT;
           WPRINTF [CHR 0x0A] [];
           if copy_res \<noteq> FR_OK then State_Monad.return copy_res
           else do {
             ok \<leftarrow> cfw_file_sizes_match staged UPDATE_PAYLOAD_NEXT;
             if \<not> ok then State_Monad.return FR_DISK_ERR
             else finalize_swap staged
           }
         }
       }
     }
   }"

section \<open>Commit\<close>

text \<open>\<^verbatim>\<open>res = remove_path_silent(p); if (res != FR_OK) return res;\<close> for each path in turn.\<close>

definition commit_paths :: "string list" where
  "commit_paths = [UPDATE_BACKUP, UPDATE_NEW, UPDATE_READY, UPDATE_PAYLOAD_NEXT, UPDATE_UPDATER_SAVED,
     MARIKO_PAYLOAD_FALLBACK, UPDATE_ROOT @ ''/recovery.bin'', UPDATE_STATE_TMP, UPDATE_STATE]"

definition cfw_commit_transaction :: "FRESULT prog" where
  "cfw_commit_transaction = do {
     res \<leftarrow> cfw_write_state STATE_COMMIT_IN_PROGRESS;
     if res \<noteq> FR_OK then State_Monad.return res
     else do {
       WPRINTF ([CHR 0x0A] @ ''Finalizing update...'' @ [CHR 0x0A]) [];
       res \<leftarrow> for_ok remove_path_silent commit_paths;
       if res \<noteq> FR_OK then State_Monad.return res
       else do {
         root_res \<leftarrow> f_unlink UPDATE_ROOT;
         State_Monad.return
           (if root_res \<noteq> FR_OK \<and> root_res \<noteq> FR_NO_FILE \<and> root_res \<noteq> FR_NO_PATH then root_res else FR_OK)
       }
     }
   }"

section \<open>Leaving the updater\<close>

definition cfw_boot_installed_cfw_now :: "bool \<Rightarrow> unit prog" where
  "cfw_boot_installed_cfw_now = boot_installed_cfw_now (cfw_ui_fatal_wait_poweroff ''BOOT'' 1
     (''No valid payload was found to start the CFW.'' @ [CHR 0x0A] @
      ''The installed files were preserved for inspection.''))"

definition cfw_boot_installed_cfw :: "bool \<Rightarrow> unit prog" where
  "cfw_boot_installed_cfw patched_or_mariko = do {
     g \<leftarrow> ask cfw;
     (if g_commit_warning_code g \<noteq> 0
      then cfw_ui_warning_wait ''COMMIT'' (g_commit_warning_code g)
      else cfw_ui_success_wait);
     cfw_boot_installed_cfw_now patched_or_mariko
   }"

definition boot_previous_after_rollback :: "bool \<Rightarrow> unit prog" where
  "boot_previous_after_rollback patched_or_mariko = do {
     cfw_ui_rollback_success_wait;
     if patched_or_mariko then power_set_state POWER_OFF_REBOOT
     else cfw_boot_installed_cfw_now False
   }"

definition fail_before_changes :: "bool \<Rightarrow> unit prog" where
  "fail_before_changes patched_or_mariko = do {
     e \<leftarrow> (if patched_or_mariko then path_exists MARIKO_PAYLOAD_FALLBACK else State_Monad.return False);
     (if e then do {
        remove_path_silent ''sd:/payload.bin'';
        f_rename MARIKO_PAYLOAD_FALLBACK ''sd:/payload.bin'';
        State_Monad.return ()
      } else State_Monad.return ());
     remove_path_silent UPDATE_ROOT;
     cfw_ui_unchanged_wait;
     if patched_or_mariko then power_set_state POWER_OFF_REBOOT
     else cfw_boot_installed_cfw_now False
   }"

section \<open>Entry points\<close>

definition aio_cfw_update_pending :: "bool prog" where
  "aio_cfw_update_pending = do {
     a \<leftarrow> path_exists UPDATE_READY;
     if a then State_Monad.return True
     else do {
       s \<leftarrow> cfw_read_state 64;
       if s \<noteq> None then State_Monad.return True else path_exists UPDATE_BACKUP
     }
   }"

text \<open>
  What the source writes at every failure once the backup has begun: note the error, roll back,
  and start the previous firmware or report that the recovery failed.
\<close>

definition cfw_roll :: "string \<Rightarrow> nat \<Rightarrow> string \<Rightarrow> bool \<Rightarrow> unit prog" where
  "cfw_roll stage code message p = do {
     cfw_ui_set_error stage code;
     rb \<leftarrow> cfw_rollback_transaction p;
     if rb = FR_OK then boot_previous_after_rollback p
     else cfw_ui_fatal_wait_poweroff ''ROLLBACK'' rb message
   }"

definition NOT_RESTORED :: string where
  "NOT_RESTORED = ''The previous CFW could not be restored automatically. The backup was preserved.''"

text \<open>
  The body of \<^verbatim>\<open>aio_cfw_update_run\<close> from the bottom up. Each part takes the value the C
  variable \<^verbatim>\<open>state\<close> has when it is entered.
\<close>

definition cfw_run_commit :: "bool \<Rightarrow> unit prog" where
  "cfw_run_commit p = do {
     commit_res \<leftarrow> with_mute cfw_commit_transaction;
     (if commit_res \<noteq> FR_OK then cfw_upd (\<lambda>g. g\<lparr>g_commit_warning_code := commit_res\<rparr>)
      else State_Monad.return ());
     cfw_boot_installed_cfw p
   }"

definition cfw_run_final :: "bool \<Rightarrow> unit prog" where
  "cfw_run_final p = do {
     cfw_ui_draw_progress (Some ''Verifying installation'') 88 (Some ''Checking the installed CFW...'');
     cfw_ui_draw_progress (Some ''Finalizing update'') 96
       (Some ''Removing backup and temporary update files...'');
     cfw_run_commit p
   }"

definition cfw_run_finalize :: "string option \<Rightarrow> bool \<Rightarrow> unit prog" where
  "cfw_run_finalize state p =
    (if p \<and> state_is state STATE_FINALIZE_PAYLOAD then do {
       cfw_ui_draw_progress (Some ''Preparing boot payload'') 78
         (Some ''Finalizing the console boot payload...'');
       res \<leftarrow> with_mute finalize_patched_payload;
       if res \<noteq> FR_OK then cfw_roll ''PAYLOAD'' res NOT_RESTORED p
       else do {
         ok \<leftarrow> cfw_file_sizes_match (UPDATE_NEW @ ''/payload.bin'') ''sd:/payload.bin'';
         if \<not> ok then cfw_roll ''PAYLOAD-VERIFY'' FR_DISK_ERR NOT_RESTORED p
         else cfw_run_final p
       }
     }
     else cfw_run_final p)"

definition cfw_run_payload :: "string option \<Rightarrow> bool \<Rightarrow> unit prog" where
  "cfw_run_payload state p =
    (if p \<and> state_is state STATE_COPY_COMPLETE then do {
       res \<leftarrow> cfw_write_state STATE_FINALIZE_PAYLOAD;
       if res \<noteq> FR_OK then cfw_roll ''JOURNAL-PAYLOAD'' FR_DISK_ERR NOT_RESTORED p
       else cfw_run_finalize (Some STATE_FINALIZE_PAYLOAD) p
     }
     else cfw_run_finalize state p)"

text \<open>The part after \<^verbatim>\<open>copy_staged_root\<close> has succeeded.\<close>

definition cfw_run_copied :: "bool \<Rightarrow> unit prog" where
  "cfw_run_copied p = do {
     remove_path_silent ''sd:/Next'';
     ok \<leftarrow> installed_core_valid p;
     if \<not> ok then cfw_roll ''VERIFY'' FR_DISK_ERR NOT_RESTORED p
     else do {
       res \<leftarrow> cfw_write_state STATE_COPY_COMPLETE;
       if res \<noteq> FR_OK then cfw_roll ''JOURNAL-COPY'' FR_DISK_ERR NOT_RESTORED p
       else cfw_run_payload (Some STATE_COPY_COMPLETE) p
     }
   }"

definition cfw_run_copy :: "string option \<Rightarrow> bool \<Rightarrow> unit prog" where
  "cfw_run_copy state p =
    (if state_is state STATE_COPY_IN_PROGRESS then do {
       cfw_ui_draw_progress (Some ''Installing new CFW'') 32 (Some ''Copying the prepared package...'');
       res \<leftarrow> copy_staged_root p;
       if res \<noteq> FR_OK then cfw_roll ''COPY'' res NOT_RESTORED p
       else cfw_run_copied p
     }
     else cfw_run_payload state p)"

definition cfw_run_backed_up :: "string option \<Rightarrow> bool \<Rightarrow> unit prog" where
  "cfw_run_backed_up state p =
    (if state_is state STATE_BACKUP_COMPLETE then do {
       res \<leftarrow> cfw_write_state STATE_COPY_IN_PROGRESS;
       if res \<noteq> FR_OK then cfw_roll ''JOURNAL-COPY'' FR_DISK_ERR NOT_RESTORED p
       else cfw_run_copy (Some STATE_COPY_IN_PROGRESS) p
     }
     else cfw_run_copy state p)"

definition cfw_run_backup :: "string option \<Rightarrow> bool \<Rightarrow> unit prog" where
  "cfw_run_backup state p =
    (if state_is state STATE_BACKUP_IN_PROGRESS then do {
       cfw_ui_draw_progress (Some ''Backing up current CFW'') 12 (Some ''Creating a recovery snapshot...'');
       res \<leftarrow> move_managed_to_backup p;
       if res \<noteq> FR_OK then cfw_roll ''BACKUP'' res NOT_RESTORED p
       else do {
         res \<leftarrow> cfw_write_state STATE_BACKUP_COMPLETE;
         if res \<noteq> FR_OK then cfw_roll ''JOURNAL-BACKUP'' FR_DISK_ERR NOT_RESTORED p
         else cfw_run_backed_up (Some STATE_BACKUP_COMPLETE) p
       }
     }
     else cfw_run_backed_up state p)"

definition cfw_run_staged :: "string option \<Rightarrow> bool \<Rightarrow> unit prog" where
  "cfw_run_staged state p = do {
     cfw_ui_draw_progress (Some ''Validating update'') 8 (Some ''Checking the prepared CFW package...'');
     ok \<leftarrow> staged_package_valid p;
     if \<not> ok then do {
       EPRINTF (''ERROR: The CFW package is incomplete.'' @ [CHR 0x0A]) [];
       if state_is state STATE_STAGED then do {
         cfw_ui_set_error ''PACKAGE'' FR_NO_FILE;
         fail_before_changes p
       }
       else cfw_roll ''PACKAGE'' FR_NO_FILE NOT_RESTORED p
     }
     else do {
       cfw_ui_draw_progress (Some ''Validating update'') 10 (Some ''CFW package verified.'');
       if state_is state STATE_STAGED then do {
         res \<leftarrow> cfw_write_state STATE_BACKUP_IN_PROGRESS;
         if res \<noteq> FR_OK then do {
           cfw_ui_set_error ''JOURNAL-BACKUP'' FR_DISK_ERR;
           fail_before_changes p
         }
         else cfw_run_backup (Some STATE_BACKUP_IN_PROGRESS) p
       }
       else cfw_run_backup state p
     }
   }"

definition cfw_run_dispatch :: "string option \<Rightarrow> bool \<Rightarrow> unit prog" where
  "cfw_run_dispatch state p =
    (if state_is state STATE_COMMIT_IN_PROGRESS then do {
       WPRINTF (''Resuming final update cleanup...'' @ [CHR 0x0A]) [];
       cfw_ui_draw_progress (Some ''Finalizing update'') 96 (Some ''Resuming final cleanup...'');
       cfw_run_commit p
     }
     else if state_is state STATE_PENDING_BOOT then do {
       WPRINTF (''Legacy verified transaction found. Finalizing...'' @ [CHR 0x0A]) [];
       cfw_ui_draw_progress (Some ''Finalizing update'') 96 (Some ''Resuming final cleanup...'');
       cfw_run_commit p
     }
     else if state_is state STATE_ROLLBACK_IN_PROGRESS \<or> state_is state STATE_ROLLBACK_FAILED then do {
       cfw_ui_set_error ''ROLLBACK-RESUME'' 0;
       res \<leftarrow> cfw_rollback_transaction p;
       if res = FR_OK then do {
         WPRINTF (''Previous CFW restored successfully.'' @ [CHR 0x0A]) [];
         boot_previous_after_rollback p
       }
       else cfw_ui_fatal_wait_poweroff ''ROLLBACK'' res
              ''The previous CFW could not be restored. The backup was NOT deleted.''
     }
     else cfw_run_staged state p)"

definition cfw_run_from :: "string option \<Rightarrow> bool \<Rightarrow> unit prog" where
  "cfw_run_from state p = do {
     ready \<leftarrow> (if state = None then path_exists UPDATE_READY else State_Monad.return False);
     if state = None \<and> ready then do {
       res \<leftarrow> cfw_write_state STATE_STAGED;
       if res \<noteq> FR_OK then do {
         cfw_ui_set_error ''JOURNAL'' FR_DISK_ERR;
         fail_before_changes p
       }
       else cfw_run_dispatch (Some STATE_STAGED) p
     }
     else if state = None then do {
       backup \<leftarrow> path_exists UPDATE_BACKUP;
       if backup then cfw_roll ''JOURNAL'' FR_INVALID_OBJECT
         ''Recovery could not be completed. The backup was preserved.'' p
       else cfw_ui_fatal_wait_poweroff ''STATE'' 1 ''No valid pending CFW update was found.''
     }
     else cfw_run_dispatch state p
   }"

definition aio_cfw_update_run :: "bool \<Rightarrow> unit prog" where
  "aio_cfw_update_run patched_or_mariko = do {
     cfw_ui_draw_progress (Some ''Preparing CFW update'') 5 (Some ''Reading update journal...'');
     state \<leftarrow> cfw_read_state 64;
     cfw_run_from state patched_or_mariko
   }"

end
