(* ===== verification/Card_Rules.thy ===== *)
theory Card_Rules
  imports Looks
begin

text \<open>
  Rules for programs that delete, move and list: statements on the card that survive
  deletions, the exact effect of \<^verbatim>\<open>f_rename\<close>, the meaning of \<^verbatim>\<open>path_exists\<close> on a steady machine,
  and the copy of a folder tree.
\<close>

section \<open>Deletions\<close>

text \<open>A statement that deleting at or below \<open>p\<close> cannot make false.\<close>

definition falls :: "path \<Rightarrow> (node \<Rightarrow> bool) \<Rightarrow> bool" where
  "falls p P = (\<forall>r v. P v \<longrightarrow> P (del_at (p @ r) v))"

lemma falls_apart: "apart p P \<Longrightarrow> falls p P"
  by (simp add: falls_def apart_def)

lemma falls_append: "falls p P \<Longrightarrow> falls (p @ r) P"
  by (simp add: falls_def)

lemma falls_del_at: "falls p P \<Longrightarrow> P v \<Longrightarrow> P (del_at p v)"
  unfolding falls_def by (metis append_Nil2)

lemma falls_conjI: "falls p P \<Longrightarrow> falls p Q \<Longrightarrow> falls p (\<lambda>v. P v \<and> Q v)"
  and falls_disjI: "falls p P \<Longrightarrow> falls p Q \<Longrightarrow> falls p (\<lambda>v. P v \<or> Q v)"
  and falls_const: "falls p (\<lambda>_. c)"
  and falls_impI: "(A \<Longrightarrow> falls p P) \<Longrightarrow> falls p (\<lambda>v. A \<longrightarrow> P v)"
  and falls_ballI: "(\<And>x. x \<in> X \<Longrightarrow> falls p (F x)) \<Longrightarrow> falls p (\<lambda>v. \<forall>x \<in> X. F x v)"
  by (auto simp: falls_def)

lemma get_at_del_at_below: "prefix p q \<Longrightarrow> p \<noteq> [] \<Longrightarrow> get_at q (del_at p v) = None"
  by (auto simp: prefix_def get_at_append get_at_del_at)

lemma file_at_simps [simp]:
  "file_at [] (Dir a es) = None"
  "file_at (k # ks) (File a c) = None"
  "file_at (k # ks) (Dir a es) = Option.bind (map_of es k) (file_at ks)"
  by (auto simp: file_at_def split: option.splits)

lemma file_at_del_at:
  "file_at q (del_at p v) = (if p \<noteq> [] \<and> prefix p q then None else file_at q v)"
proof (induction p v arbitrary: q rule: del_at.induct)
  case (2 k ks a c)
  then show ?case by (cases q) auto
next
  case (3 k ks a es)
  then show ?case
    by (cases q) (auto simp: AList.update_conv' AList.delete_conv' split: option.splits)
qed simp

lemma get_at_del_at_None: "get_at q v = None \<Longrightarrow> get_at q (del_at p v) = None"
proof (induction p v arbitrary: q rule: del_at.induct)
  case (3 k ks a es)
  then show ?case
    by (cases q) (auto simp: AList.update_conv' AList.delete_conv' split: option.splits)
qed auto

lemma del_at_file: "get_at q v = Some (File a c) \<Longrightarrow> s \<noteq> [] \<Longrightarrow> get_at q (del_at (q @ s) v) = Some (File a c)"
proof (induction q v rule: get_at.induct)
  case (1 n)
  then show ?case by (cases s) auto
next
  case (3 k ks b es)
  then show ?case by (auto simp: AList.update_conv' split: option.splits)
qed auto

lemma falls_None: "falls p (\<lambda>v. get_at q v = None)"
  by (simp add: falls_def get_at_del_at_None)

lemma falls_read_line:
  "falls p (\<lambda>v. read_line q v = None \<or> read_line q v = s)"
  by (auto simp: falls_def read_line_def file_at_del_at split: option.splits)

lemma falls_file_at: "falls p (\<lambda>v. file_at q v = None \<or> file_at q v = c)"
  by (auto simp: falls_def file_at_del_at)

lemma wf_del_path: "wf_node v \<Longrightarrow> wf_node (del_at (path_keys s) v)"
  by (rule wf_del_at) (auto simp: good_path_keys)

lemma triple_f_unlink:
  assumes p: "path_keys s = p" and P: "falls p P" and C: "\<And>v. P v \<Longrightarrow> C Power_Lost v"
  shows "triple M C P (f_unlink s) (\<lambda>e v. P v \<and> (e = FR_OK \<or> e = FR_NO_FILE \<longrightarrow> get_at p v = None))"
proof -
  have act: "wf_node (snd (unlink_act p v)) \<and> P (snd (unlink_act p v)) \<and>
      (fst (unlink_act p v) = FR_OK \<or> fst (unlink_act p v) = FR_NO_FILE \<longrightarrow> get_at p (snd (unlink_act p v)) = None)"
    if "P v" "wf_node v" for v
    using that falls_del_at [OF P, of v] wf_del_path [of v s] p
    by (auto simp: unlink_act_def get_at_del_at follow_path_Found follow_path_No_File
        split: follow.splits node.splits list.splits)
  show ?thesis
    unfolding f_unlink_def dir_op_def p
    by (rule triple_disk) (use act C in \<open>auto dest: io_err_pos\<close>)
qed

text \<open>A directory stays a directory until it is deleted, and a plain file a plain file.\<close>

lemma dir_at_del_at_cases: "dir_at q (del_at p v) \<or> get_at q (del_at p v) = None" if "dir_at q v"
proof (cases "p \<noteq> [] \<and> prefix p q")
  case True
  then show ?thesis by (simp add: get_at_del_at_below)
next
  case False
  then show ?thesis using that dir_at_del_at [of p q v] by (cases "p = []") auto
qed

lemma falls_dir: "falls p (\<lambda>v. get_at q v = None \<or> dir_at q v)"
  unfolding falls_def using dir_at_del_at_cases get_at_del_at_None by blast

lemma falls_plain: "falls p (\<lambda>v. plain (get_at q v))"
proof -
  have "plain (get_at q (del_at r v))" if "plain (get_at q v)" for r v
  proof (cases "get_at q v")
    case (Some n)
    with that obtain a c where n: "n = File a c" "\<not> read_only n"
      by (cases n) (auto simp: plain_def)
    show ?thesis
    proof (cases "r \<noteq> [] \<and> prefix r q")
      case True
      then show ?thesis by (simp add: get_at_del_at_below plain_def)
    next
      case False
      consider "r = []" | "r \<parallel> q" | t where "r = q @ t" "t \<noteq> []"
        using False by (metis append_Nil2 parallelI prefixE prefix_order.refl)
      then have "get_at q (del_at r v) = get_at q v"
        by cases (use Some n del_at_file [of q v a c] in \<open>auto simp: get_at_del_at_apart\<close>)
      with that show ?thesis by simp
    qed
  qed (simp add: get_at_del_at_None plain_def)
  then show ?thesis by (simp add: falls_def)
qed

section \<open>Looking\<close>

lemma triple_stat:
  assumes "path_keys s = p" and "p \<noteq> []" and "\<And>v. P v \<Longrightarrow> C Power_Lost v"
  shows "triple M C P (f_stat s)
    (\<lambda>(r, i) v. P v \<and>
       (r = FR_OK \<longrightarrow> (\<exists>n. get_at p v = Some n \<and> i = get_fileinfo (last p) n)) \<and>
       (r = FR_NO_FILE \<or> r = FR_NO_PATH \<longrightarrow> get_at p v = None) \<and>
       (M \<longrightarrow> r = FR_OK \<or> r = FR_NO_FILE \<or> r = FR_NO_PATH))"
  unfolding f_stat_def assms(1)
  by (rule triple_disk)
    (use assms in \<open>auto simp: stat_act_def follow_path_def split: option.splits\<close>)

lemma triple_path_exists:
  assumes "path_keys s = p" and "p \<noteq> []" and "\<And>v. P v \<Longrightarrow> C Power_Lost v"
  shows "triple M C P (path_exists s)
    (\<lambda>b v. P v \<and> (b \<longrightarrow> get_at p v \<noteq> None) \<and> (M \<longrightarrow> \<not> b \<longrightarrow> get_at p v = None))"
  unfolding path_exists_def
  by (rule triple_bind2 [OF triple_stat [where P = P and C = C, OF assms(1,2) assms(3)]], assumption,
      rule triple_return) auto

lemma triple_keeps_val:
  assumes "keeps_val M q V m"
  shows "triple M (\<lambda>h. q) q m (\<lambda>a v. q v \<and> V a)"
proof (rule tripleI)
  fix w :: world
  assume "wf_node (vol w)"
  with assms have o: "onward M w (snd (run_state m w))" "wf_node (vol (snd (run_state m w)))"
    "q (vol (snd (run_state m w))) = q (vol w)" "V (fst (run_state m w))"
    by (simp_all add: keeps_val_def)
  { assume "M \<Longrightarrow> steady w" and "q (vol w)"
    with o show "after M (\<lambda>h. q) (\<lambda>v. q v \<and> V (fst (run_state m w))) (snd (run_state m w))"
      by (cases M) (auto simp: after_def intro: steady_onward split: option.splits) }
  { assume "\<not> running w"
    with o show "snd (run_state m w) = w" by (simp add: onward_def) }
qed

lemma triple_kept:
  assumes "keeps M P m" and "\<And>h v. P v \<Longrightarrow> C h v"
  shows "triple M C P m (\<lambda>_. P)"
  by (rule triple_weaken [OF triple_keeps [OF assms(1)]]) (simp_all add: assms(2))

lemma triple_bind_keeps:
  assumes "keeps_val M P V m" and "\<And>h v. P v \<Longrightarrow> C h v"
    and "\<And>a. V a \<Longrightarrow> triple M C P (f a) Q"
  shows "triple M C P (State_Monad.bind m f) Q"
proof (rule triple_bind_val [where V = V])
  show "triple M C P m (\<lambda>_. P)"
    by (rule triple_weaken [OF triple_keeps_val [OF assms(1)]]) (simp_all add: assms(2))
  show "wf_node (vol w) \<Longrightarrow> V (fst (run_state m w))" for w
    using assms(1) by (simp add: keeps_val_def)
qed (rule assms(3))

lemma triple_bind_keeps2:
  "keeps_val M P (\<lambda>(a, b). V a b) m \<Longrightarrow> (\<And>h v. P v \<Longrightarrow> C h v) \<Longrightarrow>
    (\<And>a b. V a b \<Longrightarrow> triple M C P (f a b) Q) \<Longrightarrow>
    triple M C P (State_Monad.bind m (\<lambda>(a, b). f a b)) Q"
  by (rule triple_bind_keeps, assumption) auto

text \<open>The names \<^verbatim>\<open>ReadFolder\<close> lists are names of entries.\<close>

lemma looks_f_readdir:
  "looks v (\<lambda>(r, i). i = (case es of [] \<Rightarrow> no_info | i # _ \<Rightarrow> i) \<or> fname i = []) (f_readdir es)"
  unfolding f_readdir_def by (rule looks_disk) (auto simp: no_info_def)

lemma entry_name_new_entry [simp]: "entry_name (new_entry i) = fname i"
  by (simp add: new_entry_def Let_def case_prod_beta)

lemma looks_read_entries: "looks v (\<lambda>(r, out). entry_name ` set out \<subseteq> fname ` set is) (read_entries is)"
proof (induction "is")
  case Nil
  show ?case
    unfolding read_entries.simps by (rule looks_bind2 [OF looks_f_readdir], rule looks_return) auto
next
  case (Cons i "is")
  show ?case
    unfolding read_entries.simps
    apply (rule looks_bind2 [OF looks_f_readdir])
    apply (rule looks_if, rule looks_return, simp)
    apply (rule looks_bind2 [OF Cons], rule looks_return)
    apply auto
    done
qed

lemma looks_f_opendir:
  "looks v (\<lambda>(r, es). \<forall>i \<in> set es. get_at (path_keys s @ [fname i]) v \<noteq> None) (f_opendir s)"
  unfolding f_opendir_def
  by (rule looks_disk)
    (auto simp: opendir_act_def get_at_append map_of_eq_None_iff image_iff
      split: option.splits node.splits intro: rev_bexI)

lemma looks_ReadFolder:
  "looks v (\<lambda>(r, out). \<forall>e \<in> set out. get_at (path_keys s @ [entry_name e]) v \<noteq> None) (ReadFolder s)"
  unfolding ReadFolder_def
  apply (rule looks_bind2 [OF looks_f_opendir])
  apply (rule looks_if, rule looks_return, simp)
  apply (rule looks_mono [OF looks_read_entries])
  apply (auto simp: image_subset_iff)
  done

lemma triple_ReadFolder:
  assumes "\<And>h v. P v \<Longrightarrow> C h v"
  shows "triple M C P (ReadFolder s)
    (\<lambda>(r, out) v. P v \<and>
       (\<forall>e \<in> set out. good_name (entry_name e) \<and> get_at (path_keys s @ [entry_name e]) v \<noteq> None))"
proof -
  have "ends (\<lambda>(r, out) v. \<forall>e \<in> set out. get_at (path_keys s @ [entry_name e]) v \<noteq> None) (ReadFolder s)"
    using looks_ReadFolder [of _ s] by (auto simp: ends_def looks_def case_prod_beta)
  from triple_ends [OF triple_keeps_val [OF keeps_ReadFolder [of M P s]] this] show ?thesis
    by (rule triple_weaken) (auto simp: assms)
qed

lemma triple_for_ok:
  assumes "\<And>x. x \<in> set xs \<Longrightarrow> triple M C P (body x) (\<lambda>_. P)"
  shows "triple M C P (for_ok body xs) (\<lambda>_. P)"
  using assms
proof (induction xs)
  case (Cons x xs)
  have "triple M C P (body x) (\<lambda>_. P)" "triple M C P (for_ok body xs) (\<lambda>_. P)"
    using Cons by simp_all
  then show ?case
    unfolding for_ok.simps by (intro triple_bind [where R = "\<lambda>_. P"]) (auto intro: triple_return)
qed (auto intro: triple_return)

text \<open>A loop with an invariant over the elements done so far.\<close>

lemma triple_for_ok_inv:
  assumes body: "\<And>ys x zs. xs = ys @ x # zs \<Longrightarrow>
      triple M C (I ys) (body x) (\<lambda>r v. if r = 0 then I (ys @ [x]) v else Q r v)"
    and fin: "\<And>v. I xs v \<Longrightarrow> Q 0 v"
  shows "triple M C (I []) (for_ok body xs) Q"
proof -
  have "triple M C (I ys) (for_ok body zs) Q" if "xs = ys @ zs" for ys zs
    using that
  proof (induction zs arbitrary: ys)
    case Nil
    then show ?case by (auto intro: triple_return fin)
  next
    case (Cons x zs)
    have rest: "triple M C (I (ys @ [x])) (for_ok body zs) Q" by (rule Cons.IH) (simp add: Cons.prems)
    show ?case
      unfolding for_ok.simps
      apply (rule triple_bind [OF body [OF Cons.prems]])
      subgoal for r by (cases "r = 0") (simp_all add: rest triple_return)
      done
  qed
  from this [of "[]" xs] show ?thesis by simp
qed

section \<open>Reading on a steady machine\<close>

lemma triple_f_open_read:
  assumes "path_keys s = p" and "p \<noteq> []" and "\<And>v. P v \<Longrightarrow> C Power_Lost v"
  shows "triple M C P (f_open s FA_READ_OPEN_EXISTING)
    (\<lambda>(r, fp) v. P v \<and> (r = FR_OK \<longrightarrow> (\<exists>c. reading v c 0 fp)) \<and>
       (M \<longrightarrow> r \<noteq> FR_OK \<longrightarrow> file_at p v = None))"
  unfolding f_open_def open_mode.case assms(1)
  by (rule triple_disk)
    (use assms in \<open>auto simp: open_read_act_def reading_def no_fil_def follow_path_def file_at_def
      split: option.splits node.splits dest: io_err_pos\<close>)

lemma yields_f_open_read:
  "yields (\<lambda>(r, fp). r = FR_OK \<longrightarrow> fil_path fp = path_keys s \<and> ferr fp = FR_OK \<and> \<not> writable fp \<and> \<not> modified fp)
    (f_open s FA_READ_OPEN_EXISTING)"
  unfolding f_open_def open_mode.case
  by (rule yields_disk) (auto simp: open_read_act_def no_fil_def split: follow.splits node.splits)

lemma triple_f_read:
  assumes "fil_path fp = p" and "ferr fp = FR_OK" and "\<not> writable fp" and "\<And>v. P v \<Longrightarrow> C Power_Lost v"
  shows "triple M C (\<lambda>v. P v \<and> (\<exists>c. reading v c n fp)) (f_read fp k)
    (\<lambda>(r, s, fp') v. P v \<and> \<not> modified fp' \<and> (M \<longrightarrow> r = FR_OK) \<and>
       (r = FR_OK \<longrightarrow> (\<exists>c. file_at p v = Some c \<and> s = take k (drop n c))))"
  unfolding f_read_def
  by (rule triple_disk)
    (use assms in \<open>auto simp: read_act_def reading_def Let_def take_min_rest dest: io_err_pos\<close>)

lemma triple_read_state_from:
  assumes p: "path_keys s = p" "p \<noteq> []" and C: "\<And>v. P v \<Longrightarrow> C Power_Lost v"
  shows "triple True C P (read_state_from s 64) (\<lambda>j v. P v \<and> j = read_line p v)"
proof -
  have none: "read_line p v = None" if "file_at p v = None" for v
    using that by (simp add: read_line_def)
  have read: "triple True C (\<lambda>v. P v \<and> (\<exists>c. reading v c 0 fp))
      (do {
         (res, out, fp) \<leftarrow> f_read fp (64 - 1);
         f_close fp;
         if res \<noteq> FR_OK \<or> out = [] then State_Monad.return None
         else State_Monad.return (if journal_line out = [] then None else Some (journal_line out))
       }) (\<lambda>j v. P v \<and> j = read_line p v)" if fp: "fil_path fp = p" "ferr fp = FR_OK" "\<not> writable fp" "\<not> modified fp" for fp
  proof -
    have y: "yields (\<lambda>(r, s, fp'). \<not> modified fp') (f_read fp (64 - 1))"
      unfolding f_read_def by (rule yields_disk) (use fp in \<open>auto simp: read_act_def Let_def\<close>)
    show ?thesis
      apply (rule triple_seq3 [OF triple_f_read [OF fp(1-3), where P = P and C = C] y])
         apply (rule C, assumption)
        apply assumption
       apply assumption
      subgoal for r out fp'
        apply (rule triple_seq [OF triple_f_close_clean [where C = C
              and P = "\<lambda>v. P v \<and> r = FR_OK \<and> (\<exists>c. file_at p v = Some c \<and> out = take 63 c)"]])
            apply assumption
           apply (simp add: C)
          apply simp
         apply assumption
        apply (rule triple_if; rule triple_return)
         apply (auto simp: read_line_def journal_line_def)
        done
      done
  qed
  show ?thesis
    unfolding read_state_from_def
    apply simp
    apply (rule triple_seq2 [OF triple_f_open_read [OF p, where P = P and C = C] yields_f_open_read])
       apply (rule C, assumption)
      apply assumption
     apply assumption
    apply (rule triple_if)
     apply (rule triple_return, simp add: none)
    apply (rule triple_pre [OF read], auto simp: p)
    done
qed

text \<open>\<open>tells m f\<close>: on a steady machine \<open>m\<close> only looks, and its result is \<open>f\<close> of the card.\<close>

definition tells :: "'a prog \<Rightarrow> (node \<Rightarrow> 'a) \<Rightarrow> bool" where
  "tells m f = (\<forall>C P. (\<forall>h v. P v \<longrightarrow> C h v) \<longrightarrow> triple True C P m (\<lambda>a v. P v \<and> a = f v))"

lemma triple_tells: "tells m f \<Longrightarrow> (\<And>h v. P v \<Longrightarrow> C h v) \<Longrightarrow> triple True C P m (\<lambda>a v. P v \<and> a = f v)"
  by (simp add: tells_def)

lemma tells_return: "tells (State_Monad.return a) (\<lambda>_. a)"
  by (simp add: tells_def triple_return)

lemma tells_bind:
  assumes "tells m f" and "\<And>a. tells (g a) (k a)"
  shows "tells (State_Monad.bind m g) (\<lambda>v. k (f v) v)"
  unfolding tells_def
proof (intro allI impI)
  fix C :: "halt \<Rightarrow> node \<Rightarrow> bool" and P :: "node \<Rightarrow> bool"
  assume C: "\<forall>h v. P v \<longrightarrow> C h v"
  have "triple True C (\<lambda>v. P v \<and> a = f v) (g a) (\<lambda>b v. (P v \<and> a = f v) \<and> b = k a v)" for a
    using C by (intro triple_tells assms(2)) blast
  note rest = triple_post [OF this]
  show "triple True C P (State_Monad.bind m g) (\<lambda>b v. P v \<and> b = k (f v) v)"
    apply (rule triple_bind [OF triple_tells [OF assms(1)]])
    using C apply blast
    apply (rule rest)
    apply blast
    done
qed

lemma tells_eq:
  assumes "tells m f" and "\<And>v. f v = g v"
  shows "tells m g"
proof -
  have "f = g" by (rule ext) (rule assms(2))
  with assms(1) show ?thesis by simp
qed

lemma tells_if: "tells m f \<Longrightarrow> tells n g \<Longrightarrow> tells (if b then m else n) (\<lambda>v. if b then f v else g v)"
  by simp

lemma tells_path_exists: "path_keys s \<noteq> [] \<Longrightarrow> tells (path_exists s) (\<lambda>v. get_at (path_keys s) v \<noteq> None)"
  unfolding tells_def
proof (intro allI impI)
  fix C :: "halt \<Rightarrow> node \<Rightarrow> bool" and P :: "node \<Rightarrow> bool"
  assume p: "path_keys s \<noteq> []" and C: "\<forall>h v. P v \<longrightarrow> C h v"
  show "triple True C P (path_exists s) (\<lambda>b v. P v \<and> b = (get_at (path_keys s) v \<noteq> None))"
    by (rule triple_post [OF triple_path_exists [OF refl p, where P = P and C = C]]) (use C in auto)
qed

lemma tells_read_state_from: "path_keys s \<noteq> [] \<Longrightarrow> tells (read_state_from s 64) (read_line (path_keys s))"
  by (simp add: tells_def triple_read_state_from)

section \<open>Moves\<close>

text \<open>
  \<^verbatim>\<open>f_rename\<close>: \<open>Q\<close> is what the move makes of \<open>P\<close>. It moves whole trees, and only onto a free name.
\<close>

lemma triple_f_move:
  assumes p: "path_keys s = p" "path_keys t = q" "p \<noteq> q"
    and Q: "\<And>v n. P v \<Longrightarrow> get_at p v = Some n \<Longrightarrow> get_at q v = None \<Longrightarrow> room_at q v \<Longrightarrow>
      Q (put_at q (renamed n) (del_at p v))"
    and C: "\<And>v. P v \<Longrightarrow> C Power_Lost v" "\<And>v. Q v \<Longrightarrow> C Power_Lost v"
  shows "triple M C P (f_rename s t) (\<lambda>r v. if r = FR_OK then Q v else P v \<or> \<not> M \<and> Q v)"
proof -
  have act: "(if fst (rename_act p q v) = FR_OK then Q (snd (rename_act p q v)) else snd (rename_act p q v) = v)"
    if "P v" for v
    using Q [OF that] p(3)
    by (auto simp: rename_act_def follow_path_Found follow_path_No_File split: follow.splits)
  have wf: "wf_node v \<Longrightarrow> wf_node (snd (rename_act p q v))" for v
    using rename_act_frame(1) [of v s t] p by simp
  show ?thesis
    unfolding f_rename_def dir_op_def p
    apply (rule triple_disk)
    subgoal for v using act [of v] wf [of v] by (auto split: if_splits)
    subgoal for k v using act [of v] wf [of v] C by (auto split: if_splits)
    subgoal for e k v using act [of v] by (auto split: if_splits dest: io_err_pos)
    subgoal for v by auto
    done
qed

section \<open>Folder copies\<close>

lemma base_name_CombinePaths: "good_name n \<Longrightarrow> base_name (CombinePaths p n) = n"
proof -
  assume "good_name n"
  then have n: "CHR ''/'' \<notin> set n" by (simp add: good_name_def)
  show ?thesis
  proof (cases "p \<noteq> [] \<and> last p = CHR ''/''")
    case True
    then obtain s where "p = s @ [CHR ''/'']" by (metis append_butlast_last_id)
    then show ?thesis
      using strrchr_after_append [OF n, of s] by (simp add: CombinePaths_def base_name_def)
  next
    case False
    then show ?thesis
      using strrchr_after_append [OF n, of p] by (auto simp: CombinePaths_def base_name_def)
  qed
qed

lemma keeps_FolderCopy_fuel:
  "good_name (base_name locin) \<Longrightarrow> apart (path_keys locout @ [base_name locin]) q \<Longrightarrow>
     keeps M q (FolderCopy_fuel n locin locout)"
proof (induction n arbitrary: locin locout)
  case 0
  show ?case by (auto intro!: keeps_intros)
next
  case (Suc n)
  define dst where "dst = CombinePaths locout (base_name locin)"
  have keys: "path_keys dst = path_keys locout @ [base_name locin]"
    using Suc.prems(1) by (simp add: dst_def path_keys_CombinePaths)
  then have dst: "apart (path_keys dst) q" using Suc.prems(2) by simp
  have below: "apart (path_keys dst @ [entry_name e]) q" for e :: FSEntry_t
    by (rule apart_append [OF dst])
  have body: "keeps M q (if isDir e then FolderCopy_fuel n (CombinePaths locin (entry_name e)) dst
             else do {
               muted \<leftarrow> ask g_copy_quiet;
               (if \<not> muted then do {
                  gfx [Puts_limit (entry_name e) (name_limit x)];
                  BoxRestOfScreen
                } else State_Monad.return ());
               ret \<leftarrow> FileCopy (CombinePaths locin (entry_name e))
                       (CombinePaths dst (entry_name e)) COPY_MODE_PRINT;
               (if \<not> muted then gfx [SetPos x y] else State_Monad.return ());
               State_Monad.return ret
             })" if "good_name (entry_name e)" for e x y
    by ((rule keeps_if keeps_bind_ask keeps_return Suc.IH keeps_bind [OF keeps_FileCopy]
          | (rule keeps_bind_quiet, (auto intro!: quiet_bind; fail))
          | (use that below in \<open>simp add: path_keys_CombinePaths base_name_CombinePaths; fail\<close>))+)
  show ?case
    unfolding FolderCopy_fuel.simps Let_def dst_def [symmetric]
    by ((rule keeps_prod keeps_if keeps_bind_ask keeps_bind_ReadFolder keeps_bind_dir_ops keeps_return
          keeps_f_chmod body | rule keeps_bind keeps_for_ok | (use dst in \<open>simp add: apart_new_apart; fail\<close>))+)
qed

lemma keeps_FolderCopy:
  "good_name (base_name locin) \<Longrightarrow> apart (path_keys locout @ [base_name locin]) q \<Longrightarrow>
     keeps M q (FolderCopy locin locout)"
  unfolding FolderCopy_def by (intro keeps_bind_ask keeps_FolderCopy_fuel)

section \<open>Runs to the end\<close>

text \<open>
  \<open>finishes P m Q\<close>: started on a steady machine with \<open>P\<close> of the card, \<open>m\<close> leaves a card with \<open>Q\<close>,
  wherever it stops. Starting the next payload unmounts the card, so the machine need not be
  steady at the end.
\<close>

definition finishes :: "(node \<Rightarrow> bool) \<Rightarrow> 'a prog \<Rightarrow> (node \<Rightarrow> bool) \<Rightarrow> bool" where
  "finishes P m Q = (\<forall>w. wf_node (vol w) \<longrightarrow>
     (if running w
      then steady w \<and> P (vol w) \<longrightarrow> wf_node (vol (snd (run_state m w))) \<and> Q (vol (snd (run_state m w)))
      else snd (run_state m w) = w))"

lemma finishesD:
  "finishes P m Q \<Longrightarrow> wf_node (vol w) \<Longrightarrow> running w \<Longrightarrow> steady w \<Longrightarrow> P (vol w) \<Longrightarrow>
     wf_node (vol (snd (run_state m w))) \<and> Q (vol (snd (run_state m w)))"
  by (simp add: finishes_def)

lemma finishes_weaken:
  "finishes P m Q \<Longrightarrow> (\<And>v. P' v \<Longrightarrow> P v) \<Longrightarrow> (\<And>v. Q v \<Longrightarrow> Q' v) \<Longrightarrow> finishes P' m Q'"
  by (auto simp: finishes_def)

lemma finishes_triple:
  assumes "triple M C P m (\<lambda>_. R)" and "\<And>h v. C h v \<Longrightarrow> Q v" and "\<And>v. R v \<Longrightarrow> Q v"
  shows "finishes P m Q"
  unfolding finishes_def
proof (intro allI impI)
  fix w :: world
  assume wf: "wf_node (vol w)"
  have "wf_node (vol (snd (run_state m w))) \<and> Q (vol (snd (run_state m w)))"
    if "running w" "steady w" "P (vol w)"
    using tripleD [OF assms(1) wf that(1) that(2) that(3)] assms(2,3)
    by (cases "halted (snd (run_state m w))") (auto simp: after_def)
  with triple_stopped [OF assms(1) wf]
  show "if running w
      then steady w \<and> P (vol w) \<longrightarrow> wf_node (vol (snd (run_state m w))) \<and> Q (vol (snd (run_state m w)))
      else snd (run_state m w) = w" by simp
qed

lemma finishes_keeps: "keeps M Q m \<Longrightarrow> finishes Q m Q"
  by (rule finishes_triple [OF triple_keeps]) auto

lemma finishes_bind:
  assumes m: "triple True C P m R" and C: "\<And>h v. C h v \<Longrightarrow> Q v" and f: "\<And>a. finishes (R a) (f a) Q"
  shows "finishes P (State_Monad.bind m f) Q"
  unfolding finishes_def
proof (intro allI impI)
  fix w :: world
  define a w' where "a = fst (run_state m w)" and "w' = snd (run_state m w)"
  have run: "run_state (State_Monad.bind m f) w = run_state (f a) w'"
    by (simp only: run_state_bind_fst_snd a_def w'_def)
  assume wf: "wf_node (vol w)"
  have stutter: "snd (run_state (f a) w') = w'" if "\<not> running w'" "wf_node (vol w')"
    using f [of a] that by (simp add: finishes_def)
  show "if running w
      then steady w \<and> P (vol w) \<longrightarrow> wf_node (vol (snd (run_state (State_Monad.bind m f) w))) \<and>
        Q (vol (snd (run_state (State_Monad.bind m f) w)))
      else snd (run_state (State_Monad.bind m f) w) = w"
  proof (cases "running w")
    case True
    { assume "steady w" "P (vol w)"
      with m True wf have a: "after True C (R a) w'"
        using tripleD [OF m wf True] by (simp add: a_def w'_def)
      then have "wf_node (vol (snd (run_state (f a) w'))) \<and> Q (vol (snd (run_state (f a) w')))"
        by (cases "running w'")
          (use a stutter C finishesD [OF f, of w' a] in \<open>auto simp: after_def\<close>) }
    with True show ?thesis by (simp only: run if_True simp_thms) blast
  next
    case False
    then have "w' = w" unfolding w'_def by (rule triple_stopped [OF m wf])
    with False wf stutter show ?thesis by (simp only: run) simp
  qed
qed

lemma finishes_bind_quiet:
  assumes "quiet m" and "\<And>a. finishes P (f a) Q" and "\<And>v. P v \<Longrightarrow> Q v"
  shows "finishes P (State_Monad.bind m f) Q"
  by (rule finishes_bind [where C = "\<lambda>h. P", OF triple_quiet [OF assms(1)]]) (simp_all add: assms)

lemma finishes_absurd: "keeps M q m \<Longrightarrow> (\<And>v. \<not> P v) \<Longrightarrow> finishes P m Q"
  by (auto simp: finishes_def keeps_val_def onward_def)

lemma finishes_if:
  "(b \<Longrightarrow> finishes P m Q) \<Longrightarrow> (\<not> b \<Longrightarrow> finishes P n Q) \<Longrightarrow> finishes P (if b then m else n) Q"
  by simp

end
