(* ===== verification/Cfw_Frame.thy ===== *)
theory Cfw_Frame
  imports Cfw_Updater Card_Rules
begin

text \<open>
  The parts of the card that each routine of the firmware updater can touch, what its deletions
  preserve, and its journal as an instance of \<open>journal_writer\<close>.
\<close>

section \<open>Path constants\<close>

lemma s_printf_paths [simp]:
  "s_printf ''%s/%s'' [Str a, Str b] = a @ CHR ''/'' # b"
  "s_printf ''sd:/%s'' [Str b] = ''sd:/'' @ b"
  "s_printf ''%s'' [Str b] = b"
  "s_printf ''%s/.absent%u'' [Str a, Num n] = a @ ''/.absent%u''"
  by (simp_all add: s_printf_simps)

definition backup_k :: "string \<Rightarrow> path" where
  "backup_k name = [''aio-mod-update'', ''backup'', name]"

definition marker_k :: path where "marker_k = [''aio-mod-update'', ''backup'', ''.absent%u'']"
definition cfw_state_k :: path where "cfw_state_k = [''aio-mod-update'', ''state'']"
definition cfw_tmp_k :: path where "cfw_tmp_k = [''aio-mod-update'', ''state.tmp'']"
definition new_k :: "string list \<Rightarrow> path" where "new_k p = [''aio-mod-update'', ''new''] @ p"

lemmas cfw_keys = backup_k_def marker_k_def cfw_state_k_def cfw_tmp_k_def new_k_def

lemma cfw_paths:
  "path_keys UPDATE_ROOT = [''aio-mod-update'']"
  "path_keys UPDATE_BACKUP = [''aio-mod-update'', ''backup'']"
  "path_keys UPDATE_NEW = new_k []"
  "path_keys UPDATE_READY = [''aio-mod-update'', ''ready'']"
  "path_keys UPDATE_STATE = cfw_state_k"
  "path_keys UPDATE_STATE_TMP = cfw_tmp_k"
  "path_keys UPDATE_PAYLOAD_NEXT = [''aio-mod-update'', ''payload.next'']"
  "path_keys UPDATE_UPDATER_SAVED = [''aio-mod-update'', ''updater-live.bin'']"
  "path_keys MARIKO_PAYLOAD_FALLBACK = [''payload.bin.aio'']"
  "path_keys (UPDATE_ROOT @ ''/recovery.bin'') = [''aio-mod-update'', ''recovery.bin'']"
  "path_keys (UPDATE_NEW @ ''/atmosphere/package3'') = new_k [''atmosphere'', ''package3'']"
  "path_keys (UPDATE_NEW @ ''/bootloader/update.bin'') = new_k [''bootloader'', ''update.bin'']"
  "path_keys (UPDATE_NEW @ ''/atmosphere/reboot_payload.bin'') = new_k [''atmosphere'', ''reboot_payload.bin'']"
  "path_keys (UPDATE_NEW @ ''/payload.bin'') = new_k [''payload.bin'']"
  "path_keys ''sd:/atmosphere/package3'' = [''atmosphere'', ''package3'']"
  "path_keys ''sd:/bootloader/update.bin'' = [''bootloader'', ''update.bin'']"
  "path_keys ''sd:/atmosphere/reboot_payload.bin'' = [''atmosphere'', ''reboot_payload.bin'']"
  "path_keys ''sd:/payload.bin'' = [''payload.bin'']"
  "path_keys ''sd:/Next'' = [''Next'']"
  "path_keys ''sd:/'' = []"
  by (simp_all add: path_keys_def after_drive_def cfw_path_defs UPDATE_NEW_def cfw_keys)

text \<open>All markers have the same name: \<^verbatim>\<open>s_printf\<close> has no conversion \<^verbatim>\<open>%u\<close>.\<close>

lemma path_keys_marker: "path_keys (absent_marker_path i) = marker_k"
  by (simp add: absent_marker_path_def UPDATE_BACKUP_def path_keys_def after_drive_def marker_k_def)

lemma path_keys_name: "good_name n \<Longrightarrow> path_keys (''sd:/'' @ n) = [n]"
  using path_keys_CombinePaths [of n "''sd:/''"] cfw_paths(20) by (simp add: CombinePaths_def)

lemma path_keys_backup_dst: "good_name n \<Longrightarrow> path_keys (backup_dst n) = backup_k n"
  using path_keys_CombinePaths [of n UPDATE_BACKUP] cfw_paths(2)
  by (simp add: CombinePaths_def backup_dst_def UPDATE_BACKUP_def backup_k_def)

lemma path_keys_root_path: "good_name n \<Longrightarrow> path_keys (root_path n) = [n]"
  by (simp only: root_path_def s_printf_paths path_keys_name)

lemma path_keys_backup_src:
  "good_name n \<Longrightarrow> path_keys (backup_src p n) = [if p \<and> n = ''payload.bin'' then ''payload.bin.aio'' else n]"
  by (auto simp only: backup_src_def s_printf_paths path_keys_name cfw_paths if_True if_False simp_thms split: if_splits)

lemma good_managed: "n \<in> set managed_paths \<Longrightarrow> good_name n"
  by (auto simp: managed_paths_def good_name_def)

lemma managed_not_root: "n \<in> set managed_paths \<Longrightarrow> n \<noteq> ''aio-mod-update'' \<and> n \<noteq> ''payload.bin.aio'' \<and> n \<noteq> ''.absent%u''"
  by (auto simp: managed_paths_def)

section \<open>Screens\<close>

lemma offline_cfw_ui [simp]:
  "offline cfw_ui_success_wait" "offline (cfw_ui_warning_wait s c)"
  "offline cfw_ui_rollback_success_wait" "offline cfw_ui_unchanged_wait"
  "offline (cfw_ui_fatal_wait_poweroff s c m)"
  unfolding cfw_ui_success_wait_def cfw_ui_warning_wait_def cfw_ui_rollback_success_wait_def
    cfw_ui_unchanged_wait_def cfw_ui_fatal_wait_poweroff_def
  by ((rule offline_bind | (simp add: quiet_offline; fail))+)

lemma quiet_prints [simp]: "quiet (EPRINTF t a)" "quiet (WPRINTF t a)"
  by (simp_all add: EPRINTF_def WPRINTF_def)

section \<open>Routines that only read\<close>

lemma keeps_cfw_reads [keeps_intros]:
  "keeps M q (cfw_file_sizes_match s t)" "keeps M q (cfw_read_state n)" "keeps M q (staged_package_valid p)"
  unfolding cfw_file_sizes_match_def cfw_read_state_def staged_package_valid_def
  by ((rule keeps_bind keeps_prod keeps_if keeps_return keeps_f_stat keeps_read_state_from keeps_path_exists)+)

lemma keeps_installed_core_valid [keeps_intros]: "keeps M q (installed_core_valid p)"
  unfolding installed_core_valid_def
  by ((rule keeps_bind keeps_if keeps_return keeps_cfw_reads keeps_path_exists)+)

section \<open>Deletions\<close>

lemma triple_remove_tree_fuel:
  assumes P: "falls (path_keys path) P"
  shows "triple M (\<lambda>h. P) P (remove_tree_fuel n path)
    (\<lambda>e v. P v \<and> (e = FR_OK \<longrightarrow> get_at (path_keys path) v = None))"
  using P
proof (induction n arbitrary: path)
  case 0
  have "triple M (\<lambda>h. P) P (stop Out_Of_Fuel) (\<lambda>_. P)"
    by (rule triple_offline) auto
  then show ?case
    unfolding remove_tree_fuel.simps by (rule triple_bind) (simp add: triple_return)
next
  case (Suc n)
  have body: "triple M (\<lambda>h. P) P
      (if isDir e then remove_tree_fuel n (CombinePaths path (entry_name e))
       else f_unlink (CombinePaths path (entry_name e))) (\<lambda>_. P)" if "good_name (entry_name e)" for e
  proof -
    have sub: "falls (path_keys (CombinePaths path (entry_name e))) P"
      using Suc.prems that by (simp add: path_keys_CombinePaths falls_append)
    show ?thesis
      by (rule triple_if; rule triple_post [OF Suc.IH [OF sub]] triple_post [OF triple_f_unlink [OF refl sub]]; simp)
  qed
  have loop: "triple M (\<lambda>h. P) P (for_ok (\<lambda>e.
         if isDir e then remove_tree_fuel n (CombinePaths path (entry_name e))
         else f_unlink (CombinePaths path (entry_name e))) es) (\<lambda>_. P)"
    if "\<forall>e \<in> set es. good_name (entry_name e)" for es
    using that by (intro triple_for_ok body) simp
  show ?case
    unfolding remove_tree_fuel.simps
    apply (rule triple_bind_keeps2 [OF keeps_ReadFolder], assumption)
    apply (rule triple_check, simp)
    apply (rule triple_bind [OF loop], assumption)
    apply (rule triple_check, simp)
    apply (rule triple_post [OF triple_f_unlink [OF refl Suc.prems]], assumption, simp)
    done
qed

lemma triple_remove_tree_silent:
  "falls (path_keys path) P \<Longrightarrow> triple M (\<lambda>h. P) P (remove_tree_silent path)
    (\<lambda>e v. P v \<and> (e = FR_OK \<longrightarrow> get_at (path_keys path) v = None))"
  unfolding remove_tree_silent_def by (rule triple_bind_quiet) (auto intro: triple_remove_tree_fuel)

lemma triple_remove_path_silent:
  assumes p: "path_keys s = p" "p \<noteq> []" and P: "falls p P"
  shows "triple M (\<lambda>h. P) P (remove_path_silent s) (\<lambda>e v. P v \<and> (e = FR_OK \<longrightarrow> get_at p v = None))"
proof -
  have P': "falls (path_keys s) P" using P p by simp
  show ?thesis
    unfolding remove_path_silent_def
    apply (rule triple_bind2)
     apply (rule triple_stat [OF p, where P = P], assumption)
    apply (rule triple_if, rule triple_return, simp)
    apply (rule triple_if, rule triple_return, simp)
    apply (rule triple_if)
     apply (rule triple_pre [OF triple_remove_tree_silent [OF P', unfolded p(1)]], simp)
    apply (rule triple_weaken [OF triple_f_unlink [OF p(1) P]]; simp)
    done
qed

lemma keeps_remove_tree_fuel:
  "apart (path_keys path) q \<Longrightarrow> keeps M q (remove_tree_fuel n path)"
proof (induction n arbitrary: path)
  case 0
  show ?case by (auto simp: remove_tree_fuel.simps intro!: keeps_intros)
next
  case (Suc n)
  have body: "keeps M q (if isDir e then remove_tree_fuel n (CombinePaths path (entry_name e))
       else f_unlink (CombinePaths path (entry_name e)))" if "good_name (entry_name e)" for e :: FSEntry_t
    using that Suc.prems
    by (intro keeps_if Suc.IH keeps_f_unlink) (simp_all add: path_keys_CombinePaths apart_append)
  show ?case
    unfolding remove_tree_fuel.simps
    by ((rule keeps_if keeps_bind_ReadFolder keeps_return keeps_f_unlink body
          | rule keeps_bind keeps_for_ok | (use Suc.prems in \<open>simp; fail\<close>))+)
qed

lemma keeps_remove_path_silent [keeps_intros]:
  "apart (path_keys s) q \<Longrightarrow> keeps M q (remove_path_silent s)"
  unfolding remove_path_silent_def remove_tree_silent_def
  by ((rule keeps_bind keeps_prod keeps_if keeps_return keeps_f_stat keeps_f_unlink keeps_ask
      keeps_remove_tree_fuel | assumption)+)

text \<open>A deleted file: what the journal needs.\<close>

lemma triple_remove_file_silent:
  assumes p: "path_keys s = p" "p \<noteq> []" and x: "x = None \<or> (\<exists>a c. x = Some (File a c))"
  shows "triple M (\<lambda>h v. get_at p v = x \<or> get_at p v = None) (\<lambda>v. get_at p v = x)
    (remove_path_silent s)
    (\<lambda>e v. (get_at p v = x \<or> get_at p v = None) \<and> (e = FR_OK \<longrightarrow> get_at p v = None) \<and>
           (M \<longrightarrow> plain x \<longrightarrow> e = FR_OK))"
proof -
  have unlink: "triple M (\<lambda>h v. get_at p v = x \<or> get_at p v = None) (\<lambda>v. get_at p v = x) (f_unlink s)
      (\<lambda>e v. (get_at p v = x \<or> get_at p v = None) \<and> (e = FR_OK \<longrightarrow> get_at p v = None) \<and>
           (M \<longrightarrow> plain x \<longrightarrow> e = FR_OK))" if "x = Some n" for n
  proof -
    from x that obtain a c where xf: "x = Some (File a c)" by auto
    show ?thesis
      by (rule triple_post [OF triple_f_unlink_file [OF p, of M a c, folded xf]]) (auto simp: plain_def xf)
  qed
  have keeps: "keeps M (\<lambda>_. True) (remove_tree_silent s)" "keeps M (\<lambda>_. True) (f_unlink s)"
    unfolding remove_tree_silent_def by (auto intro!: keeps_bind_ask keeps_remove_tree_fuel keeps_f_unlink)
  show ?thesis
    unfolding remove_path_silent_def
    apply (rule triple_bind2)
     apply (rule triple_pre [OF triple_f_stat [OF p, where P = "\<lambda>v. get_at p v = x" and x = x]], simp, simp)
    apply (rule triple_if, rule triple_return, simp)
    apply (rule triple_if, rule triple_return, simp)
    apply (rule triple_if, rule triple_absurd [OF keeps(1)])
     apply (use x in auto)[1]
    apply (cases x)
     apply (rule triple_absurd [OF keeps(2)], simp)
    apply (rule triple_pre [OF unlink], assumption, simp)
    done
qed

section \<open>The journal of the firmware updater\<close>


lemma keeps_cfw_line_close:
  assumes "fil_path fp = path_keys t" and "apart (path_keys t) q"
  shows "keeps M q (cfw_line_close res fp)"
proof -
  have sync: "keeps_val M q (\<lambda>(r, fp). fil_path fp = path_keys t)
      (if res = 0 then f_sync fp else State_Monad.return (res, fp))"
    using assms
    by (auto intro!: keeps_return_val keeps_weaken [OF keeps_f_sync] simp: good_fil_path_keys)
  have close: "keeps M q (f_close fp)" if "fil_path fp = path_keys t" for fp
    using that assms(2) by (auto intro!: keeps_f_close simp: good_fil_path_keys)
  show ?thesis
    unfolding cfw_line_close_def by (rule keeps_bind2 [OF sync]) (intro keeps_bind [OF close] keeps_return)
qed

lemma keeps_cfw_line_end:
  assumes "fil_path fp = path_keys t" and "apart (path_keys t) q"
  shows "keeps M q (cfw_line_end s res n fp)"
  unfolding cfw_line_end_def
  by (intro keeps_if keeps_bind3 [OF keeps_f_write] keeps_cfw_line_close [of _ t]) (use assms in simp_all)

lemma keeps_cfw_write_line:
  assumes "fil_path fp = path_keys t" and "apart (path_keys t) q"
  shows "keeps M q (cfw_write_line fp s)"
  unfolding cfw_write_line_def
  by (intro keeps_bind3 [OF keeps_f_write] keeps_cfw_line_end [of _ t]) (use assms in simp_all)

lemma triple_cfw_write_line:
  assumes p: "path_keys t = p" "p \<noteq> []" and s: "length s < 512"
  shows "triple True (\<lambda>h. written p (torn True s))
      (\<lambda>v. get_at p v = Some (File AM_ARC [])) (cfw_write_line (new_fil p) s)
      (\<lambda>e v. written p (torn True s) v \<and> (True \<longrightarrow> e = FR_OK) \<and>
        (e = FR_OK \<longrightarrow> get_at p v = Some (File AM_ARC (s @ [CHR 0x0A]))))" (is "triple True ?C _ _ ?Q")
proof -
  let ?X = "torn True s"
  have fresh: "ferr (new_fil p) = FR_OK" "writable (new_fil p)" "fil_path (new_fil p) = p"
    by (simp_all add: new_fil_def no_fil_def)
  then have second: "ferr (append_fil (new_fil p) s) = FR_OK" "writable (append_fil (new_fil p) s)"
      "fil_path (append_fil (new_fil p) s) = p"
    by (simp_all add: append_fil_def)
  have data: "fdata (append_fil (append_fil (new_fil p) s) u) = s @ u"
      "modified (append_fil (append_fil (new_fil p) s) u)" for u
    by (simp_all add: append_fil_def new_fil_def no_fil_def)
  have last: "triple True ?C (\<lambda>v. (res = FR_OK \<and> n = 1) \<and> written p ?X v)
      (cfw_line_close (if res = FR_OK \<and> n \<noteq> 1 then FR_DISK_ERR else res) fp) ?Q"
    if "fil_path fp = p" "res = FR_OK \<longrightarrow> n = length [CHR 0x0A] \<longrightarrow> fp = append_fil (append_fil (new_fil p) s) [CHR 0x0A]"
    for res n fp
  proof (rule triple_fact [OF _ keeps_cfw_line_close [where t = t and q = "\<lambda>_. True"]])
    assume ok: "res = FR_OK \<and> n = 1"
    with that data [of "[CHR 0x0A]"] have "modified fp" "fdata fp = s @ [CHR 0x0A]" by simp_all
    then have "triple True ?C (\<lambda>v. written p ?X v \<and> (True \<longrightarrow> FR_OK = FR_OK)) (cfw_line_close FR_OK fp) ?Q"
      unfolding cfw_line_close_def by (intro triple_finish_line [OF that(1) p(2) _ p(1) s]) simp
    with ok show "triple True ?C (written p ?X)
        (cfw_line_close (if res = FR_OK \<and> n \<noteq> 1 then FR_DISK_ERR else res) fp) ?Q"
      by simp
  qed (use that p in simp_all)
  have middle: "triple True ?C (\<lambda>v. (res = FR_OK \<and> n = length s) \<and> written p ?X v) (cfw_line_end s res n fp) ?Q"
    if "fil_path fp = p" "res = FR_OK \<longrightarrow> n = length s \<longrightarrow> fp = append_fil (new_fil p) s" for res n fp
  proof (rule triple_fact [OF _ keeps_cfw_line_end [where t = t and q = "\<lambda>_. True"]])
    assume ok: "res = FR_OK \<and> n = length s"
    with that have fp: "fp = append_fil (new_fil p) s" by simp
    show "triple True ?C (written p ?X) (cfw_line_end s res n fp) ?Q"
      unfolding cfw_line_end_def if_P [OF ok] fp
      apply (rule triple_seq3 [OF triple_f_write [OF second(1,2), where P = "written p ?X" and C = ?C]
            yields_f_write [OF second(1,2)]])
         apply assumption
        apply assumption
       apply assumption
      apply (rule triple_pre [OF last])
        apply (simp_all add: second)
      done
  qed (use that p in simp_all)
  show ?thesis
    unfolding cfw_write_line_def
    apply (rule triple_seq3 [OF triple_f_write [OF fresh(1,2), where P = "written p ?X"]
        yields_f_write [OF fresh(1,2)]])
       apply assumption
      apply (auto simp: written_def torn_def)[2]
    apply (rule triple_pre [OF middle])
    apply (auto simp: fresh)
    done
qed

interpretation cfw_journal: journal_writer remove_path_silent cfw_write_line
  UPDATE_ROOT UPDATE_STATE UPDATE_STATE_TMP "''aio-mod-update''" "''state''" "''state.tmp''" "\<lambda>M. M"
proof unfold_locales
  show "apart (path_keys s) q \<Longrightarrow> keeps M q (remove_path_silent s)" for s q M
    by (rule keeps_remove_path_silent)
  show "path_keys t = p \<Longrightarrow> p \<noteq> [] \<Longrightarrow> length s < 512 \<Longrightarrow> M \<Longrightarrow> triple M (\<lambda>h. written p (torn M s))
      (\<lambda>v. get_at p v = Some (File AM_ARC [])) (cfw_write_line (new_fil p) s)
      (\<lambda>e v. written p (torn M s) v \<and> (M \<longrightarrow> e = FR_OK) \<and>
             (e = FR_OK \<longrightarrow> get_at p v = Some (File AM_ARC (s @ [CHR 0x0A]))))" for t p s M
    using triple_cfw_write_line [of t p s] by (cases M) auto
qed (simp_all add: triple_remove_file_silent keeps_cfw_write_line cfw_paths cfw_keys)

lemma cfw_write_state_journal: "cfw_write_state = cfw_journal.write_state"
  by (rule ext) (simp only: cfw_write_state_def cfw_journal.write_state_def)

lemma keeps_cfw_write_state [keeps_intros]:
  assumes "apart cfw_state_k q" and "apart cfw_tmp_k q" and "apart_new [''aio-mod-update''] q"
  shows "keeps M q (cfw_write_state s)"
  unfolding cfw_write_state_def
  by ((rule keeps_bind_fatfs(2) keeps_if keeps_return keeps_f_rename
      | rule keeps_bind [OF keeps_mkdir_if_needed] keeps_bind [OF keeps_remove_path_silent]
      | rule keeps_bind [OF keeps_cfw_write_line] | assumption
      | (simp add: assms cfw_paths; fail))+)

end
