(* ===== verification/Cfw_Safety.thy ===== *)
theory Cfw_Safety
  imports Cfw_Frame
begin

text \<open>
  What the firmware updater keeps safe when the power fails: the invariant of its transaction,
  and that every phase of a boot preserves it. The machine is steady throughout: the power may
  fail at any call, the card answers correctly.
\<close>

section \<open>The invariant\<close>

text \<open>A path holds an object up to the archive bit, which \<^verbatim>\<open>f_rename\<close> sets on files.\<close>

definition held :: "path \<Rightarrow> node \<Rightarrow> node option" where
  "held p v = map_option renamed (get_at p v)"

text \<open>
  The managed paths that are protected when the first \<open>f\<close> of them are there at the start. On
  patched and Mariko consoles \<^verbatim>\<open>payload.bin\<close> is the updater itself and is handled apart.
\<close>

definition guarded :: "bool \<Rightarrow> nat \<Rightarrow> string set" where
  "guarded p f = {n \<in> set (take f managed_paths). \<not> (p \<and> n = ''payload.bin'')}"

text \<open>The original of a path is in the backup, or else still in its place.\<close>

definition safe_name :: "(string \<Rightarrow> node option) \<Rightarrow> string \<Rightarrow> node \<Rightarrow> bool" where
  "safe_name orig n v =
    (if get_at (backup_k n) v \<noteq> None then held (backup_k n) v = orig n else held [n] v = orig n)"

definition saved :: "string set \<Rightarrow> node \<Rightarrow> bool" where
  "saved K v = (\<forall>n \<in> K. get_at (backup_k n) v \<noteq> None)"

definition marker_ok :: "string set \<Rightarrow> node \<Rightarrow> bool" where
  "marker_ok K v = (get_at marker_k v \<noteq> None \<longrightarrow>
     saved K v \<and> (\<exists>n \<in> set managed_paths. get_at (backup_k n) v = None))"

text \<open>
  The kind of console and the number of bytes of the staged \<^verbatim>\<open>package3\<close>, which is what the updater
  compares with the installed one. The staged package does not contain the update directory
  itself. While an original is in the backup the package is complete.
\<close>

type_synonym pack = "bool \<times> nat"

definition pack_ok :: "pack \<Rightarrow> node \<Rightarrow> bool" where
  "pack_ok n3 v = (get_at (new_k [''aio-mod-update'']) v = None \<and>
     (\<forall>c. file_at (new_k [''atmosphere'', ''package3'']) v = Some c \<longrightarrow> length c = snd n3))"

definition package_valid :: "bool \<Rightarrow> node \<Rightarrow> bool" where
  "package_valid p v = (get_at (new_k [''atmosphere'', ''package3'']) v \<noteq> None \<and>
     (if p then get_at (new_k [''payload.bin'']) v \<noteq> None
      else get_at (new_k [''bootloader'', ''update.bin'']) v \<noteq> None \<or>
           get_at (new_k [''atmosphere'', ''reboot_payload.bin'']) v \<noteq> None \<or>
           get_at (new_k [''payload.bin'']) v \<noteq> None))"

definition unbacked :: "string set \<Rightarrow> node \<Rightarrow> bool" where
  "unbacked N v = (\<forall>n \<in> N. get_at (backup_k n) v = None)"

definition covered :: "string set \<Rightarrow> pack \<Rightarrow> node \<Rightarrow> bool" where
  "covered K n3 v = (unbacked K v \<or> package_valid (fst n3) v)"

definition installed :: "pack \<Rightarrow> node \<Rightarrow> bool" where
  "installed n3 v = (\<exists>c. file_at [''atmosphere'', ''package3''] v = Some c \<and> length c = snd n3)"

definition cfw_entry :: "node \<Rightarrow> string option" where
  "cfw_entry v = (case read_line cfw_state_k v of Some s \<Rightarrow> Some s | None \<Rightarrow> read_line cfw_tmp_k v)"

text \<open>What the journal entry promises.\<close>

definition early :: "string option set" where
  "early = {None, Some STATE_STAGED, Some STATE_BACKUP_IN_PROGRESS, Some STATE_ROLLBACK_IN_PROGRESS,
     Some STATE_ROLLBACK_FAILED}"

definition entry_true :: "string set \<Rightarrow> pack \<Rightarrow> node \<Rightarrow> string option \<Rightarrow> bool" where
  "entry_true K n3 v j =
    (j \<in> early \<or>
     j \<in> {Some STATE_BACKUP_COMPLETE, Some STATE_COPY_IN_PROGRESS} \<and> saved K v \<or>
     j \<in> {Some STATE_COPY_COMPLETE, Some STATE_FINALIZE_PAYLOAD, Some STATE_COMMIT_IN_PROGRESS} \<and>
       saved K v \<and> installed n3 v)"

text \<open>A card on which the journal can be written.\<close>

definition journal_fit :: "node \<Rightarrow> bool" where
  "journal_fit v = (is_dir v \<and> (get_at [''aio-mod-update''] v = None \<or> dir_at [''aio-mod-update''] v) \<and>
     plain (get_at cfw_state_k v) \<and> plain (get_at cfw_tmp_k v))"

definition cfw_base :: "string set \<Rightarrow> (string \<Rightarrow> node option) \<Rightarrow> pack \<Rightarrow> node \<Rightarrow> bool" where
  "cfw_base K orig n3 v =
    ((\<forall>n \<in> K. safe_name orig n v) \<and> marker_ok K v \<and> covered K n3 v \<and> pack_ok n3 v \<and> journal_fit v)"

definition cfw_inv :: "string set \<Rightarrow> (string \<Rightarrow> node option) \<Rightarrow> pack \<Rightarrow> node \<Rightarrow> bool" where
  "cfw_inv K orig n3 v = (cfw_base K orig n3 v \<and> entry_true K n3 v (cfw_entry v) \<and>
     (read_line cfw_state_k v = Some STATE_STAGED \<longrightarrow> read_line cfw_tmp_k v \<in> early))"

text \<open>Once the commit has begun the new firmware is installed, and stays so.\<close>

definition cfw_committed :: "pack \<Rightarrow> node \<Rightarrow> bool" where
  "cfw_committed n3 v = (installed n3 v \<and>
     (journal_fit v \<and> cfw_entry v = Some STATE_COMMIT_IN_PROGRESS \<or>
      cfw_entry v = None \<and> get_at [''aio-mod-update'', ''ready''] v = None \<and>
        get_at [''aio-mod-update'', ''backup''] v = None))"

section \<open>Observations\<close>

lemma renamed_idem [simp]: "renamed (renamed n) = renamed n"
  by (cases n) (simp_all add: or.assoc)

lemma apart_ballI: "(\<And>n. n \<in> K \<Longrightarrow> apart p (F n)) \<Longrightarrow> apart p (\<lambda>v. \<forall>n \<in> K. F n v)"
  and apart_bexI: "(\<And>n. n \<in> K \<Longrightarrow> apart p (F n)) \<Longrightarrow> apart p (\<lambda>v. \<exists>n \<in> K. F n v)"
  and apart_impI: "apart p P \<Longrightarrow> apart p Q \<Longrightarrow> apart p (\<lambda>v. P v \<longrightarrow> Q v)"
  and apart_neqI: "apart p q \<Longrightarrow> apart p (\<lambda>v. q v \<noteq> x)"
  by (simp_all add: apart_def)

lemma apart_is_dir [simp]: "apart (x # p) is_dir"
proof -
  have "is_dir (put_at (x # q) n v) = is_dir v \<and> is_dir (del_at (x # q) v) = is_dir v" for q n v
    by (cases v) (auto split: option.splits)
  then show ?thesis by (simp add: apart_def)
qed

text \<open>An existing object goes away, and a missing one appears, only with a change at or above it.\<close>

lemma get_None_put_at: "\<not> prefix p q \<Longrightarrow> (get_at q (put_at p m v) = None) = (get_at q v = None)"
proof (induction p m v arbitrary: q rule: put_at.induct)
  case (3 k ks m a es)
  then show ?case by (cases q) (auto simp: AList.update_conv' split: option.splits)
qed auto

lemma get_None_del_at: "\<not> prefix p q \<Longrightarrow> (get_at q (del_at p v) = None) = (get_at q v = None)"
proof (induction p v arbitrary: q rule: del_at.induct)
  case (3 k ks a es)
  then show ?case by (cases q) (auto simp: AList.update_conv' AList.delete_conv' split: option.splits)
qed auto

lemma apart_None: "\<not> prefix p q \<Longrightarrow> apart p (\<lambda>v. get_at q v = None)"
  unfolding apart_def by (metis append_prefixD get_None_del_at get_None_put_at)

lemma backup_k_parallel [simp]:
  "backup_k m \<parallel> backup_k n \<longleftrightarrow> m \<noteq> n" "x \<noteq> ''aio-mod-update'' \<Longrightarrow> [x] \<parallel> backup_k n"
  "x \<noteq> ''aio-mod-update'' \<Longrightarrow> backup_k n \<parallel> [x]"
  "x \<noteq> ''aio-mod-update'' \<Longrightarrow> [x] \<parallel> marker_k" "x \<noteq> ''aio-mod-update'' \<Longrightarrow> [x] \<parallel> cfw_state_k"
  "x \<noteq> ''aio-mod-update'' \<Longrightarrow> [x] \<parallel> cfw_tmp_k" "x \<noteq> ''aio-mod-update'' \<Longrightarrow> [x] \<parallel> new_k q"
  "n \<noteq> ''.absent%u'' \<Longrightarrow> backup_k n \<parallel> marker_k" "n \<noteq> ''.absent%u'' \<Longrightarrow> marker_k \<parallel> backup_k n"
  "backup_k n \<parallel> cfw_state_k" "backup_k n \<parallel> cfw_tmp_k" "backup_k n \<parallel> new_k q"
  "cfw_state_k \<parallel> backup_k n" "cfw_tmp_k \<parallel> backup_k n"
  "marker_k \<parallel> cfw_state_k" "marker_k \<parallel> cfw_tmp_k" "marker_k \<parallel> new_k q"
  "cfw_state_k \<parallel> marker_k" "cfw_tmp_k \<parallel> marker_k" "cfw_state_k \<parallel> new_k q" "cfw_tmp_k \<parallel> new_k q"
  "cfw_state_k \<parallel> cfw_tmp_k" "cfw_tmp_k \<parallel> cfw_state_k"
  "x \<noteq> ''aio-mod-update'' \<Longrightarrow> cfw_state_k \<parallel> [x]" "x \<noteq> ''aio-mod-update'' \<Longrightarrow> cfw_tmp_k \<parallel> [x]"
  "x \<noteq> ''aio-mod-update'' \<Longrightarrow> marker_k \<parallel> [x]"
  by (simp_all add: cfw_keys)

lemma apart_held: "p \<parallel> q \<Longrightarrow> apart p (held q)"
  unfolding held_def by (rule apart_compose) simp

lemma apart_safe_name: "p \<parallel> backup_k n \<Longrightarrow> p \<parallel> [n] \<Longrightarrow> apart p (safe_name orig n)"
  by (simp add: safe_name_def held_def apart_def get_at_put_at_apart get_at_del_at_apart parallel_append_left)

lemma apart_saved: "(\<And>n. n \<in> K \<Longrightarrow> p \<parallel> backup_k n) \<Longrightarrow> apart p (saved K)"
  unfolding saved_def by (intro apart_ballI apart_neqI apart_get_at)

lemma apart_marker_ok:
  "p \<parallel> marker_k \<Longrightarrow> (\<And>n. n \<in> K \<union> set managed_paths \<Longrightarrow> p \<parallel> backup_k n) \<Longrightarrow> apart p (marker_ok K)"
  unfolding marker_ok_def
  by (intro apart_impI apart_neqI apart_conjI apart_saved apart_bexI apart_eqI apart_get_at) auto

lemma apart_pack_ok: "(\<And>q. p \<parallel> new_k q) \<Longrightarrow> apart p (pack_ok n3)"
  by (simp add: pack_ok_def apart_def file_at_def get_at_put_at_apart get_at_del_at_apart parallel_append_left)

lemma apart_package_valid: "(\<And>q. p \<parallel> new_k q) \<Longrightarrow> apart p (package_valid b)"
  by (simp add: package_valid_def apart_def get_at_put_at_apart get_at_del_at_apart parallel_append_left)

lemma apart_unbacked: "(\<And>n. n \<in> N \<Longrightarrow> p \<parallel> backup_k n) \<Longrightarrow> apart p (unbacked N)"
  unfolding unbacked_def by (intro apart_ballI apart_eqI apart_get_at)

lemma apart_covered:
  "(\<And>n. n \<in> K \<Longrightarrow> p \<parallel> backup_k n) \<Longrightarrow> (\<And>q. p \<parallel> new_k q) \<Longrightarrow> apart p (covered K n3)"
  unfolding covered_def by (intro apart_disjI apart_unbacked apart_package_valid)

lemma apart_installed: "p \<parallel> [''atmosphere'', ''package3''] \<Longrightarrow> apart p (installed n3)"
  by (simp add: installed_def apart_def file_at_def get_at_put_at_apart get_at_del_at_apart parallel_append_left)

lemma apart_journal_fit:
  assumes "p \<noteq> []" and "p \<parallel> cfw_state_k" and "p \<parallel> cfw_tmp_k" and "p \<noteq> [''aio-mod-update'']"
  shows "apart p journal_fit"
proof -
  have "\<not> prefix p [''aio-mod-update'']" using assms(1,4) by (auto simp: prefix_Cons)
  then have "apart p (dir_at [''aio-mod-update''])" "apart p (\<lambda>v. get_at [''aio-mod-update''] v = None)"
    by (simp_all add: apart_None)
  moreover have "apart p is_dir" using assms(1) by (cases p) simp_all
  ultimately show ?thesis
    using assms(2,3) by (auto simp: journal_fit_def apart_def get_at_put_at_apart get_at_del_at_apart parallel_append_left)
qed

section \<open>Writing the journal\<close>

definition protects :: "bool \<Rightarrow> string set \<Rightarrow> (string \<Rightarrow> node option) \<Rightarrow> bool" where
  "protects p K orig = (K \<subseteq> set managed_paths \<and> ''atmosphere'' \<in> K \<and> (p \<longrightarrow> ''payload.bin'' \<notin> K) \<and>
     (\<forall>n \<in> K. orig n \<noteq> None) \<and>
     (\<forall>ys n zs. managed_paths = ys @ n # zs \<longrightarrow> n \<notin> K \<longrightarrow> K \<subseteq> set ys))"

text \<open>The part of the invariant that does not look at the journal.\<close>

definition cfw_core :: "string set \<Rightarrow> (string \<Rightarrow> node option) \<Rightarrow> pack \<Rightarrow> node \<Rightarrow> bool" where
  "cfw_core K orig n3 v = ((\<forall>n \<in> K. safe_name orig n v) \<and> marker_ok K v \<and> covered K n3 v \<and> pack_ok n3 v)"

lemma cfw_base_core: "cfw_base K orig n3 v \<longleftrightarrow> cfw_core K orig n3 v \<and> journal_fit v"
  by (auto simp: cfw_base_def cfw_core_def)

lemma managed_neq [simp]:
  "K \<subseteq> set managed_paths \<Longrightarrow> n \<in> K \<Longrightarrow> n \<noteq> ''aio-mod-update''"
  "K \<subseteq> set managed_paths \<Longrightarrow> n \<in> K \<Longrightarrow> n \<noteq> ''.absent%u''"
  using managed_not_root by blast+

lemma managed_notin [simp]:
  "K \<subseteq> set managed_paths \<Longrightarrow> ''aio-mod-update'' \<notin> K" "K \<subseteq> set managed_paths \<Longrightarrow> ''payload.bin.aio'' \<notin> K"
  using managed_not_root by blast+

lemma managed_neq' [simp]:
  "n \<in> set managed_paths \<Longrightarrow> n \<noteq> ''aio-mod-update''" "n \<in> set managed_paths \<Longrightarrow> n \<noteq> ''.absent%u''"
  using managed_not_root by blast+

lemma apart_cfw_core:
  assumes "K \<subseteq> set managed_paths" and "p \<parallel> marker_k" and "\<And>n. n \<in> set managed_paths \<Longrightarrow> p \<parallel> backup_k n"
    and "\<And>n. n \<in> K \<Longrightarrow> p \<parallel> [n]" and "\<And>q. p \<parallel> new_k q"
  shows "apart p (cfw_core K orig n3)"
  unfolding cfw_core_def
  using assms by (intro apart_conjI apart_ballI apart_safe_name apart_marker_ok apart_covered apart_pack_ok) auto

lemma apart_new_root:
  assumes "\<And>v v'. (\<And>q. q \<noteq> [] \<Longrightarrow> q \<noteq> [r] \<Longrightarrow> get_at q v' = get_at q v) \<Longrightarrow> P v' = P v"
  shows "apart_new [r] P"
  unfolding apart_new_def
proof (intro allI impI)
  fix a v
  assume r: "get_at [r] v = None" "room_at [r] v"
  show "P (put_at [r] (Dir a []) v) = P v"
  proof (rule assms)
    fix q
    assume "q \<noteq> []" "q \<noteq> [r]"
    then show "get_at q (put_at [r] (Dir a []) v) = get_at q v"
      using apart_new_get_at [of q "[r]"] r by (auto simp: apart_new_def prefix_Cons)
  qed
qed

lemma apart_new_cfw_core:
  assumes "K \<subseteq> set managed_paths"
  shows "apart_new [''aio-mod-update''] (cfw_core K orig n3)"
  by (rule apart_new_root)
    (use assms in \<open>simp add: cfw_core_def safe_name_def held_def marker_ok_def saved_def pack_ok_def
      covered_def unbacked_def package_valid_def file_at_def cfw_keys cong: ball_cong bex_cong\<close>)

lemma apart_new_saved: "apart_new [''aio-mod-update''] (saved K)"
  by (rule apart_new_root) (simp add: saved_def cfw_keys)

lemma apart_new_installed: "apart_new [''aio-mod-update''] (installed n3)"
  by (rule apart_new_root) (simp add: installed_def file_at_def)

lemma cfw_journal_entry: "cfw_journal.journal = cfw_entry" "cfw_journal.fit = journal_fit"
  unfolding fun_eq_iff cfw_journal.journal_def cfw_entry_def cfw_journal.fit_def journal_fit_def cfw_keys
  by simp_all

lemma entry_ok_cfw [simp]: "entry_ok STATE_FINALIZE_PAYLOAD" "entry_ok STATE_ROLLBACK_FAILED"
  by (simp_all add: entry_ok_def cfw_state_defs journal_line_def)

lemma cfw_inv_calm:
  assumes "cfw_core K orig n3 v" and "cfw_journal.between j s v" and "cfw_journal.calm j t s v"
    and "entry_true K n3 v (Some s)" and "entry_true K n3 v (case j of None \<Rightarrow> t | Some x \<Rightarrow> Some x)"
    and "j = Some STATE_STAGED \<longrightarrow> Some s \<in> early \<and> t \<in> early"
    and "s = STATE_STAGED \<longrightarrow> j = None \<and> t = None"
  shows "cfw_inv K orig n3 v"
proof -
  have calm: "journal_fit v" "read_line cfw_state_k v \<in> {j, None, Some s}" "read_line cfw_tmp_k v \<in> {t, None, Some s}"
    using assms(3) by (simp_all add: cfw_journal.calm_def cfw_journal_entry cfw_keys)
  have none: "entry_true K n3 v None" by (simp add: entry_true_def early_def)
  have entry: "entry_true K n3 v (cfw_entry v)"
  proof (cases j)
    case None
    with calm(2,3) assms(4,5) none show ?thesis by (auto simp: cfw_entry_def)
  next
    case (Some x)
    with assms(2,4,5) show ?thesis by (auto simp: cfw_journal.between_def cfw_journal_entry)
  qed
  have "read_line cfw_tmp_k v \<in> early" if "read_line cfw_state_k v = Some STATE_STAGED"
    using that calm(2,3) assms(6,7) by (auto simp: early_def)
  with entry assms(1) calm(1) show ?thesis by (simp add: cfw_inv_def cfw_base_core)
qed

lemma triple_cfw_state:
  assumes K: "K \<subseteq> set managed_paths" and s: "entry_ok s"
    and F: "apart cfw_state_k F" "apart cfw_tmp_k F" "apart_new [''aio-mod-update''] F"
  shows "triple True (\<lambda>h. cfw_inv K orig n3)
    (\<lambda>v. F v \<and> cfw_inv K orig n3 v \<and> entry_true K n3 v (Some s) \<and>
       (read_line cfw_state_k v = Some STATE_STAGED \<longrightarrow> Some s \<in> early) \<and>
       (s = STATE_STAGED \<longrightarrow> cfw_entry v = None))
    (cfw_write_state s)
    (\<lambda>e v. F v \<and> cfw_inv K orig n3 v \<and> e = FR_OK \<and> read_line cfw_state_k v = Some s \<and> get_at cfw_tmp_k v = None)"
    (is "triple True ?C ?P _ ?Q")
proof (rule triple_ghost [where R = "\<lambda>_. True"
      and g = "\<lambda>v. (read_line cfw_state_k v, read_line cfw_tmp_k v, saved K v, installed n3 v)"])
  show "keeps True F (cfw_write_state s)" by (rule keeps_cfw_write_state [OF F])
  fix x :: "string option \<times> string option \<times> bool \<times> bool"
  obtain j t y z where x: "x = (j, t, y, z)" by (cases x)
  let ?F = "\<lambda>v. F v \<and> cfw_core K orig n3 v \<and> saved K v = y \<and> installed n3 v = z"
  have core: "apart cfw_state_k (cfw_core K orig n3)" "apart cfw_tmp_k (cfw_core K orig n3)"
    using K by (auto intro!: apart_cfw_core)
  have obs: "apart cfw_state_k (saved K)" "apart cfw_tmp_k (saved K)"
    "apart cfw_state_k (installed n3)" "apart cfw_tmp_k (installed n3)"
    by (auto intro!: apart_saved apart_installed simp: cfw_keys)
  have "keeps False ?F (cfw_write_state s)"
    using F core obs apart_new_cfw_core [OF K] apart_new_saved [of K] apart_new_installed [of n3]
    by (intro keeps_cfw_write_state apart_rules)
  note w = triple_frame [OF cfw_journal.write_state_triple [OF s TrueI, of j t]
      this [unfolded cfw_write_state_journal]]
  show "triple True ?C (\<lambda>v. ?P v \<and> (read_line cfw_state_k v, read_line cfw_tmp_k v, saved K v, installed n3 v) = x)
      (cfw_write_state s) ?Q"
  proof (cases "\<exists>v. ?P v \<and> (read_line cfw_state_k v, read_line cfw_tmp_k v, saved K v, installed n3 v) = x")
    case False
    then show ?thesis
      by (intro triple_absurd [OF keeps_cfw_write_state [OF F, of True s]]) blast
  next
    case True
    then obtain v0 where v0: "?P v0" "read_line cfw_state_k v0 = j" "read_line cfw_tmp_k v0 = t"
      "saved K v0 = y" "installed n3 v0 = z" by (auto simp: x)
    have et: "entry_true K n3 v e = entry_true K n3 v0 e" if "?F v" for v e
      using that v0(4,5) by (simp add: entry_true_def)
    have old: "entry_true K n3 v0 (case j of None \<Rightarrow> t | Some x \<Rightarrow> Some x)" "entry_true K n3 v0 (Some s)"
      "j = Some STATE_STAGED \<longrightarrow> Some s \<in> early \<and> t \<in> early" "s = STATE_STAGED \<longrightarrow> j = None \<and> t = None"
      using v0 by (auto simp: cfw_inv_def cfw_entry_def split: option.splits)
    have inv: "cfw_inv K orig n3 v" if "?F v" "cfw_journal.between j s v" "cfw_journal.calm j t s v" for v
      using that old et [OF that(1)] by (intro cfw_inv_calm [of K orig n3 v j s t]) auto
    have fin: "cfw_inv K orig n3 v"
      if "?F v" "journal_fit v" "read_line cfw_state_k v = Some s" "get_at cfw_tmp_k v = None" for v
      using that old et [OF that(1)] by (auto simp: cfw_inv_def cfw_base_core cfw_entry_def early_def)
    show ?thesis
      unfolding cfw_write_state_journal
      by (rule triple_weaken [OF w])
        (use fin inv in \<open>auto simp: x cfw_inv_def cfw_base_core cfw_journal_entry cfw_keys\<close>)
  qed
qed simp

end
