(* ===== verification/Cfw_Rollback.thy ===== *)
theory Cfw_Rollback
  imports Cfw_Safety
begin

text \<open>
  The backup and the rollback of the firmware updater: both preserve the invariant wherever
  the power fails, a complete backup holds every protected original, and a rollback that
  reports success has put every protected original back.
\<close>

section \<open>Working on one managed path\<close>

text \<open>A path whose original is in the backup may be changed at will.\<close>

lemma apart_core_backed:
  assumes K: "K \<subseteq> set managed_paths" and x: "x \<noteq> ''aio-mod-update''"
  shows "apart [x] (\<lambda>v. cfw_core K orig n3 v \<and> (x \<in> K \<longrightarrow> get_at (backup_k x) v \<noteq> None))"
proof -
  have "apart [x] (\<lambda>v. (\<forall>n \<in> K - {x}. safe_name orig n v) \<and>
      (x \<in> K \<longrightarrow> get_at (backup_k x) v \<noteq> None \<and> held (backup_k x) v = orig x) \<and> marker_ok K v \<and> covered K n3 v \<and> pack_ok n3 v)"
    using K x
    by (intro apart_conjI apart_ballI apart_safe_name apart_impI apart_const apart_neqI apart_eqI
        apart_get_at apart_held apart_marker_ok apart_covered apart_pack_ok) auto
  moreover have "(cfw_core K orig n3 v \<and> (x \<in> K \<longrightarrow> get_at (backup_k x) v \<noteq> None)) \<longleftrightarrow>
      (\<forall>n \<in> K - {x}. safe_name orig n v) \<and>
      (x \<in> K \<longrightarrow> get_at (backup_k x) v \<noteq> None \<and> held (backup_k x) v = orig x) \<and> marker_ok K v \<and> covered K n3 v \<and> pack_ok n3 v"
    for v
    by (cases "x \<in> K") (auto simp: cfw_core_def safe_name_def)
  ultimately show ?thesis by simp
qed

lemma apart_journal_files [simp]:
  "x \<noteq> ''aio-mod-update'' \<Longrightarrow> apart [x] journal_fit"
  "apart (backup_k n) journal_fit" "apart marker_k journal_fit"
  by (auto intro!: apart_journal_fit simp: cfw_keys)

section \<open>Rollback\<close>

text \<open>The card while the rollback runs.\<close>

definition undoing :: "string set \<Rightarrow> (string \<Rightarrow> node option) \<Rightarrow> pack \<Rightarrow> node \<Rightarrow> bool" where
  "undoing K orig n3 v = (cfw_core K orig n3 v \<and> journal_fit v \<and>
     (read_line cfw_state_k v = None \<or> read_line cfw_state_k v = Some STATE_ROLLBACK_IN_PROGRESS) \<and>
     read_line cfw_tmp_k v = None)"

lemma undoing_inv: "undoing K orig n3 v \<Longrightarrow> cfw_inv K orig n3 v"
  by (auto simp: undoing_def cfw_inv_def cfw_base_core cfw_entry_def entry_true_def early_def state_defs)

lemma apart_undoing_backed:
  assumes "K \<subseteq> set managed_paths" and "x \<noteq> ''aio-mod-update''"
  shows "apart [x] (\<lambda>v. undoing K orig n3 v \<and> (x \<in> K \<longrightarrow> get_at (backup_k x) v \<noteq> None))"
proof -
  have "apart [x] (\<lambda>v. (cfw_core K orig n3 v \<and> (x \<in> K \<longrightarrow> get_at (backup_k x) v \<noteq> None)) \<and> journal_fit v \<and>
      (read_line cfw_state_k v = None \<or> read_line cfw_state_k v = Some STATE_ROLLBACK_IN_PROGRESS) \<and>
      read_line cfw_tmp_k v = None)"
    using assms by (intro apart_conjI apart_core_backed apart_disjI apart_eqI apart_read_line) auto
  then show ?thesis
    by (rule back_subst [where P = "apart [x]"]) (auto simp: undoing_def fun_eq_iff)
qed

lemma falls_marker_undoing:
  assumes "K \<subseteq> set managed_paths"
  shows "falls marker_k (undoing K orig n3)"
proof -
  have "apart marker_k (\<lambda>v. \<forall>n \<in> K. safe_name orig n v)" "apart marker_k (saved K)"
    "apart marker_k (\<lambda>v. \<exists>n \<in> set managed_paths. get_at (backup_k n) v = None)"
    "apart marker_k (pack_ok n3)" "apart marker_k (covered K n3)"
    using assms
    by (auto intro!: apart_ballI apart_safe_name apart_saved apart_bexI apart_eqI apart_pack_ok apart_covered)
  then have "falls marker_k (\<lambda>v. ((\<forall>n \<in> K. safe_name orig n v) \<and>
      (get_at marker_k v = None \<or> saved K v \<and> (\<exists>n \<in> set managed_paths. get_at (backup_k n) v = None)) \<and>
      covered K n3 v \<and> pack_ok n3 v) \<and> journal_fit v \<and>
      (read_line cfw_state_k v = None \<or> read_line cfw_state_k v = Some STATE_ROLLBACK_IN_PROGRESS) \<and>
      read_line cfw_tmp_k v = None)"
    by (intro falls_conjI falls_disjI falls_None; intro falls_apart apart_eqI apart_read_line; simp?)
  then show ?thesis
    by (rule back_subst [where P = "falls marker_k"])
      (auto simp: undoing_def cfw_core_def marker_ok_def fun_eq_iff)
qed

definition swept :: "(nat \<times> string) list \<Rightarrow> node \<Rightarrow> bool" where
  "swept zs v = (get_at marker_k v \<noteq> None \<longrightarrow>
     (\<forall>n \<in> set managed_paths. n \<notin> snd ` set zs \<longrightarrow> get_at (backup_k n) v \<noteq> None))"

lemma apart_swept: "x \<noteq> ''aio-mod-update'' \<Longrightarrow> apart [x] (swept zs)"
  unfolding swept_def
  by (intro apart_impI apart_neqI apart_ballI apart_get_at apart_const) auto

lemma triple_rollback_loop:
  assumes K: "K \<subseteq> set managed_paths"
  shows "snd ` set zs \<subseteq> set managed_paths \<Longrightarrow>
    triple True (\<lambda>h. undoing K orig n3) (\<lambda>v. undoing K orig n3 v \<and> swept zs v) (rollback_loop res zs)
    (\<lambda>r v. undoing K orig n3 v \<and> (r = FR_OK \<longrightarrow> get_at marker_k v = None))"
proof (induction zs arbitrary: res)
  case Nil
  have "get_at marker_k v = None" if "undoing K orig n3 v" "swept [] v" for v
    using that by (auto simp: undoing_def cfw_core_def marker_ok_def swept_def)
  then show ?case by (auto intro: triple_return)
next
  case (Cons x zs)
  obtain i name where x: "x = (i, name)" by (cases x)
  with Cons.prems have name: "name \<in> set managed_paths" "good_name name" by (auto intro: good_managed)
  note IH = Cons.IH [OF subset_trans [OF _ Cons.prems]]
  let ?C = "\<lambda>h :: halt. undoing K orig n3"
  let ?I = "\<lambda>v. undoing K orig n3 v \<and> swept (x # zs) v"
  let ?P = "\<lambda>b m v. (undoing K orig n3 v \<and> (name \<in> K \<longrightarrow> get_at (backup_k name) v \<noteq> None)) \<and>
      swept (x # zs) v \<and> b = (get_at (backup_k name) v \<noteq> None) \<and> m = (get_at marker_k v \<noteq> None)"
  have keys: "path_keys (backup_dst name) = backup_k name" "path_keys (root_path name) = [name]"
    "backup_k name \<noteq> []" "marker_k \<noteq> []"
    using name by (simp_all add: path_keys_backup_dst path_keys_root_path cfw_keys)
  have P: "apart [name] (?P b m)" for b m
    by (rule apart_conjI [OF apart_undoing_backed [OF K]], (use name in simp))
      (use name in \<open>intro apart_conjI apart_swept apart_compose [OF apart_get_at]; simp\<close>)
  have next_ok: "undoing K orig n3 v \<and> swept zs v" if "?P True m v" for m v
    using that x by (auto simp: swept_def)
  have next_none: "undoing K orig n3 v \<and> swept zs v" if "undoing K orig n3 v" "get_at marker_k v = None" for v
    using that by (simp add: swept_def)
  have backed: "name \<in> K \<longrightarrow> get_at (backup_k name) v \<noteq> None"
    if "?I v" "get_at marker_k v \<noteq> None" for v
    using that by (auto simp: undoing_def cfw_core_def marker_ok_def saved_def)
  have exists: "triple True ?C ?I (path_exists (backup_dst name))
      (\<lambda>b v. ?I v \<and> b = (get_at (backup_k name) v \<noteq> None))"
    by (rule triple_post [OF triple_path_exists [OF keys(1,3), where P = ?I]]) auto
  have marker: "triple True ?C (\<lambda>v. ?I v \<and> b = (get_at (backup_k name) v \<noteq> None))
      (path_exists (absent_marker_path i'))
      (\<lambda>m v. (?I v \<and> b = (get_at (backup_k name) v \<noteq> None)) \<and> m = (get_at marker_k v \<noteq> None))" for b i'
    by (rule triple_post [OF triple_path_exists [OF path_keys_marker keys(4),
          where P = "\<lambda>v. ?I v \<and> b = (get_at (backup_k name) v \<noteq> None)"]]) auto
  have remove: "triple True ?C (?P b m) (remove_path_silent (root_path name)) (\<lambda>_. ?P b m)" for b m
    by (rule triple_weaken [OF triple_remove_path_silent [OF keys(2) _ falls_apart [OF P [of b m]]]]) simp_all
  have unlink: "triple True ?C (undoing K orig n3) (f_unlink (absent_marker_path i'))
      (\<lambda>e v. undoing K orig n3 v \<and> (e = FR_OK \<or> e = FR_NO_FILE \<longrightarrow> get_at marker_k v = None))" for i'
    by (rule triple_f_unlink [OF path_keys_marker falls_marker_undoing [OF K]])
  let ?Q = "\<lambda>r v. undoing K orig n3 v \<and> (r = FR_OK \<longrightarrow> get_at marker_k v = None)"
  have drop: "triple True ?C (undoing K orig n3)
      (do {
         res \<leftarrow> f_unlink (absent_marker_path (of_nat i));
         if res \<noteq> FR_OK \<and> res \<noteq> FR_NO_FILE then State_Monad.return res else rollback_loop res zs
       }) ?Q"
    by (rule triple_bind [OF unlink], rule triple_if, rule triple_return, simp, rule triple_pre [OF IH])
      (auto simp: next_none)
  have step: "triple True ?C (?P b m)
      (do {
         res \<leftarrow> remove_path_silent (root_path name);
         if res \<noteq> FR_OK then State_Monad.return res
         else if \<not> b \<and> m then do {
           res \<leftarrow> f_unlink (absent_marker_path (of_nat i));
           if res \<noteq> FR_OK \<and> res \<noteq> FR_NO_FILE then State_Monad.return res else rollback_loop res zs
         }
         else rollback_loop res zs
       }) ?Q" if "b \<or> m" for b m
    apply (rule triple_bind [OF remove])
    apply (rule triple_check, simp)
    apply (rule triple_if, rule triple_pre [OF drop], simp)
    apply (rule triple_pre [OF IH], auto simp: that swept_def x)
    done
  show ?case
    unfolding x rollback_loop.simps Let_def
    apply (rule triple_bind [OF exists [unfolded x]])
    apply (rule triple_bind [OF marker [unfolded x]])
    subgoal for b m
      apply (rule triple_if)
       apply (rule triple_pre [OF step [unfolded x]], assumption)
       apply (use backed [unfolded x] in auto)[1]
      apply (rule triple_pre [OF IH], auto simp: swept_def x)
      done
    done
qed

lemma moved_apart: "apart p F \<Longrightarrow> apart q F \<Longrightarrow> F (put_at q n (del_at p v)) = F v"
  by (simp add: apart_put_at apart_del_at)

lemma apart_rest:
  assumes "x \<noteq> ''aio-mod-update''"
  shows "apart [x] (\<lambda>v. pack_ok n3 v \<and> journal_fit v \<and>
      (read_line cfw_state_k v = None \<or> read_line cfw_state_k v = Some STATE_ROLLBACK_IN_PROGRESS) \<and>
      read_line cfw_tmp_k v = None)"
    and "apart (backup_k x) (\<lambda>v. pack_ok n3 v \<and> journal_fit v \<and>
      (read_line cfw_state_k v = None \<or> read_line cfw_state_k v = Some STATE_ROLLBACK_IN_PROGRESS) \<and>
      read_line cfw_tmp_k v = None)"
  using assms
  by (intro apart_conjI apart_disjI apart_eqI apart_read_line apart_pack_ok; simp)+

text \<open>Moving one original back.\<close>

lemma undoing_moved_back:
  assumes K: "K \<subseteq> set managed_paths" and name: "name \<in> set managed_paths"
    and v: "undoing K orig n3 v" "get_at marker_k v = None" "get_at (backup_k name) v = Some n" "room_at [name] v"
  shows "undoing K orig n3 (put_at [name] (renamed n) (del_at (backup_k name) v))"
    and "get_at marker_k (put_at [name] (renamed n) (del_at (backup_k name) v)) = None"
    and "get_at (backup_k name) (put_at [name] (renamed n) (del_at (backup_k name) v)) = None"
    and "unbacked N v \<Longrightarrow> unbacked N (put_at [name] (renamed n) (del_at (backup_k name) v))"
proof -
  let ?v = "put_at [name] (renamed n) (del_at (backup_k name) v)"
  have par: "backup_k name \<parallel> [name]" and neq: "name \<noteq> ''aio-mod-update''" "name \<noteq> ''.absent%u''"
    using name by simp_all
  have moved: "get_at [name] ?v = Some (renamed n)" "get_at (backup_k name) ?v = None"
    using fat.look_move_new [OF par v(4)] fat.look_move_old [OF par] by (simp_all add: fat.move_def)
  have marker: "get_at marker_k ?v = None"
    using moved_apart [of "backup_k name" "get_at marker_k" "[name]"] v(2) neq by simp
  have others: "safe_name orig m ?v" if "m \<in> K" for m
  proof (cases "m = name")
    case True
    have "orig name = Some (renamed n)"
      using v(1,3) that True by (auto simp: undoing_def cfw_core_def safe_name_def held_def)
    with True moved show ?thesis by (simp add: safe_name_def held_def)
  next
    case False
    have "safe_name orig m ?v = safe_name orig m v"
      using False neq that K by (intro moved_apart apart_safe_name) auto
    with v(1) that show ?thesis by (simp add: undoing_def cfw_core_def)
  qed
  have "(pack_ok n3 ?v \<and> journal_fit ?v \<and>
      (read_line cfw_state_k ?v = None \<or> read_line cfw_state_k ?v = Some STATE_ROLLBACK_IN_PROGRESS) \<and>
      read_line cfw_tmp_k ?v = None) = (pack_ok n3 v \<and> journal_fit v \<and>
      (read_line cfw_state_k v = None \<or> read_line cfw_state_k v = Some STATE_ROLLBACK_IN_PROGRESS) \<and>
      read_line cfw_tmp_k v = None)"
    by (rule moved_apart [OF apart_rest(2,1)]) (simp_all add: neq)
  moreover have "get_at (backup_k m) ?v = None" if "get_at (backup_k m) v = None" for m
    by (cases "m = name")
      (use moved that moved_apart [of "backup_k name" "get_at (backup_k m)" "[name]"] neq in simp_all)
  then have un: "unbacked N v \<Longrightarrow> unbacked N ?v" for N by (simp add: unbacked_def)
  moreover have "package_valid b ?v = package_valid b v" for b
    using neq by (intro moved_apart apart_package_valid) auto
  ultimately show "undoing K orig n3 ?v"
    using v(1) others marker by (auto simp: undoing_def cfw_core_def marker_ok_def covered_def)
  show "get_at marker_k ?v = None" "get_at (backup_k name) ?v = None" by fact+
  show "unbacked N v \<Longrightarrow> unbacked N ?v" by fact
qed

lemma triple_restore_loop:
  assumes K: "K \<subseteq> set managed_paths"
  shows "set names \<subseteq> set managed_paths \<Longrightarrow>
    triple True (\<lambda>h. undoing K orig n3)
      (\<lambda>v. (undoing K orig n3 v \<and> get_at marker_k v = None) \<and>
         (result = FR_OK \<longrightarrow> unbacked (set managed_paths - set names) v))
      (restore_loop result names)
      (\<lambda>r v. (undoing K orig n3 v \<and> get_at marker_k v = None) \<and>
         (r = FR_OK \<longrightarrow> unbacked (set managed_paths) v))"
proof (induction names arbitrary: result)
  case Nil
  show ?case by (auto intro: triple_return)
next
  case (Cons name names)
  then have name: "name \<in> set managed_paths" "good_name name" and names: "set names \<subseteq> set managed_paths"
    by (auto intro: good_managed)
  note IH = Cons.IH [OF names]
  let ?C = "\<lambda>h :: halt. undoing K orig n3"
  let ?N = "set managed_paths - set (name # names)"
  let ?U = "\<lambda>v. undoing K orig n3 v \<and> get_at marker_k v = None"
  let ?D = "\<lambda>v. result = FR_OK \<longrightarrow> unbacked ?N v"
  let ?P = "\<lambda>v. (undoing K orig n3 v \<and> (name \<in> K \<longrightarrow> get_at (backup_k name) v \<noteq> None)) \<and>
      get_at marker_k v = None \<and> ?D v \<and> get_at (backup_k name) v \<noteq> None"
  have keys: "path_keys (backup_dst name) = backup_k name" "path_keys (root_path name) = [name]" "backup_k name \<noteq> []"
    "backup_k name \<noteq> [name]"
    using name by (simp_all add: path_keys_backup_dst path_keys_root_path cfw_keys)
  have P: "apart [name] ?P"
    by (rule apart_conjI [OF apart_undoing_backed [OF K]], (use name in simp))
      (use name in \<open>intro apart_conjI apart_impI apart_const apart_unbacked apart_eqI apart_neqI apart_get_at; simp\<close>)
  have exists: "triple True ?C (\<lambda>v. ?U v \<and> ?D v) (path_exists (backup_dst name))
      (\<lambda>b v. (?U v \<and> ?D v) \<and> b = (get_at (backup_k name) v \<noteq> None))"
    by (rule triple_post [OF triple_path_exists [OF keys(1,3), where P = "\<lambda>v. ?U v \<and> ?D v"]]) auto
  have remove: "triple True ?C ?P (remove_path_silent (root_path name))
      (\<lambda>e v. ?P v \<and> (e = FR_OK \<longrightarrow> get_at [name] v = None))"
    by (rule triple_weaken [OF triple_remove_path_silent [OF keys(2) _ falls_apart [OF P]]]) simp_all
  have move: "triple True ?C ?P (f_rename (backup_dst name) (root_path name))
      (\<lambda>r v. ?U v \<and> ?D v \<and> (r = FR_OK \<longrightarrow> get_at (backup_k name) v = None))"
    by (rule triple_post [OF triple_f_move [OF keys(1,2,4),
            where Q = "\<lambda>v. ?U v \<and> ?D v \<and> get_at (backup_k name) v = None"]])
      (auto simp: undoing_moved_back [OF K name(1)] split: if_splits)
  have restore: "triple True ?C (\<lambda>v. ?P v \<and> (e = FR_OK \<longrightarrow> get_at [name] v = None))
      (if e = FR_OK then f_rename (backup_dst name) (root_path name) else State_Monad.return e)
      (\<lambda>r v. ?U v \<and> ?D v \<and> (r = FR_OK \<longrightarrow> get_at (backup_k name) v = None))" for e
    by (rule triple_if, rule triple_pre [OF move], simp, rule triple_return, simp)
  have split: "unbacked (set managed_paths - set names) v"
    if "unbacked ?N v" "get_at (backup_k name) v = None" for v
    using that by (auto simp: unbacked_def)
  show ?case
    unfolding restore_loop.simps Let_def
    apply (rule triple_bind [OF exists])
    apply (rule triple_if)
     apply (rule triple_pre [OF IH])
     apply (use split in auto)[1]
    apply (rule triple_pre [OF triple_bind [OF remove]])
     apply (rule triple_bind [OF restore])
     apply (rule triple_if)
      apply (rule triple_bind_quiet)
       apply simp
      apply (rule triple_pre [OF IH])
      apply simp
     apply (rule triple_pre [OF IH])
     apply (use split in auto)
    done
qed

lemma triple_restore_backup:
  assumes K: "K \<subseteq> set managed_paths" "p \<longrightarrow> ''payload.bin'' \<notin> K"
  shows "triple True (\<lambda>h. undoing K orig n3) (\<lambda>v. undoing K orig n3 v \<and> get_at marker_k v = None)
    (restore_backup p)
    (\<lambda>r v. (undoing K orig n3 v \<and> get_at marker_k v = None) \<and> (r = FR_OK \<longrightarrow> unbacked (set managed_paths) v))"
proof -
  let ?R = "\<lambda>r v. (undoing K orig n3 v \<and> get_at marker_k v = None) \<and> (r = FR_OK \<longrightarrow> unbacked (set managed_paths) v)"
  have ap: "apart [x] (?R r)" if "x \<noteq> ''aio-mod-update''" "x \<notin> K" for x r
  proof -
    have "apart [x] (undoing K orig n3)"
      using apart_undoing_backed [OF K(1) that(1)] that(2) by simp
    then show ?thesis using that
      by (intro apart_conjI apart_impI apart_const apart_unbacked apart_eqI apart_get_at) auto
  qed
  have tail: "triple True (\<lambda>h. undoing K orig n3) (?R result)
     (do {
       res \<leftarrow> remove_path_silent ''sd:/payload.bin'';
       res \<leftarrow> (if res = FR_OK then f_rename MARIKO_PAYLOAD_FALLBACK ''sd:/payload.bin''
              else State_Monad.return res);
       if res \<noteq> FR_OK then do {
         EPRINTF (''Could not restore the previous boot payload.'' @ [CHR 0x0A]) [];
         State_Monad.return res
       }
       else State_Monad.return result
     }) ?R" if p for result
  proof -
    have a: "apart [''payload.bin''] (?R r)" "apart [''payload.bin.aio''] (?R r)" for r
      by (rule ap; use K that managed_not_root in auto)+
    have remove: "triple True (\<lambda>h. undoing K orig n3) (?R result) (remove_path_silent ''sd:/payload.bin'') (\<lambda>_. ?R result)"
      by (rule triple_kept [OF keeps_remove_path_silent]) (use a [of result] in \<open>simp_all add: cfw_paths\<close>)
    have move: "triple True (\<lambda>h. undoing K orig n3) (?R result)
        (f_rename MARIKO_PAYLOAD_FALLBACK ''sd:/payload.bin'') (\<lambda>_. ?R result)"
      by (rule triple_kept [OF keeps_f_rename]) (use a [of result] in \<open>simp_all add: cfw_paths\<close>)
    show ?thesis
      apply (rule triple_bind [OF remove])
      apply (rule triple_bind [where R = "\<lambda>_. ?R result"])
       apply (rule triple_if, rule move, rule triple_return, assumption)
      apply (rule triple_if)
       apply (rule triple_bind_quiet, simp)
       apply (rule triple_return, simp)
      apply (rule triple_return, simp)
      done
  qed
  have fallback: "triple True (\<lambda>h. undoing K orig n3) (?R result)
      (if p then path_exists MARIKO_PAYLOAD_FALLBACK else State_Monad.return False) (\<lambda>_. ?R result)" for result
    by (rule triple_if; rule triple_kept [OF keeps_path_exists] triple_return; simp)
  have only: "yields (\<lambda>e. e \<longrightarrow> p) (if p then path_exists MARIKO_PAYLOAD_FALLBACK else State_Monad.return False)"
    by (simp add: yields_def)
  show ?thesis
    unfolding restore_backup_def
    apply (rule triple_bind_quiet, simp)
    apply (rule triple_seq [OF triple_restore_loop [OF K(1) subset_refl, of orig n3]], simp add: unbacked_def, assumption)
    apply (rule triple_bind_yields [OF fallback only])
    apply (rule triple_if)
     apply (rule tail, simp)
    apply (rule triple_return, simp)
    done
qed

section \<open>The whole rollback\<close>

text \<open>Every protected original is back in its place.\<close>

definition restored :: "string set \<Rightarrow> (string \<Rightarrow> node option) \<Rightarrow> node \<Rightarrow> bool" where
  "restored K orig v = (\<forall>n \<in> K. held [n] v = orig n)"

text \<open>The card while the update directory is removed at the end.\<close>

definition undone :: "string set \<Rightarrow> (string \<Rightarrow> node option) \<Rightarrow> pack \<Rightarrow> node \<Rightarrow> bool" where
  "undone K orig n3 v = (restored K orig v \<and> unbacked K v \<and> get_at marker_k v = None \<and> pack_ok n3 v \<and>
     journal_fit v \<and> (read_line cfw_state_k v = None \<or> read_line cfw_state_k v = Some STATE_ROLLBACK_IN_PROGRESS) \<and>
     read_line cfw_tmp_k v = None)"

lemma undone_undoing: "undone K orig n3 v \<Longrightarrow> undoing K orig n3 v"
  by (auto simp: undone_def undoing_def cfw_core_def marker_ok_def covered_def safe_name_def restored_def unbacked_def)

lemma undoing_undone:
  "undoing K orig n3 v \<Longrightarrow> get_at marker_k v = None \<Longrightarrow> unbacked (set managed_paths) v \<Longrightarrow>
     K \<subseteq> set managed_paths \<Longrightarrow> undone K orig n3 v"
  by (auto simp: undone_def undoing_def cfw_core_def safe_name_def restored_def unbacked_def)

lemma falls_pack_ok: "falls p (pack_ok n3)"
  by (auto simp: falls_def pack_ok_def file_at_del_at get_at_del_at_None split: if_splits)

lemma falls_journal_fit: "falls (x # p) journal_fit"
  unfolding journal_fit_def
  by (intro falls_conjI falls_dir falls_plain falls_apart apart_is_dir)

lemma falls_read_None: "falls p (\<lambda>v. read_line q v = None)"
  by (simp add: falls_def read_line_def file_at_del_at split: option.splits)

lemma falls_undone: "K \<subseteq> set managed_paths \<Longrightarrow> falls [''aio-mod-update''] (undone K orig n3)"
  unfolding undone_def restored_def unbacked_def
  by (intro falls_conjI falls_ballI falls_None falls_pack_ok falls_journal_fit falls_read_line falls_read_None
      falls_apart [OF apart_eqI [OF apart_held]]) auto

lemma apart_undoing_rest:
  assumes "K \<subseteq> set managed_paths" and "x \<notin> {''backup'', ''new'', ''state'', ''state.tmp''}"
  shows "apart [''aio-mod-update'', x] (\<lambda>v. undoing K orig n3 v \<and> get_at marker_k v = None \<and> unbacked N v)"
  unfolding undoing_def
  using assms
  by (intro apart_conjI apart_cfw_core apart_journal_fit apart_disjI apart_eqI apart_read_line apart_get_at apart_unbacked)
    (auto simp: cfw_keys)

lemma with_mute_triple: "triple M C P m Q \<Longrightarrow> triple M C P (with_mute m) Q"
  unfolding with_mute_def
  apply (rule triple_bind_quiet, simp)
  apply (rule triple_bind_quiet, simp)
  apply (rule triple_bind, assumption)
  apply (rule triple_bind_quiet, simp)
  apply (rule triple_return, assumption)
  done

lemma triple_rollback_body:
  assumes K: "protects p K orig"
  shows "triple True (\<lambda>h. cfw_inv K orig n3) (undoing K orig n3) (rollback_body p)
    (\<lambda>r v. cfw_inv K orig n3 v \<and> (r = FR_OK \<longrightarrow> restored K orig v))"
proof -
  have K': "K \<subseteq> set managed_paths" "p \<longrightarrow> ''payload.bin'' \<notin> K" using K by (auto simp: protects_def)
  let ?C = "\<lambda>h :: halt. cfw_inv K orig n3"
  let ?D = "\<lambda>v. undoing K orig n3 v \<and> get_at marker_k v = None \<and> unbacked (set managed_paths) v"
  have loop: "triple True ?C (undoing K orig n3) (rollback_loop FR_OK (List.enumerate 0 managed_paths))
      (\<lambda>r v. undoing K orig n3 v \<and> (r = FR_OK \<longrightarrow> get_at marker_k v = None))"
  proof (rule triple_weaken [OF triple_rollback_loop [OF K'(1)]])
    show "snd ` set (List.enumerate 0 managed_paths) \<subseteq> set managed_paths"
      by (simp flip: set_map)
    show "undoing K orig n3 v \<Longrightarrow> undoing K orig n3 v \<and> swept (List.enumerate 0 managed_paths) v" for v
      by (simp add: swept_def flip: set_map)
  qed (auto intro: undoing_inv)
  have restore: "triple True ?C (\<lambda>v. undoing K orig n3 v \<and> (r = FR_OK \<longrightarrow> get_at marker_k v = None))
      (if r = FR_OK then restore_backup p else State_Monad.return r)
      (\<lambda>r v. undoing K orig n3 v \<and> (r = FR_OK \<longrightarrow> ?D v))" for r
    by (rule triple_if, rule triple_weaken [OF triple_restore_backup [OF K']]) (auto intro: undoing_inv triple_return)
  have quietly: "keeps True ?D (remove_path_silent UPDATE_PAYLOAD_NEXT)" "keeps True ?D (remove_path_silent UPDATE_UPDATER_SAVED)"
    "keeps True ?D (remove_path_silent MARIKO_PAYLOAD_FALLBACK)"
  proof -
    have "apart [''payload.bin.aio''] (undoing K orig n3)"
      using apart_undoing_backed [OF K'(1), of "''payload.bin.aio''" orig n3] K'(1) by simp
    then have "apart [''payload.bin.aio''] ?D"
      by (intro apart_conjI apart_eqI apart_get_at apart_unbacked) auto
    then show "keeps True ?D (remove_path_silent MARIKO_PAYLOAD_FALLBACK)"
      by (intro keeps_remove_path_silent) (simp add: cfw_paths)
    show "keeps True ?D (remove_path_silent UPDATE_PAYLOAD_NEXT)" "keeps True ?D (remove_path_silent UPDATE_UPDATER_SAVED)"
      using K'(1) by (intro keeps_remove_path_silent, simp add: cfw_paths, intro apart_undoing_rest, simp, simp)+
  qed
  have tidy: "triple True ?C (\<lambda>v. undoing K orig n3 v \<and> (r = FR_OK \<longrightarrow> ?D v))
      (if r = FR_OK \<and> p then do {
        remove_path_silent UPDATE_PAYLOAD_NEXT;
        remove_path_silent UPDATE_UPDATER_SAVED;
        remove_path_silent MARIKO_PAYLOAD_FALLBACK;
        State_Monad.return ()
      } else State_Monad.return ()) (\<lambda>_ v. undoing K orig n3 v \<and> (r = FR_OK \<longrightarrow> ?D v))" for r
  proof (rule triple_if)
    assume r: "r = FR_OK \<and> p"
    have "keeps True ?D (do {
        remove_path_silent UPDATE_PAYLOAD_NEXT;
        remove_path_silent UPDATE_UPDATER_SAVED;
        remove_path_silent MARIKO_PAYLOAD_FALLBACK;
        State_Monad.return ()
      })"
      by (intro keeps_bind keeps_return quietly)
    from triple_kept [OF this, of ?C] show "triple True ?C (\<lambda>v. undoing K orig n3 v \<and> (r = FR_OK \<longrightarrow> ?D v)) (do {
        remove_path_silent UPDATE_PAYLOAD_NEXT;
        remove_path_silent UPDATE_UPDATER_SAVED;
        remove_path_silent MARIKO_PAYLOAD_FALLBACK;
        State_Monad.return ()
      }) (\<lambda>_ v. undoing K orig n3 v \<and> (r = FR_OK \<longrightarrow> ?D v))"
      by (rule triple_weaken) (use r undoing_inv in auto)
  qed (rule triple_return)
  have failed: "triple True ?C (undoing K orig n3) (cfw_write_state STATE_ROLLBACK_FAILED) (\<lambda>_. cfw_inv K orig n3)"
    by (rule triple_weaken [OF triple_cfw_state [OF K'(1) entry_ok_cfw(2), where F = "\<lambda>_. True"]])
      (auto simp: undoing_inv undoing_def entry_true_def early_def cfw_state_defs)
  have wipe: "triple True ?C (undone K orig n3) (remove_path_silent UPDATE_ROOT) (\<lambda>_. undone K orig n3)"
    by (rule triple_weaken [OF triple_remove_path_silent [OF cfw_paths(1) _ falls_undone [OF K'(1)]]])
      (auto intro: undoing_inv undone_undoing)
  show ?thesis
    unfolding rollback_body_def
    apply (rule triple_bind [OF loop])
    apply (rule triple_bind [OF restore])
    apply (rule triple_bind [OF tidy])
    apply (rule triple_if)
     apply (rule triple_pre [OF triple_bind [OF failed triple_return]])
      apply simp
     apply simp
    apply (rule triple_weaken [OF wipe])
      apply (simp add: undoing_undone K'(1))
     apply (simp add: undoing_inv undone_undoing, simp add: undone_def)
    apply simp
    done
qed

lemma triple_rollback_transaction:
  assumes K: "protects p K orig"
  shows "triple True (\<lambda>h. cfw_inv K orig n3) (cfw_inv K orig n3) (cfw_rollback_transaction p)
    (\<lambda>r v. cfw_inv K orig n3 v \<and> (r = FR_OK \<longrightarrow> restored K orig v))"
proof -
  have K': "K \<subseteq> set managed_paths" using K by (auto simp: protects_def)
  have journal: "triple True (\<lambda>h. cfw_inv K orig n3) (cfw_inv K orig n3)
      (cfw_write_state STATE_ROLLBACK_IN_PROGRESS) (\<lambda>e v. undoing K orig n3 v)"
    by (rule triple_weaken [OF triple_cfw_state [OF K' entry_ok_states(6), where F = "\<lambda>_. True"]])
      (auto simp: cfw_inv_def cfw_base_core undoing_def entry_true_def early_def cfw_state_defs)
  show ?thesis
    unfolding cfw_rollback_transaction_def
    apply (rule triple_bind [OF journal])
    apply (rule triple_check, simp add: undoing_inv)
    apply (rule triple_bind_quiet, simp)
    apply (rule with_mute_triple [OF triple_rollback_body [OF K]])
    done
qed

end
