(* ===== verification/Cfw_Backup.thy ===== *)
theory Cfw_Backup
  imports Cfw_Rollback
begin

text \<open>
  The backup phase of the firmware updater: every path it moves is safe before and after the
  move, a run that was interrupted is resumed without losing anything, and when it reports
  success every protected original is in the backup.
\<close>

definition backing :: "string set \<Rightarrow> (string \<Rightarrow> node option) \<Rightarrow> pack \<Rightarrow> node \<Rightarrow> bool" where
  "backing K orig n3 v = (cfw_core K orig n3 v \<and> package_valid (fst n3) v \<and> journal_fit v \<and>
     cfw_entry v = Some STATE_BACKUP_IN_PROGRESS)"

lemma backing_inv: "backing K orig n3 v \<Longrightarrow> cfw_inv K orig n3 v"
  by (auto simp: backing_def cfw_inv_def cfw_base_core entry_true_def early_def cfw_entry_def state_defs
      split: option.splits)

lemma apart_cfw_entry: "p \<parallel> cfw_state_k \<Longrightarrow> p \<parallel> cfw_tmp_k \<Longrightarrow> apart p cfw_entry"
  unfolding cfw_entry_def
  using apart_compose2 [OF apart_read_line apart_read_line, of p cfw_state_k cfw_tmp_k
      "\<lambda>a b. case a of Some s \<Rightarrow> Some s | None \<Rightarrow> b"] by simp

lemma apart_journal_parts:
  assumes "x \<noteq> ''aio-mod-update''"
  shows "apart [x] (\<lambda>v. pack_ok n3 v \<and> package_valid (fst n3) v \<and> journal_fit v \<and> cfw_entry v = j)"
    and "apart (backup_k n) (\<lambda>v. pack_ok n3 v \<and> package_valid (fst n3) v \<and> journal_fit v \<and> cfw_entry v = j)"
    and "apart marker_k (\<lambda>v. pack_ok n3 v \<and> package_valid (fst n3) v \<and> journal_fit v \<and> cfw_entry v = j)"
  using assms by (intro apart_conjI apart_eqI apart_cfw_entry apart_pack_ok apart_package_valid; simp)+

definition done_up_to :: "string set \<Rightarrow> string set \<Rightarrow> node \<Rightarrow> bool" where
  "done_up_to K N v = (\<forall>n \<in> K. n \<in> N \<longrightarrow> get_at (backup_k n) v \<noteq> None)"

lemma backing_moved:
  assumes K: "protects p K orig" and name: "name \<in> set managed_paths"
    and x: "x = (if p \<and> name = ''payload.bin'' then ''payload.bin.aio'' else name)"
    and v: "backing K orig n3 v" "get_at marker_k v = None" "get_at (backup_k name) v = None"
      "get_at [x] v = Some n" "room_at (backup_k name) v"
    and v': "v' = put_at (backup_k name) (renamed n) (del_at [x] v)"
  shows "backing K orig n3 v'" and "done_up_to K N v \<Longrightarrow> done_up_to K (insert name N) v'"
proof -
  have K': "K \<subseteq> set managed_paths" and payload: "p \<longrightarrow> ''payload.bin'' \<notin> K" using K by (auto simp: protects_def)
  have xr: "x \<noteq> ''aio-mod-update''" using name x by auto
  have par: "[x] \<parallel> backup_k name" using xr by simp
  have moved: "get_at (backup_k name) v' = Some (renamed n)" "get_at [x] v' = None"
    using fat.look_move_new [OF par v(5)] fat.look_move_old [OF par] by (simp_all add: fat.move_def v')
  have marker: "get_at marker_k v' = None"
    using moved_apart [of "[x]" "get_at marker_k" "backup_k name"] v(2) xr name v' by simp
  have neq: "m \<noteq> x" if "m \<in> K" "m \<noteq> name" for m
    using that x K' by auto
  have other: "get_at (backup_k m) v' = get_at (backup_k m) v" if "m \<noteq> name" for m
    using moved_apart [of "[x]" "get_at (backup_k m)" "backup_k name"] that xr v' by simp
  have safe: "safe_name orig m v'" if "m \<in> K" for m
  proof (cases "m = name")
    case True
    with that payload x have "x = name" by auto
    then have "orig name = Some (renamed n)"
      using v(1,3,4) that True by (auto simp: backing_def cfw_core_def safe_name_def held_def)
    with True moved show ?thesis by (simp add: safe_name_def held_def)
  next
    case False
    have "safe_name orig m v' = safe_name orig m v"
      unfolding v' using False neq [OF that False] that xr K' by (intro moved_apart apart_safe_name) auto
    with v(1) that show ?thesis by (simp add: backing_def cfw_core_def)
  qed
  have "(pack_ok n3 v' \<and> package_valid (fst n3) v' \<and> journal_fit v' \<and> cfw_entry v' = Some STATE_BACKUP_IN_PROGRESS) =
      (pack_ok n3 v \<and> package_valid (fst n3) v \<and> journal_fit v \<and> cfw_entry v = Some STATE_BACKUP_IN_PROGRESS)"
    unfolding v' by (rule moved_apart [OF apart_journal_parts(1) [OF xr] apart_journal_parts(2) [OF xr]])
  with v(1) safe marker show "backing K orig n3 v'"
    by (simp add: backing_def cfw_core_def marker_ok_def covered_def)
  show "done_up_to K N v \<Longrightarrow> done_up_to K (insert name N) v'"
    unfolding done_up_to_def
  proof (intro ballI impI)
    fix m
    assume "\<forall>n \<in> K. n \<in> N \<longrightarrow> get_at (backup_k n) v \<noteq> None" "m \<in> K" "m \<in> insert name N"
    then show "get_at (backup_k m) v' \<noteq> None"
      by (cases "m = name") (use moved other [of m] in auto)
  qed
qed

lemma keeps_create_absent_marker [keeps_intros]:
  assumes "apart marker_k q"
  shows "keeps M q (create_absent_marker i)"
  unfolding create_absent_marker_def Let_def
  by ((rule keeps_bind [OF keeps_path_exists] keeps_if keeps_return keeps_bind_fatfs(2)
        | rule keeps_bind keeps_f_close | (rule good_fil_path_keys, assumption)
        | (simp add: assms path_keys_marker; fail))+)

text \<open>Noting that a path was absent: every protected path is already in the backup then.\<close>

lemma triple_create_marker:
  assumes K: "K \<subseteq> set managed_paths" and name: "name \<in> set managed_paths"
  shows "triple True (\<lambda>h. cfw_inv K orig n3)
    (\<lambda>v. backing K orig n3 v \<and> saved K v \<and> get_at (backup_k name) v = None) (create_absent_marker i)
    (\<lambda>_ v. backing K orig n3 v \<and> saved K v)"
proof -
  let ?P = "\<lambda>v. ((\<forall>n \<in> K. safe_name orig n v) \<and> saved K v \<and> get_at (backup_k name) v = None) \<and>
      (pack_ok n3 v \<and> package_valid (fst n3) v \<and> journal_fit v \<and> cfw_entry v = Some STATE_BACKUP_IN_PROGRESS)"
  have "apart marker_k ?P"
    using K name by (intro apart_conjI [OF _ apart_journal_parts(3)] apart_conjI apart_ballI apart_safe_name apart_saved
        apart_eqI apart_get_at) auto
  moreover have bk: "backing K orig n3 v \<and> saved K v" if "?P v" for v
    using that name by (auto simp: backing_def cfw_core_def marker_ok_def covered_def)
  ultimately have "triple True (\<lambda>h. cfw_inv K orig n3) ?P (create_absent_marker i) (\<lambda>_. ?P)"
    by (intro triple_kept keeps_create_absent_marker) (use bk backing_inv in blast)+
  then show ?thesis
    by (rule triple_weaken) (use bk in \<open>auto simp: backing_def cfw_core_def\<close>)
qed

text \<open>Creating the backup directory.\<close>

lemma apart_new_backing:
  assumes K: "K \<subseteq> set managed_paths"
  shows "apart_new [''aio-mod-update'', ''backup''] (backing K orig n3)"
  unfolding apart_new_def
proof (intro allI impI)
  fix a v
  let ?p = "[''aio-mod-update'', ''backup'']"
  let ?v = "put_at ?p (Dir a []) v"
  assume r: "get_at ?p v = None" "room_at ?p v"
  have get: "get_at q ?v = get_at q v" if "\<not> prefix q ?p" for q
    using apart_new_get_at [OF that] r by (simp add: apart_new_def)
  have root: "(get_at [''aio-mod-update''] ?v = None) = (get_at [''aio-mod-update''] v = None)"
    "dir_at [''aio-mod-update''] ?v = dir_at [''aio-mod-update''] v" "is_dir ?v = is_dir v"
    using get_None_put_at [of ?p "[''aio-mod-update'']"] dir_at_put_at [of ?p "[''aio-mod-update'']"]
      apart_is_dir [of "''aio-mod-update''" "[''backup'']"]
    by (simp_all add: apart_put_at)
  have paths: "\<not> prefix (backup_k n) ?p" "\<not> prefix marker_k ?p" "\<not> prefix (new_k (k # q)) ?p"
    "\<not> prefix cfw_state_k ?p" "\<not> prefix cfw_tmp_k ?p" for n k q
    by (simp_all add: cfw_keys)
  have name: "get_at [n] ?v = get_at [n] v" if "n \<in> K" for n
    using that K by (intro get) auto
  have "read_line cfw_state_k ?v = read_line cfw_state_k v" "read_line cfw_tmp_k ?v = read_line cfw_tmp_k v"
    by (simp_all add: read_line_entry_of get paths)
  then have "cfw_entry ?v = cfw_entry v" unfolding cfw_entry_def by (simp only:)
  then show "backing K orig n3 ?v = backing K orig n3 v"
    using root name
    by (simp add: backing_def cfw_core_def safe_name_def held_def marker_ok_def saved_def pack_ok_def
        covered_def unbacked_def package_valid_def file_at_def journal_fit_def get paths cong: ball_cong)
qed

text \<open>One round of the loop. \<open>N\<close> is the set of the paths already dealt with.\<close>

lemma triple_move_one:
  assumes K: "protects p K orig" and split: "managed_paths = ys @ name # zs"
  shows "triple True (\<lambda>h. cfw_inv K orig n3) (\<lambda>v. backing K orig n3 v \<and> done_up_to K (set ys) v)
    (move_one_to_backup p (i, name))
    (\<lambda>r v. if r = FR_OK then backing K orig n3 v \<and> done_up_to K (insert name (set ys)) v
           else cfw_inv K orig n3 v)"
proof -
  have K': "K \<subseteq> set managed_paths" "p \<longrightarrow> ''payload.bin'' \<notin> K" using K by (auto simp: protects_def)
  have "name \<in> set managed_paths" using split by (metis in_set_conv_decomp)
  then have name: "name \<in> set managed_paths" "good_name name" by (simp_all add: good_managed)
  define x where "x = (if p \<and> name = ''payload.bin'' then ''payload.bin.aio'' else name)"
  have keys: "path_keys (backup_src p name) = [x]" "path_keys (backup_dst name) = backup_k name" "backup_k name \<noteq> []"
      "marker_k \<noteq> []" "[x] \<noteq> backup_k name"
    using name by (simp_all add: path_keys_backup_src path_keys_backup_dst x_def cfw_keys)
  let ?C = "\<lambda>h :: halt. cfw_inv K orig n3"
  let ?I = "\<lambda>v. backing K orig n3 v \<and> done_up_to K (set ys) v"
  let ?J = "\<lambda>v. backing K orig n3 v \<and> done_up_to K (insert name (set ys)) v"
  let ?Q = "\<lambda>r v. if r = FR_OK then ?J v else cfw_inv K orig n3 v"
  let ?S = "\<lambda>a b m v. ?I v \<and> a = (get_at [x] v \<noteq> None) \<and> b = (get_at (backup_k name) v \<noteq> None) \<and>
      m = (get_at marker_k v \<noteq> None)"
  have src: "triple True ?C ?I (path_exists (backup_src p name)) (\<lambda>a v. ?I v \<and> a = (get_at [x] v \<noteq> None))"
    by (rule triple_post [OF triple_path_exists [OF keys(1), where P = ?I]]) (auto intro: backing_inv)
  have dst: "triple True ?C (\<lambda>v. ?I v \<and> a = (get_at [x] v \<noteq> None)) (path_exists (backup_dst name))
      (\<lambda>b v. ?I v \<and> a = (get_at [x] v \<noteq> None) \<and> b = (get_at (backup_k name) v \<noteq> None))" for a
    by (rule triple_post [OF triple_path_exists [OF keys(2,3),
          where P = "\<lambda>v. ?I v \<and> a = (get_at [x] v \<noteq> None)"]]) (auto intro: backing_inv)
  have mark: "triple True ?C
      (\<lambda>v. ?I v \<and> a = (get_at [x] v \<noteq> None) \<and> b = (get_at (backup_k name) v \<noteq> None))
      (path_exists (absent_marker_path k)) (\<lambda>m. ?S a b m)" for a b k
    by (rule triple_post [OF triple_path_exists [OF path_keys_marker keys(4),
          where P = "\<lambda>v. ?I v \<and> a = (get_at [x] v \<noteq> None) \<and> b = (get_at (backup_k name) v \<noteq> None)"]])
      (auto intro: backing_inv)
  have there: "?J v" if "?I v" "get_at (backup_k name) v \<noteq> None" for v
    using that by (auto simp: done_up_to_def)
  have marked: "?J v" if "?I v" "get_at marker_k v \<noteq> None" for v
    using that by (auto simp: backing_def cfw_core_def marker_ok_def saved_def done_up_to_def)
  have absent: "saved K v" if "?I v" "get_at [x] v = None" "get_at (backup_k name) v = None" for v
  proof -
    have "name \<notin> K"
    proof
      assume n: "name \<in> K"
      with K'(2) have "x = name" by (auto simp: x_def)
      moreover have "safe_name orig name v" "orig name \<noteq> None"
        using that(1) n K by (auto simp: backing_def cfw_core_def protects_def)
      ultimately show False using that(2,3) by (simp add: safe_name_def held_def)
    qed
    then have "K \<subseteq> set ys" using K split unfolding protects_def by blast
    then show ?thesis using that(1) by (auto simp: saved_def done_up_to_def)
  qed
  have create: "triple True ?C (?S False False False) (create_absent_marker k) ?Q" for k
    by (rule triple_weaken [OF triple_create_marker [OF K'(1) name(1), of orig n3]])
      (use absent in \<open>auto simp: saved_def done_up_to_def intro: backing_inv\<close>)
  have move: "triple True ?C (?S True False False) (f_rename (backup_src p name) (backup_dst name)) ?Q"
    by (rule triple_post [OF triple_f_move [OF keys(1,2,5), where Q = ?J]])
      (auto intro: backing_inv backing_moved [OF K name(1) x_def _ _ _ _ _ refl] split: if_splits)
  show ?thesis
    unfolding move_one_to_backup_def prod.case Let_def
    apply (rule triple_bind [OF src])
    apply (rule triple_bind [OF dst])
    apply (rule triple_bind [OF mark])
    subgoal for a b m
      apply (rule triple_if)
       apply (rule triple_return)
       apply (use there backing_inv in auto)[1]
      apply (rule triple_if)
       apply (rule triple_return)
       apply (use marked in auto)[1]
      apply (rule triple_if)
       apply (rule triple_pre [OF create], simp)
      apply (rule triple_bind_quiet, simp)
      apply (rule triple_pre [OF move], simp)
      done
    done
qed

lemma triple_move_managed:
  assumes K: "protects p K orig"
  shows "triple True (\<lambda>h. cfw_inv K orig n3) (backing K orig n3) (move_managed_to_backup p)
    (\<lambda>r v. cfw_inv K orig n3 v \<and> (r = FR_OK \<longrightarrow> backing K orig n3 v \<and> saved K v))"
proof -
  have K': "K \<subseteq> set managed_paths" using K by (auto simp: protects_def)
  let ?I = "\<lambda>(zs :: (nat \<times> string) list) v. backing K orig n3 v \<and> done_up_to K (snd ` set zs) v"
  have mkdir: "keeps True (backing K orig n3) (mkdir_if_needed UPDATE_BACKUP)"
    by (rule keeps_mkdir_if_needed) (simp add: cfw_paths apart_new_backing K')
  have body: "triple True (\<lambda>h. cfw_inv K orig n3) (?I ys) (move_one_to_backup p x)
      (\<lambda>r v. if r = 0 then ?I (ys @ [x]) v else cfw_inv K orig n3 v \<and> (r = FR_OK \<longrightarrow> backing K orig n3 v \<and> saved K v))"
    if e: "List.enumerate 0 managed_paths = ys @ x # zs" for ys x zs
  proof -
    have "managed_paths = map snd (List.enumerate 0 managed_paths)" by simp
    then have "managed_paths = map snd ys @ snd x # map snd zs" by (simp add: e)
    from triple_move_one [OF K this, of n3 "fst x", unfolded prod.collapse] show ?thesis
      by (rule triple_weaken) (auto split: if_splits)
  qed
  have loop: "triple True (\<lambda>h. cfw_inv K orig n3) (?I []) (for_ok (move_one_to_backup p) (List.enumerate 0 managed_paths))
      (\<lambda>r v. cfw_inv K orig n3 v \<and> (r = FR_OK \<longrightarrow> backing K orig n3 v \<and> saved K v))"
  proof (rule triple_for_ok_inv [where I = ?I])
    show "triple True (\<lambda>h. cfw_inv K orig n3) (?I ys) (move_one_to_backup p x)
      (\<lambda>r v. if r = 0 then ?I (ys @ [x]) v else cfw_inv K orig n3 v \<and> (r = FR_OK \<longrightarrow> backing K orig n3 v \<and> saved K v))"
      if "List.enumerate 0 managed_paths = ys @ x # zs" for ys x zs
      using that by (rule body)
    fix v
    assume "?I (List.enumerate 0 managed_paths) v"
    moreover have "snd ` set (List.enumerate 0 managed_paths) = set managed_paths" by (simp flip: set_map)
    ultimately show "cfw_inv K orig n3 v \<and> (FR_OK = FR_OK \<longrightarrow> backing K orig n3 v \<and> saved K v)"
      using K' by (auto simp: done_up_to_def saved_def intro: backing_inv)
  qed
  show ?thesis
    unfolding move_managed_to_backup_def
    apply (rule triple_bind [OF triple_kept [OF mkdir backing_inv]], assumption)
    apply (rule triple_check, simp add: backing_inv)
    apply (rule triple_pre [OF loop], simp add: done_up_to_def)
    done
qed

end
