(* ===== verification/Cfw_Install.thy ===== *)
theory Cfw_Install
  imports Cfw_Backup
begin

text \<open>
  The checks of the firmware updater and the copy of the staged package: what the checks tell
  about the card, and that the copy disturbs neither the backup nor the journal.
\<close>

lemma triple_sizes_match:
  assumes p: "path_keys s = p" "path_keys t = q" and C: "\<And>h v. P v \<Longrightarrow> C h v"
  shows "triple M C P (cfw_file_sizes_match s t)
    (\<lambda>r v. P v \<and> (r \<longrightarrow> (\<exists>c d. file_at p v = Some c \<and> file_at q v = Some d \<and> length c = length d)))"
proof -
  have is_file: "\<exists>c. file_at p v = Some c \<and> (\<forall>k. length c = fsize (get_fileinfo k n))"
    if "get_at p v = Some n" "\<not> is_dir n" for p v n
    using that by (cases n) (auto simp: file_at_def)
  have "looks v (\<lambda>r. r \<longrightarrow> (\<exists>c d. file_at p v = Some c \<and> file_at q v = Some d \<and> length c = length d))
      (cfw_file_sizes_match s t)" for v
    unfolding cfw_file_sizes_match_def
    apply (rule looks_bind2 [OF looks_f_stat], rule looks_if, rule looks_return, simp)
    apply (rule looks_bind2 [OF looks_f_stat], rule looks_return)
    apply (auto simp: p dest!: is_file)
    done
  from triple_ends [OF triple_reads [OF keeps_cfw_reads(1) C] ends_looks [OF this]] show ?thesis .
qed
lemma tells_cfw_read_state: "tells (cfw_read_state 64) cfw_entry"
proof -
  have entry: "(if read_line cfw_state_k v \<noteq> None then read_line cfw_state_k v else read_line cfw_tmp_k v) = cfw_entry v" for v
    unfolding cfw_entry_def by (cases "read_line cfw_state_k v") simp_all
  show ?thesis
    unfolding cfw_read_state_def
    apply (rule tells_eq)
     apply (rule tells_bind [OF tells_read_state_from] tells_if tells_return tells_read_state_from
        | (simp add: cfw_paths cfw_keys; fail))+
    apply (unfold cfw_paths, rule entry)
    done
qed

lemma tells_staged_package_valid: "tells (staged_package_valid p) (package_valid p)"
  unfolding staged_package_valid_def
  apply (rule tells_eq)
   apply (rule tells_bind [OF tells_path_exists] tells_if tells_return tells_path_exists
      | (simp add: cfw_paths cfw_keys; fail))+
  apply (simp add: package_valid_def cfw_paths)
  done

lemma triple_installed_core_valid:
  assumes C: "\<And>h v. P v \<Longrightarrow> C h v" and P: "\<And>v. P v \<Longrightarrow> pack_ok n3 v"
  shows "triple M C P (installed_core_valid p) (\<lambda>r v. P v \<and> (r \<longrightarrow> installed n3 v))"
proof -
  have sz: "triple M C P
      (cfw_file_sizes_match (UPDATE_NEW @ ''/atmosphere/package3'') ''sd:/atmosphere/package3'')
      (\<lambda>r v. P v \<and> (r \<longrightarrow> installed n3 v))"
    by (rule triple_post [OF triple_sizes_match [OF cfw_paths(11) cfw_paths(15), where P = P and C = C]])
      (use C P in \<open>auto simp: pack_ok_def installed_def\<close>)
  have rest: "triple M C (\<lambda>v. P v \<and> (True \<longrightarrow> installed n3 v)) m (\<lambda>r v. P v \<and> (r \<longrightarrow> installed n3 v))"
    if "\<And>q :: node \<Rightarrow> bool. keeps M q m" for m
    by (rule triple_weaken [OF triple_reads [OF that, where C = C and P = "\<lambda>v. P v \<and> installed n3 v"]])
      (auto simp: C)
  show ?thesis
    unfolding installed_core_valid_def
    apply (rule triple_bind [OF sz])
    subgoal for ok
      apply (cases ok)
       apply (simp only: simp_thms if_False)
       apply (rule rest [simplified])
       apply ((rule keeps_bind keeps_if keeps_return keeps_cfw_reads keeps_path_exists)+)[1]
      apply (simp add: triple_return)
      done
    done
qed

section \<open>Installing the package\<close>

definition saving :: "string set \<Rightarrow> (string \<Rightarrow> node option) \<Rightarrow> pack \<Rightarrow> string \<Rightarrow> node \<Rightarrow> bool" where
  "saving K orig n3 s v = (cfw_core K orig n3 v \<and> saved K v \<and> journal_fit v \<and> cfw_entry v = Some s)"

lemma apart_saving:
  assumes K: "K \<subseteq> set managed_paths" and x: "x \<noteq> ''aio-mod-update''"
  shows "apart [x] (saving K orig n3 s)"
proof -
  have "apart [x] (\<lambda>v. (cfw_core K orig n3 v \<and> (x \<in> K \<longrightarrow> get_at (backup_k x) v \<noteq> None)) \<and> saved K v \<and>
      journal_fit v \<and> cfw_entry v = Some s)"
    using x by (intro apart_conjI apart_core_backed [OF K] apart_saved apart_eqI apart_cfw_entry) simp_all
  then show ?thesis
    by (rule back_subst [where P = "apart [x]"]) (auto simp: saving_def saved_def fun_eq_iff)
qed

lemma saving_inv:
  "saving K orig n3 s v \<Longrightarrow> s = STATE_BACKUP_COMPLETE \<or> s = STATE_COPY_IN_PROGRESS \<or>
     s \<in> {STATE_COPY_COMPLETE, STATE_FINALIZE_PAYLOAD, STATE_COMMIT_IN_PROGRESS} \<and> installed n3 v \<Longrightarrow>
   cfw_inv K orig n3 v"
  by (auto simp: saving_def cfw_inv_def cfw_base_core entry_true_def cfw_entry_def cfw_state_defs split: option.splits)

lemma keeps_copy_staged_entry:
  assumes e: "good_name (entry_name e)" and q: "apart [entry_name e] q"
  shows "keeps M q (copy_staged_entry e)"
proof -
  have keys: "path_keys (s_printf ''sd:/%s'' [Str (entry_name e)]) = [entry_name e]"
    using e by (simp only: s_printf_paths path_keys_name)
  have "base_name (s_printf ''%s/%s'' [Str UPDATE_NEW, Str (entry_name e)]) = entry_name e"
    using base_name_CombinePaths [OF e, of UPDATE_NEW] by (simp add: CombinePaths_def UPDATE_NEW_def)
  then show ?thesis
    unfolding copy_staged_entry_def Let_def
    using q e keys by (intro keeps_if keeps_FolderCopy keeps_FileCopy) (simp_all add: cfw_paths)
qed

lemma keeps_copy_one_staged:
  assumes e: "good_name (entry_name e)" and q: "apart [entry_name e] q"
  shows "keeps M q (copy_one_staged p n (i, e))"
  unfolding copy_one_staged_def prod.case Let_def
  by ((rule keeps_if keeps_return keeps_bind [OF keeps_copy_staged_entry [OF assms]]
      | (rule keeps_bind_quiet, (simp; fail)))+)

lemma keeps_for_staged:
  assumes "\<And>e. e \<in> set es \<Longrightarrow> good_name (entry_name e) \<and> apart [entry_name e] q"
  shows "keeps M q (for_ok (copy_one_staged p n) (List.enumerate 0 es))"
proof (rule keeps_for_ok)
  fix x
  assume "x \<in> set (List.enumerate 0 es)"
  then have "snd x \<in> set (map snd (List.enumerate 0 es))" by (simp only: set_map image_eqI)
  then have "snd x \<in> set es" by simp
  with keeps_copy_one_staged [of "snd x" q M p n "fst x"] assms show "keeps M q (copy_one_staged p n x)" by simp
qed

text \<open>The copy keeps what no name in the package can disturb.\<close>

lemma triple_copy_staged_names:
  assumes A: "\<And>n v. P v \<Longrightarrow> get_at (new_k [n]) v \<noteq> None \<Longrightarrow> apart [n] P"
  shows "triple M (\<lambda>h. P) P (copy_staged_root p) (\<lambda>_. P)"
proof -
  let ?ok = "\<lambda>es. \<forall>e \<in> set es. good_name (entry_name e) \<and> apart [entry_name e] P"
  have read: "triple M (\<lambda>h. P) P (ReadFolder UPDATE_NEW) (\<lambda>(r, es) v. ?ok es \<and> P v)"
    by (rule triple_post [OF triple_ReadFolder [where P = P and C = "\<lambda>h. P"]])
      (auto simp: cfw_paths cfw_keys intro!: A)
  have loop: "keeps M P (for_ok (copy_one_staged p n) (List.enumerate 0 es))" if "?ok es" for n es
    using that by (intro keeps_for_staged) simp
  have any: "keeps M (\<lambda>_. True) (for_ok (copy_one_staged p n) (List.enumerate 0 es))"
    if "\<forall>e \<in> set es. good_name (entry_name e)" for n es
    using that by (intro keeps_for_staged) simp
  show ?thesis
    unfolding copy_staged_root_def
    apply (rule triple_bind_val [OF read, where V = "\<lambda>(r, es). \<forall>e \<in> set es. good_name (entry_name e)"])
    subgoal for w using keeps_ReadFolder [of M "\<lambda>_. True" UPDATE_NEW] by (simp add: keeps_val_def)
    subgoal for x
      apply (cases x, simp only: prod.case)
      apply (rule triple_check, simp)
      apply (rule triple_fact [OF triple_kept [OF loop] any])
        apply assumption+
      done
    done
qed

lemma triple_copy_staged_root:
  assumes K: "K \<subseteq> set managed_paths"
  shows "triple M (\<lambda>h. saving K orig n3 s) (saving K orig n3 s) (copy_staged_root p) (\<lambda>_. saving K orig n3 s)"
  by (rule triple_copy_staged_names, rule apart_saving [OF K]) (auto simp: saving_def cfw_core_def pack_ok_def)

end
