(* ===== verification/Cfw_Commit.thy ===== *)
theory Cfw_Commit
  imports Cfw_Install
begin

text \<open>
  The end of a firmware update: the swap of the boot payload, the commit that discards the
  backup, and the programs that leave the updater.
\<close>

section \<open>The boot payload\<close>

lemma keeps_finalize_swap:
  assumes "apart [''payload.bin''] q" and "apart [''aio-mod-update'', ''payload.next''] q"
    and "apart [''aio-mod-update'', ''updater-live.bin''] q"
  shows "keeps M q (finalize_swap s)"
  unfolding finalize_swap_def
  by ((rule keeps_bind keeps_if keeps_return keeps_path_exists keeps_cfw_reads keeps_f_rename
      keeps_remove_path_silent | (simp add: cfw_paths assms; fail))+)

lemma keeps_finalize:
  assumes "apart [''payload.bin''] q" and "apart [''aio-mod-update'', ''payload.next''] q"
    and "apart [''aio-mod-update'', ''updater-live.bin''] q"
  shows "keeps M q finalize_patched_payload"
  unfolding finalize_patched_payload_def Let_def
  by ((rule keeps_if keeps_return keeps_bind [OF keeps_path_exists] keeps_bind [OF keeps_cfw_reads(1)]
      keeps_bind [OF keeps_remove_path_silent] keeps_bind [OF keeps_FileCopy] keeps_finalize_swap [OF assms]
      keeps_bind_quiet [OF quiet_prints(2)] | (simp add: cfw_paths assms; fail))+)

definition settled :: "string set \<Rightarrow> (string \<Rightarrow> node option) \<Rightarrow> pack \<Rightarrow> string \<Rightarrow> node \<Rightarrow> bool" where
  "settled K orig n3 s v = (saving K orig n3 s v \<and> installed n3 v)"

lemma apart_settled:
  assumes K: "K \<subseteq> set managed_paths"
  shows "apart [''payload.bin''] (settled K orig n3 s)"
    and "x \<notin> {''backup'', ''new'', ''state'', ''state.tmp''} \<Longrightarrow> apart [''aio-mod-update'', x] (settled K orig n3 s)"
proof -
  show "apart [''payload.bin''] (settled K orig n3 s)"
    unfolding settled_def by (intro apart_conjI apart_saving [OF K] apart_installed) simp_all
  assume "x \<notin> {''backup'', ''new'', ''state'', ''state.tmp''}"
  with K show "apart [''aio-mod-update'', x] (settled K orig n3 s)"
    unfolding settled_def saving_def
    by (intro apart_conjI apart_cfw_core apart_saved apart_journal_fit apart_eqI apart_cfw_entry apart_installed)
      (auto simp: cfw_keys)
qed

lemma keeps_settled_finalize: "K \<subseteq> set managed_paths \<Longrightarrow> keeps M (settled K orig n3 s) finalize_patched_payload"
  by (intro keeps_finalize apart_settled) simp_all

section \<open>Commit\<close>

text \<open>The card after the entry \<^verbatim>\<open>COMMIT_IN_PROGRESS\<close> was written.\<close>

definition finishing :: "pack \<Rightarrow> node \<Rightarrow> bool" where
  "finishing n3 v = (installed n3 v \<and> journal_fit v \<and>
     read_line cfw_state_k v = Some STATE_COMMIT_IN_PROGRESS \<and> get_at cfw_tmp_k v = None)"

definition cleared :: "pack \<Rightarrow> node \<Rightarrow> bool" where
  "cleared n3 v = (installed n3 v \<and> journal_fit v \<and>
     (read_line cfw_state_k v = None \<or> read_line cfw_state_k v = Some STATE_COMMIT_IN_PROGRESS) \<and>
     get_at cfw_tmp_k v = None \<and> get_at [''aio-mod-update'', ''ready''] v = None \<and>
     get_at [''aio-mod-update'', ''backup''] v = None)"

lemma finishing_committed: "finishing n3 v \<Longrightarrow> cfw_committed n3 v"
  by (simp add: finishing_def cfw_committed_def cfw_entry_def)

lemma cleared_committed: "cleared n3 v \<Longrightarrow> cfw_committed n3 v"
  by (auto simp: cleared_def cfw_committed_def cfw_entry_def)

lemma falls_installed: "p \<parallel> [''atmosphere'', ''package3''] \<Longrightarrow> falls p (installed n3)"
  by (intro falls_apart apart_installed)

lemma falls_finishing:
  assumes "p \<parallel> [''atmosphere'', ''package3'']" and "p \<parallel> cfw_state_k"
  shows "falls p (finishing n3)"
proof (cases p)
  case (Cons x r)
  then show ?thesis
    unfolding finishing_def
    by (intro falls_conjI falls_installed falls_None falls_apart [OF apart_eqI [OF apart_read_line]])
      (use assms falls_journal_fit in simp_all)
qed (use assms in simp)

lemma falls_cleared:
  assumes "p \<parallel> [''atmosphere'', ''package3'']"
  shows "falls p (cleared n3)"
proof (cases p)
  case (Cons x r)
  then show ?thesis
    unfolding cleared_def
    by (intro falls_conjI falls_installed falls_None falls_read_line) (use assms falls_journal_fit in simp_all)
qed (use assms in simp)

lemma for_ok_append:
  "for_ok body (xs @ ys) = do {
     r \<leftarrow> for_ok body xs;
     if r = 0 then for_ok body ys else State_Monad.return r
   }"
proof (induction xs)
  case (Cons x xs)
  have "(if r = 0 then for_ok body (xs @ ys) else State_Monad.return r) =
      State_Monad.bind (if r = 0 then for_ok body xs else State_Monad.return r)
        (\<lambda>r. if r = 0 then for_ok body ys else State_Monad.return r)" for r
    using Cons by simp
  then show ?case by simp
qed simp

lemma triple_remove_all:
  assumes "\<And>s. s \<in> set xs \<Longrightarrow> path_keys s \<noteq> [] \<and> falls (path_keys s) P"
  shows "triple M (\<lambda>h. P) P (for_ok remove_path_silent xs)
    (\<lambda>r v. P v \<and> (r = 0 \<longrightarrow> (\<forall>s \<in> set xs. get_at (path_keys s) v = None)))"
proof -
  let ?I = "\<lambda>ys v. P v \<and> (\<forall>s \<in> set ys. get_at (path_keys s) v = None)"
  have "triple M (\<lambda>h. P) (?I []) (for_ok remove_path_silent xs)
      (\<lambda>r v. P v \<and> (r = 0 \<longrightarrow> (\<forall>s \<in> set xs. get_at (path_keys s) v = None)))"
  proof (rule triple_for_ok_inv [where I = ?I])
    fix ys x zs
    assume "xs = ys @ x # zs"
    with assms have x: "path_keys x \<noteq> []" "falls (path_keys x) (?I ys)"
      by (auto intro!: falls_conjI falls_ballI falls_None)
    show "triple M (\<lambda>h. P) (?I ys) (remove_path_silent x)
        (\<lambda>r v. if r = 0 then ?I (ys @ [x]) v else P v \<and> (r = 0 \<longrightarrow> (\<forall>s \<in> set xs. get_at (path_keys s) v = None)))"
      by (rule triple_weaken [OF triple_remove_path_silent [OF refl x]]) auto
  qed simp
  then show ?thesis by simp
qed

lemma commit_paths_split: "commit_paths = butlast commit_paths @ [UPDATE_STATE]"
  by (simp add: commit_paths_def)

lemma triple_commit_removals:
  "triple True (\<lambda>h. cfw_committed n3) (finishing n3) (for_ok remove_path_silent commit_paths)
    (\<lambda>r v. cfw_committed n3 v \<and> (r = 0 \<longrightarrow> cleared n3 v))"
proof -
  have first: "triple True (\<lambda>h. finishing n3) (finishing n3) (for_ok remove_path_silent (butlast commit_paths))
    (\<lambda>r v. finishing n3 v \<and> (r = 0 \<longrightarrow> (\<forall>s \<in> set (butlast commit_paths). get_at (path_keys s) v = None)))"
    by (rule triple_remove_all) (auto simp: commit_paths_def cfw_paths cfw_keys intro!: falls_finishing)
  have gone: "cleared n3 v" if "finishing n3 v" "\<forall>s \<in> set (butlast commit_paths). get_at (path_keys s) v = None" for v
    using that by (auto simp: commit_paths_def cfw_paths finishing_def cleared_def)
  have last: "triple True (\<lambda>h. cleared n3) (cleared n3) (for_ok remove_path_silent [UPDATE_STATE])
      (\<lambda>r v. cleared n3 v \<and> (r = 0 \<longrightarrow> (\<forall>s \<in> set [UPDATE_STATE]. get_at (path_keys s) v = None)))"
    by (rule triple_remove_all) (auto simp: cfw_paths cfw_keys intro!: falls_cleared)
  show ?thesis
    apply (subst commit_paths_split)
    unfolding for_ok_append
    apply (rule triple_seq [OF first], assumption, rule finishing_committed, assumption)
    apply (rule triple_if)
     apply (rule triple_weaken [OF last])
       apply (use gone in blast)
      apply (simp add: cleared_committed)
     apply (simp add: cleared_committed)
    apply (rule triple_return, simp add: finishing_committed)
    done
qed

definition cfw_ok :: "string set \<Rightarrow> (string \<Rightarrow> node option) \<Rightarrow> pack \<Rightarrow> node \<Rightarrow> bool" where
  "cfw_ok K orig n3 v = (cfw_inv K orig n3 v \<or> cfw_committed n3 v)"

text \<open>A card on which the commit was begun and can be resumed.\<close>

definition resuming :: "pack \<Rightarrow> node \<Rightarrow> bool" where
  "resuming n3 v = (installed n3 v \<and> journal_fit v \<and> read_line cfw_state_k v = Some STATE_COMMIT_IN_PROGRESS)"

lemma triple_write_commit:
  assumes K: "K \<subseteq> set managed_paths"
  shows "triple True (\<lambda>h. cfw_ok K orig n3)
    (\<lambda>v. cfw_inv K orig n3 v \<and> saved K v \<and> installed n3 v \<and> cfw_entry v \<noteq> Some STATE_STAGED)
    (cfw_write_state STATE_COMMIT_IN_PROGRESS) (\<lambda>_. finishing n3)"
proof -
  have F: "apart cfw_state_k (installed n3)" "apart cfw_tmp_k (installed n3)"
    by (auto intro!: apart_installed simp: cfw_keys)
  have staged: "cfw_entry v = Some STATE_STAGED" if "read_line cfw_state_k v = Some STATE_STAGED" for v
    unfolding cfw_entry_def that by simp
  show ?thesis
    by (rule triple_weaken [OF triple_cfw_state [OF K entry_ok_states(8) F apart_new_installed]])
      (use staged in \<open>auto simp: cfw_ok_def entry_true_def finishing_def cfw_inv_def cfw_base_core cfw_state_defs\<close>)
qed

lemma triple_write_resume:
  "triple True (\<lambda>h. cfw_committed n3) (resuming n3)
    (cfw_write_state STATE_COMMIT_IN_PROGRESS) (\<lambda>_. finishing n3)"
proof (rule triple_ghost [where R = "\<lambda>_. True" and g = "read_line cfw_tmp_k"])
  have F: "apart cfw_state_k (installed n3)" "apart cfw_tmp_k (installed n3)"
    by (auto intro!: apart_installed simp: cfw_keys)
  show "keeps True (installed n3) (cfw_write_state STATE_COMMIT_IN_PROGRESS)"
    by (rule keeps_cfw_write_state [OF F apart_new_installed])
  fix t
  have "keeps False (installed n3) (cfw_write_state STATE_COMMIT_IN_PROGRESS)"
    by (rule keeps_cfw_write_state [OF F apart_new_installed])
  note w = triple_frame [OF cfw_journal.write_state_triple [OF entry_ok_states(8) TrueI,
        of "Some STATE_COMMIT_IN_PROGRESS" t] this [unfolded cfw_write_state_journal]]
  show "triple True (\<lambda>h. cfw_committed n3) (\<lambda>v. resuming n3 v \<and> read_line cfw_tmp_k v = t)
      (cfw_write_state STATE_COMMIT_IN_PROGRESS) (\<lambda>_. finishing n3)"
    unfolding cfw_write_state_journal
    by (rule triple_weaken [OF w])
      (auto simp: resuming_def finishing_def cfw_committed_def cfw_journal.between_def cfw_journal.calm_def
        cfw_journal_entry cfw_keys)
qed simp

lemma triple_commit_transaction:
  assumes w: "triple True (\<lambda>h. cfw_ok K orig n3) P (cfw_write_state STATE_COMMIT_IN_PROGRESS) (\<lambda>_. finishing n3)"
  shows "triple True (\<lambda>h. cfw_ok K orig n3) P cfw_commit_transaction (\<lambda>_. cfw_ok K orig n3)"
proof -
  have ok: "cfw_committed n3 v \<Longrightarrow> cfw_ok K orig n3 v" for v by (simp add: cfw_ok_def)
  have root: "triple True (\<lambda>h. cfw_ok K orig n3) (cleared n3) (f_unlink UPDATE_ROOT) (\<lambda>_. cleared n3)"
    by (rule triple_post [OF triple_f_unlink [OF cfw_paths(1) falls_cleared]]) (simp_all add: ok cleared_committed)
  show ?thesis
    unfolding cfw_commit_transaction_def
    apply (rule triple_bind [OF w])
    apply (rule triple_check, simp add: ok finishing_committed)
    apply (rule triple_bind_quiet, simp)
    apply (rule triple_seq [OF triple_commit_removals], assumption, erule ok)
    apply (rule triple_check, simp add: ok)
    apply (rule triple_seq [OF root], simp, assumption)
    apply (rule triple_return, simp add: ok cleared_committed)
    done
qed

section \<open>Leaving\<close>

lemma keeps_cfw_boot: "keeps False q (cfw_boot_installed_cfw_now p)" "keeps False q (cfw_boot_installed_cfw p)"
  "keeps False q (boot_previous_after_rollback p)"
proof -
  show n: "keeps False q (cfw_boot_installed_cfw_now p)" for p
    unfolding cfw_boot_installed_cfw_now_def by (rule keeps_boot_installed_cfw_now) simp
  show "keeps False q (cfw_boot_installed_cfw p)" "keeps False q (boot_previous_after_rollback p)"
    unfolding cfw_boot_installed_cfw_def boot_previous_after_rollback_def
    by (intro keeps_bind keeps_if n keeps_ask keeps_offline; simp)+
qed

lemma finishes_run_commit:
  assumes w: "triple True (\<lambda>h. cfw_ok K orig n3) P (cfw_write_state STATE_COMMIT_IN_PROGRESS) (\<lambda>_. finishing n3)"
  shows "finishes P (cfw_run_commit p) (cfw_ok K orig n3)"
  unfolding cfw_run_commit_def
  apply (rule finishes_bind [OF with_mute_triple [OF triple_commit_transaction [OF w]]], assumption)
  apply (rule finishes_bind_quiet)
    apply simp
   apply (rule finishes_keeps [OF keeps_cfw_boot(2)])
  apply assumption
  done

end
