(* ===== verification/Cfw_Run.thy ===== *)
theory Cfw_Run
  imports Cfw_Commit
begin

text \<open>
  A whole run of the firmware updater on a steady machine: wherever it stops, the invariant
  holds or the new firmware is installed. One lemma per phase, in the order of the source from
  the bottom up.
\<close>

lemma inv_ok: "cfw_inv K orig n3 v \<Longrightarrow> cfw_ok K orig n3 v"
  by (simp add: cfw_ok_def)

lemma finishes_roll:
  assumes K: "protects p K orig"
  shows "finishes (cfw_inv K orig n3) (cfw_roll s c m p) (cfw_ok K orig n3)"
proof -
  note rb = triple_rollback_transaction [OF K, of n3]
  show ?thesis
    unfolding cfw_roll_def
    apply (rule finishes_bind_quiet, simp)
     apply (rule finishes_bind [OF rb], erule inv_ok)
     apply (rule finishes_if)
      apply (rule finishes_weaken [OF finishes_keeps [OF keeps_cfw_boot(3), where Q = "cfw_inv K orig n3"]], simp, erule inv_ok)
     apply (rule finishes_weaken [OF finishes_keeps [OF keeps_offline, where Q = "cfw_inv K orig n3"]], simp, simp, erule inv_ok)
    apply (erule inv_ok)
    done
qed

section \<open>Giving up before anything was changed\<close>

text \<open>The card with all originals in place and the journal at \<^verbatim>\<open>STAGED\<close>.\<close>

definition untouched :: "string set \<Rightarrow> (string \<Rightarrow> node option) \<Rightarrow> pack \<Rightarrow> node \<Rightarrow> bool" where
  "untouched K orig n3 v = (restored K orig v \<and> unbacked K v \<and> get_at marker_k v = None \<and> pack_ok n3 v \<and>
     journal_fit v \<and> (read_line cfw_state_k v = None \<or> read_line cfw_state_k v = Some STATE_STAGED) \<and>
     read_line cfw_tmp_k v \<in> early)"

lemma untouched_inv: "untouched K orig n3 v \<Longrightarrow> cfw_inv K orig n3 v"
proof -
  assume u: "untouched K orig n3 v"
  then have "cfw_entry v \<in> early"
    by (cases "read_line cfw_state_k v") (auto simp: untouched_def cfw_entry_def early_def)
  with u show ?thesis
    by (auto simp: untouched_def cfw_inv_def cfw_base_def entry_true_def marker_ok_def covered_def safe_name_def
        restored_def unbacked_def)
qed

lemma inv_untouched:
  assumes K: "protects p K orig" and v: "cfw_inv K orig n3 v" "cfw_entry v = Some STATE_STAGED" "\<not> package_valid (fst n3) v"
  shows "untouched K orig n3 v"
proof -
  have un: "unbacked K v" using v by (auto simp: cfw_inv_def cfw_base_def covered_def)
  have "''atmosphere'' \<in> K" using K by (simp add: protects_def)
  with un have "get_at marker_k v = None"
    using v(1) by (auto simp: cfw_inv_def cfw_base_def marker_ok_def saved_def unbacked_def)
  moreover have "read_line cfw_state_k v = None \<and> read_line cfw_tmp_k v \<in> early \<or>
      read_line cfw_state_k v = Some STATE_STAGED \<and> read_line cfw_tmp_k v \<in> early"
    using v(1,2) by (cases "read_line cfw_state_k v") (auto simp: cfw_entry_def cfw_inv_def early_def)
  ultimately show ?thesis
    using v(1) un by (auto simp: untouched_def cfw_inv_def cfw_base_def safe_name_def restored_def unbacked_def)
qed

lemma falls_early: "falls p (\<lambda>v. read_line q v \<in> early)"
  by (auto simp: falls_def read_line_def file_at_del_at early_def split: option.splits)

lemma falls_untouched: "K \<subseteq> set managed_paths \<Longrightarrow> falls [''aio-mod-update''] (untouched K orig n3)"
  unfolding untouched_def restored_def unbacked_def
  by (intro falls_conjI falls_ballI falls_None falls_pack_ok falls_journal_fit falls_read_line falls_early
      falls_apart [OF apart_eqI [OF apart_held]]) auto

lemma apart_untouched:
  assumes "K \<subseteq> set managed_paths" and "x \<noteq> ''aio-mod-update''" and "x \<notin> K"
  shows "apart [x] (untouched K orig n3)"
proof -
  have "apart [x] (\<lambda>v. read_line cfw_tmp_k v \<in> early)"
    using assms(2) by (intro apart_compose [OF apart_read_line]) simp
  then show ?thesis
    unfolding untouched_def restored_def
    using assms
    by (intro apart_conjI apart_ballI apart_eqI apart_held apart_unbacked apart_pack_ok apart_disjI apart_read_line apart_get_at)
      auto
qed

lemma triple_give_up:
  assumes K: "protects p K orig"
  shows "finishes (untouched K orig n3) (fail_before_changes p) (cfw_ok K orig n3)"
proof -
  have K': "K \<subseteq> set managed_paths" "p \<longrightarrow> ''payload.bin'' \<notin> K" using K by (auto simp: protects_def)
  let ?P = "untouched K orig n3"
  have ok: "cfw_ok K orig n3 v" if "?P v" for v using that by (simp add: inv_ok untouched_inv)
  have fb: "apart [''payload.bin.aio''] ?P" using K' by (intro apart_untouched) auto
  have swap: "keeps True ?P (do {
        remove_path_silent ''sd:/payload.bin'';
        f_rename MARIKO_PAYLOAD_FALLBACK ''sd:/payload.bin'';
        State_Monad.return ()
      })" if p
  proof -
    have "apart [''payload.bin''] ?P" using K' that by (intro apart_untouched) auto
    with fb show ?thesis by (intro keeps_bind keeps_return keeps_remove_path_silent keeps_f_rename) (simp_all add: cfw_paths)
  qed
  have wipe: "triple True (\<lambda>h. ?P) ?P (remove_path_silent UPDATE_ROOT) (\<lambda>_. ?P)"
    by (rule triple_post [OF triple_remove_path_silent [OF cfw_paths(1) _ falls_untouched [OF K'(1)]]]) simp_all
  have leave: "keeps False ?P (do {
     cfw_ui_unchanged_wait;
     if p then power_set_state POWER_OFF_REBOOT else cfw_boot_installed_cfw_now False
   })"
    by (intro keeps_bind keeps_if keeps_cfw_boot keeps_offline) simp_all
  have look: "triple True (\<lambda>h. ?P) ?P (if p then path_exists MARIKO_PAYLOAD_FALLBACK else State_Monad.return False)
      (\<lambda>e v. (e \<longrightarrow> p) \<and> ?P v)"
    by (rule triple_if; rule triple_weaken [OF triple_kept [OF keeps_path_exists, where P = ?P and C = "\<lambda>h. ?P"]] triple_return) auto
  have swapped: "triple True (\<lambda>h. ?P) (\<lambda>v. (e \<longrightarrow> p) \<and> ?P v)
      (if e then do {
        remove_path_silent ''sd:/payload.bin'';
        f_rename MARIKO_PAYLOAD_FALLBACK ''sd:/payload.bin'';
        State_Monad.return ()
      } else State_Monad.return ()) (\<lambda>_. ?P)" for e
  proof (rule triple_if)
    assume e
    show "triple True (\<lambda>h. ?P) (\<lambda>v. (e \<longrightarrow> p) \<and> ?P v) (do {
        remove_path_silent ''sd:/payload.bin'';
        f_rename MARIKO_PAYLOAD_FALLBACK ''sd:/payload.bin'';
        State_Monad.return ()
      }) (\<lambda>_. ?P)"
    proof (rule triple_fact [OF triple_kept [OF swap]])
      show "keeps True (\<lambda>_. True) (do {
          remove_path_silent ''sd:/payload.bin'';
          f_rename MARIKO_PAYLOAD_FALLBACK ''sd:/payload.bin'';
          State_Monad.return ()
        })"
        by (intro keeps_bind keeps_return keeps_remove_path_silent keeps_f_rename) simp_all
    qed (use \<open>e\<close> in simp_all)
  qed (auto intro: triple_return)
  show ?thesis
    unfolding fail_before_changes_def
    apply (rule finishes_bind [OF look], erule ok)
    apply (rule finishes_bind [OF swapped], erule ok)
    apply (rule finishes_bind [OF wipe], erule ok)
    apply (rule finishes_weaken [OF finishes_keeps [OF leave]], assumption, erule ok)
    done
qed

section \<open>The phases of a run\<close>

lemma apart_saved_journal: "apart cfw_state_k (saved K)" "apart cfw_tmp_k (saved K)"
  and apart_installed_journal: "apart cfw_state_k (installed n3)" "apart cfw_tmp_k (installed n3)"
  by (auto intro!: apart_saved apart_installed simp: cfw_keys)

lemma finishes_journal:
  assumes K: "protects p K orig" and s: "entry_ok s" "s \<noteq> STATE_STAGED"
    and F: "apart cfw_state_k F" "apart cfw_tmp_k F" "apart_new [''aio-mod-update''] F"
    and P: "\<And>v. P v \<Longrightarrow> F v \<and> cfw_inv K orig n3 v \<and> entry_true K n3 v (Some s) \<and>
       (cfw_entry v = Some STATE_STAGED \<longrightarrow> Some s \<in> early)"
    and rest: "finishes (\<lambda>v. F v \<and> cfw_inv K orig n3 v \<and> cfw_entry v = Some s) m (cfw_ok K orig n3)"
    and failed: "finishes (cfw_inv K orig n3) n (cfw_ok K orig n3)"
  shows "finishes P (do { res \<leftarrow> cfw_write_state s; if res \<noteq> FR_OK then n else m }) (cfw_ok K orig n3)"
proof -
  have K': "K \<subseteq> set managed_paths" using K by (simp add: protects_def)
  have entry: "cfw_entry v = Some x" if "read_line cfw_state_k v = Some x" for v x
    unfolding cfw_entry_def that by simp
  have w: "triple True (\<lambda>h. cfw_inv K orig n3) P (cfw_write_state s)
      (\<lambda>e v. F v \<and> cfw_inv K orig n3 v \<and> cfw_entry v = Some s)"
    by (rule triple_weaken [OF triple_cfw_state [OF K' s(1) F]]) (use P s(2) entry in auto)
  show ?thesis
    apply (rule finishes_bind [OF w], erule inv_ok)
    apply (rule finishes_if)
     apply (rule finishes_weaken [OF failed], simp, assumption)
    apply (rule rest)
    done
qed

lemma settled_inv: "settled K orig n3 s v \<Longrightarrow> s \<in> {STATE_COPY_COMPLETE, STATE_FINALIZE_PAYLOAD} \<Longrightarrow> cfw_inv K orig n3 v"
  using saving_inv [of K orig n3 s v] by (auto simp: settled_def)

lemma finishes_run_final:
  assumes K: "protects p K orig"
  shows "finishes (\<lambda>v. cfw_inv K orig n3 v \<and> saved K v \<and> installed n3 v \<and> cfw_entry v \<noteq> Some STATE_STAGED)
    (cfw_run_final p) (cfw_ok K orig n3)"
  unfolding cfw_run_final_def
  apply (rule finishes_bind_quiet, simp)
   apply (rule finishes_bind_quiet, simp)
    apply (rule finishes_run_commit [OF triple_write_commit])
    apply (use K in \<open>simp_all add: protects_def inv_ok\<close>)
  done

lemma settled_final:
  "settled K orig n3 s v \<Longrightarrow> s \<in> {STATE_COPY_COMPLETE, STATE_FINALIZE_PAYLOAD} \<Longrightarrow>
    cfw_inv K orig n3 v \<and> saved K v \<and> installed n3 v \<and> cfw_entry v \<noteq> Some STATE_STAGED"
  using settled_inv [of K orig n3 s v] by (auto simp: settled_def saving_def cfw_state_defs)

lemma finishes_run_finalize:
  assumes K: "protects p K orig" and s: "s \<in> {STATE_COPY_COMPLETE, STATE_FINALIZE_PAYLOAD}"
  shows "finishes (settled K orig n3 s) (cfw_run_finalize (Some s) p) (cfw_ok K orig n3)"
proof -
  have K': "K \<subseteq> set managed_paths" using K by (simp add: protects_def)
  have ok: "cfw_ok K orig n3 v" "cfw_inv K orig n3 v" if "settled K orig n3 s v" for v
    using settled_inv [OF that s] by (simp_all add: inv_ok)
  have final: "finishes (settled K orig n3 s) (cfw_run_final p) (cfw_ok K orig n3)"
    by (rule finishes_weaken [OF finishes_run_final [OF K]]) (simp_all add: settled_final [OF _ s])
  have roll: "finishes (settled K orig n3 s) (cfw_roll a b c p) (cfw_ok K orig n3)" for a b c
    by (rule finishes_weaken [OF finishes_roll [OF K]]) (simp_all add: ok)
  have swap: "triple True (\<lambda>h. settled K orig n3 s) (settled K orig n3 s) (with_mute finalize_patched_payload)
      (\<lambda>_. settled K orig n3 s)"
    by (rule with_mute_triple [OF triple_keeps [OF keeps_settled_finalize [OF K']]])
  have match: "triple True (\<lambda>h. settled K orig n3 s) (settled K orig n3 s) (cfw_file_sizes_match a b)
      (\<lambda>_. settled K orig n3 s)" for a b
    by (rule triple_keeps [OF keeps_cfw_reads(1)])
  show ?thesis
    unfolding cfw_run_finalize_def
    apply (rule finishes_if)
     apply (rule finishes_bind_quiet, simp)
      apply (rule finishes_bind [OF swap], erule ok)
      apply (rule finishes_if, rule roll)
      apply (rule finishes_bind [OF match], erule ok)
      apply (rule finishes_if, rule roll, rule final)
     apply (erule ok)
    apply (rule final)
    done
qed

text \<open>What the journal writes leave alone, for the phases below.\<close>

lemma journal_frames:
  "apart cfw_state_k (\<lambda>v. saved K v \<and> installed n3 v)" "apart cfw_tmp_k (\<lambda>v. saved K v \<and> installed n3 v)"
  "apart_new [''aio-mod-update''] (\<lambda>v. saved K v \<and> installed n3 v)"
  by (intro apart_rules apart_saved_journal apart_installed_journal apart_new_saved apart_new_installed)+

lemma entry_true_simps:
  "entry_true K n3 v (Some STATE_BACKUP_COMPLETE) = saved K v"
  "entry_true K n3 v (Some STATE_COPY_IN_PROGRESS) = saved K v"
  "entry_true K n3 v (Some STATE_COPY_COMPLETE) = (saved K v \<and> installed n3 v)"
  "entry_true K n3 v (Some STATE_FINALIZE_PAYLOAD) = (saved K v \<and> installed n3 v)"
  "entry_true K n3 v (Some STATE_COMMIT_IN_PROGRESS) = (saved K v \<and> installed n3 v)"
  "entry_true K n3 v (Some STATE_BACKUP_IN_PROGRESS)"
  by (auto simp: entry_true_def early_def cfw_state_defs)

lemma states_distinct:
  "STATE_BACKUP_IN_PROGRESS \<noteq> STATE_STAGED" "STATE_BACKUP_COMPLETE \<noteq> STATE_STAGED" "STATE_COPY_IN_PROGRESS \<noteq> STATE_STAGED"
  "STATE_COPY_COMPLETE \<noteq> STATE_STAGED" "STATE_FINALIZE_PAYLOAD \<noteq> STATE_STAGED"
  by (simp_all add: cfw_state_defs)

lemma finishes_run_payload:
  assumes K: "protects p K orig" and s: "s \<in> {STATE_COPY_COMPLETE, STATE_FINALIZE_PAYLOAD}"
  shows "finishes (settled K orig n3 s) (cfw_run_payload (Some s) p) (cfw_ok K orig n3)"
proof -
  have rest: "finishes (\<lambda>v. (saved K v \<and> installed n3 v) \<and> cfw_inv K orig n3 v \<and> cfw_entry v = Some STATE_FINALIZE_PAYLOAD)
      (cfw_run_finalize (Some STATE_FINALIZE_PAYLOAD) p) (cfw_ok K orig n3)"
    by (rule finishes_weaken [OF finishes_run_finalize [OF K]])
      (auto simp: settled_def saving_def cfw_inv_def cfw_base_core)
  show ?thesis
    unfolding cfw_run_payload_def
    apply (rule finishes_if)
     apply (rule finishes_journal [OF K entry_ok_cfw(1) states_distinct(5) journal_frames _ rest finishes_roll [OF K]])
     apply (use settled_final [OF _ s] in \<open>simp add: entry_true_simps\<close>)
    apply (rule finishes_run_finalize [OF K s])
    done
qed

lemma finishes_run_copied:
  assumes K: "protects p K orig"
  shows "finishes (saving K orig n3 STATE_COPY_IN_PROGRESS) (cfw_run_copied p) (cfw_ok K orig n3)"
proof -
  have K': "K \<subseteq> set managed_paths" using K by (simp add: protects_def)
  let ?P = "saving K orig n3 STATE_COPY_IN_PROGRESS"
  have ok: "cfw_ok K orig n3 v" "cfw_inv K orig n3 v" if "?P v" for v
    using saving_inv [OF that] by (simp_all add: inv_ok)
  have remove: "triple True (\<lambda>h. ?P) ?P (remove_path_silent ''sd:/Next'') (\<lambda>_. ?P)"
    by (rule triple_keeps [OF keeps_remove_path_silent]) (simp add: cfw_paths apart_saving K')
  have check: "triple True (\<lambda>h. ?P) ?P (installed_core_valid p) (\<lambda>r v. ?P v \<and> (r \<longrightarrow> installed n3 v))"
    by (rule triple_installed_core_valid) (simp_all add: saving_def cfw_core_def)
  have roll: "finishes (\<lambda>v. ?P v \<and> (r \<longrightarrow> installed n3 v)) (cfw_roll a b c p) (cfw_ok K orig n3)" for r a b c
    by (rule finishes_weaken [OF finishes_roll [OF K]]) (simp_all add: ok)
  have rest: "finishes (\<lambda>v. (saved K v \<and> installed n3 v) \<and> cfw_inv K orig n3 v \<and> cfw_entry v = Some STATE_COPY_COMPLETE)
      (cfw_run_payload (Some STATE_COPY_COMPLETE) p) (cfw_ok K orig n3)"
    by (rule finishes_weaken [OF finishes_run_payload [OF K]])
      (auto simp: settled_def saving_def cfw_inv_def cfw_base_core)
  show ?thesis
    unfolding cfw_run_copied_def
    apply (rule finishes_bind [OF remove], erule ok)
    apply (rule finishes_bind [OF check], erule ok)
    apply (rule finishes_if, rule roll)
    apply (rule finishes_journal [OF K entry_ok_states(5) states_distinct(4) journal_frames _ rest finishes_roll [OF K]])
    apply (simp add: entry_true_simps ok)
    apply (simp add: saving_def cfw_state_defs)
    done
qed

lemma finishes_run_copy:
  assumes K: "protects p K orig"
  shows "finishes (saving K orig n3 STATE_COPY_IN_PROGRESS) (cfw_run_copy (Some STATE_COPY_IN_PROGRESS) p) (cfw_ok K orig n3)"
proof -
  have K': "K \<subseteq> set managed_paths" using K by (simp add: protects_def)
  let ?P = "saving K orig n3 STATE_COPY_IN_PROGRESS"
  have ok: "cfw_ok K orig n3 v" "cfw_inv K orig n3 v" if "?P v" for v
    using saving_inv [OF that] by (simp_all add: inv_ok)
  have roll: "finishes ?P (cfw_roll a b c p) (cfw_ok K orig n3)" for a b c
    by (rule finishes_weaken [OF finishes_roll [OF K]]) (simp_all add: ok)
  show ?thesis
    unfolding cfw_run_copy_def state_is_def simp_thms if_True
    apply (rule finishes_bind_quiet, simp)
     apply (rule finishes_bind [OF triple_copy_staged_root [OF K']], erule ok)
     apply (rule finishes_if, rule roll, rule finishes_run_copied [OF K])
    apply (erule ok)
    done
qed

lemma finishes_run_backed_up:
  assumes K: "protects p K orig"
  shows "finishes (saving K orig n3 STATE_BACKUP_COMPLETE) (cfw_run_backed_up (Some STATE_BACKUP_COMPLETE) p) (cfw_ok K orig n3)"
proof -
  have rest: "finishes (\<lambda>v. saved K v \<and> cfw_inv K orig n3 v \<and> cfw_entry v = Some STATE_COPY_IN_PROGRESS)
      (cfw_run_copy (Some STATE_COPY_IN_PROGRESS) p) (cfw_ok K orig n3)"
    by (rule finishes_weaken [OF finishes_run_copy [OF K]]) (auto simp: saving_def cfw_inv_def cfw_base_core)
  show ?thesis
    unfolding cfw_run_backed_up_def state_is_def simp_thms if_True
    apply (rule finishes_journal [OF K entry_ok_states(4) states_distinct(3) apart_saved_journal apart_new_saved _
          rest finishes_roll [OF K]])
    subgoal for v
      using saving_inv [of K orig n3 STATE_BACKUP_COMPLETE v]
      by (simp add: entry_true_simps) (simp add: saving_def cfw_state_defs)
    done
qed

lemma backingI: "cfw_inv K orig n3 v \<Longrightarrow> cfw_entry v = Some STATE_BACKUP_IN_PROGRESS \<Longrightarrow> package_valid (fst n3) v \<Longrightarrow>
    backing K orig n3 v"
  by (auto simp: backing_def cfw_inv_def cfw_base_core)

lemma finishes_run_backup_move:
  assumes K: "protects p K orig"
  shows "finishes (backing K orig n3) (cfw_run_backup (Some STATE_BACKUP_IN_PROGRESS) p) (cfw_ok K orig n3)"
proof -
  have rest: "finishes (\<lambda>v. saved K v \<and> cfw_inv K orig n3 v \<and> cfw_entry v = Some STATE_BACKUP_COMPLETE)
      (cfw_run_backed_up (Some STATE_BACKUP_COMPLETE) p) (cfw_ok K orig n3)"
    by (rule finishes_weaken [OF finishes_run_backed_up [OF K]]) (auto simp: saving_def cfw_inv_def cfw_base_core)
  have move: "triple True (\<lambda>h. cfw_inv K orig n3) (backing K orig n3) (move_managed_to_backup p)
    (\<lambda>r v. cfw_inv K orig n3 v \<and> (r = FR_OK \<longrightarrow> backing K orig n3 v \<and> saved K v))"
    by (rule triple_move_managed [OF K])
  show ?thesis
    unfolding cfw_run_backup_def state_is_def simp_thms if_True
    apply (rule finishes_bind_quiet, simp)
     apply (rule finishes_bind [OF move], erule inv_ok)
     apply (rule finishes_if)
      apply (rule finishes_weaken [OF finishes_roll [OF K]], simp, assumption)
     apply (rule finishes_journal [OF K entry_ok_states(3) states_distinct(2) apart_saved_journal apart_new_saved _
          rest finishes_roll [OF K]])
     apply (simp add: entry_true_simps)
     apply (simp add: backing_def cfw_state_defs)
    apply (simp add: inv_ok backing_inv)
    done
qed

lemma inv_settled:
  "cfw_inv K orig n3 v \<Longrightarrow> cfw_entry v = Some s \<Longrightarrow> s \<in> {STATE_COPY_COMPLETE, STATE_FINALIZE_PAYLOAD} \<Longrightarrow>
     settled K orig n3 s v"
  by (auto simp: settled_def saving_def cfw_inv_def cfw_base_core entry_true_simps)

lemma inv_saving:
  "cfw_inv K orig n3 v \<Longrightarrow> cfw_entry v = Some s \<Longrightarrow> s \<in> {STATE_BACKUP_COMPLETE, STATE_COPY_IN_PROGRESS} \<Longrightarrow>
     saving K orig n3 s v"
  by (auto simp: saving_def cfw_inv_def cfw_base_core entry_true_simps)

text \<open>The entries a run can find past the dispatch.\<close>

lemma entry_cases:
  assumes "cfw_inv K orig n3 v" and "cfw_entry v = Some s"
  shows "s \<in> {STATE_STAGED, STATE_BACKUP_IN_PROGRESS, STATE_BACKUP_COMPLETE, STATE_COPY_IN_PROGRESS, STATE_COPY_COMPLETE,
    STATE_FINALIZE_PAYLOAD, STATE_COMMIT_IN_PROGRESS, STATE_ROLLBACK_IN_PROGRESS, STATE_ROLLBACK_FAILED}"
  using assms by (auto simp: cfw_inv_def entry_true_def early_def)

lemma finishes_run_backup:
  assumes K: "protects p K orig" and p: "fst n3 = p"
    and s: "s \<notin> {STATE_STAGED, STATE_COMMIT_IN_PROGRESS, STATE_ROLLBACK_IN_PROGRESS, STATE_ROLLBACK_FAILED}"
  shows "finishes (\<lambda>v. (cfw_inv K orig n3 v \<and> cfw_entry v = Some s) \<and> package_valid p v) (cfw_run_backup (Some s) p)
    (cfw_ok K orig n3)"
proof -
  consider (move) "s = STATE_BACKUP_IN_PROGRESS" | (copy) "s = STATE_BACKUP_COMPLETE" | (copying) "s = STATE_COPY_IN_PROGRESS"
    | (settle) "s \<in> {STATE_COPY_COMPLETE, STATE_FINALIZE_PAYLOAD}"
    | (none) "s \<notin> {STATE_BACKUP_IN_PROGRESS, STATE_BACKUP_COMPLETE, STATE_COPY_IN_PROGRESS, STATE_COPY_COMPLETE, STATE_FINALIZE_PAYLOAD}"
    by auto
  then show ?thesis
  proof cases
    case move
    show ?thesis
      unfolding move
      by (rule finishes_weaken [OF finishes_run_backup_move [OF K]]) (simp_all add: backingI p)
  next
    case copy
    have "cfw_run_backup (Some s) p = cfw_run_backed_up (Some STATE_BACKUP_COMPLETE) p"
      by (simp add: copy cfw_run_backup_def state_is_def cfw_state_defs)
    then show ?thesis
      by (simp only:) (rule finishes_weaken [OF finishes_run_backed_up [OF K]], simp_all add: inv_saving copy)
  next
    case copying
    have "cfw_run_backup (Some s) p = cfw_run_copy (Some STATE_COPY_IN_PROGRESS) p"
      by (simp add: copying cfw_run_backup_def cfw_run_backed_up_def state_is_def cfw_state_defs)
    then show ?thesis
      by (simp only:) (rule finishes_weaken [OF finishes_run_copy [OF K]], simp_all add: inv_saving copying)
  next
    case settle
    then have "cfw_run_backup (Some s) p = cfw_run_payload (Some s) p"
      by (auto simp: cfw_run_backup_def cfw_run_backed_up_def cfw_run_copy_def state_is_def cfw_state_defs)
    then show ?thesis
      by (simp only:) (rule finishes_weaken [OF finishes_run_payload [OF K settle]], use settle inv_settled in blast)
  next
    case none
    then have run: "cfw_run_backup (Some s) p = cfw_run_final p"
      by (simp add: cfw_run_backup_def cfw_run_backed_up_def cfw_run_copy_def cfw_run_payload_def
          cfw_run_finalize_def state_is_def)
    have "\<not> (cfw_inv K orig n3 v \<and> cfw_entry v = Some s)" for v
      using entry_cases [of K orig n3 v s] none s by blast
    then show ?thesis
      unfolding run by (intro finishes_weaken [OF finishes_run_final [OF K]]) blast+
  qed
qed

lemma keeps_give_up: "keeps False (\<lambda>_. c) (fail_before_changes p)"
  unfolding fail_before_changes_def
  by (intro keeps_bind keeps_if keeps_return keeps_path_exists keeps_remove_path_silent keeps_f_rename keeps_cfw_boot
      keeps_offline) simp_all

lemma finishes_run_staged:
  assumes K: "protects p K orig" and p: "fst n3 = p"
    and s: "s \<notin> {STATE_COMMIT_IN_PROGRESS, STATE_ROLLBACK_IN_PROGRESS, STATE_ROLLBACK_FAILED}"
  shows "finishes (\<lambda>v. cfw_inv K orig n3 v \<and> cfw_entry v = Some s) (cfw_run_staged (Some s) p) (cfw_ok K orig n3)"
proof -
  let ?P = "\<lambda>v. cfw_inv K orig n3 v \<and> cfw_entry v = Some s"
  have valid: "triple True (\<lambda>h. ?P) ?P (staged_package_valid p) (\<lambda>b v. ?P v \<and> b = package_valid p v)"
    by (rule triple_tells [OF tells_staged_package_valid])
  have roll: "finishes (\<lambda>v. ?P v \<and> b = package_valid p v) (cfw_roll x y z p) (cfw_ok K orig n3)" for x y z b
    by (rule finishes_weaken [OF finishes_roll [OF K]]) simp_all
  have give_up: "finishes (\<lambda>v. ?P v \<and> False = package_valid p v) (fail_before_changes p) (cfw_ok K orig n3)"
    if "s = STATE_STAGED"
    by (rule finishes_weaken [OF triple_give_up [OF K]]) (use that p in \<open>auto intro: inv_untouched [OF K]\<close>)
  have F: "apart cfw_state_k (package_valid p)" "apart cfw_tmp_k (package_valid p)"
    "apart_new [''aio-mod-update''] (package_valid p)"
    by (auto intro!: apart_package_valid apart_new_root simp: package_valid_def cfw_keys)
  have K': "K \<subseteq> set managed_paths" using K by (simp add: protects_def)
  have start: "finishes (\<lambda>v. e = FR_OK \<and> package_valid p v \<and> cfw_inv K orig n3 v \<and> cfw_entry v = Some STATE_BACKUP_IN_PROGRESS)
      (cfw_run_backup (Some STATE_BACKUP_IN_PROGRESS) p) (cfw_ok K orig n3)" for e
    by (rule finishes_weaken [OF finishes_run_backup_move [OF K]]) (simp_all add: backingI p)
  have journal: "triple True (\<lambda>h. cfw_inv K orig n3) (\<lambda>v. ?P v \<and> True = package_valid p v)
      (cfw_write_state STATE_BACKUP_IN_PROGRESS)
      (\<lambda>e v. e = FR_OK \<and> package_valid p v \<and> cfw_inv K orig n3 v \<and> cfw_entry v = Some STATE_BACKUP_IN_PROGRESS)"
    by (rule triple_weaken [OF triple_cfw_state [OF K' entry_ok_states(2) F]])
      (auto simp: entry_true_simps early_def states_distinct cfw_entry_def)
  have stop: "keeps False (\<lambda>_. True) (do { cfw_ui_set_error a b; fail_before_changes p })" for a b
    by (intro keeps_bind keeps_quiet keeps_give_up) simp
  have valid_case: "finishes (\<lambda>v. ?P v \<and> True = package_valid p v)
      (if s = STATE_STAGED then do {
         res \<leftarrow> cfw_write_state STATE_BACKUP_IN_PROGRESS;
         if res \<noteq> FR_OK then do {
           cfw_ui_set_error ''JOURNAL-BACKUP'' FR_DISK_ERR;
           fail_before_changes p
         }
         else cfw_run_backup (Some STATE_BACKUP_IN_PROGRESS) p
       }
       else cfw_run_backup (Some s) p) (cfw_ok K orig n3)"
    apply (rule finishes_if)
     apply (rule finishes_bind [OF journal], erule inv_ok)
     apply (rule finishes_if)
      apply (rule finishes_absurd [OF stop], simp)
     apply (rule start)
    apply (rule finishes_weaken [OF finishes_run_backup [OF K p, of s]])
      apply (use s in simp_all)
    done
  have invalid_case: "finishes (\<lambda>v. ?P v \<and> False = package_valid p v)
      (if s = STATE_STAGED then do { cfw_ui_set_error a b; fail_before_changes p }
       else cfw_roll x y z p) (cfw_ok K orig n3)" for a b x y z
    apply (rule finishes_if)
     apply (rule finishes_bind_quiet, simp, rule give_up, assumption, simp add: inv_ok)
    apply (rule roll)
    done
  show ?thesis
    unfolding cfw_run_staged_def state_is_def option.inject
    apply (rule finishes_bind_quiet, simp)
     apply (rule finishes_bind [OF valid], simp add: inv_ok)
     apply (rule finishes_if)
      apply (rule finishes_bind_quiet, simp)
       apply (rule finishes_weaken [OF invalid_case], simp, assumption)
      apply (simp add: inv_ok)
     apply (rule finishes_bind_quiet, simp)
      apply (rule finishes_weaken [OF valid_case], simp, assumption)
     apply (simp add: inv_ok)
    apply (simp add: inv_ok)
    done
qed

section \<open>The whole run\<close>

lemma finishes_commit_resume:
  "finishes (resuming n3) (cfw_run_commit p) (cfw_ok K orig n3)"
  by (rule finishes_run_commit, rule triple_weaken [OF triple_write_resume]) (auto simp: cfw_ok_def)

lemma finishes_commit_inv:
  assumes "K \<subseteq> set managed_paths"
  shows "finishes (\<lambda>v. cfw_inv K orig n3 v \<and> cfw_entry v = Some STATE_COMMIT_IN_PROGRESS) (cfw_run_commit p) (cfw_ok K orig n3)"
proof (rule finishes_weaken [OF finishes_run_commit [OF triple_write_commit [OF assms, of orig n3]]])
  have "STATE_COMMIT_IN_PROGRESS \<noteq> STATE_STAGED" by (simp add: cfw_state_defs)
  then show "cfw_inv K orig n3 v \<and> saved K v \<and> installed n3 v \<and> cfw_entry v \<noteq> Some STATE_STAGED"
    if "cfw_inv K orig n3 v \<and> cfw_entry v = Some STATE_COMMIT_IN_PROGRESS" for v
    using that by (auto simp: cfw_inv_def entry_true_simps)
qed

lemma finishes_resume_rollback:
  assumes K: "protects p K orig"
  shows "finishes (cfw_inv K orig n3)
    (do {
       cfw_ui_set_error ''ROLLBACK-RESUME'' 0;
       res \<leftarrow> cfw_rollback_transaction p;
       if res = FR_OK then do {
         WPRINTF (''Previous CFW restored successfully.'' @ [CHR 0x0A]) [];
         boot_previous_after_rollback p
       }
       else cfw_ui_fatal_wait_poweroff ''ROLLBACK'' res
              ''The previous CFW could not be restored. The backup was NOT deleted.''
     }) (cfw_ok K orig n3)"
proof -
  have tail: "keeps False (cfw_inv K orig n3) (if res = FR_OK then do {
         WPRINTF (''Previous CFW restored successfully.'' @ [CHR 0x0A]) [];
         boot_previous_after_rollback p
       }
       else cfw_ui_fatal_wait_poweroff ''ROLLBACK'' res
              ''The previous CFW could not be restored. The backup was NOT deleted.'')" for res
    by (intro keeps_if keeps_bind keeps_cfw_boot keeps_quiet keeps_offline) simp_all
  show ?thesis
    apply (rule finishes_bind_quiet, simp)
     apply (rule finishes_bind [OF triple_rollback_transaction [OF K]], erule inv_ok)
     apply (rule finishes_weaken [OF finishes_keeps [OF tail]], simp, erule inv_ok)
    apply (erule inv_ok)
    done
qed

lemma finishes_dispatch:
  assumes K: "protects p K orig" and p: "fst n3 = p"
  shows "finishes (\<lambda>v. cfw_inv K orig n3 v \<and> cfw_entry v = Some s) (cfw_run_dispatch (Some s) p) (cfw_ok K orig n3)"
proof -
  have K': "K \<subseteq> set managed_paths" using K by (simp add: protects_def)
  let ?P = "\<lambda>v. cfw_inv K orig n3 v \<and> cfw_entry v = Some s"
  have ok: "cfw_ok K orig n3 v" if "?P v" for v using that by (simp add: inv_ok)
  have commit: "finishes ?P (do {
       WPRINTF t a;
       cfw_ui_draw_progress x y z;
       cfw_run_commit p
     }) (cfw_ok K orig n3)" if "s = STATE_COMMIT_IN_PROGRESS \<or> s = STATE_PENDING_BOOT" for t a x y z
  proof -
    have "cfw_entry v \<noteq> Some STATE_PENDING_BOOT" if "cfw_inv K orig n3 v" for v
      using entry_cases [OF that, of STATE_PENDING_BOOT] by (auto simp: cfw_state_defs)
    with that have "finishes ?P (cfw_run_commit p) (cfw_ok K orig n3)"
      by (intro finishes_weaken [OF finishes_commit_inv [OF K', of orig n3]]) auto
    then show ?thesis by (intro finishes_bind_quiet) (simp_all add: ok)
  qed
  show ?thesis
    unfolding cfw_run_dispatch_def state_is_def option.inject
    apply (rule finishes_if, rule commit, simp)
    apply (rule finishes_if, rule commit, simp)
    apply (rule finishes_if, rule finishes_weaken [OF finishes_resume_rollback [OF K, of n3]], simp, assumption)
    apply (rule finishes_run_staged [OF K p], simp)
    done
qed

lemma finishes_run_inv:
  assumes K: "protects p K orig" and p: "fst n3 = p"
  shows "finishes (cfw_inv K orig n3) (aio_cfw_update_run p) (cfw_ok K orig n3)"
proof -
  have K': "K \<subseteq> set managed_paths" using K by (simp add: protects_def)
  let ?I = "cfw_inv K orig n3"
  let ?P = "\<lambda>j v. ?I v \<and> j = cfw_entry v"
  have read: "triple True (\<lambda>h. ?I) ?I (cfw_read_state 64) ?P"
    by (rule triple_tells [OF tells_cfw_read_state])
  have ready: "triple True (\<lambda>h. ?I) (?P j) (if j = None then path_exists UPDATE_READY else State_Monad.return False) (\<lambda>_. ?P j)" for j
    by (rule triple_if; rule triple_weaken [OF triple_kept [OF keeps_path_exists, where P = "?P j" and C = "\<lambda>h. ?I"]] triple_return) auto
  have stage: "triple True (\<lambda>h. ?I) (?P None) (cfw_write_state STATE_STAGED) (\<lambda>e v. e = FR_OK \<and> ?P (Some STATE_STAGED) v)"
  proof -
    have none: "read_line cfw_state_k v = None" if "cfw_entry v = None" for v
      using that by (cases "read_line cfw_state_k v") (simp_all add: cfw_entry_def)
    show ?thesis
      by (rule triple_weaken [OF triple_cfw_state [OF K' entry_ok_states(1), where F = "\<lambda>_. True"]])
        (use none in \<open>auto simp: entry_true_def early_def cfw_entry_def [of \<open>_ :: node\<close>]\<close>)
  qed
  have dispatch: "finishes (?P (Some s)) (cfw_run_dispatch (Some s) p) (cfw_ok K orig n3)" for s
    by (rule finishes_weaken [OF finishes_dispatch [OF K p]]) simp_all
  have stop: "keeps False (\<lambda>_. True) (do { cfw_ui_set_error a b; fail_before_changes p })" for a b
    by (intro keeps_bind keeps_quiet keeps_give_up) simp
  have backup: "triple True (\<lambda>h. ?I) (?P None) (path_exists UPDATE_BACKUP) (\<lambda>_. ?I)"
    by (rule triple_weaken [OF triple_keeps [OF keeps_path_exists]]) auto
  show ?thesis
    unfolding aio_cfw_update_run_def cfw_run_from_def
    apply (rule finishes_bind_quiet, simp)
     apply (rule finishes_bind [OF read], erule inv_ok)
    subgoal for _ j
      apply (rule finishes_bind [OF ready], erule inv_ok)
      apply (cases j)
       apply (simp only: simp_thms)
       apply (rule finishes_if)
        apply (rule finishes_bind [OF stage], erule inv_ok)
        apply (rule finishes_if)
         apply (rule finishes_absurd [OF stop], simp)
        apply (rule finishes_weaken [OF dispatch], simp, assumption)
       apply (simp only: simp_thms if_True)
       apply (rule finishes_bind [OF backup], erule inv_ok)
       apply (rule finishes_if, rule finishes_roll [OF K])
       apply (rule finishes_weaken [OF finishes_keeps [OF keeps_offline, where Q = ?I]], simp, assumption, erule inv_ok)
      apply (simp only: option.distinct simp_thms if_False)
      apply (rule dispatch)
      done
    apply (erule inv_ok)
    done
qed

end
