(* ===== verification/Cfw_Spares.thy ===== *)
theory Cfw_Spares
  imports Cfw_Run
begin

text \<open>
  What the firmware updater never touches, whatever faults occur.
\<close>

section \<open>What the firmware updater never touches\<close>

text \<open>
  \<open>spares P m\<close>: under any faults, \<open>m\<close> preserves the statement \<open>P\<close> of the card at every point where
  the machine may stop.
\<close>

definition spares :: "(node \<Rightarrow> bool) \<Rightarrow> 'a prog \<Rightarrow> bool" where
  "spares P m = triple False (\<lambda>h. P) P m (\<lambda>_. P)"

lemma spares_bind: "spares P m \<Longrightarrow> (\<And>a. spares P (f a)) \<Longrightarrow> spares P (State_Monad.bind m f)"
  unfolding spares_def by (rule triple_bind)

lemma spares_if: "(b \<Longrightarrow> spares P m) \<Longrightarrow> (\<not> b \<Longrightarrow> spares P n) \<Longrightarrow> spares P (if b then m else n)"
  by simp

lemma spares_return: "spares P (State_Monad.return a)"
  by (simp add: spares_def triple_return)

lemma spares_keeps: "keeps False P m \<Longrightarrow> spares P m"
  unfolding spares_def by (rule triple_keeps)

lemma spares_offline: "offline m \<Longrightarrow> spares P m"
  by (intro spares_keeps keeps_offline)

lemma spares_quiet: "quiet m \<Longrightarrow> spares P m"
  by (intro spares_keeps keeps_quiet)

lemma spares_for_ok: "(\<And>x. x \<in> set xs \<Longrightarrow> spares P (body x)) \<Longrightarrow> spares P (for_ok body xs)"
  unfolding spares_def by (rule triple_for_ok)

lemma spares_remove: "path_keys s \<noteq> [] \<Longrightarrow> falls (path_keys s) P \<Longrightarrow> spares P (remove_path_silent s)"
  unfolding spares_def by (rule triple_post [OF triple_remove_path_silent [OF refl]]) simp_all

lemma spares_unlink: "falls (path_keys s) P \<Longrightarrow> spares P (f_unlink s)"
  unfolding spares_def by (rule triple_post [OF triple_f_unlink [OF refl]]) simp_all

lemma spares_with_mute: "spares P m \<Longrightarrow> spares P (with_mute m)"
  unfolding spares_def by (rule with_mute_triple)

lemma spares_ui:
  "spares P (cfw_ui_draw_progress t n d)" "spares P (cfw_ui_set_error a c)" "spares P (EPRINTF f xs)"
  "spares P (WPRINTF f xs)" "spares P (cfw_upd g)" "spares P (power_set_state ps)"
  "spares P (cfw_ui_fatal_wait_poweroff a c m)" "spares P cfw_ui_unchanged_wait"
  by (simp_all add: spares_quiet spares_offline)

lemmas spares_rules = spares_bind spares_if spares_return spares_for_ok spares_with_mute spares_ui spares_keeps [OF keeps_path_exists]
  spares_keeps [OF keeps_cfw_reads(1)] spares_keeps [OF keeps_cfw_reads(2)] spares_keeps [OF keeps_cfw_reads(3)]
  spares_keeps [OF keeps_installed_core_valid] spares_keeps [OF keeps_cfw_boot(1)] spares_keeps [OF keeps_cfw_boot(2)]
  spares_keeps [OF keeps_cfw_boot(3)]

text \<open>A top-level path that neither the updater nor the package knows.\<close>

definition foreign :: "string \<Rightarrow> bool" where
  "foreign x = (x \<notin> set managed_paths \<and> x \<noteq> ''payload.bin.aio'' \<and> x \<noteq> ''aio-mod-update'')"

definition bystander :: "string \<Rightarrow> node option \<Rightarrow> node \<Rightarrow> bool" where
  "bystander x y v = (get_at [x] v = y \<and> get_at (new_k [x]) v = None \<and>
     get_at (new_k [''aio-mod-update'']) v = None)"

lemma apart_bystander [simp]:
  "foreign x \<Longrightarrow> n \<noteq> x \<Longrightarrow> n \<noteq> ''aio-mod-update'' \<Longrightarrow> apart [n] (bystander x y)"
  "foreign x \<Longrightarrow> z \<noteq> ''new'' \<Longrightarrow> apart (''aio-mod-update'' # z # r) (bystander x y)"
  unfolding bystander_def by (intro apart_rules; auto simp: cfw_keys foreign_def)+

lemma falls_bystander [simp]: "foreign x \<Longrightarrow> falls (''aio-mod-update'' # r) (bystander x y)"
  unfolding bystander_def
  by (intro falls_conjI falls_None falls_apart [OF apart_eqI [OF apart_get_at]]) (auto simp: foreign_def)

lemma apart_new_bystander [simp]: "foreign x \<Longrightarrow> apart_new [''aio-mod-update''] (bystander x y)"
  by (rule apart_new_root) (simp add: bystander_def cfw_keys foreign_def)

lemma managed_foreign [simp]: "foreign x \<Longrightarrow> n \<in> set managed_paths \<Longrightarrow> n \<noteq> x"
  "foreign x \<Longrightarrow> ''payload.bin'' \<noteq> x" "foreign x \<Longrightarrow> ''Next'' \<noteq> x" "foreign x \<Longrightarrow> ''payload.bin.aio'' \<noteq> x"
  by (auto simp: foreign_def managed_paths_def)

lemma spares_root_remove:
  "foreign x \<Longrightarrow> n \<in> set managed_paths \<Longrightarrow> spares (bystander x y) (remove_path_silent (root_path n))"
  by (intro spares_remove) (simp_all add: path_keys_root_path good_managed falls_apart)

lemma spares_create_marker: "foreign x \<Longrightarrow> spares (bystander x y) (create_absent_marker i)"
  by (intro spares_keeps keeps_create_absent_marker) (simp add: marker_k_def)

lemma spares_write_state: "foreign x \<Longrightarrow> spares (bystander x y) (cfw_write_state s)"
  by (intro spares_keeps keeps_cfw_write_state) (simp_all add: cfw_keys)

lemma spares_move_one:
  "foreign x \<Longrightarrow> n \<in> set managed_paths \<Longrightarrow> spares (bystander x y) (move_one_to_backup p (i, n))"
  unfolding move_one_to_backup_def prod.case Let_def
  by (intro spares_rules spares_create_marker spares_keeps [OF keeps_f_rename])
    (simp_all add: path_keys_backup_src path_keys_backup_dst good_managed cfw_keys(1))

lemma enumerate_managed: "z \<in> set (List.enumerate 0 managed_paths) \<Longrightarrow> snd z \<in> set managed_paths"
proof -
  assume "z \<in> set (List.enumerate 0 managed_paths)"
  then have "snd z \<in> set (map snd (List.enumerate 0 managed_paths))" by (simp only: set_map image_eqI)
  then show ?thesis by simp
qed

lemma spares_move_managed: "foreign x \<Longrightarrow> spares (bystander x y) (move_managed_to_backup p)"
proof -
  assume x: "foreign x"
  then have "spares (bystander x y) (move_one_to_backup p z)" if "z \<in> set (List.enumerate 0 managed_paths)" for z
    using spares_move_one [OF x, of "snd z" y p "fst z"] enumerate_managed [OF that] by simp
  with x show ?thesis
    unfolding move_managed_to_backup_def
    by (intro spares_rules spares_keeps [OF keeps_mkdir_if_needed]) (simp_all add: cfw_paths apart_new_apart)
qed

lemma spares_rollback_loop:
  "foreign x \<Longrightarrow> snd ` set zs \<subseteq> set managed_paths \<Longrightarrow> spares (bystander x y) (rollback_loop res zs)"
proof (induction zs arbitrary: res)
  case (Cons z zs)
  obtain i name where z: "z = (i, name)" by (cases z)
  from Cons.prems have name: "name \<in> set managed_paths" "snd ` set zs \<subseteq> set managed_paths" by (simp_all add: z)
  note IH = Cons.IH [OF Cons.prems(1) name(2)]
  have "apart (path_keys (absent_marker_path k)) (bystander x y)" for k
    using Cons.prems(1) by (simp add: path_keys_marker marker_k_def)
  then show ?case
    unfolding z rollback_loop.simps Let_def
    by (intro spares_rules spares_root_remove spares_keeps [OF keeps_f_unlink] IH Cons.prems(1) name(1))
qed (simp add: spares_return)

lemma spares_restore_loop:
  "foreign x \<Longrightarrow> set names \<subseteq> set managed_paths \<Longrightarrow> spares (bystander x y) (restore_loop res names)"
proof (induction names arbitrary: res)
  case (Cons name names)
  then have name: "name \<in> set managed_paths" "set names \<subseteq> set managed_paths" by simp_all
  note IH = Cons.IH [OF Cons.prems(1) name(2)]
  have "apart (path_keys (backup_dst name)) (bystander x y)" "apart (path_keys (root_path name)) (bystander x y)"
    using Cons.prems(1) name by (simp_all add: path_keys_backup_dst path_keys_root_path good_managed backup_k_def)
  then show ?case
    unfolding restore_loop.simps Let_def
    by (intro spares_rules spares_root_remove spares_keeps [OF keeps_f_rename] IH Cons.prems(1) name(1))
qed (simp add: spares_return)

lemma bystander_paths:
  assumes "foreign x"
  shows "apart (path_keys ''sd:/payload.bin'') (bystander x y)" "apart (path_keys MARIKO_PAYLOAD_FALLBACK) (bystander x y)"
    "apart (path_keys UPDATE_PAYLOAD_NEXT) (bystander x y)" "apart (path_keys UPDATE_UPDATER_SAVED) (bystander x y)"
    "falls (path_keys ''sd:/payload.bin'') (bystander x y)" "falls (path_keys MARIKO_PAYLOAD_FALLBACK) (bystander x y)"
    "falls (path_keys ''sd:/Next'') (bystander x y)"
    "falls (path_keys UPDATE_PAYLOAD_NEXT) (bystander x y)" "falls (path_keys UPDATE_UPDATER_SAVED) (bystander x y)"
    "falls (path_keys UPDATE_ROOT) (bystander x y)" "apart_new (path_keys UPDATE_ROOT) (bystander x y)"
  using assms by (simp_all add: cfw_paths falls_apart)

lemmas cfw_nonempty = list.distinct(2)

lemma spares_rollback: "foreign x \<Longrightarrow> spares (bystander x y) (cfw_rollback_transaction p)"
  unfolding cfw_rollback_transaction_def rollback_body_def restore_backup_def
  by (intro spares_rules spares_write_state spares_rollback_loop spares_restore_loop spares_remove
      spares_keeps [OF keeps_f_rename] bystander_paths subset_refl)
    (simp_all add: cfw_paths image_subset_iff enumerate_managed)

lemma spares_commit: "foreign x \<Longrightarrow> spares (bystander x y) cfw_commit_transaction"
proof -
  assume x: "foreign x"
  have "path_keys s \<noteq> [] \<and> falls (path_keys s) (bystander x y)" if "s \<in> set commit_paths" for s
    using that bystander_paths [OF x] x by (auto simp: commit_paths_def cfw_paths cfw_keys)
  with x show ?thesis
    unfolding cfw_commit_transaction_def
    by (intro spares_rules spares_write_state spares_remove spares_unlink) (simp_all add: cfw_paths)
qed

lemma spares_roll: "foreign x \<Longrightarrow> spares (bystander x y) (cfw_roll a c m p)"
  unfolding cfw_roll_def by (intro spares_rules spares_rollback)

lemma spares_run_commit: "foreign x \<Longrightarrow> spares (bystander x y) (cfw_run_commit p)"
  unfolding cfw_run_commit_def by (intro spares_rules spares_commit)

lemma spares_finalize: "foreign x \<Longrightarrow> spares (bystander x y) finalize_patched_payload"
  by (intro spares_keeps keeps_finalize) simp_all

lemma spares_give_up: "foreign x \<Longrightarrow> spares (bystander x y) (fail_before_changes p)"
  unfolding fail_before_changes_def
  by (intro spares_rules spares_remove spares_keeps [OF keeps_f_rename] bystander_paths) (simp_all add: cfw_paths)

lemma spares_copy_staged_root: "foreign x \<Longrightarrow> spares (bystander x y) (copy_staged_root p)"
  unfolding spares_def
  by (rule triple_copy_staged_names, rule apart_bystander(1)) (auto simp: bystander_def)

lemma spares_run_payload: "foreign x \<Longrightarrow> spares (bystander x y) (cfw_run_payload s p)"
  unfolding cfw_run_payload_def cfw_run_finalize_def cfw_run_final_def
  by (intro spares_rules spares_write_state spares_roll spares_run_commit spares_finalize)

lemma spares_run_backup: "foreign x \<Longrightarrow> spares (bystander x y) (cfw_run_backup s p)"
  unfolding cfw_run_backup_def cfw_run_backed_up_def cfw_run_copy_def cfw_run_copied_def
  by (intro spares_rules spares_write_state spares_roll spares_move_managed spares_copy_staged_root spares_run_payload
      spares_remove bystander_paths) (simp_all add: cfw_paths)

lemma spares_run_dispatch: "foreign x \<Longrightarrow> spares (bystander x y) (cfw_run_dispatch s p)"
  unfolding cfw_run_dispatch_def cfw_run_staged_def
  by (intro spares_rules spares_write_state spares_roll spares_rollback spares_run_backup spares_run_commit spares_give_up)

lemma spares_run_from: "foreign x \<Longrightarrow> spares (bystander x y) (cfw_run_from s p)"
  unfolding cfw_run_from_def
  by (intro spares_rules spares_write_state spares_roll spares_run_dispatch spares_give_up)

lemma spares_cfw_run: "foreign x \<Longrightarrow> spares (bystander x y) (aio_cfw_update_run p)"
  unfolding aio_cfw_update_run_def by (intro spares_rules spares_run_from)

end
