(* ===== verification/Cfw_Boots.thy ===== *)
theory Cfw_Boots
  imports Cfw_Spares
begin

text \<open>
  Sequences of boots: the guarantee of one run carries over to the next, from a prepared card on.
\<close>

section \<open>Any number of boots\<close>

text \<open>
  The commit was begun, but its entry is only in \<^verbatim>\<open>state.tmp\<close>, which the next \<^verbatim>\<open>write_state\<close>
  deletes first.
\<close>

definition fragile :: "node \<Rightarrow> bool" where
  "fragile v = (read_line cfw_state_k v = None \<and> cfw_entry v = Some STATE_COMMIT_IN_PROGRESS)"

definition finished :: "node \<Rightarrow> bool" where
  "finished v = (cfw_entry v = None \<and> get_at [''aio-mod-update'', ''ready''] v = None \<and>
     get_at [''aio-mod-update'', ''backup''] v = None)"

lemma ok_cases:
  assumes "cfw_ok K orig n3 v" and "\<not> fragile v"
  obtains "cfw_inv K orig n3 v" | "resuming n3 v" | "installed n3 v \<and> finished v"
proof -
  have "read_line cfw_state_k v = Some STATE_COMMIT_IN_PROGRESS" if "cfw_entry v = Some STATE_COMMIT_IN_PROGRESS"
    using that assms(2) by (cases "read_line cfw_state_k v") (auto simp: cfw_entry_def fragile_def)
  with assms that show thesis by (auto simp: cfw_ok_def cfw_committed_def resuming_def finished_def)
qed


lemma finishes_never:
  assumes "\<And>v. \<not> P v" and "spares R m"
  shows "finishes P m Q"
  using triple_stopped [OF assms(2) [unfolded spares_def]] assms(1) by (auto simp: finishes_def)

lemma finishes_fact:
  assumes "A \<Longrightarrow> finishes P m Q" and "spares R m"
  shows "finishes (\<lambda>v. A \<and> P v) m Q"
  by (cases A) (use assms finishes_never [OF _ assms(2)] in simp_all)

lemma foreign_switch: "foreign ''switch''"
  by (simp add: foreign_def managed_paths_def)

lemma finishes_run_resume: "finishes (resuming n3) (aio_cfw_update_run p) (cfw_ok K orig n3)"
proof -
  let ?P = "resuming n3"
  have entry: "cfw_entry v = Some STATE_COMMIT_IN_PROGRESS" if "?P v" for v
    using that by (simp add: resuming_def cfw_entry_def)
  have ok: "cfw_ok K orig n3 v" if "?P v" for v
    using that entry [OF that] by (simp add: cfw_ok_def cfw_committed_def resuming_def)
  have read: "triple True (\<lambda>h. ?P) ?P (cfw_read_state 64) (\<lambda>j v. ?P v \<and> j = cfw_entry v)"
    by (rule triple_tells [OF tells_cfw_read_state])
  have commit: "finishes ?P (cfw_run_dispatch (Some STATE_COMMIT_IN_PROGRESS) p) (cfw_ok K orig n3)"
    unfolding cfw_run_dispatch_def state_is_def simp_thms if_True
    by (intro finishes_bind_quiet finishes_commit_resume) (simp_all add: ok)
  have tail: "finishes (\<lambda>v. ?P v \<and> j = cfw_entry v) (cfw_run_from j p) (cfw_ok K orig n3)" for j
  proof (cases "j = Some STATE_COMMIT_IN_PROGRESS")
    case True
    then have run: "cfw_run_from j p = cfw_run_dispatch (Some STATE_COMMIT_IN_PROGRESS) p"
      by (simp add: cfw_run_from_def)
    show ?thesis
      unfolding run by (rule finishes_weaken [OF commit]) simp_all
  next
    case False
    then show ?thesis
      by (intro finishes_never [OF _ spares_run_from [OF foreign_switch]]) (use entry in auto)
  qed
  show ?thesis
    unfolding aio_cfw_update_run_def
    apply (rule finishes_bind_quiet, simp)
     apply (rule finishes_bind [OF read], erule ok)
     apply (rule tail)
    apply (erule ok)
    done
qed

lemma finishes_run_finished:
  "finishes (\<lambda>v. installed n3 v \<and> finished v) (aio_cfw_update_run p) (\<lambda>v. installed n3 v \<and> finished v)"
proof -
  let ?P = "\<lambda>v. installed n3 v \<and> finished v"
  note tell = triple_tells [where P = ?P and C = "\<lambda>h. ?P"]
  have read: "triple True (\<lambda>h. ?P) ?P (cfw_read_state 64) (\<lambda>j v. j = None \<and> ?P v)"
    by (rule triple_post [OF tell [OF tells_cfw_read_state]]) (auto simp: finished_def)
  have paths: "triple True (\<lambda>h. ?P) ?P (path_exists UPDATE_READY) (\<lambda>b v. \<not> b \<and> ?P v)"
    "triple True (\<lambda>h. ?P) ?P (path_exists UPDATE_BACKUP) (\<lambda>b v. \<not> b \<and> ?P v)"
    by (rule triple_post [OF tell [OF tells_path_exists]]; auto simp: finished_def cfw_paths)+
  note any = foreign_switch [THEN spares_run_from] foreign_switch [THEN spares_write_state]
    foreign_switch [THEN spares_give_up] foreign_switch [THEN spares_run_dispatch] foreign_switch [THEN spares_roll]
  have fatal: "finishes ?P (cfw_ui_fatal_wait_poweroff a c m) ?P" for a c m
    by (rule finishes_keeps [OF keeps_offline]) simp
  have backup: "finishes ?P (do {
       backup \<leftarrow> path_exists UPDATE_BACKUP;
       if backup then cfw_roll ''JOURNAL'' FR_INVALID_OBJECT
         ''Recovery could not be completed. The backup was preserved.'' p
       else cfw_ui_fatal_wait_poweroff ''STATE'' 1 ''No valid pending CFW update was found.''
     }) ?P"
    apply (rule finishes_bind [OF paths(2)], assumption)
    apply (rule finishes_fact [where R = "bystander ''switch'' None"])
     apply (simp only: if_False, rule fatal)
    apply (intro spares_rules any)
    done
  have tail: "finishes ?P (cfw_run_from None p) ?P"
    unfolding cfw_run_from_def simp_thms if_True
    apply (rule finishes_bind [OF paths(1)], assumption)
    apply (rule finishes_fact [where R = "bystander ''switch'' None"])
     apply (simp only: if_False, rule backup)
    apply (intro spares_rules any)
    done
  show ?thesis
    unfolding aio_cfw_update_run_def
    apply (rule finishes_bind_quiet, simp)
     apply (rule finishes_bind [OF read], assumption)
     apply (rule finishes_fact [OF _ any(1)], simp only: , rule tail)
    apply assumption
    done
qed

lemma finishes_run:
  assumes K: "protects p K orig" and p: "fst n3 = p"
  shows "finishes (\<lambda>v. cfw_ok K orig n3 v \<and> \<not> fragile v) (aio_cfw_update_run p) (cfw_ok K orig n3)"
proof -
  have ok: "cfw_ok K orig n3 v" if "installed n3 v \<and> finished v" for v
    using that by (simp add: cfw_ok_def cfw_committed_def finished_def)
  note r = finishes_run_inv [OF K p] finishes_run_resume [of n3 p K orig] finishes_run_finished [of n3 p]
  show ?thesis
    unfolding finishes_def
  proof (intro allI impI)
    fix w :: world
    let ?w = "snd (run_state (aio_cfw_update_run p) w)"
    assume wf: "wf_node (vol w)"
    have "wf_node (vol ?w) \<and> cfw_ok K orig n3 (vol ?w)"
      if "running w" "steady w" "cfw_ok K orig n3 (vol w) \<and> \<not> fragile (vol w)"
    proof (rule ok_cases [OF conjunct1 [OF that(3)] conjunct2 [OF that(3)]])
      assume "installed n3 (vol w) \<and> finished (vol w)"
      with finishesD [OF r(3) wf that(1,2)] ok show ?thesis by blast
    qed (use finishesD [OF r(1) wf that(1,2)] finishesD [OF r(2) wf that(1,2)] in blast)+
    moreover have "?w = w" if "\<not> running w"
      using r(1) wf that by (simp add: finishes_def)
    ultimately show "if running w
      then steady w \<and> cfw_ok K orig n3 (vol w) \<and> \<not> fragile (vol w) \<longrightarrow> wf_node (vol ?w) \<and> cfw_ok K orig n3 (vol ?w)
      else ?w = w" by simp
  qed
qed

text \<open>
  Boots of the console: each starts the updater on a steady machine, and stops somewhere. The
  next boot finds the card as it was left.
\<close>

inductive cfw_boots :: "bool \<Rightarrow> node \<Rightarrow> node \<Rightarrow> bool" for p v where
  none: "cfw_boots p v v"
| boot: "cfw_boots p v (vol w) \<Longrightarrow> running w \<Longrightarrow> steady w \<Longrightarrow> \<not> fragile (vol w) \<Longrightarrow>
    cfw_boots p v (vol (snd (run_state (aio_cfw_update_run p) w)))"

lemma boots_ok:
  assumes "cfw_boots p v v'" and "protects p K orig" and "fst n3 = p" and "wf_node v" and "cfw_ok K orig n3 v"
  shows "wf_node v' \<and> cfw_ok K orig n3 v'"
  using assms(1)
proof (induction rule: cfw_boots.induct)
  case (boot w)
  with finishesD [OF finishes_run [OF assms(2,3)], of w] show ?case by simp
qed (use assms in simp)

section \<open>A prepared card\<close>

text \<open>
  A card on which an update was prepared: the package is there, nothing was moved yet, and the
  first \<open>f\<close> managed paths exist.
\<close>

definition prepared :: "bool \<Rightarrow> nat \<Rightarrow> nat \<Rightarrow> node \<Rightarrow> bool" where
  "prepared p f n v = (wf_node v \<and> journal_fit v \<and> pack_ok (p, n) v \<and> 1 \<le> f \<and>
     (\<forall>m \<in> guarded p f. get_at [m] v \<noteq> None) \<and> get_at [''aio-mod-update'', ''backup''] v = None \<and>
     get_at cfw_state_k v = None \<and> get_at cfw_tmp_k v = None)"

lemma guarded_protects:
  assumes "prepared p f n v"
  shows "protects p (guarded p f) (\<lambda>m. held [m] v)"
proof -
  obtain g where f: "f = Suc g" using assms by (cases f) (auto simp: prepared_def)
  have last: "managed_paths = butlast managed_paths @ [''payload.bin'']" "''payload.bin'' \<notin> set (butlast managed_paths)"
    by (simp_all add: managed_paths_def)
  have "guarded p f \<subseteq> set ys" if split: "managed_paths = ys @ m # zs" and m: "m \<notin> guarded p f" for ys m zs
  proof (cases "length ys < f")
    case True
    then have "m \<in> set (take f managed_paths)" by (simp add: split take_Cons')
    with m have payload: "p" "m = ''payload.bin''" by (auto simp: guarded_def)
    have "zs = []"
    proof (cases zs rule: rev_cases)
      case (snoc xs x)
      with split have "managed_paths = (ys @ m # xs) @ [x]" by simp
      then have "butlast managed_paths = ys @ m # xs" by (metis butlast_snoc)
      with last(2) payload show ?thesis by simp
    qed
    then have "x \<in> insert m (set ys)" if "x \<in> set managed_paths" for x
      using that unfolding split by auto
    with payload show ?thesis by (auto simp: guarded_def dest!: in_set_takeD)
  next
    case False
    then show ?thesis by (auto simp: guarded_def split dest: in_set_takeD)
  qed
  moreover have "guarded p f \<subseteq> set managed_paths" by (auto simp: guarded_def dest: in_set_takeD)
  moreover have "''atmosphere'' \<in> guarded p f" by (simp add: f guarded_def managed_paths_def)
  ultimately show ?thesis
    using assms unfolding protects_def by (auto simp: prepared_def held_def guarded_def)
qed

lemma prepared_inv: "prepared p f n v \<Longrightarrow> cfw_inv (guarded p f) (\<lambda>m. held [m] v) (p, n) v"
proof -
  assume v: "prepared p f n v"
  have un: "get_at (backup_k m) v = None" "get_at marker_k v = None" for m
  proof -
    have "get_at ([''aio-mod-update'', ''backup''] @ [m]) v = None" for m
      unfolding get_at_append using v by (simp add: prepared_def)
    then show "get_at (backup_k m) v = None" "get_at marker_k v = None" by (simp_all add: cfw_keys)
  qed
  have "read_line cfw_state_k v = None" "read_line cfw_tmp_k v = None" using v by (simp_all add: prepared_def)
  then have "cfw_entry v = None" "read_line cfw_state_k v = None" unfolding cfw_entry_def by simp_all
  with v un show ?thesis
    by (simp add: cfw_inv_def cfw_base_def safe_name_def marker_ok_def covered_def unbacked_def prepared_def
        entry_true_def early_def)
qed

end
