(* ===== verification/Examples.thy ===== *)
theory Examples
  imports App_Safety Cfw_Boots
begin

text \<open>
  Concrete machines for the witnesses: small cards with a prepared application update and a
  prepared firmware update, and the world around them.
\<close>

definition example_files :: "string \<Rightarrow> (string \<times> node) list" where
  "example_files c = [(''aio-switch-updater-mod'', Dir 0x10 [(''aio-switch-updater-mod.nro'', File 0x20 c)])]"

definition example_card :: node where
  "example_card = Dir 0x10
     [(''switch'', Dir 0x10 (example_files ''old'')),
      (''aio-mod-app-update'', Dir 0x10
         [(''ready'', File 0x20 ''1''), (''new'', Dir 0x10 [(''switch'', Dir 0x10 (example_files ''new!''))])])]"

definition example_ui :: ui_globals where
  "example_ui = \<lparr>g_last_error_stage = ''UNKNOWN'', g_last_error_code = 0, g_commit_warning_code = 0,
     g_ui_page = 0, g_copy_title = [], g_copy_detail = [], g_copy_base_percent = 0,
     g_copy_span_percent = 0\<rparr>"

definition example_world :: "node \<Rightarrow> fault list \<Rightarrow> world" where
  "example_world v e = \<lparr>vol = v, env = e, halted = None,
     con0 = gfx_con_init \<lparr>fntsz = 0, con_x = 0, con_y = 0, savedx = 0, savedy = 0, fgcol = 0,
       fillbg = False, bgcol = 0, mute = False, YLeftConfig = YLEFT, fb = []\<rparr>, screen = [],
     power_btn = [False, True, False], vol_btn = [], app = example_ui, cfw = example_ui,
     g_copy_progress_callback = None, g_copy_quiet = False, sd_mounted = True, sd_ok = True,
     FSBuffSize = 2, explorerCopyMode = 0, heap_avail = 10000\<rparr>"

lemma example_staged: "staged ''old'' ''new!'' example_card"
  by code_simp

definition example_cfw_card :: node where
  "example_cfw_card = Dir 0x10
     [(''atmosphere'', Dir 0x10 [(''package3'', File 0x20 ''old'')]),
      (''switch'', Dir 0x10 (example_files ''app'')),
      (''aio-mod-update'', Dir 0x10
         [(''ready'', File 0x20 ''1''),
          (''new'', Dir 0x10 [(''atmosphere'', Dir 0x10 [(''package3'', File 0x20 ''newer'')]), (''payload.bin'', File 0x20 ''p'')])])]"

lemma example_prepared: "prepared False 1 5 example_cfw_card"
proof -
  have "wf_node example_cfw_card" by code_simp
  moreover have "journal_fit example_cfw_card" by code_simp
  moreover have "guarded False 1 = {''atmosphere''}" by (auto simp: guarded_def managed_paths_def)
  ultimately show ?thesis
    by (simp add: prepared_def pack_ok_def file_at_def new_k_def cfw_state_k_def cfw_tmp_k_def example_cfw_card_def)
qed

lemma example_running: "running (example_world v e)"
  by (simp add: example_world_def)

lemma example_steady: "list_all (\<lambda>f. \<not> is_fail f) e \<Longrightarrow> steady (example_world v e)"
  by (simp add: steady_def example_world_def)

lemma example_vol [simp]: "vol (example_world v e) = v"
  by (simp add: example_world_def)

lemma example_not_fragile: "\<not> fragile example_cfw_card"
proof -
  have "cfw_entry example_cfw_card = None" by code_simp
  then show ?thesis by (simp add: fragile_def)
qed

lemma example_wf: "wf_node example_cfw_card" "wf_node example_card"
  by code_simp+

definition example_backing_card :: node where
  "example_backing_card = put_at [''aio-mod-update'', ''state''] (File 0x20 (STATE_BACKUP_IN_PROGRESS @ [CHR 0x0A])) example_cfw_card"

lemma example_backing: "backing {''atmosphere''} (\<lambda>m. held [m] example_cfw_card) (False, 5) example_backing_card"
proof -
  have c: "cfw_entry example_backing_card = Some STATE_BACKUP_IN_PROGRESS" "journal_fit example_backing_card"
    "read_line cfw_state_k example_backing_card = Some STATE_BACKUP_IN_PROGRESS"
    "package_valid False example_backing_card"
    "get_at (backup_k ''atmosphere'') example_backing_card = None" "get_at marker_k example_backing_card = None"
    "held [''atmosphere''] example_backing_card = held [''atmosphere''] example_cfw_card" by code_simp+
  have "pack_ok (False, 5) example_backing_card"
    by (simp add: pack_ok_def file_at_def new_k_def example_backing_card_def example_cfw_card_def)
  with c show ?thesis
    by (simp add: backing_def cfw_core_def entry_true_def early_def safe_name_def marker_ok_def covered_def
        unbacked_def cfw_state_defs)
qed

lemma example_protects: "protects False {''atmosphere''} (\<lambda>m. held [m] example_cfw_card)"
proof -
  have "guarded False 1 = {''atmosphere''}" by (auto simp: guarded_def managed_paths_def)
  then show ?thesis using guarded_protects [OF example_prepared] by simp
qed

definition example_state_card :: node where
  "example_state_card = put_at [''aio-mod-app-update'', ''state''] (File 0x20 (STATE_STAGED @ [CHR 0x0A])) example_card"

text \<open>A card with one file of one byte, and a verified copy of it, call by call.\<close>

definition tiny_card :: node where
  "tiny_card = Dir 0x10 [(''a'', File 0x20 ''x'')]"

definition tiny_copied :: node where
  "tiny_copied = Dir 0x10 [(''a'', File 0x20 ''x''), (''b'', File 0x20 ''x'')]"

definition tiny_world :: "node \<Rightarrow> world" where
  "tiny_world v = (example_world v [])\<lparr>FSBuffSize := 100, g_copy_quiet := True\<rparr>"

lemma tiny_evaluated:
  "run_state (valid_nonempty_file ''sd:/a'') (tiny_world tiny_card) = (True, tiny_world tiny_card)"
  "run_state (app_file_sizes_match ''sd:/a'' ''sd:/b'') (tiny_world tiny_copied) = (True, tiny_world tiny_copied)"
  "run_state (file_contents_match ''sd:/a'' ''sd:/b'') (tiny_world tiny_copied) = (True, tiny_world tiny_copied)"
  unfolding file_contents_match_def
  by (simp_all add: valid_nonempty_file_def nonempty_file_status_def app_file_sizes_match_def f_stat_def stat_act_def
      f_open_def open_read_act_def disk_def tiny_world_def example_world_def tiny_card_def tiny_copied_def path_keys_def
      after_drive_def ask_def f_size_def f_tell_def contents_loop.simps f_read_def read_act_def f_close_def f_sync_def
      commit_fil_def file_at_def follow_path_def no_fil_def)

lemma tiny_FileCopy:
  "run_state (FileCopy ''sd:/a'' ''sd:/b'' COPY_MODE_PRINT) (tiny_world tiny_card) = (FR_OK, tiny_world tiny_copied)"
  by code_simp

lemma tiny_copy: "run_state (copy_verified ''sd:/a'' ''sd:/b'') (tiny_world tiny_card) = (FR_OK, tiny_world tiny_copied)"
  unfolding copy_verified_def by (simp add: tiny_evaluated tiny_FileCopy)

end
