(* ===== verification/Cfw_Fuel.thy ===== *)
theory Cfw_Fuel
  imports Cfw_Frame
begin

text \<open>
  The recursive deletion returns: the height of the volume, which \<^verbatim>\<open>remove_tree_silent\<close> passes as
  its depth, is enough for every directory on it, whatever fails on the way.
\<close>

section \<open>Depth\<close>

text \<open>What is at a path is no deeper than \<open>n\<close>.\<close>

definition shallow :: "path \<Rightarrow> nat \<Rightarrow> node \<Rightarrow> bool" where
  "shallow q n v = (\<forall>x. get_at q v = Some x \<longrightarrow> height x \<le> n)"

lemma height_Dir: "height (Dir a es) \<le> Suc n \<longleftrightarrow> list_all (\<lambda>e. height (snd e) \<le> n) es"
  by (induction es) auto

lemma height_entry: "map_of es k = Some x \<Longrightarrow> height (Dir a es) \<le> Suc n \<Longrightarrow> height x \<le> n"
  unfolding height_Dir by (drule (1) list_all_map_of) simp

lemma height_get_at: "get_at p v = Some x \<Longrightarrow> height x \<le> height v"
proof (induction p v rule: get_at.induct)
  case (3 k ks a es)
  then obtain n where n: "map_of es k = Some n" "get_at ks n = Some x" by (auto split: option.splits)
  with 3 have "height x \<le> height n" by simp
  with height_entry [OF n(1), of a "height (Dir a es) - 1"] show ?case by simp
qed auto

lemma height_del_at: "height (del_at p v) \<le> height v"
proof (induction p v rule: del_at.induct)
  case (3 k ks a es)
  have all: "list_all (\<lambda>e. height (snd e) \<le> height (Dir a es) - 1) es"
    using height_Dir [of a es "height (Dir a es) - 1"] by simp
  have "height (Dir a (AList.delete k es)) \<le> height (Dir a es)"
    using list_all_delete [OF all] height_Dir [of a _ "height (Dir a es) - 1"] by simp
  moreover have "height (Dir a (AList.update k (del_at ks n) es)) \<le> height (Dir a es)"
    if "ks \<noteq> []" "map_of es k = Some n" for n
  proof -
    have "height (del_at ks n) \<le> height (Dir a es) - 1"
      using 3 [OF that] list_all_map_of [OF all that(2)] by simp
    then show ?thesis
      using list_all_update [OF all, of k "del_at ks n"] height_Dir [of a _ "height (Dir a es) - 1"] by simp
  qed
  ultimately show ?case by (auto split: option.splits)
qed auto

lemma get_at_del_at_height:
  "get_at q (del_at p v) = Some y \<Longrightarrow> \<exists>x. get_at q v = Some x \<and> height y \<le> height x"
proof (induction q v arbitrary: p rule: get_at.induct)
  case (1 v)
  then show ?case using height_del_at [of p v] by simp
next
  case (2 k ks a c)
  then show ?case by (cases p) auto
next
  case (3 k ks a es)
  show ?case
  proof (cases p)
    case Nil
    with 3 show ?thesis by auto
  next
    case (Cons j r)
    with 3 show ?thesis
      by (auto simp: AList.update_conv' AList.delete_conv' split: if_splits option.splits)
  qed
qed

lemma falls_shallow: "falls p (shallow q n)"
  unfolding falls_def shallow_def using get_at_del_at_height by (meson le_trans)

lemma shallow_below:
  assumes "shallow q n v" and "get_at (q @ [k]) v \<noteq> None"
  shows "\<exists>m. n = Suc m \<and> shallow (q @ [k]) m v"
proof -
  obtain a es where d: "get_at q v = Some (Dir a es)"
    using assms(2) unfolding get_at_append by (cases "get_at q v"; cases "the (get_at q v)") auto
  then have h: "height (Dir a es) \<le> n" using assms(1) by (simp add: shallow_def)
  then obtain m where m: "n = Suc m" by (cases n) auto
  have "height x \<le> m" if "get_at (q @ [k]) v = Some x" for x
    using that d height_entry [of es k x a m] h m by (auto simp: get_at_append split: option.splits)
  with m show ?thesis by (simp add: shallow_def)
qed

section \<open>Programs that do not run out\<close>

text \<open>\<open>fueled m\<close>: \<open>m\<close> itself never stops for want of fuel.\<close>

definition fueled :: "'a prog \<Rightarrow> bool" where
  "fueled m = (\<forall>w. halted w \<noteq> Some Out_Of_Fuel \<longrightarrow> halted (snd (run_state m w)) \<noteq> Some Out_Of_Fuel)"

lemma fueled_bind: "fueled m \<Longrightarrow> (\<And>a. fueled (f a)) \<Longrightarrow> fueled (State_Monad.bind m f)"
  by (simp add: fueled_def case_prod_beta)

lemma fueled_return: "fueled (State_Monad.return a)"
  by (simp add: fueled_def)

lemma fueled_if: "(b \<Longrightarrow> fueled m) \<Longrightarrow> (\<not> b \<Longrightarrow> fueled n) \<Longrightarrow> fueled (if b then m else n)"
  by simp

lemma fueled_prod: "(\<And>a b. fueled (f a b)) \<Longrightarrow> fueled (case x of (a, b) \<Rightarrow> f a b)"
  by (cases x) simp

lemma fueled_disk: "fueled (disk act err part)"
  unfolding fueled_def
proof (intro allI impI)
  fix w :: world
  assume "halted w \<noteq> Some Out_Of_Fuel"
  then show "halted (snd (run_state (disk act err part) w)) \<noteq> Some Out_Of_Fuel"
    by (cases rule: disk_cases [of w act err part]) auto
qed

lemma fueled_ask: "fueled (ask f)"
  by (simp add: fueled_def ask_def)

lemmas fueled_rules = fueled_bind fueled_return fueled_if fueled_prod fueled_disk fueled_ask

lemma fueled_calls: "fueled (f_unlink s)" "fueled (f_stat s)" "fueled (f_opendir s)" "fueled (f_readdir es)"
  unfolding f_unlink_def dir_op_def f_stat_def f_opendir_def f_readdir_def by (rule fueled_disk)+

lemma fueled_ReadFolder: "fueled (ReadFolder s)"
proof -
  have "fueled (read_entries is)" for "is"
    by (induction "is") (auto intro!: fueled_rules fueled_calls)
  then show ?thesis unfolding ReadFolder_def by (intro fueled_rules fueled_calls)
qed

lemma triple_fueled:
  assumes "triple M C P m Q" and "fueled m"
  shows "triple M (\<lambda>h v. C h v \<and> h \<noteq> Out_Of_Fuel) P m Q"
  using assms unfolding triple_def after_def fueled_def by (auto split: option.splits)

text \<open>A tree no deeper than the fuel is walked to the end.\<close>

definition below :: "path \<Rightarrow> nat \<Rightarrow> FSEntry_t list \<Rightarrow> node \<Rightarrow> bool" where
  "below q n es v = (\<forall>e \<in> set es. \<exists>m. n = Suc m \<and> shallow (q @ [entry_name e]) m v)"

lemma falls_below: "falls p (below q n es)"
  using falls_shallow unfolding falls_def below_def by metis

lemma triple_remove_tree_returns:
  "falls (path_keys path) P \<Longrightarrow>
    triple M (\<lambda>h v. h \<noteq> Out_Of_Fuel) (\<lambda>v. P v \<and> shallow (path_keys path) n v) (remove_tree_fuel (Suc n) path) (\<lambda>_. P)"
proof (induction n arbitrary: path P rule: less_induct)
  case (less n)
  let ?q = "path_keys path" and ?C = "\<lambda>(h :: halt) (v :: node). h \<noteq> Out_Of_Fuel"
  let ?b = "\<lambda>e. if isDir e then remove_tree_fuel n (CombinePaths path (entry_name e)) else f_unlink (CombinePaths path (entry_name e))"
  have "triple M (\<lambda>h v. True \<and> h \<noteq> Out_Of_Fuel) (\<lambda>v. P v \<and> shallow ?q n v) (ReadFolder path)
      (\<lambda>(r, out) v. (\<forall>e \<in> set out. good_name (entry_name e)) \<and> P v \<and> below ?q n out v)"
    by (rule triple_post [OF triple_fueled [OF triple_ReadFolder fueled_ReadFolder]])
      (use shallow_below [of ?q n] in \<open>auto simp: below_def\<close>)
  then have read: "triple M ?C (\<lambda>v. P v \<and> shallow ?q n v) (ReadFolder path)
      (\<lambda>(r, out) v. (\<forall>e \<in> set out. good_name (entry_name e)) \<and> P v \<and> below ?q n out v)" by simp
  have body: "triple M ?C (\<lambda>v. P v \<and> below ?q n out v) (?b e) (\<lambda>_ v. P v \<and> below ?q n out v)"
    if e: "e \<in> set out" and good: "good_name (entry_name e)" for e out
  proof -
    have keys: "path_keys (CombinePaths path (entry_name e)) = ?q @ [entry_name e]"
      using good by (rule path_keys_CombinePaths)
    have falls: "falls (?q @ [entry_name e]) (\<lambda>v. P v \<and> below ?q n out v)"
      by (intro falls_conjI falls_below falls_append less.prems)
    show ?thesis
    proof (cases n)
      case 0
      then show ?thesis
        using e by (intro triple_absurd [where q = "\<lambda>_. ()"] keeps_if keeps_remove_tree_fuel keeps_f_unlink)
          (auto simp: below_def)
    next
      case (Suc m)
      have tree: "triple M ?C (\<lambda>v. P v \<and> below ?q n out v) (remove_tree_fuel n (CombinePaths path (entry_name e)))
          (\<lambda>_ v. P v \<and> below ?q n out v)"
        unfolding Suc
        by (rule triple_pre [OF less.IH [of m "CombinePaths path (entry_name e)", unfolded keys]])
          (use Suc falls e in \<open>auto simp: below_def\<close>)
      have leaf: "triple M ?C (\<lambda>v. P v \<and> below ?q n out v) (f_unlink (CombinePaths path (entry_name e)))
          (\<lambda>_ v. P v \<and> below ?q n out v)"
        by (rule triple_post [OF triple_f_unlink [OF keys falls]]) simp_all
      show ?thesis by (rule triple_if [OF tree leaf])
    qed
  qed
  have unlink: "triple M ?C (\<lambda>v. P v \<and> below ?q n out v) (f_unlink path) (\<lambda>_. P)" for out
    by (rule triple_weaken [OF triple_f_unlink [OF refl less.prems, where C = ?C]]) simp_all
  have rest: "triple M ?C (\<lambda>v. (\<forall>e \<in> set out. good_name (entry_name e)) \<and> P v \<and> below ?q n out v)
      (do { result \<leftarrow> for_ok ?b out; if result \<noteq> FR_OK then State_Monad.return result else f_unlink path }) (\<lambda>_. P)" for out
  proof (rule triple_fact)
    show "keeps M (\<lambda>_. ()) (do { result \<leftarrow> for_ok ?b out; if result \<noteq> FR_OK then State_Monad.return result else f_unlink path })"
      by ((rule keeps_bind keeps_for_ok keeps_if keeps_return keeps_remove_tree_fuel keeps_f_unlink | (simp; fail))+)
    assume "\<forall>e \<in> set out. good_name (entry_name e)"
    then have loop: "triple M ?C (\<lambda>v. P v \<and> below ?q n out v) (for_ok ?b out) (\<lambda>_ v. P v \<and> below ?q n out v)"
      by (intro triple_for_ok body) simp_all
    show "triple M ?C (\<lambda>v. P v \<and> below ?q n out v)
      (do { result \<leftarrow> for_ok ?b out; if result \<noteq> FR_OK then State_Monad.return result else f_unlink path }) (\<lambda>_. P)"
      by (rule triple_bind [OF loop], rule triple_check, simp, rule unlink)
  qed
  show ?case
    unfolding remove_tree_fuel.simps
    apply (rule triple_bind2 [OF read])
    apply (rule triple_check, simp)
    apply (rule rest)
    done
qed

lemma triple_ask_height:
  assumes "\<And>n. triple M C (\<lambda>v. P v \<and> shallow q n v) (f n) Q" and "triple M C P (ask (\<lambda>w. height (vol w))) (\<lambda>_. P)"
  shows "triple M C P (do { h \<leftarrow> ask (\<lambda>w. height (vol w)); f h }) Q"
proof -
  have "triple M C P (ask (\<lambda>w. height (vol w))) (\<lambda>h v. P v \<and> shallow q h v)"
    using assms(2) unfolding triple_def after_def
    by (auto simp: ask_def shallow_def split: option.splits dest: height_get_at)
  then show ?thesis by (rule triple_bind) (rule assms(1))
qed

lemma remove_path_returns:
  "triple M (\<lambda>h v. h \<noteq> Out_Of_Fuel) (\<lambda>_. True) (remove_path_silent s) (\<lambda>_ _. True)"
proof -
  have stat: "triple M (\<lambda>h v. h \<noteq> Out_Of_Fuel) (\<lambda>_. True) (f_stat s) (\<lambda>_ _. True)"
    by (rule triple_weaken [OF triple_fueled [OF triple_keeps [OF keeps_f_stat [of M "\<lambda>_. True"]] fueled_calls(2)]]) auto
  have ask: "triple M (\<lambda>h v. h \<noteq> Out_Of_Fuel) (\<lambda>_. True) (ask (\<lambda>w. height (vol w))) (\<lambda>_ _. True)"
    by (rule triple_quiet) simp_all
  have tree: "triple M (\<lambda>h v. h \<noteq> Out_Of_Fuel) (\<lambda>_. True) (remove_tree_silent s) (\<lambda>_ _. True)"
    unfolding remove_tree_silent_def
    by (rule triple_ask_height [OF _ ask]) (use triple_remove_tree_returns [of s "\<lambda>_. True"] in \<open>simp add: falls_def\<close>)
  have unlink: "triple M (\<lambda>h v. h \<noteq> Out_Of_Fuel) (\<lambda>_. True) (f_unlink s) (\<lambda>_ _. True)"
    by (rule triple_weaken [OF triple_f_unlink [OF refl, where P = "\<lambda>_. True" and C = "\<lambda>h v. h \<noteq> Out_Of_Fuel"]])
      (simp_all add: falls_def)
  show ?thesis
    unfolding remove_path_silent_def
    apply (rule triple_bind [OF stat])
    apply (simp only: split_def)
    apply (intro triple_if tree unlink triple_return; simp)
    done
qed

end
