(* ===== verification/Cpp_Text.thy ===== *)
theory Cpp_Text
  imports Prelude
begin

text \<open>
  Text and byte helpers of the AIO MOD application (\<^verbatim>\<open>source/nsp_ncm_probe.cpp\<close>,
  \<^verbatim>\<open>source/package_reader.cpp\<close>): decimal and hexadecimal numbers as the C++ streams print them,
  content ids in hexadecimal, suffixes without regard to case, and additions that detect an
  overflow.
\<close>

unbundle bit_operations_syntax

section \<open>Numbers as text\<close>

text \<open>\<^verbatim>\<open>std::to_string\<close> of an unsigned number.\<close>

fun decimal :: "nat \<Rightarrow> string" where
  "decimal n = (if n < 10 then [''0123456789'' ! n] else decimal (n div 10) @ [''0123456789'' ! (n mod 10)])"

declare decimal.simps [simp del]

definition to_string :: "'a :: len word \<Rightarrow> string" where
  "to_string w = decimal (unat w)"

text \<open>\<^verbatim>\<open>std::setfill('0') << std::setw(n)\<close> on what is printed next.\<close>

definition setw0 :: "nat \<Rightarrow> string \<Rightarrow> string" where
  "setw0 n s = replicate (n - length s) (CHR ''0'') @ s"

section \<open>Hexadecimal\<close>

definition hex_digit :: "nat \<Rightarrow> char" where
  "hex_digit n = ''0123456789abcdef'' ! n"

definition hexNibble :: "char \<Rightarrow> int" where
  "hexNibble c =
    (let n = of_char c :: int in
     if of_char (CHR ''0'') \<le> n \<and> n \<le> of_char (CHR ''9'') then n - of_char (CHR ''0'')
     else if of_char (CHR ''a'') \<le> n \<and> n \<le> of_char (CHR ''f'') then n - of_char (CHR ''a'') + 10
     else if of_char (CHR ''A'') \<le> n \<and> n \<le> of_char (CHR ''F'') then n - of_char (CHR ''A'') + 10
     else - 1)"

definition bytesToHex :: "u8 list \<Rightarrow> string" where
  "bytesToHex bs = concat (map (\<lambda>b. [hex_digit (unat b div 16), hex_digit (unat b mod 16)]) bs)"

text \<open>The loop over the pairs of digits that \<^verbatim>\<open>parseContentIdFromName\<close> and \<^verbatim>\<open>hexToBytes\<close> share.\<close>

fun hex_pairs :: "nat \<Rightarrow> string \<Rightarrow> u8 list option" where
  "hex_pairs (Suc n) (a # b # s) =
    (let hi = hexNibble a; lo = hexNibble b in
     if hi < 0 \<or> lo < 0 then None
     else map_option ((#) (push_bit 4 (word_of_int hi) OR word_of_int lo)) (hex_pairs n s))"
| "hex_pairs 0 s = Some []"
| "hex_pairs (Suc n) s = None"

definition hexToBytes :: "string \<Rightarrow> nat \<Rightarrow> u8 list option" where
  "hexToBytes text n = (if length text \<noteq> n * 2 then None else hex_pairs n text)"

text \<open>\<^verbatim>\<open>name.find('.')\<close>: the length of the part before the first dot.\<close>

definition find_char :: "char \<Rightarrow> string \<Rightarrow> nat option" where
  "find_char c s = (if c \<in> set s then Some (length (takeWhile (\<lambda>x. x \<noteq> c) s)) else None)"

definition parseContentIdFromName :: "string \<Rightarrow> u8 list option" where
  "parseContentIdFromName name =
    (if find_char (CHR ''.'') name \<noteq> Some 32 then None else hex_pairs 16 name)"

section \<open>Suffixes and sums\<close>

definition tolower :: "char \<Rightarrow> char" where
  "tolower c = (let n = of_char c :: nat in if 65 \<le> n \<and> n \<le> 90 then char_of (n + 32) else c)"

definition endsWithCaseInsensitive :: "string \<Rightarrow> string \<Rightarrow> bool" where
  "endsWithCaseInsensitive value tail =
    (if length value < length tail then False
     else (let start = length value - length tail in
           \<forall>i \<in> set [0..<length tail]. tolower (value ! (start + i)) = tolower (tail ! i)))"

definition checkedAdd :: "u64 \<Rightarrow> u64 \<Rightarrow> u64 option" where
  "checkedAdd a b = (if a > (- 1) - b then None else Some (a + b))"

text \<open>Little-endian fields of packed structs.\<close>

fun le :: "u8 list \<Rightarrow> nat" where
  "le [] = 0"
| "le (b # bs) = unat b + 256 * le bs"

definition field :: "nat \<Rightarrow> nat \<Rightarrow> u8 list \<Rightarrow> nat" where
  "field off n bs = le (take n (drop off bs))"

section \<open>Lemmas\<close>

lemma unat_byte: "unat (b :: u8) < 256"
  by (rule order.strict_trans2 [OF unsigned_less]) simp

lemma checkedAdd_Some: "checkedAdd a b = Some c \<longleftrightarrow> c = a + b \<and> unat a + unat b < 2 ^ 64"
proof -
  have u: "0 \<le> uint b" "uint b < 18446744073709551616" using uint_lt2p [of b] by simp_all
  then have "(18446744073709551615 - uint b) mod 18446744073709551616 = 18446744073709551615 - uint b"
    by (intro mod_pos_pos_trivial) linarith+
  then have "uint ((- 1 :: u64) - b) = 2 ^ 64 - 1 - uint b"
    by (simp add: uint_word_ariths zmod_minus1)
  then have "a > (- 1) - b \<longleftrightarrow> \<not> uint a + uint b < 2 ^ 64"
    unfolding word_less_def by linarith
  moreover have "unat a + unat b < 2 ^ 64 \<longleftrightarrow> uint a + uint b < 2 ^ 64"
    using of_nat_less_iff [where 'a = int, of "unat a + unat b" "2 ^ 64"] by simp
  ultimately show ?thesis by (auto simp: checkedAdd_def)
qed

lemma checkedAdd_nat: "checkedAdd a b = Some c \<Longrightarrow> unat c = unat a + unat b"
  using unat_word_ariths(1) [of a b] by (simp add: checkedAdd_Some)

lemma hexNibble_hex_digit: "n < 16 \<Longrightarrow> hexNibble (hex_digit n) = int n"
proof -
  assume "n < 16"
  then have "n \<in> set [0..<16]" by simp
  moreover have "\<forall>n \<in> set [0..<16]. hexNibble (hex_digit n) = int n" by code_simp
  ultimately show ?thesis by blast
qed

lemma nibbles: "push_bit 4 (word_of_nat (unat b div 16)) OR word_of_nat (unat b mod 16) = (b :: u8)"
proof -
  have "unat b < 256" by (rule unat_byte)
  then have "word_of_nat (unat b div 16) = drop_bit 4 b"
    by (intro word_unat_eq_iff [THEN iffD2])
      (simp add: unat_drop_bit_eq unat_of_nat take_bit_eq_mod drop_bit_eq_div [of 4 "unat b"] del: drop_bit_numeral_minus_bit1)
  moreover have "word_of_nat (unat b mod 16) = take_bit 4 b"
    by (intro word_unat_eq_iff [THEN iffD2]) (simp add: unsigned_take_bit_eq take_bit_eq_mod [of 4 "unat b"] unat_of_nat)
  moreover have "push_bit 4 (drop_bit 4 b) OR take_bit 4 b = b"
    by (rule bit_word_eqI) (auto simp: bit_simps)
  ultimately show ?thesis by simp
qed

lemma hex_pairs_bytesToHex: "hex_pairs (length bs) (bytesToHex bs @ s) = Some bs"
proof (induction bs)
  case (Cons b bs)
  have "unat b < 256" by (rule unat_byte)
  with Cons show ?case by (simp add: bytesToHex_def hexNibble_hex_digit nibbles Let_def)
qed simp

lemma length_bytesToHex: "length (bytesToHex bs) = length bs * 2"
  by (induction bs) (simp_all add: bytesToHex_def)

lemma hexToBytes_bytesToHex: "hexToBytes (bytesToHex bs) (length bs) = Some bs"
  using hex_pairs_bytesToHex [of bs "[]"] by (simp add: hexToBytes_def length_bytesToHex)

end
