(* ===== verification/Package_Reader.thy ===== *)
theory Package_Reader
  imports Cpp_Text
begin

text \<open>
  The reader of staged packages, \<^verbatim>\<open>source/package_reader.cpp\<close>: a package is one file, or a chain
  of parts \<^verbatim>\<open>game.nsp\<close>, \<^verbatim>\<open>game.nsp.01\<close>, \dots, and callers see one logical stream. The
  file system is a map from names of regular files to their bytes, together with the names on
  which the operating system reports an error.
\<close>

section \<open>The host\<close>

record host =
  files :: "string \<rightharpoonup> u8 list"
  size_fails :: "string set"
  open_fails :: "string set"
  remove_fails :: "string set"

definition is_regular_file :: "host \<Rightarrow> string \<Rightarrow> bool" where
  "is_regular_file h p = (files h p \<noteq> None)"

definition bytes_of :: "host \<Rightarrow> string \<Rightarrow> u8 list" where
  "bytes_of h p = (case files h p of Some c \<Rightarrow> c | None \<Rightarrow> [])"

text \<open>\<^verbatim>\<open>std::filesystem::file_size\<close> with an error code: its value is \<open>- 1\<close> on an error.\<close>

definition file_size :: "host \<Rightarrow> string \<Rightarrow> u64 \<times> bool" where
  "file_size h p =
    (if p \<in> size_fails h \<or> files h p = None then (- 1, True) else (of_nat (length (bytes_of h p)), False))"

section \<open>Parts\<close>

definition partPath :: "string \<Rightarrow> nat \<Rightarrow> string" where
  "partPath base index = (if index = 0 then base else base @ [CHR ''.''] @ setw0 2 (decimal index))"

function parts_from :: "host \<Rightarrow> string \<Rightarrow> nat \<Rightarrow> string list" where
  "parts_from h base i =
    (if i < 10000 \<and> is_regular_file h (partPath base i) then partPath base i # parts_from h base (i + 1) else [])"
  by pat_completeness auto
termination
  by (relation "measure (\<lambda>(h, base, i). 10000 - i)") auto

declare parts_from.simps [simp del]

definition discoverParts :: "host \<Rightarrow> string \<Rightarrow> string list" where
  "discoverParts h base = (if is_regular_file h base then base # parts_from h base 1 else [])"

fun sum_sizes :: "host \<Rightarrow> u64 \<Rightarrow> string list \<Rightarrow> u64" where
  "sum_sizes h acc [] = acc"
| "sum_sizes h acc (p # ps) =
    (case file_size h p of (s, ec) \<Rightarrow> if ec then 0 else sum_sizes h (acc + s) ps)"

text \<open>The result and the value of \<^verbatim>\<open>exists\<close>.\<close>

definition logicalSize :: "host \<Rightarrow> string \<Rightarrow> u64 \<times> bool" where
  "logicalSize h base = (sum_sizes h 0 (discoverParts h base), discoverParts h base \<noteq> [])"

text \<open>
  \<^verbatim>\<open>removePackage\<close>: the result, the value of \<^verbatim>\<open>removedBytes\<close> and the host afterwards. A part
  whose size could not be read counts with the size \<open>- 1\<close>.
\<close>

definition remove_file :: "host \<Rightarrow> string \<Rightarrow> bool \<times> host" where
  "remove_file h p =
    (if p \<in> remove_fails h \<or> files h p = None then (False, h) else (True, h\<lparr>files := (files h)(p := None)\<rparr>))"

fun remove_parts :: "host \<Rightarrow> bool \<Rightarrow> u64 \<Rightarrow> string list \<Rightarrow> bool \<times> u64 \<times> host" where
  "remove_parts h ok removed [] = (ok, removed, h)"
| "remove_parts h ok removed (p # ps) =
    (case remove_file h p of
       (False, h') \<Rightarrow> remove_parts h' False removed ps
     | (True, h') \<Rightarrow> remove_parts h' ok (removed + fst (file_size h p)) ps)"

definition removePackage :: "host \<Rightarrow> string \<Rightarrow> bool \<times> u64 \<times> host" where
  "removePackage h base = remove_parts h True 0 (discoverParts h base)"

section \<open>The reader\<close>

text \<open>
  \<open>currentPart\<close> is \<open>None\<close> where the source stores \<^verbatim>\<open>(size_t)-1\<close>; \<open>stream\<close> is the name of the open
  file with the position of the stream.
\<close>

record reader =
  rpath :: string
  partPaths :: "string list"
  partSizes :: "u64 list"
  partStarts :: "u64 list"
  totalSize :: u64
  position :: u64
  currentPart :: "nat option"
  stream :: "(string \<times> nat) option"

definition closed_reader :: reader where
  "closed_reader = \<lparr>rpath = [], partPaths = [], partSizes = [], partStarts = [], totalSize = 0, position = 0,
     currentPart = None, stream = None\<rparr>"

text \<open>\<^verbatim>\<open>seekg\<close> takes a signed offset and fails on a negative one.\<close>

definition openPart :: "host \<Rightarrow> reader \<Rightarrow> nat \<Rightarrow> u64 \<Rightarrow> bool \<times> reader" where
  "openPart h r index localOffset =
    (if length (partPaths r) \<le> index then (False, r)
     else
       (let p = partPaths r ! index in
        case (if currentPart r \<noteq> Some index \<or> stream r = None
              then (if p \<in> open_fails h \<or> files h p = None then (False, r\<lparr>stream := None\<rparr>)
                    else (True, r\<lparr>currentPart := Some index, stream := Some (p, 0)\<rparr>))
              else (True, r)) of
          (False, r) \<Rightarrow> (False, r)
        | (True, r) \<Rightarrow>
            (if 2 ^ 63 \<le> unat localOffset then (False, r)
             else (True, r\<lparr>stream := map_option (\<lambda>(f, _). (f, unat localOffset)) (stream r)\<rparr>))))"

fun measure_parts :: "host \<Rightarrow> reader \<Rightarrow> string list \<Rightarrow> bool \<times> reader" where
  "measure_parts h r [] = (True, r)"
| "measure_parts h r (p # ps) =
    (case file_size h p of
       (s, True) \<Rightarrow> (False, r)
     | (s, False) \<Rightarrow> measure_parts h (r\<lparr>partStarts := partStarts r @ [totalSize r],
         partSizes := partSizes r @ [s], totalSize := totalSize r + s\<rparr>) ps)"

definition open_package :: "host \<Rightarrow> string \<Rightarrow> bool \<times> reader" where
  "open_package h base =
    (let r = closed_reader\<lparr>rpath := base, partPaths := discoverParts h base\<rparr> in
     if partPaths r = [] then (False, r)
     else case measure_parts h r (partPaths r) of
       (False, r) \<Rightarrow> (False, r)
     | (True, r) \<Rightarrow> openPart h r 0 0)"

definition isOpen :: "reader \<Rightarrow> bool" where
  "isOpen r = (partPaths r \<noteq> [] \<and> stream r \<noteq> None)"

text \<open>\<^verbatim>\<open>std::upper_bound\<close>: the first position with a greater element.\<close>

definition upper_bound :: "u64 list \<Rightarrow> u64 \<Rightarrow> nat" where
  "upper_bound xs x = length (takeWhile (\<lambda>y. y \<le> x) xs)"

definition locatePart :: "reader \<Rightarrow> u64 \<Rightarrow> (nat \<times> u64) option" where
  "locatePart r logicalOffset =
    (if totalSize r < logicalOffset \<or> partPaths r = [] then None
     else if logicalOffset = totalSize r then Some (length (partPaths r) - 1, last (partSizes r))
     else
       (let it = upper_bound (partStarts r) logicalOffset;
            idx = (if it = 0 then 0 else it - 1) in
        if length (partPaths r) \<le> idx then None else Some (idx, logicalOffset - partStarts r ! idx)))"

definition seek :: "host \<Rightarrow> reader \<Rightarrow> u64 \<Rightarrow> bool \<times> reader" where
  "seek h r logicalOffset =
    (case locatePart r logicalOffset of
       None \<Rightarrow> (False, r)
     | Some (idx, loc) \<Rightarrow>
         (case openPart h r idx loc of
            (False, r) \<Rightarrow> (False, r)
          | (True, r) \<Rightarrow> (True, r\<lparr>position := logicalOffset\<rparr>)))"

text \<open>\<^verbatim>\<open>stream.read\<close>: what \<^verbatim>\<open>gcount\<close> counts.\<close>

definition stream_read :: "host \<Rightarrow> reader \<Rightarrow> nat \<Rightarrow> u8 list \<times> reader" where
  "stream_read h r n =
    (case stream r of
       None \<Rightarrow> ([], r)
     | Some (f, pos) \<Rightarrow>
         (let got = take n (drop pos (bytes_of h f)) in (got, r\<lparr>stream := Some (f, pos + length got)\<rparr>)))"

text \<open>The loop of \<^verbatim>\<open>read\<close>; \<open>dst\<close> is the part of the buffer that is filled.\<close>

function read_loop :: "host \<Rightarrow> reader \<Rightarrow> nat \<Rightarrow> u8 list \<Rightarrow> u8 list option \<times> reader" where
  "read_loop h r remaining dst =
    (if remaining = 0 then (Some dst, r)
     else case locatePart r (position r) of
       None \<Rightarrow> (None, r)
     | Some (idx, loc) \<Rightarrow>
         (case openPart h r idx loc of
            (False, r) \<Rightarrow> (None, r)
          | (True, r) \<Rightarrow>
              (let available = partSizes r ! idx - loc;
                   k = min remaining (unat available) in
               if k = 0 then (None, r)
               else case stream_read h r k of (got, r) \<Rightarrow>
                 if length got \<noteq> k then (None, r)
                 else read_loop h (r\<lparr>position := position r + of_nat k\<rparr>) (remaining - k) (dst @ got))))"
  by pat_completeness auto
termination
  by (relation "measure (\<lambda>(h, r, remaining, dst). remaining)") auto

declare read_loop.simps [simp del]

definition read_package :: "host \<Rightarrow> nat \<Rightarrow> reader \<Rightarrow> u8 list option \<times> reader" where
  "read_package h n r =
    (if n = 0 then (Some [], r)
     else if totalSize r < position r \<or> unat (totalSize r - position r) < n then (None, r)
     else read_loop h r n [])"

end
