(* ===== verification/Diagnostics.thy ===== *)
theory Diagnostics
  imports Cpp_Text
begin

text \<open>
  The diagnostics of the installer, \<^verbatim>\<open>source/installer_diagnostics.cpp\<close>: the error codes, the
  texts \<^verbatim>\<open>makeDiagnostic\<close> gives to each and the message \<^verbatim>\<open>formatDiagnostic\<close> shows. A string
  of the source is the list of its bytes as characters, in UTF-8; the constructor \<open>NoError\<close> is
  \<^verbatim>\<open>ErrorCode::None\<close>.
\<close>

datatype ErrorCode = NoError | NotEnoughSpace | UnsupportedFormat | InvalidPfs0 | PackageTruncated | MissingContent
  | InvalidNca | FirmwareTooOld | AuthorizationRejected | UsbDisconnected | UsbTimeout | UsbUnstable | UsbSlow | StorageSlow
  | WriteError | PlaceholderError | RegistrationError | AlreadyInstalled | MtpObjectTooLarge | Cancelled | InternalError

record Diagnostic =
  d_code :: ErrorCode
  aioCode :: string
  d_title :: string
  d_message :: string
  d_advice :: string
  technical :: string
  d_result :: u32

text \<open>\<^verbatim>\<open>Diagnostic{}\<close> and \<^verbatim>\<open>Diagnostic::ok\<close>\<close>

definition no_diagnostic :: Diagnostic where
  "no_diagnostic = \<lparr>d_code = NoError, aioCode = [], d_title = [], d_message = [], d_advice = [], technical = [],
     d_result = 0\<rparr>"

definition diag_ok :: "Diagnostic \<Rightarrow> bool" where
  "diag_ok d = (d_code d = NoError)"

section \<open>The texts\<close>

definition aio_code :: "ErrorCode \<Rightarrow> string" where
  "aio_code c = (case c of
     NoError \<Rightarrow> ''AIO-INSTALL-OK''
   | NotEnoughSpace \<Rightarrow> ''AIO-INSTALL-STG-001''
   | StorageSlow \<Rightarrow> ''AIO-INSTALL-STG-003''
   | WriteError \<Rightarrow> ''AIO-INSTALL-STG-002''
   | UnsupportedFormat \<Rightarrow> ''AIO-INSTALL-PKG-000''
   | InvalidPfs0 \<Rightarrow> ''AIO-INSTALL-PKG-001''
   | PackageTruncated \<Rightarrow> ''AIO-INSTALL-PKG-003''
   | MissingContent \<Rightarrow> ''AIO-INSTALL-PKG-004''
   | InvalidNca \<Rightarrow> ''AIO-INSTALL-PKG-002''
   | FirmwareTooOld \<Rightarrow> ''AIO-INSTALL-SYS-001''
   | AuthorizationRejected \<Rightarrow> ''AIO-INSTALL-AUTH-001''
   | UsbDisconnected \<Rightarrow> ''AIO-INSTALL-USB-001''
   | UsbTimeout \<Rightarrow> ''AIO-INSTALL-USB-002''
   | UsbUnstable \<Rightarrow> ''AIO-INSTALL-USB-003''
   | UsbSlow \<Rightarrow> ''AIO-INSTALL-USB-004''
   | PlaceholderError \<Rightarrow> ''AIO-INSTALL-NCM-001''
   | RegistrationError \<Rightarrow> ''AIO-INSTALL-NCM-002''
   | AlreadyInstalled \<Rightarrow> ''AIO-INSTALL-NCM-003''
   | MtpObjectTooLarge \<Rightarrow> ''AIO-INSTALL-MTP-001''
   | Cancelled \<Rightarrow> ''AIO-INSTALL-CANCELLED''
   | InternalError \<Rightarrow> ''AIO-INSTALL-INT-001'')"

definition diag_title :: "ErrorCode \<Rightarrow> string" where
  "diag_title c = (case c of
     NoError \<Rightarrow> ''Sin errores detectados''
   | NotEnoughSpace \<Rightarrow> ''Espacio insuficiente''
   | StorageSlow \<Rightarrow> ''Almacenamiento demasiado lento''
   | WriteError \<Rightarrow> ''Error de escritura''
   | UnsupportedFormat \<Rightarrow> ''Formato no compatible''
   | InvalidPfs0 \<Rightarrow> ''NSP no v'' @ [CHR 0xC3, CHR 0xA1] @ ''lido''
   | PackageTruncated \<Rightarrow> ''Paquete incompleto''
   | MissingContent \<Rightarrow> ''Contenido faltante''
   | InvalidNca \<Rightarrow> ''Contenido NCA no v'' @ [CHR 0xC3, CHR 0xA1] @ ''lido''
   | FirmwareTooOld \<Rightarrow> ''Firmware demasiado antiguo''
   | AuthorizationRejected \<Rightarrow> ''Validaci'' @ [CHR 0xC3, CHR 0xB3] @ ''n rechazada''
   | UsbDisconnected \<Rightarrow> ''USB desconectado''
   | UsbTimeout \<Rightarrow> ''Tiempo de espera USB agotado''
   | UsbUnstable \<Rightarrow> ''Conexi'' @ [CHR 0xC3, CHR 0xB3] @ ''n USB inestable''
   | UsbSlow \<Rightarrow> ''Velocidad USB baja''
   | PlaceholderError \<Rightarrow> ''No se pudo reservar la instalaci'' @ [CHR 0xC3, CHR 0xB3] @ ''n''
   | RegistrationError \<Rightarrow> ''No se pudo registrar el contenido''
   | AlreadyInstalled \<Rightarrow> ''Contenido ya instalado''
   | MtpObjectTooLarge \<Rightarrow> ''Tama'' @ [CHR 0xC3, CHR 0xB1] @ ''o MTP no v'' @ [CHR 0xC3, CHR 0xA1] @ ''lido''
   | Cancelled \<Rightarrow> ''Instalaci'' @ [CHR 0xC3, CHR 0xB3] @ ''n cancelada''
   | InternalError \<Rightarrow> ''Error interno del instalador'')"

definition diag_message :: "ErrorCode \<Rightarrow> string" where
  "diag_message c = (case c of
     NoError \<Rightarrow> ''La comprobaci'' @ [CHR 0xC3, CHR 0xB3] @ ''n termin'' @ [CHR 0xC3, CHR 0xB3] @ '' correctamente.''
   | NotEnoughSpace \<Rightarrow> ''No hay suficiente espacio disponible en el destino para completar la operaci'' @ [CHR 0xC3, CHR 0xB3] @
       ''n.''
   | StorageSlow \<Rightarrow> ''La velocidad de escritura no puede seguir el ritmo de la transferencia USB.''
   | WriteError \<Rightarrow> ''Se produjo un error al escribir los datos en el almacenamiento.''
   | UnsupportedFormat \<Rightarrow> ''El archivo seleccionado no es un paquete compatible con esta etapa del instalador.''
   | InvalidPfs0 \<Rightarrow> ''La estructura PFS0 del paquete no es v'' @ [CHR 0xC3, CHR 0xA1] @ ''lida.''
   | PackageTruncated \<Rightarrow> ''El archivo termina antes de los tama'' @ [CHR 0xC3, CHR 0xB1] @ ''os declarados por el contenedor.''
   | MissingContent \<Rightarrow> ''El paquete no contiene todos los contenidos requeridos por sus metadatos.''
   | InvalidNca \<Rightarrow> ''Uno de los contenidos NCA no pudo validarse correctamente.''
   | FirmwareTooOld \<Rightarrow> ''El contenido requiere una versi'' @ [CHR 0xC3, CHR 0xB3] @ ''n de sistema m'' @ [CHR 0xC3, CHR 0xA1] @
       ''s reciente.''
   | AuthorizationRejected \<Rightarrow> ''Horizon rechaz'' @ [CHR 0xC3, CHR 0xB3] @ '' la autorizaci'' @ [CHR 0xC3, CHR 0xB3] @ ''n o validaci'' @
       [CHR 0xC3, CHR 0xB3] @ ''n necesaria para registrar el contenido.''
   | UsbDisconnected \<Rightarrow> ''La conexi'' @ [CHR 0xC3, CHR 0xB3] @ ''n USB se perdi'' @ [CHR 0xC3, CHR 0xB3] @
       '' antes de terminar la transferencia.''
   | UsbTimeout \<Rightarrow> ''El PC dej'' @ [CHR 0xC3, CHR 0xB3] @ '' de enviar datos durante demasiado tiempo.''
   | UsbUnstable \<Rightarrow> ''Se detectaron errores o interrupciones repetidas durante la transferencia.''
   | UsbSlow \<Rightarrow> ''La transferencia USB es inusualmente lenta.''
   | PlaceholderError \<Rightarrow> ''Horizon no pudo crear el placeholder necesario para instalar el contenido.''
   | RegistrationError \<Rightarrow> ''Los datos se transfirieron, pero Horizon no pudo registrar correctamente la aplicaci'' @
       [CHR 0xC3, CHR 0xB3] @ ''n.''
   | AlreadyInstalled \<Rightarrow> ''La misma versi'' @ [CHR 0xC3, CHR 0xB3] @ ''n, una versi'' @ [CHR 0xC3, CHR 0xB3] @ ''n m'' @
       [CHR 0xC3, CHR 0xA1] @ ''s nueva o una instalaci'' @ [CHR 0xC3, CHR 0xB3] @
       ''n base que no debe reemplazarse ya existe en la consola.''
   | MtpObjectTooLarge \<Rightarrow> ''El host no proporcion'' @ [CHR 0xC3, CHR 0xB3] @ '' un tama'' @ [CHR 0xC3, CHR 0xB1] @ ''o de objeto v'' @
       [CHR 0xC3, CHR 0xA1] @ ''lido para esta transferencia.''
   | Cancelled \<Rightarrow> ''La operaci'' @ [CHR 0xC3, CHR 0xB3] @ ''n fue cancelada por el usuario.''
   | InternalError \<Rightarrow> ''Se produjo un error inesperado durante la operaci'' @ [CHR 0xC3, CHR 0xB3] @ ''n.'')"

definition diag_advice :: "ErrorCode \<Rightarrow> string" where
  "diag_advice c = (case c of
     NoError \<Rightarrow> []
   | NotEnoughSpace \<Rightarrow> ''Libera espacio en la tarjeta SD o selecciona otro destino y vuelve a intentarlo.''
   | StorageSlow \<Rightarrow> ''Comprueba la tarjeta SD, su formato y su estado. Una SD da'' @ [CHR 0xC3, CHR 0xB1] @
       ''ada o muy lenta puede provocar interrupciones.''
   | WriteError \<Rightarrow> ''Comprueba la tarjeta SD y reinicia la consola antes de volver a intentarlo.''
   | UnsupportedFormat \<Rightarrow> ''La primera implementaci'' @ [CHR 0xC3, CHR 0xB3] @
       ''n valida NSP. El soporte de otros contenedores se a'' @ [CHR 0xC3, CHR 0xB1] @ ''adir'' @
       [CHR 0xC3, CHR 0xA1] @ '' al motor de instalaci'' @ [CHR 0xC3, CHR 0xB3] @ ''n.''
   | InvalidPfs0 \<Rightarrow> ''Vuelve a obtener o extraer el archivo. Si proviene de un RAR/ZIP, comprueba que la extracci'' @
       [CHR 0xC3, CHR 0xB3] @ ''n haya terminado sin errores.''
   | PackageTruncated \<Rightarrow> ''Es muy probable que la descarga o la extracci'' @ [CHR 0xC3, CHR 0xB3] @ ''n del RAR/ZIP est'' @
       [CHR 0xC3, CHR 0xA9] @ '' incompleta. Vuelve a extraer el archivo original.''
   | MissingContent \<Rightarrow> ''Obt'' @ [CHR 0xC3, CHR 0xA9] @ ''n de nuevo el paquete completo y verifica su integridad.''
   | InvalidNca \<Rightarrow> ''El archivo puede estar da'' @ [CHR 0xC3, CHR 0xB1] @ ''ado o ser incompatible con la versi'' @
       [CHR 0xC3, CHR 0xB3] @ ''n actual del sistema.''
   | FirmwareTooOld \<Rightarrow> ''Actualiza el firmware y el CFW a versiones compatibles antes de volver a instalar.''
   | AuthorizationRejected \<Rightarrow> ''Comprueba que tu configuraci'' @ [CHR 0xC3, CHR 0xB3] @
       ''n de CFW sea compatible con tu firmware. AIO MOD no omite las validaciones criptogr'' @
       [CHR 0xC3, CHR 0xA1] @ ''ficas del sistema.''
   | UsbDisconnected \<Rightarrow> ''Comprueba el cable USB-C y el puerto del PC. Evita hubs de baja calidad.''
   | UsbTimeout \<Rightarrow> ''Prueba otro cable o puerto USB y evita que el PC entre en suspensi'' @ [CHR 0xC3, CHR 0xB3] @
       ''n durante la transferencia.''
   | UsbUnstable \<Rightarrow> ''Prueba otro cable USB-C o conecta la consola directamente a otro puerto del PC.''
   | UsbSlow \<Rightarrow> ''Esto es una advertencia, no un fallo por s'' @ [CHR 0xC3, CHR 0xAD] @
       '' mismo. Un cable USB 2.0 o un hub puede limitar la velocidad.''
   | PlaceholderError \<Rightarrow> ''Comprueba el espacio libre y reinicia la consola si existe una instalaci'' @ [CHR 0xC3, CHR 0xB3] @
       ''n incompleta pendiente.''
   | RegistrationError \<Rightarrow> ''Reinicia la consola y vuelve a intentar la instalaci'' @ [CHR 0xC3, CHR 0xB3] @ ''n.''
   | AlreadyInstalled \<Rightarrow> ''Para updates/DLC usa una versi'' @ [CHR 0xC3, CHR 0xB3] @ ''n superior. La sustituci'' @
       [CHR 0xC3, CHR 0xB3] @ ''n completa del juego base permanece bloqueada por seguridad.''
   | MtpObjectTooLarge \<Rightarrow> ''Reconecta el cable USB y vuelve a copiar el NSP. AIO MOD admite tama'' @ [CHR 0xC3, CHR 0xB1] @
       ''os MTP extendidos y staging dividido para FAT32.''
   | Cancelled \<Rightarrow> []
   | InternalError \<Rightarrow> ''Guarda el c'' @ [CHR 0xC3, CHR 0xB3] @ ''digo y el log para poder diagnosticar el problema.'')"

section \<open>Making and showing a diagnostic\<close>

text \<open>\<^verbatim>\<open>std::uppercase << std::hex\<close> of an unsigned number.\<close>

fun hex_upper :: "nat \<Rightarrow> string" where
  "hex_upper n =
    (if n < 16 then [''0123456789ABCDEF'' ! n] else hex_upper (n div 16) @ [''0123456789ABCDEF'' ! (n mod 16)])"

declare hex_upper.simps [simp del]

definition resultHex :: "u32 \<Rightarrow> string" where
  "resultHex rc = ''0x'' @ hex_upper (unat rc)"

definition makeDiagnostic :: "ErrorCode \<Rightarrow> string \<Rightarrow> u32 \<Rightarrow> Diagnostic" where
  "makeDiagnostic code tech result =
    \<lparr>d_code = code, aioCode = aio_code code, d_title = diag_title code, d_message = diag_message code,
     d_advice = diag_advice code,
     technical = (if result \<noteq> 0 then (if tech \<noteq> [] then tech @ '' | '' else tech) @ ''Result='' @ resultHex result else tech),
     d_result = result\<rparr>"

definition newline :: string where "newline = [CHR 0x0A]"

definition formatDiagnostic :: "Diagnostic \<Rightarrow> string" where
  "formatDiagnostic d = d_title d @ newline @ newline @ d_message d @
     (if d_advice d \<noteq> [] then newline @ newline @ d_advice d else []) @
     newline @ newline @ ''C'' @ [CHR 0xC3, CHR 0xB3] @ ''digo: '' @ aioCode d @
     (if technical d \<noteq> [] then newline @ ''Detalle: '' @ technical d else [])"

text \<open>\<^verbatim>\<open>sanitizeOneLine\<close>\<close>

definition sanitizeOneLine :: "string \<Rightarrow> string" where
  "sanitizeOneLine s = map (\<lambda>c. if c = CHR 0x0D \<or> c = CHR 0x0A then CHR '' '' else c) s"

section \<open>Lemmas\<close>

lemma makeDiagnostic_simps [simp]:
  "d_code (makeDiagnostic c t r) = c" "aioCode (makeDiagnostic c t r) = aio_code c"
  "technical (makeDiagnostic c t 0) = t" "d_result (makeDiagnostic c t r) = r"
  by (simp_all add: makeDiagnostic_def)

text \<open>The code that is shown identifies the error.\<close>

lemma aio_code_inj: "aio_code a = aio_code b \<longleftrightarrow> a = b"
  by (cases a; cases b) (simp_all add: aio_code_def)

end
