(* ===== verification/Nsp_Manifest.thy ===== *)
theory Nsp_Manifest
  imports Package_Reader Diagnostics
begin

text \<open>
  The container of a staged title: the parser of its table of contents
  (\<^verbatim>\<open>inspectNspManifest\<close> of \<^verbatim>\<open>source/nsp_ncm_probe.cpp\<close>) and the preflight check
  (\<^verbatim>\<open>preflightPackage\<close> of \<^verbatim>\<open>source/installer_diagnostics.cpp\<close>). Both read the package only through
  \<^verbatim>\<open>PackageReader::read\<close>, which is the argument \<open>rd\<close> of the parts they share.
\<close>

section \<open>The tables of a PFS0 container\<close>

definition MAX_PFS0_FILES :: u32 where "MAX_PFS0_FILES = 0x10000"
definition MAX_STRING_TABLE :: u32 where "MAX_STRING_TABLE = 32 * 1024 * 1024"

record Pfs0Entry =
  e_offset :: u64
  e_size :: u64
  e_stringOffset :: u32

definition entry_of_bytes :: "u8 list \<Rightarrow> Pfs0Entry" where
  "entry_of_bytes b = \<lparr>e_offset = of_nat (field 0 8 b), e_size = of_nat (field 8 8 b),
     e_stringOffset = of_nat (field 16 4 b)\<rparr>"

definition entries_of_bytes :: "nat \<Rightarrow> u8 list \<Rightarrow> Pfs0Entry list" where
  "entries_of_bytes n b = map (\<lambda>i. entry_of_bytes (take 24 (drop (24 * i) b))) [0..<n]"

text \<open>Why the tables were refused, with the counts of the header where it was accepted.\<close>

datatype pfs0_refusal = Bad_Magic | Bad_Header u32 u32 | Tables_Out u32 | Entries_Short u32 | Names_Short u32

record Pfs0Tables =
  t_fileCount :: u32
  t_stringTableSize :: u32
  t_dataStart :: u64
  t_entries :: "Pfs0Entry list"
  t_strings :: "u8 list"

text \<open>\<^verbatim>\<open>std::vector<char> strings(stringTableSize + 1, '\0')\<close>: a zero follows the names.\<close>

definition pfs0_tables :: "(nat \<Rightarrow> 's \<Rightarrow> u8 list option \<times> 's) \<Rightarrow> u64 \<Rightarrow> 's \<Rightarrow> pfs0_refusal + Pfs0Tables" where
  "pfs0_tables rd packageSize file =
    (case rd 16 file of
       (None, file) \<Rightarrow> Inl Bad_Magic
     | (Some header, file) \<Rightarrow>
        (let fileCount = of_nat (field 4 4 header) :: u32;
             stringTableSize = of_nat (field 8 4 header) :: u32 in
         if take 4 header \<noteq> map of_char ''PFS0'' then Inl Bad_Magic
         else if fileCount = 0 \<or> MAX_PFS0_FILES < fileCount \<or> MAX_STRING_TABLE < stringTableSize
         then Inl (Bad_Header fileCount stringTableSize)
         else
           (let entriesBytes = ucast fileCount * 24 :: u64 in
            case Option.bind (checkedAdd 16 entriesBytes) (\<lambda>stringStart. checkedAdd stringStart (ucast stringTableSize)) of
              None \<Rightarrow> Inl (Tables_Out fileCount)
            | Some dataStart \<Rightarrow>
                if packageSize < dataStart then Inl (Tables_Out fileCount)
                else case rd (unat entriesBytes) file of
                  (None, file) \<Rightarrow> Inl (Entries_Short fileCount)
                | (Some table, file) \<Rightarrow>
                    (case (if stringTableSize \<noteq> 0 then rd (unat stringTableSize) file else (Some [], file)) of
                       (None, file) \<Rightarrow> Inl (Names_Short fileCount)
                     | (Some names, file) \<Rightarrow>
                         Inr \<lparr>t_fileCount = fileCount, t_stringTableSize = stringTableSize, t_dataStart = dataStart,
                           t_entries = entries_of_bytes (unat fileCount) table, t_strings = names @ [0]\<rparr>))))"

text \<open>The name of an entry, and the bounds check on its bytes.\<close>

definition c_string :: "u8 list \<Rightarrow> string" where
  "c_string b = map (\<lambda>x. char_of (unat x)) (takeWhile (\<lambda>x. x \<noteq> 0) b)"

definition entry_name_ok :: "Pfs0Tables \<Rightarrow> Pfs0Entry \<Rightarrow> bool" where
  "entry_name_ok t e =
    (0 \<in> set (take (unat (t_stringTableSize t - e_stringOffset e)) (drop (unat (e_stringOffset e)) (t_strings t))))"

definition entry_text :: "Pfs0Tables \<Rightarrow> Pfs0Entry \<Rightarrow> string" where
  "entry_text t e = c_string (drop (unat (e_stringOffset e)) (t_strings t))"

definition entry_end :: "u64 \<Rightarrow> Pfs0Tables \<Rightarrow> Pfs0Entry \<Rightarrow> u64 option" where
  "entry_end packageSize t e =
    (case checkedAdd (e_offset e) (e_size e) of
       None \<Rightarrow> None
     | Some z \<Rightarrow> if packageSize - t_dataStart t < z then None else Some z)"

section \<open>The manifest\<close>

record NspEntryInfo =
  n_name :: string
  n_offset :: u64
  n_size :: u64
  isNca :: bool
  isCnmtNca :: bool
  isTicket :: bool
  isCert :: bool
  hasContentId :: bool
  contentId :: "u8 list"

record NspManifest =
  diagnostic :: Diagnostic
  packageSize :: u64
  totalNcaBytes :: u64
  ncaCount :: u32
  cnmtNcaCount :: u32
  ticketCount :: u32
  certCount :: u32
  entries :: "NspEntryInfo list"

definition empty_manifest :: NspManifest where
  "empty_manifest = \<lparr>diagnostic = no_diagnostic, packageSize = 0, totalNcaBytes = 0, ncaCount = 0, cnmtNcaCount = 0,
     ticketCount = 0, certCount = 0, entries = []\<rparr>"

text \<open>\<^verbatim>\<open>NcmContentId{}\<close> is sixteen zeros.\<close>

definition entry_info :: "string \<Rightarrow> u64 \<Rightarrow> u64 \<Rightarrow> NspEntryInfo" where
  "entry_info name off sz =
    (let cnmt = endsWithCaseInsensitive name ''.cnmt.nca'';
         nca = cnmt \<or> endsWithCaseInsensitive name ''.nca'';
         cid = (if nca then parseContentIdFromName name else None) in
     \<lparr>n_name = name, n_offset = off, n_size = sz, isNca = nca, isCnmtNca = cnmt,
      isTicket = endsWithCaseInsensitive name ''.tik'', isCert = endsWithCaseInsensitive name ''.cert'',
      hasContentId = cid \<noteq> None, contentId = (case cid of Some b \<Rightarrow> b | None \<Rightarrow> replicate 16 0)\<rparr>)"

definition add_entry :: "NspEntryInfo \<Rightarrow> NspManifest \<Rightarrow> NspManifest" where
  "add_entry i m = m\<lparr>
     ncaCount := (if isNca i then ncaCount m + 1 else ncaCount m),
     totalNcaBytes := (if isNca i then totalNcaBytes m + n_size i else totalNcaBytes m),
     cnmtNcaCount := (if isCnmtNca i then cnmtNcaCount m + 1 else cnmtNcaCount m),
     ticketCount := (if isTicket i then ticketCount m + 1 else ticketCount m),
     certCount := (if isCert i then certCount m + 1 else certCount m),
     entries := entries m @ [i]\<rparr>"

text \<open>The loop over the entries: \<open>Inl\<close> is a return with an error, \<open>Inr\<close> the end of the loop.\<close>

fun scan_entries :: "Pfs0Tables \<Rightarrow> Pfs0Entry list \<Rightarrow> NspManifest \<Rightarrow> NspManifest + NspManifest" where
  "scan_entries t [] m = Inr m"
| "scan_entries t (e # es) m =
    (if t_stringTableSize t \<le> e_stringOffset e
     then Inl (m\<lparr>diagnostic := makeDiagnostic InvalidPfs0 ''Nombre fuera de rango'' 0\<rparr>)
     else if \<not> entry_name_ok t e
     then Inl (m\<lparr>diagnostic := makeDiagnostic InvalidPfs0 ''Nombre sin terminador'' 0\<rparr>)
     else case entry_end (packageSize m) t e of
       None \<Rightarrow> Inl (m\<lparr>diagnostic :=
         makeDiagnostic PackageTruncated (''Entrada fuera del NSP: '' @ entry_text t e) 0\<rparr>)
     | Some z \<Rightarrow> scan_entries t es
         (add_entry (entry_info (entry_text t e) (t_dataStart t + e_offset e) (e_size e)) m))"

definition check_manifest :: "NspManifest \<Rightarrow> NspManifest" where
  "check_manifest m =
    (if ncaCount m = 0
     then m\<lparr>diagnostic := makeDiagnostic MissingContent ''El NSP no contiene entradas NCA'' 0\<rparr>
     else if cnmtNcaCount m = 0
     then m\<lparr>diagnostic := makeDiagnostic MissingContent ''El NSP no contiene .cnmt.nca'' 0\<rparr>
     else if ticketCount m \<noteq> certCount m
     then m\<lparr>diagnostic := makeDiagnostic MissingContent
       (''Ticket/cert desparejados: tik='' @ to_string (ticketCount m) @ '' cert='' @ to_string (certCount m)) 0\<rparr>
     else case find (\<lambda>e. isNca e \<and> \<not> hasContentId e) (entries m) of
       Some e \<Rightarrow> m\<lparr>diagnostic := makeDiagnostic InvalidNca (''Nombre NCA sin Content ID valido: '' @ n_name e) 0\<rparr>
     | None \<Rightarrow> m\<lparr>diagnostic := makeDiagnostic NoError
         (''manifest OK; nca='' @ to_string (ncaCount m) @ '', cnmt='' @ to_string (cnmtNcaCount m) @
          '', tik='' @ to_string (ticketCount m)) 0\<rparr>)"

definition refusal_diagnostic :: "pfs0_refusal \<Rightarrow> Diagnostic" where
  "refusal_diagnostic x = (case x of
     Bad_Magic \<Rightarrow> makeDiagnostic InvalidPfs0 ''Magic PFS0 ausente'' 0
   | Bad_Header fc sts \<Rightarrow> makeDiagnostic InvalidPfs0 ''Cabecera PFS0 fuera de limites'' 0
   | Tables_Out fc \<Rightarrow> makeDiagnostic PackageTruncated ''Tablas PFS0 fuera del archivo'' 0
   | Entries_Short fc \<Rightarrow> makeDiagnostic PackageTruncated ''Tablas PFS0 incompletas'' 0
   | Names_Short fc \<Rightarrow> makeDiagnostic PackageTruncated ''Tablas PFS0 incompletas'' 0)"

definition inspect_tables :: "(nat \<Rightarrow> 's \<Rightarrow> u8 list option \<times> 's) \<Rightarrow> 's \<Rightarrow> NspManifest \<Rightarrow> NspManifest" where
  "inspect_tables rd file out =
    (case pfs0_tables rd (packageSize out) file of
       Inl x \<Rightarrow> out\<lparr>diagnostic := refusal_diagnostic x\<rparr>
     | Inr t \<Rightarrow> (case scan_entries t (t_entries t) out of Inl m \<Rightarrow> m | Inr m \<Rightarrow> check_manifest m))"

definition inspectNspManifest :: "host \<Rightarrow> string \<Rightarrow> NspManifest" where
  "inspectNspManifest h path =
    (let file = snd (open_package h path);
         out = empty_manifest\<lparr>packageSize := totalSize file\<rparr> in
     if \<not> isOpen file \<or> packageSize out < 16
     then out\<lparr>diagnostic := makeDiagnostic PackageTruncated ''No se pudo leer el NSP'' 0\<rparr>
     else inspect_tables (read_package h) file out)"

section \<open>Preflight\<close>

record PackagePreflight =
  pf_diagnostic :: Diagnostic
  pf_packageSize :: u64
  declaredPayloadSize :: u64
  pf_fileCount :: u32
  packageType :: string

fun preflight_entries :: "u64 \<Rightarrow> Pfs0Tables \<Rightarrow> nat \<Rightarrow> Pfs0Entry list \<Rightarrow> u64 \<Rightarrow> Diagnostic + u64" where
  "preflight_entries fileSize t i [] payloadEnd = Inr payloadEnd"
| "preflight_entries fileSize t i (e # es) payloadEnd =
    (if t_stringTableSize t \<le> e_stringOffset e
     then Inl (makeDiagnostic InvalidPfs0
       ([CHR 0xC3, CHR 0x8D] @ ''ndice de nombre fuera de rango en entrada '' @ decimal i) 0)
     else if \<not> entry_name_ok t e
     then Inl (makeDiagnostic InvalidPfs0 (''Nombre PFS0 sin terminador en entrada '' @ decimal i) 0)
     else case entry_end fileSize t e of
       None \<Rightarrow> Inl (makeDiagnostic PackageTruncated
         (''Contenido fuera del archivo: '' @ sanitizeOneLine (entry_text t e) @
          '' (offset='' @ to_string (e_offset e) @ '', size='' @ to_string (e_size e) @ '')'') 0)
     | Some z \<Rightarrow> preflight_entries fileSize t (i + 1) es (max payloadEnd z))"

definition preflight_refusal :: "pfs0_refusal \<Rightarrow> Diagnostic" where
  "preflight_refusal x = (case x of
     Bad_Magic \<Rightarrow> makeDiagnostic InvalidPfs0 ''Magic PFS0 ausente'' 0
   | Bad_Header fc sts \<Rightarrow> makeDiagnostic InvalidPfs0
       (''file_count='' @ to_string fc @ '', string_table='' @ to_string sts) 0
   | Tables_Out fc \<Rightarrow> makeDiagnostic PackageTruncated
       (''La tabla PFS0 excede el tama'' @ [CHR 0xC3, CHR 0xB1] @ ''o real del archivo'') 0
   | Entries_Short fc \<Rightarrow> makeDiagnostic PackageTruncated ''Tabla de archivos PFS0 incompleta'' 0
   | Names_Short fc \<Rightarrow> makeDiagnostic PackageTruncated ''Tabla de nombres PFS0 incompleta'' 0)"

definition refusal_count :: "pfs0_refusal \<Rightarrow> u32" where
  "refusal_count x = (case x of Bad_Magic \<Rightarrow> 0 | Bad_Header fc sts \<Rightarrow> 0 | Tables_Out fc \<Rightarrow> fc
     | Entries_Short fc \<Rightarrow> fc | Names_Short fc \<Rightarrow> fc)"

text \<open>
  \<open>sdFree\<close> is \<^verbatim>\<open>getSystemSnapshot().sdFreeBytes\<close>, \<open>- 1\<close> when it is unknown. \<open>ext\<close> is the
  extension of the path in lower case.
\<close>

definition preflight_tables :: "(nat \<Rightarrow> 's \<Rightarrow> u8 list option \<times> 's) \<Rightarrow> bool \<Rightarrow> int \<Rightarrow> 's \<Rightarrow> PackagePreflight \<Rightarrow> PackagePreflight" where
  "preflight_tables rd checkSdSpace sdFree file out =
    (case pfs0_tables rd (pf_packageSize out) file of
       Inl x \<Rightarrow> out\<lparr>pf_diagnostic := preflight_refusal x, pf_fileCount := refusal_count x\<rparr>
     | Inr t \<Rightarrow>
        (let out = out\<lparr>pf_fileCount := t_fileCount t\<rparr> in
         case preflight_entries (pf_packageSize out) t 0 (t_entries t) 0 of
           Inl d \<Rightarrow> out\<lparr>pf_diagnostic := d\<rparr>
         | Inr payloadEnd \<Rightarrow>
             (let out = out\<lparr>declaredPayloadSize := payloadEnd\<rparr> in
              if checkSdSpace \<and> 0 \<le> sdFree \<and> sdFree < uint payloadEnd
              then out\<lparr>pf_diagnostic := makeDiagnostic NotEnoughSpace
                (''required='' @ to_string payloadEnd @ '', free='' @ decimal (nat sdFree)) 0\<rparr>
              else out\<lparr>pf_diagnostic := makeDiagnostic NoError
                (''PFS0 OK; files='' @ to_string (t_fileCount t) @ '', payload='' @ to_string payloadEnd) 0\<rparr>)))"

definition preflightPackage :: "host \<Rightarrow> string \<Rightarrow> string \<Rightarrow> bool \<Rightarrow> int \<Rightarrow> PackagePreflight" where
  "preflightPackage h ext path checkSdSpace sdFree =
    (let out = \<lparr>pf_diagnostic = no_diagnostic, pf_packageSize = 0, declaredPayloadSize = 0, pf_fileCount = 0,
           packageType = (if ext = [] then ''unknown'' else tl ext)\<rparr> in
     if ext \<noteq> ''.nsp''
     then out\<lparr>pf_diagnostic := makeDiagnostic UnsupportedFormat (''extension='' @ ext) 0\<rparr>
     else
       (let file = snd (open_package h path) in
        if \<not> isOpen file \<or> totalSize file < 16
        then out\<lparr>pf_diagnostic := makeDiagnostic PackageTruncated
          (''No se pudo leer el tama'' @ [CHR 0xC3, CHR 0xB1] @ ''o del NSP o es demasiado peque'' @
           [CHR 0xC3, CHR 0xB1] @ ''o'') 0\<rparr>
        else preflight_tables (read_package h) checkSdSpace sdFree file (out\<lparr>pf_packageSize := totalSize file\<rparr>)))"

end
