(* ===== verification/Package_Logic.thy ===== *)
theory Package_Logic
  imports Package_Reader
begin

text \<open>
  The reader of packages is correct: however a package is split into parts, a read that reports
  success returns the bytes at the current position of the parts put together.
\<close>

definition whole :: "host \<Rightarrow> reader \<Rightarrow> u8 list" where
  "whole h r = concat (map (bytes_of h) (partPaths r))"

definition start_of :: "host \<Rightarrow> string list \<Rightarrow> nat \<Rightarrow> nat" where
  "start_of h ps i = length (concat (map (bytes_of h) (take i ps)))"

definition reader_ok :: "host \<Rightarrow> reader \<Rightarrow> bool" where
  "reader_ok h r = (partPaths r \<noteq> [] \<and> length (whole h r) < 2 ^ 63 \<and>
     partSizes r = map (\<lambda>p. of_nat (length (bytes_of h p))) (partPaths r) \<and>
     partStarts r = map (\<lambda>i. of_nat (start_of h (partPaths r) i)) [0..<length (partPaths r)] \<and>
     totalSize r = of_nat (length (whole h r)) \<and> unat (position r) \<le> length (whole h r) \<and>
     (\<forall>f n. stream r = Some (f, n) \<longrightarrow>
        (\<exists>i < length (partPaths r). currentPart r = Some i \<and> partPaths r ! i = f)))"

definition openable :: "host \<Rightarrow> reader \<Rightarrow> bool" where
  "openable h r = (\<forall>p \<in> set (partPaths r). p \<notin> open_fails h \<and> files h p \<noteq> None)"

section \<open>Splitting the whole\<close>

lemma drop_concat:
  "i < length cs \<Longrightarrow> l \<le> length (cs ! i) \<Longrightarrow>
    drop (length (concat (take i cs)) + l) (concat cs) = drop l (cs ! i) @ concat (drop (Suc i) cs)"
proof (induction i arbitrary: cs)
  case 0
  then show ?case by (cases cs) auto
next
  case (Suc i)
  then show ?case by (cases cs) (auto simp: add.assoc)
qed

lemma start_of_0 [simp]: "start_of h ps 0 = 0"
  by (simp add: start_of_def)

lemma start_of_Suc: "i < length ps \<Longrightarrow> start_of h ps (Suc i) = start_of h ps i + length (bytes_of h (ps ! i))"
  by (simp add: start_of_def take_Suc_conv_app_nth)

lemma start_of_all: "start_of h (partPaths r) (length (partPaths r)) = length (whole h r)"
  by (simp add: start_of_def whole_def)

lemma start_of_le: "start_of h (partPaths r) i \<le> length (whole h r)"
proof -
  have "partPaths r = take i (partPaths r) @ drop i (partPaths r)" by simp
  then have "whole h r = concat (map (bytes_of h) (take i (partPaths r))) @ concat (map (bytes_of h) (drop i (partPaths r)))"
    unfolding whole_def by (metis concat_append map_append)
  then show ?thesis by (simp add: start_of_def)
qed

lemma unat_small: "n < 2 ^ 63 \<Longrightarrow> unat (of_nat n :: u64) = n"
  by (simp add: unat_of_nat)

lemma unat_start:
  "reader_ok h r \<Longrightarrow> unat (of_nat (start_of h (partPaths r) i) :: u64) = start_of h (partPaths r) i"
  using start_of_le [of h r i] by (intro unat_small) (simp add: reader_ok_def)

section \<open>Finding the part of a position\<close>

lemma upper_bound_starts:
  assumes r: "reader_ok h r" and x: "unat x < length (whole h r)"
  obtains i where "upper_bound (partStarts r) x = Suc i" "i < length (partPaths r)"
    "start_of h (partPaths r) i \<le> unat x" "unat x < start_of h (partPaths r) (Suc i)"
proof -
  let ?n = "length (partPaths r)" and ?S = "start_of h (partPaths r)"
  let ?P = "\<lambda>i. ?S i \<le> unat x"
  have "upper_bound (partStarts r) x = length (takeWhile ?P [0..<?n])"
    using r unat_start [OF r]
    by (simp add: upper_bound_def reader_ok_def takeWhile_map comp_def word_le_nat_alt)
  moreover define m where "m = length (takeWhile ?P [0..<?n])"
  moreover have "m \<le> ?n" unfolding m_def using length_takeWhile_le [of ?P "[0..<?n]"] by simp
  have below: "?P i" if "i < m" for i
  proof -
    have "takeWhile ?P [0..<?n] ! i = i"
      using that \<open>m \<le> ?n\<close> unfolding m_def by (simp add: takeWhile_nth)
    then show ?thesis using that unfolding m_def by (metis nth_mem set_takeWhileD)
  qed
  have above: "unat x < ?S m"
  proof (cases "m < ?n")
    case True
    then have "\<not> ?P ([0..<?n] ! m)" unfolding m_def by (intro nth_length_takeWhile) simp
    with True show ?thesis by simp
  next
    case False
    with \<open>m \<le> ?n\<close> x show ?thesis by (simp add: start_of_all)
  qed
  then have "m \<noteq> 0" by (intro notI) simp
  then obtain i where i: "m = Suc i" by (cases m) auto
  ultimately show thesis using that [of i] below [of i] above \<open>m \<le> ?n\<close> by simp
qed

lemma locatePart_inside:
  assumes r: "reader_ok h r" and x: "unat x < length (whole h r)"
  obtains i l where "locatePart r x = Some (i, l)" "i < length (partPaths r)"
    "unat x = start_of h (partPaths r) i + unat l" "unat l < length (bytes_of h (partPaths r ! i))"
proof -
  obtain i where i: "upper_bound (partStarts r) x = Suc i" "i < length (partPaths r)"
      "start_of h (partPaths r) i \<le> unat x" "unat x < start_of h (partPaths r) (Suc i)"
    by (rule upper_bound_starts [OF r x])
  have total: "unat (totalSize r) = length (whole h r)"
    using r by (simp add: reader_ok_def unat_small)
  have start: "partStarts r ! i = of_nat (start_of h (partPaths r) i)" using r i(2) by (simp add: reader_ok_def)
  have "partPaths r \<noteq> []" "\<not> totalSize r < x" "x \<noteq> totalSize r"
    using r x total by (auto simp: reader_ok_def word_less_nat_alt)
  then have "locatePart r x = Some (i, x - partStarts r ! i)"
    using i by (simp add: locatePart_def Let_def)
  moreover have "unat (x - partStarts r ! i) = unat x - start_of h (partPaths r) i"
    using i(3) unat_start [OF r, of i] start by (simp add: unat_sub word_le_nat_alt)
  ultimately show thesis using that [of i "x - partStarts r ! i"] i by (simp add: start_of_Suc)
qed

section \<open>Opening parts\<close>

text \<open>Two readers of the same package.\<close>

definition same_package :: "reader \<Rightarrow> reader \<Rightarrow> bool" where
  "same_package r r' = (partPaths r' = partPaths r \<and> partSizes r' = partSizes r \<and> partStarts r' = partStarts r \<and>
     totalSize r' = totalSize r)"

lemma same_whole: "same_package r r' \<Longrightarrow> whole h r' = whole h r"
  by (simp add: same_package_def whole_def)

lemma openPart_ok:
  assumes r: "reader_ok h r" and i: "i < length (partPaths r)" and l: "unat l < 2 ^ 63"
    and o: "openPart h r i l = (b, r')"
  shows "same_package r r'" and "reader_ok h r'" and "position r' = position r"
    and "b \<Longrightarrow> stream r' = Some (partPaths r ! i, unat l)" and "openable h r \<Longrightarrow> b"
proof -
  show "same_package r r'" "reader_ok h r'" "position r' = position r"
    "b \<Longrightarrow> stream r' = Some (partPaths r ! i, unat l)"
    using assms by (auto simp: openPart_def reader_ok_def same_package_def whole_def Let_def split: if_splits)
  assume "openable h r"
  then have "partPaths r ! i \<notin> open_fails h \<and> files h (partPaths r ! i) \<noteq> None"
    using i nth_mem by (simp add: openable_def)
  then show b using i l o by (auto simp: openPart_def Let_def split: if_splits)
qed

section \<open>Reading\<close>

lemma read_loop_correct:
  "reader_ok h r \<Longrightarrow> unat (position r) + n \<le> length (whole h r) \<Longrightarrow> read_loop h r n dst = (res, r') \<Longrightarrow>
    same_package r r' \<and> reader_ok h r' \<and> (openable h r \<longrightarrow> res \<noteq> None) \<and>
    (res = None \<or> res = Some (dst @ take n (drop (unat (position r)) (whole h r))) \<and>
       unat (position r') = unat (position r) + n)"
proof (induction n arbitrary: r dst rule: less_induct)
  case (less n)
  show ?case
  proof (cases "n = 0")
    case True
    with less.prems show ?thesis by (auto simp: read_loop.simps same_package_def)
  next
    case False
    let ?x = "position r"
    have x: "unat ?x < length (whole h r)" using False less.prems(2) by simp
    obtain i l where loc: "locatePart r ?x = Some (i, l)" "i < length (partPaths r)"
        "unat ?x = start_of h (partPaths r) i + unat l" "unat l < length (bytes_of h (partPaths r ! i))"
      by (rule locatePart_inside [OF less.prems(1) x])
    let ?f = "partPaths r ! i"
    define k where "k = min n (length (bytes_of h ?f) - unat l)"
    have k: "0 < k" "k \<le> n" "k \<le> length (bytes_of h ?f) - unat l" using False loc(4) by (auto simp: k_def)
    have size: "length (bytes_of h ?f) < 2 ^ 63"
      using start_of_le [of h r "Suc i"] less.prems(1) loc(2) by (simp add: start_of_Suc reader_ok_def)
    then have l63: "unat l < 2 ^ 63" using loc(4) by simp
    have "unat (partSizes r ! i - l) = length (bytes_of h ?f) - unat l"
      using less.prems(1) loc(2,4) unat_small [OF size]
      by (simp add: reader_ok_def unat_sub word_le_nat_alt)
    then have avail: "min n (unat (partSizes r ! i - l)) = k" by (simp add: k_def)
    obtain b r1 where o: "openPart h r i l = (b, r1)" by fastforce
    note r1 = openPart_ok [OF less.prems(1) loc(2) l63 o]
    show ?thesis
    proof (cases b)
      case False
      with less.prems(3) \<open>n \<noteq> 0\<close> loc(1) o have "res = None" "r' = r1"
        by (simp_all add: read_loop.simps)
      with r1 False show ?thesis by auto
    next
      case True
      let ?got = "take k (drop (unat l) (bytes_of h ?f))"
      let ?r2 = "r1\<lparr>stream := Some (?f, unat l + k), position := position r1 + of_nat k\<rparr>"
      have sizes: "partSizes r1 = partSizes r" using r1(1) by (simp add: same_package_def)
      have got: "stream_read h r1 k = (?got, r1\<lparr>stream := Some (?f, unat l + k)\<rparr>)" "length ?got = k"
        using r1(4) True k by (simp_all add: stream_read_def Let_def)
      have step: "read_loop h r n dst = read_loop h ?r2 (n - k) (dst @ ?got)"
        using \<open>n \<noteq> 0\<close> loc(1) o True avail got k(1) sizes
        by (subst read_loop.simps) (simp add: Let_def)
      have whole63: "length (whole h r) < 2 ^ 63" using less.prems(1) by (simp add: reader_ok_def)
      have pos: "unat (position r1 + of_nat k) = unat ?x + k"
        using r1(3) less.prems(2) k(2) whole63 by (simp add: unat_word_ariths unat_of_nat)
      have same2: "same_package r ?r2" using r1(1) by (simp add: same_package_def)
      then have whole2: "whole h ?r2 = whole h r" by (rule same_whole)
      have ok2: "reader_ok h ?r2"
        using r1(2) r1(4) [OF True] r1(1) pos less.prems(2) k(2) whole2
        by (auto simp: reader_ok_def same_package_def whole_def)
      have "openable h ?r2 = openable h r" using same2 by (simp add: openable_def same_package_def)
      moreover have "take k (drop (unat ?x) (whole h r)) = ?got"
        using loc(2-4) k(3) drop_concat [of i "map (bytes_of h) (partPaths r)" "unat l"]
        by (simp add: whole_def start_of_def take_map)
      then have "take n (drop (unat ?x) (whole h r)) = ?got @ take (n - k) (drop (unat ?x + k) (whole h r))"
        using k(2) take_add [of k "n - k" "drop (unat ?x) (whole h r)"] by (simp add: add.commute)
      moreover have "n - k < n" using k \<open>n \<noteq> 0\<close> by simp
      note IH = less.IH [OF this ok2, of "dst @ ?got"]
      ultimately show ?thesis
        using IH less.prems(2,3) step pos k(2) whole2 same2
        by (auto simp: same_package_def)
    qed
  qed
qed

text \<open>The contract of \<^verbatim>\<open>read\<close>.\<close>

lemma read_package_correct:
  assumes r: "reader_ok h r" and n: "n < 2 ^ 63" and rd: "read_package h n r = (res, r')"
  shows "same_package r r'" and "reader_ok h r'"
    and "res = Some bs \<Longrightarrow> bs = take n (drop (unat (position r)) (whole h r)) \<and> length bs = n \<and>
      unat (position r') = unat (position r) + n"
    and "openable h r \<Longrightarrow> unat (position r) + n \<le> length (whole h r) \<Longrightarrow> res \<noteq> None"
proof -
  have total: "unat (totalSize r) = length (whole h r)" using r by (simp add: reader_ok_def unat_small)
  have pos: "unat (position r) \<le> length (whole h r)" using r by (simp add: reader_ok_def)
  then have "\<not> totalSize r < position r" "unat (totalSize r - position r) = length (whole h r) - unat (position r)"
    using total by (simp_all add: word_less_nat_alt unat_sub word_le_nat_alt)
  then have eq: "read_package h n r =
      (if n = 0 then (Some [], r)
       else if length (whole h r) < unat (position r) + n then (None, r) else read_loop h r n [])"
    using pos by (simp add: read_package_def) linarith
  consider "n = 0" | "n \<noteq> 0" "length (whole h r) < unat (position r) + n" | "n \<noteq> 0" "unat (position r) + n \<le> length (whole h r)"
    by linarith
  note cases = this
  have "same_package r r' \<and> reader_ok h r' \<and>
    (res = Some bs \<longrightarrow> bs = take n (drop (unat (position r)) (whole h r)) \<and> length bs = n \<and>
      unat (position r') = unat (position r) + n) \<and>
    (openable h r \<longrightarrow> unat (position r) + n \<le> length (whole h r) \<longrightarrow> res \<noteq> None)" for bs
    using cases
  proof cases
    case 3
    with rd eq have "read_loop h r n [] = (res, r')" by simp
    from read_loop_correct [OF r 3(2) this] show ?thesis using 3 by auto
  qed (use rd eq r in \<open>auto simp: same_package_def\<close>)
  then show "same_package r r'" "reader_ok h r'"
    "res = Some bs \<Longrightarrow> bs = take n (drop (unat (position r)) (whole h r)) \<and> length bs = n \<and>
      unat (position r') = unat (position r) + n"
    "openable h r \<Longrightarrow> unat (position r) + n \<le> length (whole h r) \<Longrightarrow> res \<noteq> None"
    by blast+
qed

section \<open>Opening a package\<close>

definition measured :: "host \<Rightarrow> string list \<Rightarrow> reader \<Rightarrow> bool" where
  "measured h qs r = (partSizes r = map (\<lambda>p. of_nat (length (bytes_of h p))) qs \<and>
     partStarts r = map (\<lambda>i. of_nat (start_of h qs i)) [0..<length qs] \<and>
     totalSize r = of_nat (length (concat (map (bytes_of h) qs))))"

lemma measured_snoc:
  assumes "measured h qs r"
  shows "measured h (qs @ [p]) (r\<lparr>partStarts := partStarts r @ [totalSize r],
     partSizes := partSizes r @ [of_nat (length (bytes_of h p))], totalSize := totalSize r + of_nat (length (bytes_of h p))\<rparr>)"
proof -
  have "start_of h (qs @ [p]) i = start_of h qs i" if "i < length qs" for i
    using that by (simp add: start_of_def)
  moreover have "start_of h (qs @ [p]) (length qs) = length (concat (map (bytes_of h) qs))"
    by (simp add: start_of_def)
  ultimately show ?thesis using assms by (simp add: measured_def)
qed

lemma measure_parts_ok:
  "measure_parts h r ps = (True, r') \<Longrightarrow> measured h qs r \<Longrightarrow>
    measured h (qs @ ps) r' \<and> partPaths r' = partPaths r \<and> position r' = position r \<and> stream r' = stream r"
proof (induction ps arbitrary: qs r)
  case (Cons p ps)
  obtain s ec where fs: "file_size h p = (s, ec)" by fastforce
  with Cons.prems(1) have "\<not> ec" by (auto split: bool.splits)
  with fs have s: "s = of_nat (length (bytes_of h p))" by (auto simp: file_size_def split: if_splits)
  let ?r = "r\<lparr>partStarts := partStarts r @ [totalSize r], partSizes := partSizes r @ [s], totalSize := totalSize r + s\<rparr>"
  have "measure_parts h ?r ps = (True, r')" using Cons.prems(1) fs \<open>\<not> ec\<close> by simp
  from Cons.IH [OF this, of "qs @ [p]"] show ?case
    using measured_snoc [OF Cons.prems(2), of p] by (simp add: s)
qed simp

lemma open_package_ok:
  assumes "open_package h base = (True, r)" and "length (concat (map (bytes_of h) (discoverParts h base))) < 2 ^ 63"
  shows "reader_ok h r" and "position r = 0" and "partPaths r = discoverParts h base" and "stream r \<noteq> None"
proof -
  let ?r0 = "closed_reader\<lparr>rpath := base, partPaths := discoverParts h base\<rparr>"
  obtain ok r1 where m: "measure_parts h ?r0 (discoverParts h base) = (ok, r1)" by fastforce
  with assms(1) have ne: "discoverParts h base \<noteq> []" and o: "openPart h r1 0 0 = (True, r)"
    by (auto simp: open_package_def Let_def split: if_splits bool.splits)
  from assms(1) m ne have "ok" by (auto simp: open_package_def Let_def split: bool.splits)
  with m have "measured h ([] @ discoverParts h base) r1 \<and> partPaths r1 = partPaths ?r0 \<and> position r1 = position ?r0 \<and>
      stream r1 = stream ?r0"
    by (intro measure_parts_ok) (simp_all add: measured_def closed_reader_def)
  then have r1: "reader_ok h r1" "partPaths r1 = discoverParts h base" "position r1 = 0"
    using ne assms(2) by (simp_all add: reader_ok_def measured_def whole_def closed_reader_def)
  have "0 < length (partPaths r1)" using r1(2) ne by simp
  note step = openPart_ok [OF r1(1) this _ o]
  show "reader_ok h r" "position r = 0" "partPaths r = discoverParts h base" "stream r \<noteq> None"
    using step(1-4) r1 by (simp_all add: same_package_def)
qed

end
