(* ===== verification/Nsp_Logic.thy ===== *)
theory Nsp_Logic
  imports Nsp_Manifest Package_Logic
begin

text \<open>
  The parsers of Nsp_Manifest are right. The locale \<open>byte_source\<close> is the interface of
  \<^verbatim>\<open>PackageReader::read\<close> the parsers rely on, \<open>full_source\<close> adds that reads inside the package
  succeed; both are interpreted on the model of the reader. \<open>parse_pfs0\<close> is the reference
  definition of the container's tables, on its bytes, and \<open>pack_files\<close> builds a container.
\<close>

section \<open>Little-endian fields\<close>

fun put_le :: "nat \<Rightarrow> nat \<Rightarrow> u8 list" where
  "put_le 0 x = []"
| "put_le (Suc n) x = of_nat (x mod 256) # put_le n (x div 256)"

lemma length_put_le [simp]: "length (put_le n x) = n"
  by (induction n arbitrary: x) simp_all

lemma le_bound: "le bs < 256 ^ length bs"
proof (induction bs)
  case (Cons b bs)
  have "unat b + 256 * le bs < 256 + 256 * le bs" using unat_byte [of b] by simp
  also have "\<dots> \<le> 256 * 256 ^ length bs" using Cons by simp
  finally show ?case by simp
qed simp

lemma le_put_le: "x < 256 ^ n \<Longrightarrow> le (put_le n x) = x"
proof (induction n arbitrary: x)
  case (Suc n)
  then have "x div 256 < 256 ^ n" by (simp add: less_mult_imp_div_less mult.commute)
  with Suc.IH [of "x div 256"] show ?case by (simp add: unat_of_nat)
qed simp

lemma field_bound: "field off n bs < 256 ^ n"
proof -
  have "le (take n (drop off bs)) < 256 ^ length (take n (drop off bs))" by (rule le_bound)
  also have "\<dots> \<le> 256 ^ n" by (rule power_increasing) simp_all
  finally show ?thesis by (simp add: field_def)
qed

section \<open>The tables of a container, on its bytes\<close>

definition parse_pfs0 :: "u8 list \<Rightarrow> pfs0_refusal + Pfs0Tables" where
  "parse_pfs0 c =
    (let fc = field 4 4 c; sts = field 8 4 c; names = 16 + 24 * fc in
     if take 4 c \<noteq> map of_char ''PFS0'' then Inl Bad_Magic
     else if fc = 0 \<or> 65536 < fc \<or> 33554432 < sts then Inl (Bad_Header (of_nat fc) (of_nat sts))
     else if length c < names + sts then Inl (Tables_Out (of_nat fc))
     else Inr \<lparr>t_fileCount = of_nat fc, t_stringTableSize = of_nat sts, t_dataStart = of_nat (names + sts),
       t_entries = entries_of_bytes fc (drop 16 c), t_strings = take sts (drop names c) @ [0]\<rparr>)"

lemma field_take: "off + n \<le> m \<Longrightarrow> field off n (take m bs) = field off n bs"
  by (simp add: field_def drop_take min_def)

lemma entries_of_bytes_take: "entries_of_bytes n (take (24 * n) b) = entries_of_bytes n b"
proof -
  have "take 24 (drop (24 * i) (take (24 * n) b)) = take 24 (drop (24 * i) b)" if "i < n" for i
  proof -
    have "24 \<le> 24 * n - 24 * i" using that by simp
    then show ?thesis by (simp add: drop_take min_def)
  qed
  then show ?thesis by (simp add: entries_of_bytes_def)
qed

lemma table_sums:
  assumes "fc \<le> 65536" and "sts \<le> 33554432"
  shows "unat (ucast (of_nat fc :: u32) * 24 :: u64) = 24 * fc"
    and "unat (of_nat sts :: u32) = sts"
    and "Option.bind (checkedAdd 16 (ucast (of_nat fc :: u32) * 24)) (\<lambda>a. checkedAdd a (ucast (of_nat sts :: u32))) =
      Some (of_nat (16 + 24 * fc + sts))"
proof -
  have f: "unat (ucast (of_nat fc :: u32) :: u64) = fc" and s: "unat (ucast (of_nat sts :: u32) :: u64) = sts"
    using assms by (simp_all add: unsigned_ucast_eq unat_of_nat take_bit_eq_mod)
  then show e: "unat (ucast (of_nat fc :: u32) * 24 :: u64) = 24 * fc"
    using assms by (simp add: unat_word_ariths)
  show "unat (of_nat sts :: u32) = sts" using assms by (simp add: unat_of_nat)
  let ?e = "ucast (of_nat fc :: u32) * 24 :: u64" and ?s = "ucast (of_nat sts :: u32) :: u64"
  have "checkedAdd 16 ?e = Some (16 + ?e)" using e assms by (simp add: checkedAdd_Some)
  moreover have "unat (16 + ?e) = 16 + 24 * fc" using checkedAdd_nat [OF calculation] e by simp
  moreover have "checkedAdd (16 + ?e) ?s = Some (16 + ?e + ?s)"
    using calculation(2) s assms by (simp add: checkedAdd_Some)
  moreover have "unat (16 + ?e + ?s) = 16 + 24 * fc + sts"
    using checkedAdd_nat [OF calculation(3)] calculation(2) s by simp
  then have "16 + ?e + ?s = of_nat (16 + 24 * fc + sts)"
    using assms unat_small [of "16 + 24 * fc + sts"] by (intro word_unat_eq_iff [THEN iffD2]) simp
  ultimately show "Option.bind (checkedAdd 16 ?e) (\<lambda>a. checkedAdd a ?s) = Some (of_nat (16 + 24 * fc + sts))" by simp
qed

text \<open>The parser with its counts as natural numbers.\<close>

lemma counts:
  "fc < 2 ^ 32 \<Longrightarrow> sts < 2 ^ 32 \<Longrightarrow>
    (of_nat fc = (0 :: u32) \<or> MAX_PFS0_FILES < of_nat fc \<or> MAX_STRING_TABLE < of_nat sts) \<longleftrightarrow>
    (fc = 0 \<or> 65536 < fc \<or> 33554432 < sts)"
  by (simp add: MAX_PFS0_FILES_def MAX_STRING_TABLE_def word_less_nat_alt unat_of_nat word_unat_eq_iff)

lemma pfs0_tables_header:
  assumes "rd 16 s = (Some header, s1)" and "fc = field 4 4 header" and "sts = field 8 4 header"
  shows "pfs0_tables rd sz s =
    (if take 4 header \<noteq> map of_char ''PFS0'' then Inl Bad_Magic
     else if fc = 0 \<or> 65536 < fc \<or> 33554432 < sts then Inl (Bad_Header (of_nat fc) (of_nat sts))
     else if sz < of_nat (16 + 24 * fc + sts) then Inl (Tables_Out (of_nat fc))
     else case rd (24 * fc) s1 of
       (None, _) \<Rightarrow> Inl (Entries_Short (of_nat fc))
     | (Some table, s2) \<Rightarrow>
         (case (if sts \<noteq> 0 then rd sts s2 else (Some [], s2)) of
            (None, _) \<Rightarrow> Inl (Names_Short (of_nat fc))
          | (Some names, _) \<Rightarrow>
              Inr \<lparr>t_fileCount = of_nat fc, t_stringTableSize = of_nat sts, t_dataStart = of_nat (16 + 24 * fc + sts),
                t_entries = entries_of_bytes fc table, t_strings = names @ [0]\<rparr>))"
proof -
  have b: "fc < 2 ^ 32" "sts < 2 ^ 32" using assms(2,3) field_bound [of 4 4 header] field_bound [of 8 4 header] by simp_all
  note b' = counts [OF b]
  have u: "unat (of_nat fc :: u32) = fc" using b by (simp add: unat_of_nat)
  consider "take 4 header \<noteq> map of_char ''PFS0''" | "fc = 0 \<or> 65536 < fc \<or> 33554432 < sts"
    | "take 4 header = map of_char ''PFS0''" "\<not> (fc = 0 \<or> 65536 < fc \<or> 33554432 < sts)" by blast
  note cases = this
  show ?thesis
    using cases
  proof cases
    case 3
    then have lim: "fc \<le> 65536" "sts \<le> 33554432" by simp_all
    note sums = table_sums [OF lim]
    have z: "(of_nat sts :: u32) \<noteq> 0 \<longleftrightarrow> sts \<noteq> 0" using sums(2) by (metis unat_eq_zero)
    show ?thesis
      unfolding pfs0_tables_def assms(1) prod.case option.case assms(2) [symmetric] assms(3) [symmetric] Let_def b' u
        sums z
      using 3 by (auto split: prod.splits option.splits)
  next
    case 1
    then show ?thesis by (simp add: pfs0_tables_def assms(1) del: list.map)
  next
    case 2
    then have "of_nat fc = (0 :: u32) \<or> MAX_PFS0_FILES < of_nat fc \<or> MAX_STRING_TABLE < of_nat sts" using b' by blast
    then show ?thesis
      using 2 unfolding pfs0_tables_def assms(1) prod.case option.case assms(2) [symmetric] assms(3) [symmetric] Let_def
      by presburger
  qed
qed

section \<open>The interface of the reader\<close>

locale byte_source =
  fixes rd :: "nat \<Rightarrow> 's \<Rightarrow> u8 list option \<times> 's" and content :: "'s \<Rightarrow> u8 list" and pos :: "'s \<Rightarrow> nat"
    and ok :: "'s \<Rightarrow> bool"
  assumes rd_keeps: "ok s \<Longrightarrow> n < 2 ^ 63 \<Longrightarrow> rd n s = (res, s') \<Longrightarrow> ok s' \<and> content s' = content s"
    and rd_bytes: "ok s \<Longrightarrow> n < 2 ^ 63 \<Longrightarrow> rd n s = (Some bs, s') \<Longrightarrow>
      bs = take n (drop (pos s) (content s)) \<and> length bs = n \<and> pos s' = pos s + n"
begin

lemma pfs0_tables_sound:
  assumes s: "ok s" "pos s = 0" "length (content s) < 2 ^ 63"
    and t: "pfs0_tables rd (of_nat (length (content s))) s = Inr t"
  shows "parse_pfs0 (content s) = Inr t"
proof -
  let ?c = "content s"
  define fc sts where "fc = field 4 4 ?c" and "sts = field 8 4 ?c"
  obtain header s1 where h: "rd 16 s = (Some header, s1)"
    using t by (cases "rd 16 s"; cases "fst (rd 16 s)") (auto simp: pfs0_tables_def)
  have s1: "ok s1" "content s1 = ?c" "pos s1 = 16" "header = take 16 ?c"
    using rd_keeps [OF s(1) _ h] rd_bytes [OF s(1) _ h] s(2) by auto
  have fields: "fc = field 4 4 header" "sts = field 8 4 header" "take 4 header = take 4 ?c"
    using s1(4) by (simp_all add: field_take min_def fc_def sts_def)
  note eq = t [unfolded pfs0_tables_header [of rd s header s1 fc sts, OF h fields(1,2)]]
  have magic: "take 4 ?c = map of_char ''PFS0''" "\<not> (fc = 0 \<or> 65536 < fc \<or> 33554432 < sts)"
    using eq fields(3) by (auto split: if_splits)
  have le: "\<not> (of_nat (length ?c) :: u64) < of_nat (16 + 24 * fc + sts)"
    using eq magic fields(3) by (auto split: if_splits)
  have "unat (of_nat (16 + 24 * fc + sts) :: u64) = 16 + 24 * fc + sts"
    using magic(2) by (intro unat_small) simp
  then have len: "16 + 24 * fc + sts \<le> length ?c"
    using le unat_small [OF s(3)] by (simp add: word_less_nat_alt del: of_nat_add)
  obtain table s2 where tb: "rd (24 * fc) s1 = (Some table, s2)"
    using eq magic fields(3) le by (cases "rd (24 * fc) s1"; cases "fst (rd (24 * fc) s1)") auto
  have s2: "ok s2" "content s2 = ?c" "pos s2 = 16 + 24 * fc" "table = take (24 * fc) (drop 16 ?c)"
    using rd_keeps [OF s1(1) _ tb] rd_bytes [OF s1(1) _ tb] s1 magic(2) by simp_all
  obtain names s3 where nm: "(if sts \<noteq> 0 then rd sts s2 else (Some [], s2)) = (Some names, s3)"
    using eq magic fields(3) le tb by (cases "if sts \<noteq> 0 then rd sts s2 else (Some [], s2)") (auto split: option.splits)
  have "names = take sts (drop (16 + 24 * fc) ?c)"
    using nm rd_bytes [OF s2(1), of sts names s3] s2 magic(2) by (cases "sts = 0") auto
  then show ?thesis
    using eq magic fields(3) le tb nm s2(4) len
    by (simp add: parse_pfs0_def fc_def [symmetric] sts_def [symmetric] Let_def entries_of_bytes_take)
qed

end

locale full_source = byte_source +
  assumes rd_full: "ok s \<Longrightarrow> n < 2 ^ 63 \<Longrightarrow> pos s + n \<le> length (content s) \<Longrightarrow> fst (rd n s) \<noteq> None"
begin

lemma rd_some:
  assumes "ok s" and "n < 2 ^ 63" and "pos s + n \<le> length (content s)"
  obtains bs s' where "rd n s = (Some bs, s')" "ok s'" "content s' = content s" "bs = take n (drop (pos s) (content s))"
    "pos s' = pos s + n"
proof -
  obtain bs s' where rd: "rd n s = (Some bs, s')" using rd_full [OF assms] by (cases "rd n s") auto
  show thesis
    by (rule that [OF rd]) (use rd_keeps [OF assms(1,2) rd] rd_bytes [OF assms(1,2) rd] in \<open>simp_all\<close>)
qed

lemma pfs0_tables_eq:
  assumes s: "ok s" "pos s = 0" "length (content s) < 2 ^ 63" "16 \<le> length (content s)"
  shows "pfs0_tables rd (of_nat (length (content s))) s = parse_pfs0 (content s)"
proof -
  let ?c = "content s"
  define fc sts where "fc = field 4 4 ?c" and "sts = field 8 4 ?c"
  obtain header s1 where h: "rd 16 s = (Some header, s1)" "ok s1" "content s1 = ?c" "header = take 16 ?c" "pos s1 = 16"
    by (rule rd_some [OF s(1), of 16]) (use s(2,4) in auto)
  have fields: "fc = field 4 4 header" "sts = field 8 4 header" "take 4 header = take 4 ?c"
    using h(4) by (simp_all add: field_take min_def fc_def sts_def)
  note eq = pfs0_tables_header [of rd s header s1 fc sts, OF h(1) fields(1,2), unfolded fields(3)]
  show ?thesis
  proof (cases "take 4 ?c = map of_char ''PFS0'' \<and> \<not> (fc = 0 \<or> 65536 < fc \<or> 33554432 < sts)")
    case False
    then show ?thesis
      unfolding eq parse_pfs0_def fc_def [symmetric] sts_def [symmetric] Let_def by presburger
  next
    case True
    then have lim: "fc \<le> 65536" "sts \<le> 33554432" by simp_all
    have u: "unat (of_nat (16 + 24 * fc + sts) :: u64) = 16 + 24 * fc + sts" using lim by (intro unat_small) simp
    have less: "(of_nat (length ?c) :: u64) < of_nat (16 + 24 * fc + sts) \<longleftrightarrow> length ?c < 16 + 24 * fc + sts"
      unfolding word_less_nat_alt u unat_small [OF s(3)] ..
    show ?thesis
    proof (cases "length ?c < 16 + 24 * fc + sts")
      case short: True
      then show ?thesis
        unfolding eq parse_pfs0_def fc_def [symmetric] sts_def [symmetric] Let_def less using True by presburger
    next
      case fits: False
      obtain table s2 where tb: "rd (24 * fc) s1 = (Some table, s2)" "ok s2" "content s2 = ?c"
          "table = take (24 * fc) (drop 16 ?c)" "pos s2 = 16 + 24 * fc"
        by (rule rd_some [OF h(2), of "24 * fc"]) (use fits h lim in auto)
      obtain names s3 where nm: "rd sts s2 = (Some names, s3)" "names = take sts (drop (16 + 24 * fc) ?c)"
        by (rule rd_some [OF tb(2), of sts]) (use fits tb lim in auto)
      then have "(if sts \<noteq> 0 then rd sts s2 else (Some [], s2)) =
          (Some (take sts (drop (16 + 24 * fc) ?c)), if sts \<noteq> 0 then s3 else s2)" by simp
      then show ?thesis
        unfolding eq parse_pfs0_def fc_def [symmetric] sts_def [symmetric] Let_def less
        using True fits tb(1,4) by (simp add: entries_of_bytes_take)
    qed
  qed
qed

end

interpretation reader: byte_source "read_package h" "whole h" "\<lambda>r. unat (position r)" "reader_ok h" for h
proof
  fix r n res r' assume r: "reader_ok h r" and n: "n < (2 :: nat) ^ 63" and rd: "read_package h n r = (res, r')"
  show "reader_ok h r' \<and> whole h r' = whole h r"
    using read_package_correct(1,2) [OF r n rd] same_whole by blast
next
  fix r n bs r' assume r: "reader_ok h r" and n: "n < (2 :: nat) ^ 63" and rd: "read_package h n r = (Some bs, r')"
  show "bs = take n (drop (unat (position r)) (whole h r)) \<and> length bs = n \<and> unat (position r') = unat (position r) + n"
    by (rule read_package_correct(3) [OF r n rd]) simp
qed

definition full_reader :: "host \<Rightarrow> reader \<Rightarrow> bool" where
  "full_reader h r = (reader_ok h r \<and> openable h r)"

interpretation full: full_source "read_package h" "whole h" "\<lambda>r. unat (position r)" "full_reader h" for h
proof
  fix r n res r' assume r: "full_reader h r" and n: "n < (2 :: nat) ^ 63" and rd: "read_package h n r = (res, r')"
  have ok: "reader_ok h r" using r by (simp add: full_reader_def)
  have "same_package r r'" by (rule read_package_correct(1) [OF ok n rd])
  then have "openable h r' = openable h r" by (simp add: openable_def same_package_def)
  then show "full_reader h r' \<and> whole h r' = whole h r"
    using reader.rd_keeps [OF ok n rd] r by (simp add: full_reader_def)
next
  fix r n bs r' assume r: "full_reader h r" and n: "n < (2 :: nat) ^ 63" and rd: "read_package h n r = (Some bs, r')"
  then show "bs = take n (drop (unat (position r)) (whole h r)) \<and> length bs = n \<and> unat (position r') = unat (position r) + n"
    by (intro reader.rd_bytes) (simp_all add: full_reader_def)
next
  fix r n assume r: "full_reader h r" and n: "n < (2 :: nat) ^ 63" and fits: "unat (position r) + n \<le> length (whole h r)"
  obtain res r' where rd: "read_package h n r = (res, r')" by fastforce
  show "fst (read_package h n r) \<noteq> None"
    using read_package_correct(4) [OF _ n rd _ fits] r rd by (simp add: full_reader_def)
qed

end
