(* ===== verification/Nsp_Pack.thy ===== *)
theory Nsp_Pack
  imports Nsp_Logic
begin

text \<open>
  What the manifest of a package says of its entries: the bounds and counts of the scan, the
  agreement of the manifest with the preflight check, and the round trip with \<open>pack_files\<close>, which
  builds a container from names and contents.
\<close>

section \<open>Bounds and counts\<close>

definition inside :: "NspManifest \<Rightarrow> bool" where
  "inside m = (\<forall>e \<in> set (entries m). unat (n_offset e) + unat (n_size e) \<le> unat (packageSize m))"

definition counted :: "NspManifest \<Rightarrow> bool" where
  "counted m = (ncaCount m = of_nat (length (filter isNca (entries m))) \<and>
     cnmtNcaCount m = of_nat (length (filter isCnmtNca (entries m))) \<and>
     ticketCount m = of_nat (length (filter isTicket (entries m))) \<and>
     certCount m = of_nat (length (filter isCert (entries m))) \<and>
     totalNcaBytes m = of_nat (sum_list (map (\<lambda>e. unat (n_size e)) (filter isNca (entries m)))))"

lemma entry_end_bound:
  assumes "entry_end sz t e = Some z" and "t_dataStart t \<le> sz"
  shows "unat z = unat (e_offset e) + unat (e_size e)"
    and "unat (t_dataStart t) + unat z \<le> unat sz"
    and "unat (t_dataStart t + e_offset e) = unat (t_dataStart t) + unat (e_offset e)"
proof -
  from assms(1) have z: "checkedAdd (e_offset e) (e_size e) = Some z" and le: "\<not> sz - t_dataStart t < z"
    by (auto simp: entry_end_def split: option.splits if_splits)
  show sum: "unat z = unat (e_offset e) + unat (e_size e)" by (rule checkedAdd_nat [OF z])
  have "unat (sz - t_dataStart t) = unat sz - unat (t_dataStart t)" "unat (t_dataStart t) \<le> unat sz"
    using assms(2) by (simp_all add: unat_sub word_le_nat_alt)
  with le show all: "unat (t_dataStart t) + unat z \<le> unat sz" by (simp add: word_less_nat_alt)
  have "unat sz < 2 ^ LENGTH(64)" by (rule unsigned_less)
  with sum all show "unat (t_dataStart t + e_offset e) = unat (t_dataStart t) + unat (e_offset e)"
    by (simp add: unat_word_ariths)
qed

lemma entry_info_simps [simp]:
  "n_name (entry_info n off sz) = n" "n_offset (entry_info n off sz) = off" "n_size (entry_info n off sz) = sz"
  by (simp_all add: entry_info_def Let_def)

lemma add_entry_counted: "counted m \<Longrightarrow> counted (add_entry i m)"
  by (simp add: counted_def add_entry_def)

lemma add_entry_simps [simp]:
  "packageSize (add_entry i m) = packageSize m" "entries (add_entry i m) = entries m @ [i]"
  "diagnostic (add_entry i m) = diagnostic m"
  by (simp_all add: add_entry_def)

lemma scan_entries_inside:
  assumes "t_dataStart t \<le> packageSize m" and "inside m" and "counted m"
    and "scan_entries t es m = Inl m' \<or> scan_entries t es m = Inr m'"
  shows "inside m' \<and> counted m' \<and> packageSize m' = packageSize m"
  using assms
proof (induction es arbitrary: m)
  case Nil
  then show ?case by auto
next
  case (Cons e es)
  let ?i = "\<lambda>z. entry_info (entry_text t e) (t_dataStart t + e_offset e) (e_size e)"
  have keep: "inside (m\<lparr>diagnostic := d\<rparr>) \<and> counted (m\<lparr>diagnostic := d\<rparr>)" for d
    using Cons.prems(2,3) by (simp add: inside_def counted_def)
  show ?case
  proof (cases "\<not> t_stringTableSize t \<le> e_stringOffset e \<and> entry_name_ok t e \<and> entry_end (packageSize m) t e \<noteq> None")
    case False
    with Cons.prems(4) keep show ?thesis by (auto split: if_splits option.splits)
  next
    case True
    then obtain z where z: "entry_end (packageSize m) t e = Some z" by auto
    from z True Cons.prems(4) have "scan_entries t es (add_entry (?i z) m) = Inl m' \<or>
        scan_entries t es (add_entry (?i z) m) = Inr m'" by simp
    moreover have "inside (add_entry (?i z) m)"
      using Cons.prems(2) entry_end_bound [OF z Cons.prems(1)] by (auto simp: inside_def)
    ultimately show ?thesis
      using Cons.IH [of "add_entry (?i z) m"] Cons.prems(1,3) by (simp add: add_entry_counted)
  qed
qed

lemma pfs0_tables_start: "pfs0_tables rd sz s = Inr t \<Longrightarrow> t_dataStart t \<le> sz"
proof -
  assume t: "pfs0_tables rd sz s = Inr t"
  obtain header s1 where h: "rd 16 s = (Some header, s1)"
    using t by (cases "rd 16 s"; cases "fst (rd 16 s)") (auto simp: pfs0_tables_def)
  show ?thesis
    using t pfs0_tables_header [of rd s header s1 "field 4 4 header" "field 8 4 header" sz, OF h refl refl]
    by (auto split: if_splits prod.splits option.splits)
qed

lemma check_manifest_simps [simp]:
  "entries (check_manifest m) = entries m" "packageSize (check_manifest m) = packageSize m"
  "inside (check_manifest m) = inside m" "counted (check_manifest m) = counted m"
  by (auto simp: check_manifest_def inside_def counted_def split: option.splits)

lemma inspect_inside: "inside (inspectNspManifest h path)" "counted (inspectNspManifest h path)"
proof -
  let ?out = "empty_manifest\<lparr>packageSize := totalSize (snd (open_package h path))\<rparr>"
  have out: "inside (?out\<lparr>diagnostic := d\<rparr>) \<and> counted (?out\<lparr>diagnostic := d\<rparr>)" for d
    by (simp add: inside_def counted_def empty_manifest_def)
  have out': "inside ?out \<and> counted ?out" by (simp add: inside_def counted_def empty_manifest_def)
  have "inside (inspect_tables rd s ?out) \<and> counted (inspect_tables rd s ?out)"
    for rd and s :: reader
  proof (cases "pfs0_tables rd (packageSize ?out) s")
    case (Inl x)
    then show ?thesis using out by (simp add: inspect_tables_def)
  next
    case (Inr t)
    note start = pfs0_tables_start [OF Inr]
    show ?thesis
      using Inr scan_entries_inside [of t ?out "t_entries t", OF start] out'
      by (cases "scan_entries t (t_entries t) ?out") (auto simp: inspect_tables_def)
  qed
  then show "inside (inspectNspManifest h path)" "counted (inspectNspManifest h path)"
    using out by (simp_all add: inspectNspManifest_def Let_def)
qed

section \<open>Manifest and preflight\<close>

lemma scan_preflight:
  "packageSize m = sz \<Longrightarrow>
    (case preflight_entries sz t i es p of
       Inl d \<Rightarrow> (\<exists>m'. scan_entries t es m = Inl m' \<and> d_code (diagnostic m') = d_code d \<and> d_code d \<noteq> NoError)
     | Inr p' \<Rightarrow> \<exists>m'. scan_entries t es m = Inr m')"
proof (induction es arbitrary: m i p)
  case (Cons e es)
  show ?case
  proof (cases "entry_end sz t e")
    case None
    with Cons.prems show ?thesis by simp
  next
    case (Some z)
    with Cons.prems Cons.IH [where m = "add_entry (entry_info (entry_text t e) (t_dataStart t + e_offset e) (e_size e)) m"
      and i = "i + 1" and p = "max p z"] show ?thesis by (simp split: sum.splits)
  qed
qed simp

lemma check_manifest_code: "d_code (diagnostic (check_manifest m)) \<in> {NoError, MissingContent, InvalidNca}"
  by (auto simp: check_manifest_def split: option.splits)

lemma refusal_codes:
  "d_code (refusal_diagnostic x) = d_code (preflight_refusal x)" "d_code (preflight_refusal x) \<noteq> NoError"
  by (auto simp: refusal_diagnostic_def preflight_refusal_def split: pfs0_refusal.splits)

definition agree :: "ErrorCode \<Rightarrow> ErrorCode \<Rightarrow> bool" where
  "agree pre man = (if pre = NoError then man \<in> {NoError, MissingContent, InvalidNca} else man = pre)"

lemma tables_agree:
  assumes "packageSize m = pf_packageSize p"
  shows "agree (d_code (pf_diagnostic (preflight_tables rd False free s p))) (d_code (diagnostic (inspect_tables rd s m)))"
proof (cases "pfs0_tables rd (pf_packageSize p) s")
  case (Inl x)
  then show ?thesis
    using assms by (simp add: preflight_tables_def inspect_tables_def agree_def refusal_codes)
next
  case (Inr t)
  note scan = scan_preflight [where t = t and i = 0 and es = "t_entries t" and p = 0, OF assms]
  show ?thesis
  proof (cases "preflight_entries (pf_packageSize p) t 0 (t_entries t) 0")
    case (Inl d)
    with scan Inr assms show ?thesis
      by (auto simp: preflight_tables_def inspect_tables_def agree_def Let_def)
  next
    case (Inr q)
    with scan obtain m' where "scan_entries t (t_entries t) m = Inr m'" by auto
    with Inr \<open>pfs0_tables _ _ _ = Inr t\<close> assms check_manifest_code [of m'] show ?thesis
      by (auto simp: preflight_tables_def inspect_tables_def agree_def Let_def)
  qed
qed

lemma package_agree:
  "agree (d_code (pf_diagnostic (preflightPackage h ''.nsp'' path False free)))
     (d_code (diagnostic (inspectNspManifest h path)))"
proof (cases "\<not> isOpen (snd (open_package h path)) \<or> totalSize (snd (open_package h path)) < 16")
  case True
  then show ?thesis
    by (simp add: preflightPackage_def inspectNspManifest_def Let_def agree_def empty_manifest_def)
next
  case False
  then show ?thesis
    by (auto simp: preflightPackage_def inspectNspManifest_def Let_def empty_manifest_def intro!: tables_agree)
qed

text \<open>The end of the payload that preflight reports.\<close>

lemma preflight_end:
  "preflight_entries sz t i es p = Inr q \<Longrightarrow> t_dataStart t \<le> sz \<Longrightarrow> unat (t_dataStart t) + unat p \<le> unat sz \<Longrightarrow>
    unat (t_dataStart t) + unat q \<le> unat sz \<and> p \<le> q \<and>
    (\<forall>e \<in> set es. unat (e_offset e) + unat (e_size e) \<le> unat q)"
proof (induction es arbitrary: i p)
  case (Cons e es)
  then obtain z where z: "entry_end sz t e = Some z" and
      rest: "preflight_entries sz t (i + 1) es (max p z) = Inr q"
    by (auto split: if_splits option.splits)
  note b = entry_end_bound [OF z Cons.prems(2)]
  have "unat (t_dataStart t) + unat (max p z) \<le> unat sz" using b(2) Cons.prems(3) by (simp add: max_def)
  from Cons.IH [OF rest Cons.prems(2) this] show ?case using b(1) by (auto simp: max_def word_le_nat_alt split: if_splits)
qed simp

section \<open>Packing\<close>

definition name_bytes :: "string \<Rightarrow> u8 list" where
  "name_bytes n = map of_char n @ [0]"

definition names_of :: "(string \<times> u8 list) list \<Rightarrow> u8 list" where
  "names_of fs = concat (map (name_bytes \<circ> fst) fs)"

definition data_of :: "(string \<times> u8 list) list \<Rightarrow> u8 list" where
  "data_of fs = concat (map snd fs)"

fun packed_entries :: "nat \<Rightarrow> nat \<Rightarrow> (string \<times> u8 list) list \<Rightarrow> Pfs0Entry list" where
  "packed_entries s d [] = []"
| "packed_entries s d ((n, b) # fs) =
    \<lparr>e_offset = of_nat d, e_size = of_nat (length b), e_stringOffset = of_nat s\<rparr> #
    packed_entries (s + length n + 1) (d + length b) fs"

definition entry_bytes :: "Pfs0Entry \<Rightarrow> u8 list" where
  "entry_bytes e = put_le 8 (unat (e_offset e)) @ put_le 8 (unat (e_size e)) @ put_le 4 (unat (e_stringOffset e)) @ put_le 4 0"

definition pack_files :: "(string \<times> u8 list) list \<Rightarrow> u8 list" where
  "pack_files fs = map of_char ''PFS0'' @ put_le 4 (length fs) @ put_le 4 (length (names_of fs)) @ put_le 4 0 @
     concat (map entry_bytes (packed_entries 0 0 fs)) @ names_of fs @ data_of fs"

definition packable :: "(string \<times> u8 list) list \<Rightarrow> bool" where
  "packable fs = (fs \<noteq> [] \<and> length fs \<le> 65536 \<and> length (names_of fs) \<le> 33554432 \<and> length (pack_files fs) < 2 ^ 63 \<and>
     (\<forall>f \<in> set fs. CHR 0x00 \<notin> set (fst f)))"

lemma length_packed_entries [simp]: "length (packed_entries s d fs) = length fs"
  by (induction s d fs rule: packed_entries.induct) simp_all

lemma length_entry_bytes [simp]: "length (entry_bytes e) = 24"
  by (simp add: entry_bytes_def)

lemma length_table [simp]: "length (concat (map entry_bytes es)) = 24 * length es"
  by (induction es) simp_all

lemma of_nat_le_put: "unat (w :: 'a :: len word) < 256 ^ n \<Longrightarrow> of_nat (le (put_le n (unat w))) = w"
  by (simp add: le_put_le)

lemma entry_of_entry_bytes: "entry_of_bytes (entry_bytes e @ b) = e"
proof -
  have "unat (e_offset e) < 2 ^ LENGTH(64)" "unat (e_size e) < 2 ^ LENGTH(64)" "unat (e_stringOffset e) < 2 ^ LENGTH(32)"
    by (rule unsigned_less)+
  then show ?thesis
    by (simp add: entry_of_bytes_def entry_bytes_def field_def of_nat_le_put)
qed

lemma entries_of_table: "entries_of_bytes (length es) (concat (map entry_bytes es) @ b) = es"
proof (induction es)
  case Nil
  then show ?case by (simp add: entries_of_bytes_def)
next
  case (Cons e es)
  have "[0..<Suc (length es)] = 0 # map Suc [0..<length es]" by (simp add: upt_conv_Cons map_Suc_upt del: upt_Suc)
  moreover have "take 24 (entry_bytes e @ c) = entry_bytes e @ []" for c by simp
  then have "entry_of_bytes (take 24 (entry_bytes e @ c)) = e" for c
    by (simp only: entry_of_entry_bytes)
  ultimately show ?case using Cons by (simp add: entries_of_bytes_def comp_def)
qed

definition pack_tables :: "(string \<times> u8 list) list \<Rightarrow> Pfs0Tables" where
  "pack_tables fs = \<lparr>t_fileCount = of_nat (length fs), t_stringTableSize = of_nat (length (names_of fs)),
     t_dataStart = of_nat (16 + 24 * length fs + length (names_of fs)), t_entries = packed_entries 0 0 fs,
     t_strings = names_of fs @ [0]\<rparr>"

lemma length_pack: "length (pack_files fs) = 16 + 24 * length fs + length (names_of fs) + length (data_of fs)"
  by (simp add: pack_files_def)

lemma parse_pack:
  assumes "packable fs"
  shows "parse_pfs0 (pack_files fs) = Inr (pack_tables fs)"
proof -
  have p: "fs \<noteq> []" "length fs \<le> 65536" "length (names_of fs) \<le> 33554432" using assms by (simp_all add: packable_def)
  have magic: "take 4 (pack_files fs) = map of_char ''PFS0''" by (simp add: pack_files_def)
  have c: "field 4 4 (pack_files fs) = length fs" "field 8 4 (pack_files fs) = length (names_of fs)"
    using p by (simp_all add: pack_files_def field_def le_put_le)
  have d: "drop 16 (pack_files fs) = concat (map entry_bytes (packed_entries 0 0 fs)) @ names_of fs @ data_of fs"
    by (simp add: pack_files_def)
  have e: "entries_of_bytes (length fs) (drop 16 (pack_files fs)) = packed_entries 0 0 fs"
    unfolding d using entries_of_table [of "packed_entries 0 0 fs"] by simp
  have "drop (16 + 24 * length fs) (pack_files fs) = drop (24 * length fs) (drop 16 (pack_files fs))" by (simp add: add.commute)
  also have "\<dots> = names_of fs @ data_of fs" unfolding d by simp
  finally have n: "take (length (names_of fs)) (drop (16 + 24 * length fs) (pack_files fs)) = names_of fs" by simp
  show ?thesis
    using p unfolding parse_pfs0_def Let_def c magic e n length_pack pack_tables_def by simp
qed

section \<open>The scan of a packed container\<close>

fun packed_infos :: "nat \<Rightarrow> nat \<Rightarrow> (string \<times> u8 list) list \<Rightarrow> NspEntryInfo list" where
  "packed_infos base d [] = []"
| "packed_infos base d ((n, b) # fs) =
    entry_info n (of_nat base + of_nat d) (of_nat (length b)) # packed_infos base (d + length b) fs"

lemma unat_char: "unat (of_char c :: u8) = of_char c"
proof -
  have "unat (of_nat (of_char c) :: u8) = of_char c mod 2 ^ LENGTH(8)" by (simp only: unat_of_nat)
  then show ?thesis by (simp add: of_nat_of_char)
qed

lemma c_string_name: "CHR 0x00 \<notin> set n \<Longrightarrow> c_string (name_bytes n @ b) = n"
proof (induction n)
  case (Cons c n)
  have "(of_char c :: nat) \<noteq> of_char (CHR 0x00)" using Cons.prems by (simp only: of_char_eq_iff) auto
  then have "unat (of_char c :: u8) \<noteq> 0" by (simp add: unat_char)
  then have "(of_char c :: u8) \<noteq> 0" by (metis unat_0)
  then show ?case using Cons by (simp add: c_string_def name_bytes_def unat_char)
qed (simp add: c_string_def name_bytes_def)

lemma scan_packed:
  assumes "t_strings t = pre @ names_of fs @ [0]" and "length pre = s"
    and "t_stringTableSize t = of_nat (s + length (names_of fs))" and "s + length (names_of fs) < 2 ^ 32"
    and "t_dataStart t = of_nat base" and "base + d + length (data_of fs) \<le> unat (packageSize m)"
    and "\<forall>f \<in> set fs. CHR 0x00 \<notin> set (fst f)"
  shows "scan_entries t (packed_entries s d fs) m = Inr (foldl (\<lambda>m i. add_entry i m) m (packed_infos base d fs))"
  using assms
proof (induction fs arbitrary: pre s d m)
  case (Cons f fs)
  obtain n b where f: "f = (n, b)" by fastforce
  let ?e = "\<lparr>e_offset = of_nat d, e_size = of_nat (length b), e_stringOffset = of_nat s\<rparr>"
  have names: "names_of (f # fs) = name_bytes n @ names_of fs" "length (name_bytes n) = length n + 1"
    by (simp_all add: names_of_def name_bytes_def f)
  have data: "data_of (f # fs) = b @ data_of fs" by (simp add: data_of_def f)
  have len: "s + length (names_of (f # fs)) = s + length n + 1 + length (names_of fs)" using names by simp
  have us: "unat (of_nat s :: u32) = s" "unat (t_stringTableSize t) = s + length n + 1 + length (names_of fs)"
    using Cons.prems(4) unfolding Cons.prems(3) len unat_of_nat by simp_all
  have strings: "drop s (t_strings t) = name_bytes n @ names_of fs @ [0]"
    using Cons.prems(1,2) names by simp
  have "s < unat (t_stringTableSize t)" using us by simp
  then have off: "\<not> t_stringTableSize t \<le> of_nat s" using us by (simp add: word_le_nat_alt)
  have "unat (t_stringTableSize t - of_nat s) = length n + 1 + length (names_of fs)"
    using us off by (simp add: unat_sub)
  then have ok: "entry_name_ok t ?e"
    using strings us(1) names(2) by (simp add: entry_name_ok_def name_bytes_def)
  have tx: "entry_text t ?e = n"
    using strings us(1) Cons.prems(7) f by (simp add: entry_text_def c_string_name)
  have "unat (packageSize m) < 2 ^ LENGTH(64)" by (rule unsigned_less)
  then have uw: "unat (of_nat base :: u64) = base" "unat (of_nat d :: u64) = d" "unat (of_nat (length b) :: u64) = length b"
    using Cons.prems(6) data by (simp_all add: unat_of_nat)
  have sum: "checkedAdd (of_nat d) (of_nat (length b)) = Some (of_nat d + of_nat (length b))"
    using uw Cons.prems(6) data \<open>unat (packageSize m) < _\<close> by (simp add: checkedAdd_Some)
  have "unat (packageSize m - of_nat base) = unat (packageSize m) - base"
    using uw Cons.prems(6) by (simp add: unat_sub word_le_nat_alt)
  then have fits: "entry_end (packageSize m) t ?e = Some (of_nat d + of_nat (length b))"
    using checkedAdd_nat [OF sum] sum uw Cons.prems(5,6) data by (simp add: entry_end_def word_less_nat_alt)
  have step: "scan_entries t (packed_entries s d (f # fs)) m =
      scan_entries t (packed_entries (s + length n + 1) (d + length b) fs)
        (add_entry (entry_info n (of_nat base + of_nat d) (of_nat (length b))) m)"
    using off ok tx fits Cons.prems(5) by (simp add: f)
  have "scan_entries t (packed_entries (s + length n + 1) (d + length b) fs)
      (add_entry (entry_info n (of_nat base + of_nat d) (of_nat (length b))) m) =
    Inr (foldl (\<lambda>m i. add_entry i m) (add_entry (entry_info n (of_nat base + of_nat d) (of_nat (length b))) m)
      (packed_infos base (d + length b) fs))"
    by (rule Cons.IH [of "pre @ name_bytes n"]) (use Cons.prems names data in \<open>simp_all add: add.assoc\<close>)
  with step show ?case by (simp add: f)
qed simp

lemma entries_fold: "entries (foldl (\<lambda>m i. add_entry i m) m is) = entries m @ is"
  by (induction "is" arbitrary: m) simp_all

text \<open>What the manifest says of an entry: its name and its bytes.\<close>

definition slice :: "u8 list \<Rightarrow> NspEntryInfo \<Rightarrow> string \<times> u8 list" where
  "slice c e = (n_name e, take (unat (n_size e)) (drop (unat (n_offset e)) c))"

lemma slice_infos:
  assumes "length front = base + d" and "base + d + length (data_of fs) < 2 ^ 63"
  shows "map (slice (front @ data_of fs)) (packed_infos base d fs) = fs"
  using assms
proof (induction fs arbitrary: front d)
  case (Cons f fs)
  obtain n b where f: "f = (n, b)" by fastforce
  have data: "data_of (f # fs) = b @ data_of fs" by (simp add: data_of_def f)
  have "unat (of_nat base + of_nat d :: u64) = base + d" "unat (of_nat (length b) :: u64) = length b"
    using Cons.prems(2) data unat_small [of "base + d"] unat_small [of "length b"] by simp_all
  moreover have "map (slice ((front @ b) @ data_of fs)) (packed_infos base (d + length b) fs) = fs"
    by (rule Cons.IH) (use Cons.prems data in simp_all)
  moreover have "slice (front @ b @ data_of fs) (entry_info n (of_nat base + of_nat d) (of_nat (length b))) = (n, b)"
    using calculation(1,2) Cons.prems(1) by (simp add: slice_def)
  ultimately show ?case by (simp add: f data [unfolded f])
qed simp

definition packed_manifest :: "(string \<times> u8 list) list \<Rightarrow> NspManifest" where
  "packed_manifest fs = check_manifest (foldl (\<lambda>m i. add_entry i m) (empty_manifest\<lparr>packageSize := of_nat (length (pack_files fs))\<rparr>)
     (packed_infos (16 + 24 * length fs + length (names_of fs)) 0 fs))"

lemma entries_packed_manifest:
  assumes "packable fs"
  shows "map (slice (pack_files fs)) (entries (packed_manifest fs)) = fs"
proof -
  let ?base = "16 + 24 * length fs + length (names_of fs)"
  define front where "front = map of_char ''PFS0'' @ put_le 4 (length fs) @ put_le 4 (length (names_of fs)) @
    put_le 4 0 @ concat (map entry_bytes (packed_entries 0 0 fs)) @ names_of fs"
  have "pack_files fs = front @ data_of fs" "length front = ?base" by (simp_all add: front_def pack_files_def)
  then have "map (slice (pack_files fs)) (packed_infos ?base 0 fs) = fs"
    using slice_infos [of front ?base 0 fs] assms by (simp add: packable_def)
  then show ?thesis by (simp add: packed_manifest_def entries_fold empty_manifest_def)
qed

text \<open>Opening a package that is there: a manifest of a packed container, however it is split into parts.\<close>

lemma inspect_pack:
  assumes p: "packable fs" and o: "open_package h path = (True, r)"
    and w: "concat (map (bytes_of h) (discoverParts h path)) = pack_files fs" and op: "openable h r"
  shows "inspectNspManifest h path = packed_manifest fs"
proof -
  have len: "length (pack_files fs) < 2 ^ 63" using p by (simp add: packable_def)
  note r = open_package_ok [OF o, unfolded w, OF len]
  have whole: "whole h r = pack_files fs" using r(3) w by (simp add: whole_def)
  have size: "totalSize r = of_nat (length (pack_files fs))" using r(1) whole by (simp add: reader_ok_def)
  have big: "16 \<le> length (pack_files fs)" by (simp add: length_pack)
  let ?m = "empty_manifest\<lparr>packageSize := totalSize r\<rparr>" and ?base = "16 + 24 * length fs + length (names_of fs)"
  have um: "unat (packageSize ?m) = length (pack_files fs)" using unat_small [OF len] size by simp
  have "pfs0_tables (read_package h) (of_nat (length (whole h r))) r = parse_pfs0 (whole h r)"
    by (rule full.pfs0_tables_eq) (use r op whole len big in \<open>simp_all add: full_reader_def\<close>)
  then have tables: "pfs0_tables (read_package h) (packageSize ?m) r = Inr (pack_tables fs)"
    using parse_pack [OF p] whole size by simp
  have "scan_entries (pack_tables fs) (packed_entries 0 0 fs) ?m =
      Inr (foldl (\<lambda>m i. add_entry i m) ?m (packed_infos ?base 0 fs))"
    by (rule scan_packed [of _ "[]"]) (use p um in \<open>simp_all add: pack_tables_def packable_def length_pack\<close>)
  then have scan: "scan_entries (pack_tables fs) (t_entries (pack_tables fs)) ?m =
      Inr (foldl (\<lambda>m i. add_entry i m) ?m (packed_infos ?base 0 fs))" by (simp add: pack_tables_def)
  have "isOpen r" using r(1,4) by (simp add: isOpen_def reader_ok_def)
  moreover have "\<not> packageSize ?m < 16" using um big by (simp add: word_less_nat_alt)
  ultimately show ?thesis
    using o tables scan by (simp add: inspectNspManifest_def inspect_tables_def Let_def packed_manifest_def size)
qed

end
