(* ===== verification/Title_Info.thy ===== *)
theory Title_Info
  imports Nsp_Manifest
begin

text \<open>
  Identifiers and versions of titles (\<^verbatim>\<open>source/nsp_ncm_probe.cpp\<close>): the packed system version,
  its text, the text of a title id, and the entry of a manifest with a content id.
\<close>

text \<open>The end of \<^verbatim>\<open>parseCurrentFirmwarePacked\<close>, on the three numbers \<^verbatim>\<open>sscanf\<close> read.\<close>

definition packed_firmware :: "u32 \<Rightarrow> u32 \<Rightarrow> u32 \<Rightarrow> u32" where
  "packed_firmware major minor micro =
    push_bit 26 (min major 0x3F) OR push_bit 20 (min minor 0x3F) OR push_bit 16 (min micro 0x0F)"

definition formatPackedSystemVersion :: "u32 \<Rightarrow> string" where
  "formatPackedSystemVersion version =
    (if version = 0 then ''0.0.0''
     else to_string (drop_bit 26 version AND 0x3F) @ ''.'' @ to_string (drop_bit 20 version AND 0x3F) @ ''.'' @
       to_string (drop_bit 16 version AND 0x0F))"

definition formatTitleId :: "u64 \<Rightarrow> string" where
  "formatTitleId titleId = setw0 16 (hex_upper (unat titleId))"

definition findManifestContent :: "NspManifest \<Rightarrow> u8 list \<Rightarrow> NspEntryInfo option" where
  "findManifestContent m cid = find (\<lambda>e. isNca e \<and> hasContentId e \<and> contentId e = cid) (entries m)"

section \<open>Lemmas\<close>

lemma and_low: "(x :: u32) AND 0x3F = take_bit 6 x" "x AND 0x0F = take_bit 4 x"
  by (simp_all add: take_bit_eq_mask mask_eq_exp_minus_1)

lemma small_bits:
  assumes "unat (x :: u32) < 2 ^ n" and "bit x m"
  shows "m < n"
proof (rule ccontr)
  assume "\<not> m < n"
  then have "(2 :: nat) ^ n \<le> 2 ^ m" by (intro power_increasing) simp_all
  then have "unat x div 2 ^ m = 0" using assms(1) by (intro div_less) linarith
  moreover have "bit (unat x) m" using assms(2) by (simp add: bit_unsigned_iff)
  ultimately show False by (simp add: bit_iff_odd)
qed

lemma packed_fields:
  fixes a b c :: u32
  assumes "unat a < 2 ^ 6" and "unat b < 2 ^ 6" and "unat c < 2 ^ 4"
  defines "v \<equiv> push_bit 26 a OR push_bit 20 b OR push_bit 16 c"
  shows "drop_bit 26 v AND 0x3F = a" and "drop_bit 20 v AND 0x3F = b" and "drop_bit 16 v AND 0x0F = c"
proof -
  note a = small_bits [OF assms(1)] and b = small_bits [OF assms(2)] and c = small_bits [OF assms(3)]
  have bits: "bit v (k + n) \<longleftrightarrow> 26 \<le> k + n \<and> bit a (k + n - 26) \<or> 20 \<le> k + n \<and> bit b (k + n - 20) \<or> 16 \<le> k + n \<and> bit c (k + n - 16)"
    if "k + n < 32" for k n
    using that unfolding v_def by (simp add: bit_simps)
  show "drop_bit 26 v AND 0x3F = a"
    unfolding and_low
  proof (rule bit_word_eqI)
    fix n
    show "bit (take_bit 6 (drop_bit 26 v)) n = bit a n"
      using bits [of 26 n] a [of n] b [of "6 + n"] c [of "10 + n"] by (cases "n < 6") (auto simp: bit_simps)
  qed
  show "drop_bit 20 v AND 0x3F = b"
    unfolding and_low
  proof (rule bit_word_eqI)
    fix n
    show "bit (take_bit 6 (drop_bit 20 v)) n = bit b n"
      using bits [of 20 n] b [of n] c [of "4 + n"] by (cases "n < 6") (auto simp: bit_simps)
  qed
  show "drop_bit 16 v AND 0x0F = c"
    unfolding and_low
  proof (rule bit_word_eqI)
    fix n
    show "bit (take_bit 4 (drop_bit 16 v)) n = bit c n"
      using bits [of 16 n] c [of n] by (cases "n < 4") (auto simp: bit_simps)
  qed
qed

lemma min_word: "unat (min (x :: u32) y) = min (unat x) (unat y)"
  by (auto simp: min_def word_le_nat_alt)

lemma format_packed:
  "formatPackedSystemVersion (packed_firmware a b c) =
    decimal (min (unat a) 63) @ ''.'' @ decimal (min (unat b) 63) @ ''.'' @ decimal (min (unat c) 15)"
proof -
  let ?a = "min a 0x3F" and ?b = "min b 0x3F" and ?c = "min c 0x0F"
  have u: "unat ?a = min (unat a) 63" "unat ?b = min (unat b) 63" "unat ?c = min (unat c) 15"
    by (simp_all add: min_word)
  have lim: "unat ?a < 2 ^ 6" "unat ?b < 2 ^ 6" "unat ?c < 2 ^ 4" by (simp_all add: u)
  note f = packed_fields [OF lim, folded packed_firmware_def]
  show ?thesis
  proof (cases "packed_firmware a b c = 0")
    case True
    with f have "?a = 0" "?b = 0" "?c = 0" by simp_all
    then have "min (unat a) 63 = 0" "min (unat b) 63 = 0" "min (unat c) 15 = 0" using u by simp_all
    then show ?thesis unfolding formatPackedSystemVersion_def True by (simp add: decimal.simps)
  next
    case False
    then show ?thesis unfolding formatPackedSystemVersion_def f to_string_def u by simp
  qed
qed

lemma findManifestContent_some:
  assumes "findManifestContent m cid = Some e"
  shows "e \<in> set (entries m)" "isNca e" "hasContentId e" "contentId e = cid"
  using assms by (auto simp: findManifestContent_def find_Some_iff)

lemma findManifestContent_none:
  "findManifestContent m cid = None \<longleftrightarrow> (\<forall>e \<in> set (entries m). isNca e \<longrightarrow> hasContentId e \<longrightarrow> contentId e \<noteq> cid)"
  by (auto simp: findManifestContent_def find_None_iff)

end
