(* ===== verification/Install_Stream.thy ===== *)
theory Install_Stream
  imports Prelude
begin

text \<open>
  The bounded byte stream between the USB thread and the installer
  (\<^verbatim>\<open>source/mtp_install_stream.cpp\<close>): a ring buffer with its two critical sections, the
  operations that close it, and the interleavings of a producer, a consumer and a thread that
  cancels. A critical section is one step; the notification that follows it, after the lock is
  released, is a step of its own, and a waiter may wake up without one. \<^verbatim>\<open>size_t\<close> is \<open>nat\<close>:
  the invariant shows that no subtraction goes below zero, and all sums stay below twice the
  capacity.
\<close>

section \<open>The stream\<close>

record InstallStream =
  capacity :: nat
  buffer :: "u8 list"
  readPos :: nat
  writePos :: nat
  used :: nat
  producerDone :: bool
  consumerDone :: bool
  cancelledFlag :: bool
  pushed :: u64
  consumed :: u64

definition new_stream :: "nat \<Rightarrow> InstallStream" where
  "new_stream capacityBytes =
    (let c = max capacityBytes (64 * 1024) in
     \<lparr>capacity = c, buffer = replicate c 0, readPos = 0, writePos = 0, used = 0, producerDone = False,
      consumerDone = False, cancelledFlag = False, pushed = 0, consumed = 0\<rparr>)"

text \<open>The predicates of the two waits.\<close>

definition can_write :: "InstallStream \<Rightarrow> bool" where
  "can_write s = (cancelledFlag s \<or> consumerDone s \<or> used s < capacity s)"

definition can_read :: "InstallStream \<Rightarrow> bool" where
  "can_read s = (cancelledFlag s \<or> 0 < used s \<or> producerDone s)"

text \<open>\<^verbatim>\<open>memcpy\<close> of a chunk into the buffer.\<close>

definition memcpy_in :: "u8 list \<Rightarrow> nat \<Rightarrow> u8 list \<Rightarrow> u8 list" where
  "memcpy_in buf p bs = take p buf @ bs @ drop (p + length bs) buf"

text \<open>The chunk that a round of \<^verbatim>\<open>push\<close> copies, and what is left to push.\<close>

definition put_chunk :: "u8 list \<Rightarrow> InstallStream \<Rightarrow> u8 list \<times> InstallStream" where
  "put_chunk src s =
    (let room = capacity s - used s;
         contiguous = min (capacity s - writePos s) room;
         chunk = min (length src) contiguous in
     (drop chunk src,
      s\<lparr>buffer := memcpy_in (buffer s) (writePos s) (take chunk src), writePos := (writePos s + chunk) mod capacity s,
        used := used s + chunk, pushed := pushed s + of_nat chunk\<rparr>))"

text \<open>The chunk that a round of \<^verbatim>\<open>readExact\<close> copies.\<close>

definition get_chunk :: "nat \<Rightarrow> InstallStream \<Rightarrow> u8 list \<times> InstallStream" where
  "get_chunk n s =
    (let contiguous = min (capacity s - readPos s) (used s);
         chunk = min n contiguous in
     (take chunk (drop (readPos s) (buffer s)),
      s\<lparr>readPos := (readPos s + chunk) mod capacity s, used := used s - chunk, consumed := consumed s + of_nat chunk\<rparr>))"

text \<open>One round of each loop: it waits, it returns, or it has moved a chunk.\<close>

datatype 'a round = Wait | Return bool InstallStream | Moved 'a InstallStream

definition push_round :: "u8 list \<Rightarrow> InstallStream \<Rightarrow> u8 list round" where
  "push_round src s =
    (if src = [] then Return True s
     else if \<not> can_write s then Wait
     else if cancelledFlag s then Return False s
     else if consumerDone s then Return True (s\<lparr>pushed := pushed s + of_nat (length src)\<rparr>)
     else (case put_chunk src s of (rest, s') \<Rightarrow> Moved rest s'))"

definition readExact_round :: "nat \<Rightarrow> InstallStream \<Rightarrow> u8 list round" where
  "readExact_round n s =
    (if n = 0 then Return True s
     else if \<not> can_read s then Wait
     else if cancelledFlag s then Return False s
     else if used s = 0 \<and> producerDone s then Return False s
     else (case get_chunk n s of (got, s') \<Rightarrow> Moved got s'))"

definition closeProducer :: "InstallStream \<Rightarrow> InstallStream" where
  "closeProducer s = s\<lparr>producerDone := True\<rparr>"

definition cancel :: "InstallStream \<Rightarrow> InstallStream" where
  "cancel s = s\<lparr>cancelledFlag := True\<rparr>"

definition finishConsumer :: "InstallStream \<Rightarrow> InstallStream" where
  "finishConsumer s = s\<lparr>consumerDone := True, used := 0, readPos := writePos s\<rparr>"

definition producerClosed :: "InstallStream \<Rightarrow> bool" where "producerClosed s = producerDone s"
definition consumerFinished :: "InstallStream \<Rightarrow> bool" where "consumerFinished s = consumerDone s"
definition cancelled :: "InstallStream \<Rightarrow> bool" where "cancelled s = cancelledFlag s"
definition pushedBytes :: "InstallStream \<Rightarrow> u64" where "pushedBytes s = pushed s"
definition consumedBytes :: "InstallStream \<Rightarrow> u64" where "consumedBytes s = consumed s"

section \<open>The ring as a queue\<close>

definition ring_ok :: "InstallStream \<Rightarrow> bool" where
  "ring_ok s = (0 < capacity s \<and> length (buffer s) = capacity s \<and> readPos s < capacity s \<and> used s \<le> capacity s \<and>
     writePos s = (readPos s + used s) mod capacity s)"

definition contents :: "InstallStream \<Rightarrow> u8 list" where
  "contents s = map (\<lambda>i. buffer s ! ((readPos s + i) mod capacity s)) [0..<used s]"

lemma length_contents [simp]: "length (contents s) = used s"
  by (simp add: contents_def)

lemma contents_Nil [simp]: "contents s = [] \<longleftrightarrow> used s = 0"
  by (simp add: contents_def)

text \<open>The interface of a queue of bytes, and what a client derives from it.\<close>

locale byte_queue =
  fixes ok :: "'s \<Rightarrow> bool" and stored :: "'s \<Rightarrow> u8 list" and room :: "'s \<Rightarrow> bool"
    and put :: "u8 list \<Rightarrow> 's \<Rightarrow> u8 list \<times> 's" and get :: "nat \<Rightarrow> 's \<Rightarrow> u8 list \<times> 's"
  assumes put_law: "ok s \<Longrightarrow> put bs s = (rest, s') \<Longrightarrow>
      ok s' \<and> (\<exists>xs. bs = xs @ rest \<and> stored s' = stored s @ xs \<and> (room s \<longrightarrow> bs \<noteq> [] \<longrightarrow> xs \<noteq> []))"
    and get_law: "ok s \<Longrightarrow> get n s = (got, s') \<Longrightarrow>
      ok s' \<and> stored s = got @ stored s' \<and> length got \<le> n \<and> (stored s \<noteq> [] \<longrightarrow> 0 < n \<longrightarrow> got \<noteq> [])"
begin

lemma put_fifo:
  assumes "ok s" and "put bs s = (rest, s')" and "received @ stored s = sent"
  shows "received @ stored s' = sent @ take (length bs - length rest) bs"
  using put_law [OF assms(1,2)] assms(3) by auto

lemma put_progress:
  "ok s \<Longrightarrow> put bs s = (rest, s') \<Longrightarrow> room s \<Longrightarrow> bs \<noteq> [] \<Longrightarrow> length rest < length bs"
  using put_law [of s bs rest s'] by auto

lemma get_fifo: "ok s \<Longrightarrow> get n s = (got, s') \<Longrightarrow> received @ stored s = sent \<Longrightarrow> (received @ got) @ stored s' = sent"
  by (metis append_assoc get_law)

lemma get_progress: "ok s \<Longrightarrow> get n s = (got, s') \<Longrightarrow> stored s \<noteq> [] \<Longrightarrow> 0 < n \<Longrightarrow> 0 < length got \<and> length got \<le> n"
  by (metis get_law length_greater_0_conv)

end

lemma mod_shift: "u \<le> i \<Longrightarrow> (r + i) mod c = ((r + u) mod c + (i - u)) mod c" for c :: nat
  by (metis add.assoc le_add_diff_inverse mod_add_left_eq)

lemma mod_between:
  fixes c :: nat
  assumes "(r + i) mod c = (r + u) mod c + j" and "(r + u) mod c + j < c" and "i < u" and "u + j < c + i"
  shows False
proof -
  have "(r + u + j) mod c = ((r + u) mod c + j) mod c" by (simp add: mod_add_left_eq)
  also have "\<dots> = (r + i) mod c" using assms(1,2) by simp
  finally have "c dvd (r + u + j) - (r + i)" using assms(3) mod_eq_dvd_iff_nat [of "r + i" "r + u + j" c] by simp
  then have "c dvd u + j - i" by (simp add: add.assoc)
  then have "c \<le> u + j - i" using assms(3) by (intro dvd_imp_le) simp_all
  with assms(3,4) show False by simp
qed

lemma memcpy_nth:
  assumes "p + length bs \<le> length buf" and "j < length buf"
  shows "memcpy_in buf p bs ! j = (if p \<le> j \<and> j < p + length bs then bs ! (j - p) else buf ! j)"
  using assms by (auto simp: memcpy_in_def nth_append)

lemma length_memcpy: "p + length bs \<le> length buf \<Longrightarrow> length (memcpy_in buf p bs) = length buf"
  by (simp add: memcpy_in_def)

text \<open>A chunk that fits is appended to the contents.\<close>

lemma contents_put:
  assumes s: "ring_ok s" and fits: "used s + length bs \<le> capacity s" "writePos s + length bs \<le> capacity s"
  shows "contents (s\<lparr>buffer := memcpy_in (buffer s) (writePos s) bs, writePos := w, used := used s + length bs, pushed := q\<rparr>) =
    contents s @ bs"
proof (rule nth_equalityI)
  let ?c = "capacity s" and ?r = "readPos s" and ?u = "used s" and ?w = "writePos s"
  let ?s = "s\<lparr>buffer := memcpy_in (buffer s) ?w bs, writePos := w, used := ?u + length bs, pushed := q\<rparr>"
  have c: "0 < ?c" "length (buffer s) = ?c" "?w = (?r + ?u) mod ?c" using s by (simp_all add: ring_ok_def)
  fix i assume "i < length (contents ?s)"
  then have i: "i < ?u + length bs" by simp
  let ?j = "(?r + i) mod ?c"
  have val: "contents ?s ! i = (if ?w \<le> ?j \<and> ?j < ?w + length bs then bs ! (?j - ?w) else buffer s ! ?j)"
    using i c fits by (simp add: contents_def memcpy_nth)
  show "contents ?s ! i = (contents s @ bs) ! i"
  proof (cases "i < ?u")
    case True
    have "\<not> (?w \<le> ?j \<and> ?j < ?w + length bs)"
    proof
      assume h: "?w \<le> ?j \<and> ?j < ?w + length bs"
      show False
        by (rule mod_between [of ?r i ?c ?u "?j - ?w"]) (use h c True fits in auto)
    qed
    with True val show ?thesis by (simp add: nth_append contents_def)
  next
    case False
    then obtain l where l: "i = ?u + l" using le_Suc_ex [of ?u i] by auto
    then have "?j = (?w + l) mod ?c" using c(3) mod_shift [of ?u i ?r ?c] by simp
    then have "?j = ?w + l" using i l fits by simp
    with val l i show ?thesis by (simp add: nth_append)
  qed
qed simp

lemma put_chunk_law:
  assumes s: "ring_ok s" and p: "put_chunk bs s = (rest, s')"
  shows "ring_ok s' \<and> (\<exists>xs. bs = xs @ rest \<and> contents s' = contents s @ xs \<and> (used s < capacity s \<longrightarrow> bs \<noteq> [] \<longrightarrow> xs \<noteq> []))"
proof -
  define k where "k = min (length bs) (min (capacity s - writePos s) (capacity s - used s))"
  have c: "0 < capacity s" "writePos s < capacity s" "used s \<le> capacity s" using s by (simp_all add: ring_ok_def)
  have k: "length (take k bs) = k" "k \<le> capacity s - used s" "k \<le> capacity s - writePos s" by (simp_all add: k_def)
  have s': "s' = s\<lparr>buffer := memcpy_in (buffer s) (writePos s) (take k bs), writePos := (writePos s + k) mod capacity s,
      used := used s + length (take k bs), pushed := pushed s + of_nat k\<rparr>" and rest: "rest = drop k bs"
    using p k(1) by (auto simp: put_chunk_def Let_def k_def)
  have "contents s' = contents s @ take k bs"
    unfolding s' by (rule contents_put [OF s]) (use k c in simp_all)
  moreover have "ring_ok s'"
  proof -
    have "used s + k \<le> capacity s" "writePos s + k \<le> capacity s" using k c by linarith+
    then show ?thesis
      using s k(1) unfolding s' ring_ok_def by (auto simp: length_memcpy mod_add_left_eq add.assoc)
  qed
  moreover have "k \<noteq> 0" if "used s < capacity s" "bs \<noteq> []" using that c by (simp add: k_def)
  ultimately show ?thesis using rest by (intro conjI exI [of _ "take k bs"]) auto
qed

lemma get_chunk_law:
  assumes s: "ring_ok s" and g: "get_chunk n s = (got, s')"
  shows "ring_ok s' \<and> contents s = got @ contents s' \<and> length got \<le> n \<and> (contents s \<noteq> [] \<longrightarrow> 0 < n \<longrightarrow> got \<noteq> [])"
proof -
  define k where "k = min n (min (capacity s - readPos s) (used s))"
  have c: "0 < capacity s" "readPos s < capacity s" "used s \<le> capacity s" "length (buffer s) = capacity s"
    using s by (simp_all add: ring_ok_def)
  have k: "k \<le> n" "k \<le> used s" "readPos s + k \<le> capacity s" using c by (auto simp: k_def)
  have s': "s' = s\<lparr>readPos := (readPos s + k) mod capacity s, used := used s - k, consumed := consumed s + of_nat k\<rparr>"
    and got: "got = take k (drop (readPos s) (buffer s))"
    using g by (auto simp: get_chunk_def Let_def k_def)
  have len: "length got = k" using got c k by simp
  have "contents s = got @ contents s'"
  proof (rule nth_equalityI)
    fix i assume "i < length (contents s)"
    then have i: "i < used s" by simp
    show "contents s ! i = (got @ contents s') ! i"
    proof (cases "i < k")
      case True
      with i k c have "(readPos s + i) mod capacity s = readPos s + i" by simp
      with True i got len k c show ?thesis by (simp add: nth_append contents_def)
    next
      case False
      then obtain l where l: "i = k + l" using le_Suc_ex [of k i] by auto
      then have "(readPos s + i) mod capacity s = ((readPos s + k) mod capacity s + l) mod capacity s"
        using mod_shift [of k i "readPos s"] by simp
      moreover have "l < used s - k" using i l by simp
      ultimately show ?thesis using l i len s' by (simp add: nth_append contents_def)
    qed
  qed (use len k s' in simp)
  moreover have "ring_ok s'"
    using s k c mod_shift [of k "used s" "readPos s" "capacity s"] unfolding s' by (simp add: ring_ok_def)
  moreover have "k \<noteq> 0" if "contents s \<noteq> []" "0 < n"
    using that c length_contents [of s] by (auto simp: k_def)
  ultimately show ?thesis using len k(1) by auto
qed

interpretation ring: byte_queue ring_ok contents "\<lambda>s. used s < capacity s" put_chunk get_chunk
  by unfold_locales (use put_chunk_law get_chunk_law in blast)+

lemma ring_ok_new: "ring_ok (new_stream n)" and contents_new: "contents (new_stream n) = []"
  by (simp_all add: ring_ok_def contents_def new_stream_def Let_def)

lemma ring_flags [simp]:
  "ring_ok (closeProducer s) = ring_ok s" "contents (closeProducer s) = contents s"
  "ring_ok (cancel s) = ring_ok s" "contents (cancel s) = contents s"
  by (simp_all add: ring_ok_def contents_def closeProducer_def cancel_def)

lemma ring_finish: "ring_ok s \<Longrightarrow> ring_ok (finishConsumer s)" "contents (finishConsumer s) = []"
  by (auto simp: ring_ok_def contents_def finishConsumer_def)

end
