(* ===== verification/Stream_Threads.thy ===== *)
theory Stream_Threads
  imports Install_Stream
begin

text \<open>
  The threads of the stream: a producer in \<^verbatim>\<open>push\<close>, a consumer in \<^verbatim>\<open>readExact\<close> and a thread
  that may cancel, in every interleaving. Shown are the order of the bytes, that no wake-up is
  lost although the notifications come after the lock is released, that the two waits never
  hold at once, and that every call returns when the other side goes on.
\<close>

datatype condvar = CanRead | CanWrite

text \<open>Where a thread is: outside, before the lock of a round, or asleep on its condition variable.\<close>

datatype producer_at = P_Idle | P_Run "u8 list" | P_Asleep "u8 list"
datatype consumer_at = C_Idle | C_Run nat | C_Asleep nat

text \<open>
  \<open>p_notes\<close>, \<open>c_notes\<close> and \<open>x_notes\<close> are the notifications a thread has still to send, in order.
  \<open>sent\<close> and \<open>received\<close> record the bytes that entered and left the ring.
\<close>

record threads =
  ring_of :: InstallStream
  prod :: producer_at
  cons :: consumer_at
  p_notes :: "condvar list"
  c_notes :: "condvar list"
  x_notes :: "condvar list"
  sent :: "u8 list"
  received :: "u8 list"

text \<open>A notification wakes the thread that waits on the condition variable.\<close>

definition notify :: "condvar \<Rightarrow> threads \<Rightarrow> threads" where
  "notify v t =
    (case v of
       CanWrite \<Rightarrow> (case prod t of P_Asleep src \<Rightarrow> t\<lparr>prod := P_Run src\<rparr> | _ \<Rightarrow> t)
     | CanRead \<Rightarrow> (case cons t of C_Asleep n \<Rightarrow> t\<lparr>cons := C_Run n\<rparr> | _ \<Rightarrow> t))"

definition push_step :: "u8 list \<Rightarrow> threads \<Rightarrow> threads" where
  "push_step src t =
    (case push_round src (ring_of t) of
       Wait \<Rightarrow> t\<lparr>prod := P_Asleep src\<rparr>
     | Return b s \<Rightarrow> t\<lparr>ring_of := s, prod := P_Idle\<rparr>
     | Moved rest s \<Rightarrow> t\<lparr>ring_of := s, prod := P_Run rest, p_notes := [CanRead],
         sent := sent t @ take (length src - length rest) src\<rparr>)"

definition read_step :: "nat \<Rightarrow> threads \<Rightarrow> threads" where
  "read_step n t =
    (case readExact_round n (ring_of t) of
       Wait \<Rightarrow> t\<lparr>cons := C_Asleep n\<rparr>
     | Return b s \<Rightarrow> t\<lparr>ring_of := s, cons := C_Idle\<rparr>
     | Moved got s \<Rightarrow> t\<lparr>ring_of := s, cons := C_Run (n - length got), c_notes := [CanWrite],
         received := received t @ got\<rparr>)"

text \<open>The steps inside the calls.\<close>

inductive inner :: "threads \<Rightarrow> threads \<Rightarrow> bool" where
  push: "prod t = P_Run src \<Longrightarrow> p_notes t = [] \<Longrightarrow> inner t (push_step src t)"
| read: "cons t = C_Run n \<Longrightarrow> c_notes t = [] \<Longrightarrow> inner t (read_step n t)"
| p_notify: "p_notes t = v # vs \<Longrightarrow> inner t (notify v (t\<lparr>p_notes := vs\<rparr>))"
| c_notify: "c_notes t = v # vs \<Longrightarrow> inner t (notify v (t\<lparr>c_notes := vs\<rparr>))"
| x_notify: "x_notes t = v # vs \<Longrightarrow> inner t (notify v (t\<lparr>x_notes := vs\<rparr>))"

text \<open>All steps: also the calls, and wake-ups without a notification.\<close>

inductive step :: "threads \<Rightarrow> threads \<Rightarrow> bool" where
  inner: "inner t t' \<Longrightarrow> step t t'"
| call_push: "prod t = P_Idle \<Longrightarrow> p_notes t = [] \<Longrightarrow> step t (t\<lparr>prod := P_Run src\<rparr>)"
| call_read: "cons t = C_Idle \<Longrightarrow> c_notes t = [] \<Longrightarrow> step t (t\<lparr>cons := C_Run n\<rparr>)"
| close: "prod t = P_Idle \<Longrightarrow> p_notes t = [] \<Longrightarrow>
    step t (t\<lparr>ring_of := closeProducer (ring_of t), p_notes := [CanRead, CanWrite]\<rparr>)"
| finish: "cons t = C_Idle \<Longrightarrow> c_notes t = [] \<Longrightarrow>
    step t (t\<lparr>ring_of := finishConsumer (ring_of t), c_notes := [CanRead, CanWrite]\<rparr>)"
| cancel: "x_notes t = [] \<Longrightarrow> step t (t\<lparr>ring_of := cancel (ring_of t), x_notes := [CanRead, CanWrite]\<rparr>)"
| spurious_p: "prod t = P_Asleep src \<Longrightarrow> step t (t\<lparr>prod := P_Run src\<rparr>)"
| spurious_c: "cons t = C_Asleep n \<Longrightarrow> step t (t\<lparr>cons := C_Run n\<rparr>)"

definition initial :: "nat \<Rightarrow> threads" where
  "initial n = \<lparr>ring_of = new_stream n, prod = P_Idle, cons = C_Idle, p_notes = [], c_notes = [], x_notes = [],
     sent = [], received = []\<rparr>"

inductive reachable :: "nat \<Rightarrow> threads \<Rightarrow> bool" for n where
  start: "reachable n (initial n)"
| go: "reachable n t \<Longrightarrow> step t t' \<Longrightarrow> reachable n t'"

section \<open>The invariant\<close>

definition pending :: "threads \<Rightarrow> condvar set" where
  "pending t = set (p_notes t) \<union> set (c_notes t) \<union> set (x_notes t)"

text \<open>Order: what was received and what is stored is what was sent, until the consumer finishes.\<close>

definition in_order :: "threads \<Rightarrow> bool" where
  "in_order t = (if consumerDone (ring_of t) then contents (ring_of t) = [] \<and> (\<exists>lost. received t @ lost = sent t)
     else received t @ contents (ring_of t) = sent t)"

text \<open>A sleeper has nothing to wake up for, or its notification is on the way.\<close>

definition awaited :: "threads \<Rightarrow> bool" where
  "awaited t = ((\<forall>src. prod t = P_Asleep src \<longrightarrow> src \<noteq> [] \<and> (can_write (ring_of t) \<longrightarrow> CanWrite \<in> pending t)) \<and>
     (\<forall>n. cons t = C_Asleep n \<longrightarrow> 0 < n \<and> (can_read (ring_of t) \<longrightarrow> CanRead \<in> pending t)))"

definition threads_ok :: "threads \<Rightarrow> bool" where
  "threads_ok t = (ring_ok (ring_of t) \<and> in_order t \<and> awaited t)"

lemma push_roundD:
  "push_round src s = Wait \<Longrightarrow> src \<noteq> [] \<and> \<not> can_write s"
  "push_round src s = Return b s' \<Longrightarrow> \<exists>q. s' = s\<lparr>pushed := q\<rparr>"
  "push_round src s = Moved rest s' \<Longrightarrow>
    put_chunk src s = (rest, s') \<and> src \<noteq> [] \<and> \<not> consumerDone s \<and> used s < capacity s"
proof -
  have "\<exists>q. s = s\<lparr>pushed := q\<rparr>" by (rule exI [of _ "pushed s"]) simp
  then show "push_round src s = Return b s' \<Longrightarrow> \<exists>q. s' = s\<lparr>pushed := q\<rparr>"
    unfolding push_round_def by (auto split: if_splits prod.splits)
qed (auto simp: push_round_def can_write_def split: if_splits prod.splits)

lemma readExact_roundD:
  "readExact_round n s = Wait \<Longrightarrow> 0 < n \<and> \<not> can_read s"
  "readExact_round n s = Return b s' \<Longrightarrow> s' = s"
  "readExact_round n s = Moved got s' \<Longrightarrow> get_chunk n s = (got, s') \<and> 0 < n \<and> 0 < used s"
  by (auto simp: readExact_round_def can_read_def split: if_splits prod.splits)

lemma put_chunk_flags:
  "put_chunk src s = (rest, s') \<Longrightarrow> cancelledFlag s' = cancelledFlag s \<and> producerDone s' = producerDone s \<and>
    consumerDone s' = consumerDone s \<and> capacity s' = capacity s \<and> used s \<le> used s'"
  by (auto simp: put_chunk_def Let_def)

lemma get_chunk_flags:
  "get_chunk n s = (got, s') \<Longrightarrow> cancelledFlag s' = cancelledFlag s \<and> producerDone s' = producerDone s \<and>
    consumerDone s' = consumerDone s \<and> capacity s' = capacity s \<and> used s' \<le> used s"
  by (auto simp: get_chunk_def Let_def)

lemma pushed_same [simp]:
  "ring_ok (s\<lparr>pushed := q\<rparr>) = ring_ok s" "contents (s\<lparr>pushed := q\<rparr>) = contents s"
  "can_read (s\<lparr>pushed := q\<rparr>) = can_read s" "can_write (s\<lparr>pushed := q\<rparr>) = can_write s"
  by (simp_all add: ring_ok_def contents_def can_read_def can_write_def)

lemma push_step_ok:
  assumes t: "threads_ok t" and p: "prod t = P_Run src" "p_notes t = []"
  shows "threads_ok (push_step src t)"
proof (cases "push_round src (ring_of t)")
  case Wait
  with push_roundD(1) [OF Wait] t p show ?thesis
    by (auto simp: push_step_def threads_ok_def in_order_def awaited_def pending_def)
next
  case (Return b s)
  with push_roundD(2) [OF Return] t p show ?thesis
    by (auto simp: push_step_def threads_ok_def in_order_def awaited_def pending_def)
next
  case (Moved rest s)
  note m = push_roundD(3) [OF Moved]
  then have pc: "put_chunk src (ring_of t) = (rest, s)" by simp
  have ok: "ring_ok (ring_of t)" "received t @ contents (ring_of t) = sent t" using t m by (simp_all add: threads_ok_def in_order_def)
  note flags = put_chunk_flags [OF pc]
  have "ring_ok s" using put_chunk_law [OF ok(1) pc] by simp
  moreover have "received t @ contents s = sent t @ take (length src - length rest) src"
    by (rule ring.put_fifo [OF ok(1) pc ok(2)])
  moreover have "can_write s \<Longrightarrow> can_write (ring_of t)" using m by (simp add: can_write_def)
  ultimately show ?thesis
    using Moved m flags t p by (auto simp: push_step_def threads_ok_def in_order_def awaited_def pending_def)
qed

lemma read_step_ok:
  assumes t: "threads_ok t" and c: "cons t = C_Run n" "c_notes t = []"
  shows "threads_ok (read_step n t)"
proof (cases "readExact_round n (ring_of t)")
  case Wait
  with readExact_roundD(1) [OF Wait] t c show ?thesis
    by (auto simp: read_step_def threads_ok_def in_order_def awaited_def pending_def)
next
  case (Return b s)
  with readExact_roundD(2) [OF Return] t c show ?thesis
    by (auto simp: read_step_def threads_ok_def in_order_def awaited_def pending_def)
next
  case (Moved got s)
  note m = readExact_roundD(3) [OF Moved]
  then have gc: "get_chunk n (ring_of t) = (got, s)" by simp
  have ok: "ring_ok (ring_of t)" using t by (simp add: threads_ok_def)
  note flags = get_chunk_flags [OF gc]
  have "\<not> consumerDone (ring_of t)"
    using t m length_contents [of "ring_of t"] by (auto simp: threads_ok_def in_order_def split: if_splits)
  moreover from this have "(received t @ got) @ contents s = sent t"
    using t by (intro ring.get_fifo [OF ok gc]) (simp add: threads_ok_def in_order_def)
  moreover have "ring_ok s" using get_chunk_law [OF ok gc] by simp
  moreover have "can_read (ring_of t)" using m by (simp add: can_read_def)
  ultimately show ?thesis
    using Moved m flags t c by (auto simp: read_step_def threads_ok_def in_order_def awaited_def pending_def)
qed

lemma notify_ok:
  assumes "ring_ok (ring_of t)" and "in_order t"
    and "\<And>src. prod t = P_Asleep src \<Longrightarrow> src \<noteq> [] \<and> (can_write (ring_of t) \<longrightarrow> CanWrite \<in> insert v (pending t))"
    and "\<And>n. cons t = C_Asleep n \<Longrightarrow> 0 < n \<and> (can_read (ring_of t) \<longrightarrow> CanRead \<in> insert v (pending t))"
  shows "threads_ok (notify v t)"
  using assms
  by (cases v; cases "prod t"; cases "cons t")
    (auto simp: notify_def threads_ok_def in_order_def awaited_def pending_def)

lemma inner_ok: "inner t t' \<Longrightarrow> threads_ok t \<Longrightarrow> threads_ok t'"
proof (induction rule: inner.induct)
  case (push t src)
  then show ?case by (intro push_step_ok)
next
  case (read t n)
  then show ?case by (intro read_step_ok)
qed (rule notify_ok; auto simp: threads_ok_def in_order_def awaited_def pending_def)+

lemma step_ok: "step t t' \<Longrightarrow> threads_ok t \<Longrightarrow> threads_ok t'"
proof (induction rule: step.induct)
  case (inner t t')
  then show ?case by (rule inner_ok)
next
  case (close t)
  then show ?case
    by (auto simp: threads_ok_def in_order_def awaited_def pending_def can_write_def closeProducer_def
      contents_def ring_ok_def)
next
  case (finish t)
  have "received t @ [] = sent t \<or> (\<exists>lost. received t @ lost = sent t)"
    using finish by (auto simp: threads_ok_def in_order_def split: if_splits)
  with finish show ?case
    using ring_finish [of "ring_of t"]
    by (auto simp: threads_ok_def in_order_def awaited_def pending_def finishConsumer_def)
next
  case (cancel t)
  then show ?case
    by (auto simp: threads_ok_def in_order_def awaited_def pending_def Install_Stream.cancel_def contents_def ring_ok_def)
qed (auto simp: threads_ok_def in_order_def awaited_def pending_def)

lemma initial_ok: "threads_ok (initial n)"
  by (simp add: initial_def threads_ok_def in_order_def awaited_def ring_ok_new contents_new)

lemma reachable_ok: "reachable n t \<Longrightarrow> threads_ok t"
  by (induction rule: reachable.induct) (auto intro: initial_ok step_ok)

section \<open>Progress\<close>

lemma never_both_asleep:
  assumes "threads_ok t" and "pending t = {}" and "prod t = P_Asleep src"
  shows "\<nexists>n. cons t = C_Asleep n"
  using assms by (auto simp: threads_ok_def awaited_def can_write_def can_read_def ring_ok_def)

text \<open>The work left: every step inside the calls makes it smaller.\<close>

definition work :: "threads \<Rightarrow> nat" where
  "work t = (case prod t of P_Idle \<Rightarrow> 0 | P_Run src \<Rightarrow> 4 * length src + 1 | P_Asleep src \<Rightarrow> 4 * length src) +
     (case cons t of C_Idle \<Rightarrow> 0 | C_Run n \<Rightarrow> 4 * n + 1 | C_Asleep n \<Rightarrow> 4 * n) +
     2 * (length (p_notes t) + length (c_notes t) + length (x_notes t))"

lemma notify_work: "work (notify v t) \<le> work t + 1"
  by (auto simp: notify_def work_def split: condvar.splits producer_at.splits consumer_at.splits)

lemma inner_decreases: "inner t t' \<Longrightarrow> threads_ok t \<Longrightarrow> work t' < work t"
proof (induction rule: inner.induct)
  case (push t src)
  show ?case
  proof (cases "push_round src (ring_of t)")
    case (Moved rest s)
    note m = push_roundD(3) [OF Moved]
    have "length rest < length src"
      by (rule ring.put_progress [of "ring_of t" src rest s]) (use m push.prems in \<open>auto simp: threads_ok_def\<close>)
    with Moved push show ?thesis by (simp add: push_step_def work_def)
  qed (use push in \<open>simp_all add: push_step_def work_def\<close>)
next
  case (read t n)
  show ?case
  proof (cases "readExact_round n (ring_of t)")
    case (Moved got s)
    note m = readExact_roundD(3) [OF Moved]
    have "contents (ring_of t) \<noteq> []" using m length_contents [of "ring_of t"] by auto
    then have "0 < length got \<and> length got \<le> n"
      using m read.prems by (intro ring.get_progress [of "ring_of t" n got s]) (auto simp: threads_ok_def)
    then have "4 * (n - length got) + 4 \<le> 4 * n" by linarith
    with Moved read show ?thesis by (simp add: read_step_def work_def)
  qed (use read in \<open>simp_all add: read_step_def work_def\<close>)
next
  case (p_notify t v vs)
  then show ?case using notify_work [of v "t\<lparr>p_notes := vs\<rparr>"] by (simp add: work_def)
next
  case (c_notify t v vs)
  then show ?case using notify_work [of v "t\<lparr>c_notes := vs\<rparr>"] by (simp add: work_def)
next
  case (x_notify t v vs)
  then show ?case using notify_work [of v "t\<lparr>x_notes := vs\<rparr>"] by (simp add: work_def)
qed

text \<open>Where no step inside the calls is left, at least one side has returned.\<close>

lemma settled_returned:
  assumes t: "threads_ok t" and stuck: "\<nexists>t'. inner t t'"
  shows "prod t = P_Idle \<or> cons t = C_Idle" and "pending t = {}"
    and "prod t = P_Asleep src \<Longrightarrow> used (ring_of t) = capacity (ring_of t) \<and> \<not> consumerDone (ring_of t)"
    and "cons t = C_Asleep n \<Longrightarrow> used (ring_of t) = 0 \<and> \<not> producerDone (ring_of t)"
proof -
  have "p_notes t = []" "c_notes t = []" "x_notes t = []"
    using stuck inner.intros(3-5) by (metis neq_Nil_conv)+
  then show none: "pending t = {}" by (simp add: pending_def)
  have "\<nexists>src. prod t = P_Run src" "\<nexists>n. cons t = C_Run n"
    using stuck inner.intros(1,2) \<open>p_notes t = []\<close> \<open>c_notes t = []\<close> by blast+
  then show "prod t = P_Idle \<or> cons t = C_Idle"
    using never_both_asleep [OF t none] by (cases "prod t"; cases "cons t") auto
  show "prod t = P_Asleep src \<Longrightarrow> used (ring_of t) = capacity (ring_of t) \<and> \<not> consumerDone (ring_of t)"
    "cons t = C_Asleep n \<Longrightarrow> used (ring_of t) = 0 \<and> \<not> producerDone (ring_of t)"
    using t none by (auto simp: threads_ok_def awaited_def can_write_def can_read_def ring_ok_def)
qed

end
