(* ===== verification/Installer_Facts.thy ===== *)
theory Installer_Facts
  imports Nsp_Pack Title_Info Stream_Threads
begin

text \<open>
  The properties of the package installer of the application: the reader of split packages,
  the parser of their table of contents, the preflight check, the texts of the diagnostics
  and the stream between the USB thread and the installer. Each rests on the lemmas of its
  component; the examples at the start serve the instances.
\<close>

section \<open>Examples\<close>

definition id_name :: string where
  "id_name = ''00112233445566778899aabbccddeeff''"

definition example_title :: "(string \<times> u8 list) list" where
  "example_title = [(id_name @ ''.cnmt.nca'', [1, 2, 3]), (id_name @ ''.nca'', [4, 5]), (''a.tik'', []), (''a.cert'', [6])]"

definition example_host :: host where
  "example_host = \<lparr>files = [''g.nsp'' \<mapsto> take 100 (pack_files example_title), ''g.nsp.01'' \<mapsto> drop 100 (pack_files example_title)],
     size_fails = {}, open_fails = {}, remove_fails = {}\<rparr>"

lemma length_example: "length (names_of example_title) = 92" "length (pack_files example_title) = 210"
  by (simp_all add: length_pack example_title_def names_of_def name_bytes_def data_of_def id_name_def)

lemma packable_example: "packable example_title"
  by (simp add: packable_def length_example) (simp add: example_title_def id_name_def)

lemma parts_example: "discoverParts example_host ''g.nsp'' = [''g.nsp'', ''g.nsp.01'']"
proof -
  have "partPath ''g.nsp'' 1 = ''g.nsp.01''" "partPath ''g.nsp'' 2 = ''g.nsp.02''" by code_simp+
  moreover from this have "parts_from example_host ''g.nsp'' 2 = []"
    by (subst parts_from.simps) (simp add: is_regular_file_def example_host_def)
  ultimately have "parts_from example_host ''g.nsp'' 1 = [''g.nsp.01'']"
    by (subst parts_from.simps) (simp add: is_regular_file_def example_host_def numeral_2_eq_2)
  then show ?thesis by (simp add: discoverParts_def is_regular_file_def example_host_def)
qed

lemma whole_example: "concat (map (bytes_of example_host) (discoverParts example_host ''g.nsp'')) = pack_files example_title"
  by (simp add: parts_example) (simp add: bytes_of_def example_host_def)

definition example_reader :: reader where
  "example_reader = snd (open_package example_host ''g.nsp'')"

lemma open_example: "open_package example_host ''g.nsp'' = (True, example_reader)"
proof -
  have "fst (open_package example_host ''g.nsp'')"
    by (simp add: open_package_def Let_def parts_example closed_reader_def openPart_def file_size_def)
      (simp add: example_host_def)
  then show ?thesis unfolding example_reader_def by (cases "open_package example_host ''g.nsp''") simp
qed

lemma reader_example: "reader_ok example_host example_reader" "openable example_host example_reader"
    "position example_reader = 0" "whole example_host example_reader = pack_files example_title"
proof -
  have len: "length (concat (map (bytes_of example_host) (discoverParts example_host ''g.nsp''))) < 2 ^ 63"
    by (simp add: whole_example length_example)
  note o = open_package_ok [OF open_example len]
  show "reader_ok example_host example_reader" "position example_reader = 0" by (rule o(1), rule o(2))
  show "openable example_host example_reader"
    by (simp add: openable_def o(3) parts_example) (simp add: example_host_def)
  show "whole example_host example_reader = pack_files example_title"
    unfolding whole_def o(3) by (rule whole_example)
qed

lemma manifest_example: "inspectNspManifest example_host ''g.nsp'' = packed_manifest example_title"
  by (rule inspect_pack [OF packable_example open_example whole_example reader_example(2)])

lemma manifest_example_ok: "d_code (diagnostic (packed_manifest example_title)) = NoError"
  unfolding packed_manifest_def length_example by code_simp

section \<open>Packages\<close>

text \<open>
  C31. \<^verbatim>\<open>PackageReader::open\<close> succeeds only with a reader in order: its parts are those on the card,
  its sizes and starts are those of the parts, its size is the sum, and it stands at the start.
\<close>

theorem open_package_in_order:
  assumes "open_package h base = (True, r)" and "length (concat (map (bytes_of h) (discoverParts h base))) < 2 ^ 63"
  shows "reader_ok h r \<and> position r = 0 \<and> whole h r = concat (map (bytes_of h) (discoverParts h base)) \<and>
    unat (totalSize r) = length (whole h r)"
proof -
  note o = open_package_ok [OF assms]
  have w: "whole h r = concat (map (bytes_of h) (discoverParts h base))" unfolding whole_def o(3) ..
  have "totalSize r = of_nat (length (whole h r))" using o(1) by (simp add: reader_ok_def)
  then have "unat (totalSize r) = length (whole h r)" using unat_small [OF assms(2)] w by simp
  with o w show ?thesis by blast
qed

theorem open_package_in_order_witness:
  "reader_ok example_host example_reader \<and> position example_reader = 0 \<and>
    whole example_host example_reader = pack_files example_title \<and> unat (totalSize example_reader) = 210"
  using open_package_in_order [OF open_example] by (simp add: whole_example length_example)

text \<open>
  C21. \<^verbatim>\<open>PackageReader::read\<close> on a split package: it keeps the reader in order; when it reports
  success it returned exactly the requested bytes of the parts put together, from the current
  position, and moved the position past them; and when every part can be opened it succeeds
  whenever the bytes are there.
\<close>

theorem read_package_exact:
  assumes "reader_ok h r" and "n < 2 ^ 63" and "read_package h n r = (res, r')"
  shows "reader_ok h r' \<and> whole h r' = whole h r \<and>
    (res = Some bs \<longrightarrow> bs = take n (drop (unat (position r)) (whole h r)) \<and> length bs = n \<and>
      unat (position r') = unat (position r) + n) \<and>
    (openable h r \<and> unat (position r) + n \<le> length (whole h r) \<longrightarrow> res \<noteq> None)"
  using read_package_correct [OF assms] same_whole [of r r' h] by blast

theorem read_package_exact_witness:
  "\<exists>bs r'. read_package example_host 150 example_reader = (Some bs, r') \<and> bs = take 150 (pack_files example_title)"
proof -
  obtain res r' where rd: "read_package example_host 150 example_reader = (res, r')" by fastforce
  have "(150 :: nat) < 2 ^ 63" by simp
  note p = read_package_exact [OF reader_example(1) this rd]
  from p have "res \<noteq> None" using reader_example by (simp add: length_example)
  then obtain bs where bs: "res = Some bs" by blast
  with p have "bs = take 150 (pack_files example_title)" using reader_example by simp
  with rd bs show ?thesis by blast
qed

text \<open>
  C32. Every position inside a package is found: \<^verbatim>\<open>locatePart\<close> names a part and an offset inside
  that part, and the sum of the parts before it and the offset is the position.
\<close>

theorem locatePart_found:
  assumes "reader_ok h r" and "unat x < length (whole h r)"
  shows "\<exists>i l. locatePart r x = Some (i, l) \<and> i < length (partPaths r) \<and>
    unat x = start_of h (partPaths r) i + unat l \<and> unat l < length (bytes_of h (partPaths r ! i))"
  by (rule locatePart_inside [OF assms]) blast

theorem locatePart_found_witness:
  "\<exists>i l. locatePart example_reader 120 = Some (i, l) \<and> i < length (partPaths example_reader)"
  using locatePart_found [OF reader_example(1), of 120] reader_example(4) by (auto simp: length_example)

section \<open>Tables of contents\<close>

text \<open>
  C19. The parser of the PFS0 tables, which reads the header, the entries and the names one
  after the other through the reader of split packages, computes the reference parser
  \<open>parse_pfs0\<close> on the bytes of the whole package, when every part can be opened.
\<close>

theorem pfs0_tables_reference:
  assumes "reader_ok h r" and "openable h r" and "position r = 0" and "16 \<le> length (whole h r)"
  shows "pfs0_tables (read_package h) (totalSize r) r = parse_pfs0 (whole h r)"
proof -
  have len: "length (whole h r) < 2 ^ 63" and size: "totalSize r = of_nat (length (whole h r))"
    using assms(1) by (simp_all add: reader_ok_def)
  show ?thesis
    unfolding size by (rule full.pfs0_tables_eq) (use assms len in \<open>simp_all add: full_reader_def\<close>)
qed

theorem pfs0_tables_reference_witness:
  "pfs0_tables (read_package example_host) (totalSize example_reader) example_reader = Inr (pack_tables example_title)"
  using pfs0_tables_reference [OF reader_example(1-3)] reader_example(4) parse_pack [OF packable_example]
  by (simp add: length_example)

text \<open>
  C20. Whatever is on the card, every entry of a manifest lies inside the package: its absolute
  offset and its size add up, without wrapping around, to at most the size of the package.
\<close>

theorem manifest_entries_inside:
  "\<forall>e \<in> set (entries (inspectNspManifest h path)).
    unat (n_offset e) + unat (n_size e) \<le> unat (packageSize (inspectNspManifest h path))"
  using inspect_inside(1) [of h path] unfolding inside_def .

theorem manifest_entries_inside_witness:
  "\<exists>e es. entries (inspectNspManifest example_host ''g.nsp'') = e # es \<and> length es = 3 \<and>
      unat (n_offset e) + unat (n_size e) \<le> unat (packageSize (inspectNspManifest example_host ''g.nsp''))"
proof -
  have "length (entries (inspectNspManifest example_host ''g.nsp'')) = length example_title"
    unfolding manifest_example by (metis length_map entries_packed_manifest [OF packable_example])
  then obtain e es where "entries (inspectNspManifest example_host ''g.nsp'') = e # es" "length es = 3"
    by (cases "entries (inspectNspManifest example_host ''g.nsp'')") (simp_all add: example_title_def)
  with manifest_entries_inside [of example_host "''g.nsp''"] show ?thesis by simp
qed

text \<open>
  C30. The counters of a manifest are those of its list of entries: the contents, the CNMT
  contents, the tickets and the certificates, and the sum of the sizes of the contents.
\<close>

theorem manifest_counts:
  fixes h path
  defines "m \<equiv> inspectNspManifest h path"
  shows "ncaCount m = of_nat (length (filter isNca (entries m))) \<and>
    cnmtNcaCount m = of_nat (length (filter isCnmtNca (entries m))) \<and>
    ticketCount m = of_nat (length (filter isTicket (entries m))) \<and>
    certCount m = of_nat (length (filter isCert (entries m))) \<and>
    totalNcaBytes m = of_nat (sum_list (map (\<lambda>e. unat (n_size e)) (filter isNca (entries m))))"
  using inspect_inside(2) [of h path] unfolding m_def counted_def .

text \<open>
  C18. The round trip: pack files under names without zero bytes into a container, split it
  into parts in any way, put them on the card. The manifest then lists, in order, every name
  with an offset and a size at which the package holds exactly the bytes of that file.
\<close>

theorem manifest_of_packed:
  assumes "packable fs" and "open_package h path = (True, r)" and "openable h r"
    and "concat (map (bytes_of h) (discoverParts h path)) = pack_files fs"
  shows "map (\<lambda>e. (n_name e, take (unat (n_size e)) (drop (unat (n_offset e)) (pack_files fs))))
      (entries (inspectNspManifest h path)) = fs"
  using entries_packed_manifest [OF assms(1)] unfolding inspect_pack [OF assms(1,2,4,3)] slice_def .

theorem manifest_of_packed_witness:
  "map (\<lambda>e. (n_name e, take (unat (n_size e)) (drop (unat (n_offset e)) (pack_files example_title))))
      (entries (inspectNspManifest example_host ''g.nsp'')) = example_title"
  by (rule manifest_of_packed [OF packable_example open_example reader_example(2) whole_example])

lemma check_manifest_ok:
  assumes "d_code (diagnostic (check_manifest m)) = NoError"
  shows "ncaCount m \<noteq> 0 \<and> cnmtNcaCount m \<noteq> 0 \<and> ticketCount m = certCount m \<and>
    (\<forall>e \<in> set (entries m). isNca e \<longrightarrow> hasContentId e)"
  using assms by (auto simp: check_manifest_def find_None_iff split: if_splits option.splits)

lemma check_manifest_counts [simp]:
  "cnmtNcaCount (check_manifest m) = cnmtNcaCount m" "ticketCount (check_manifest m) = ticketCount m"
  "certCount (check_manifest m) = certCount m"
  by (auto simp: check_manifest_def split: option.splits)

lemma scan_error: "scan_entries t es m = Inl m' \<Longrightarrow> d_code (diagnostic m') \<noteq> NoError"
proof (induction es arbitrary: m)
  case (Cons e es)
  then show ?case by (auto split: if_splits option.splits)
qed simp

text \<open>
  C29. A manifest is accepted (its diagnostic is \<^verbatim>\<open>None\<close>) only when it has a CNMT content, as many
  tickets as certificates, and a content id for every content.
\<close>

theorem manifest_accepted:
  assumes "d_code (diagnostic (inspectNspManifest h path)) = NoError"
  shows "cnmtNcaCount (inspectNspManifest h path) \<noteq> 0 \<and>
    ticketCount (inspectNspManifest h path) = certCount (inspectNspManifest h path) \<and>
    (\<forall>e \<in> set (entries (inspectNspManifest h path)). isNca e \<longrightarrow> hasContentId e)"
proof -
  let ?f = "snd (open_package h path)" and ?m = "inspectNspManifest h path"
  let ?o = "empty_manifest\<lparr>packageSize := totalSize ?f\<rparr>"
  have insp: "?m = inspect_tables (read_package h) ?f ?o"
    using assms by (auto simp: inspectNspManifest_def Let_def split: if_splits)
  then obtain t where t: "pfs0_tables (read_package h) (packageSize ?o) ?f = Inr t"
    using assms refusal_codes by (cases "pfs0_tables (read_package h) (packageSize ?o) ?f") (auto simp: inspect_tables_def)
  with insp assms obtain m' where "scan_entries t (t_entries t) ?o = Inr m'"
    using scan_error by (cases "scan_entries t (t_entries t) ?o") (auto simp: inspect_tables_def)
  with insp t have m: "?m = check_manifest m'" by (simp add: inspect_tables_def)
  with check_manifest_ok [of m'] assms show ?thesis unfolding m by simp
qed

theorem manifest_accepted_witness:
  "cnmtNcaCount (inspectNspManifest example_host ''g.nsp'') \<noteq> 0 \<and>
    ticketCount (inspectNspManifest example_host ''g.nsp'') = certCount (inspectNspManifest example_host ''g.nsp'')"
  using manifest_accepted [of example_host "''g.nsp''"] manifest_example manifest_example_ok by simp


text \<open>
  C28. When the preflight check accepts a package, the payload it declares lies inside the
  package after the tables, covers every entry, and fits the free space where that is known.
\<close>

theorem preflight_payload:
  assumes "pfs0_tables rd (pf_packageSize p) s = Inr t"
    and "d_code (pf_diagnostic (preflight_tables rd True free s p)) = NoError"
  shows "let q = declaredPayloadSize (preflight_tables rd True free s p) in
    unat (t_dataStart t) + unat q \<le> unat (pf_packageSize p) \<and>
    (\<forall>e \<in> set (t_entries t). unat (e_offset e) + unat (e_size e) \<le> unat q) \<and> (free < 0 \<or> uint q \<le> free)"
proof -
  let ?sz = "pf_packageSize p"
  have start: "t_dataStart t \<le> ?sz" by (rule pfs0_tables_start [OF assms(1)])
  obtain q where q: "preflight_entries ?sz t 0 (t_entries t) 0 = Inr q"
  proof (cases "preflight_entries ?sz t 0 (t_entries t) 0")
    case (Inl d)
    then have "d_code d \<noteq> NoError"
      using scan_preflight [where m = "empty_manifest\<lparr>packageSize := ?sz\<rparr>" and sz = ?sz and t = t and i = 0
          and es = "t_entries t" and p = 0] by auto
    with Inl assms show thesis by (simp add: preflight_tables_def Let_def)
  qed (use that in blast)
  have size: "declaredPayloadSize (preflight_tables rd True free s p) = q"
    using assms(1) q by (simp add: preflight_tables_def Let_def)
  have "free < 0 \<or> uint q \<le> free"
    using assms q by (auto simp: preflight_tables_def Let_def split: if_splits)
  with preflight_end [OF q start] start show ?thesis by (simp add: size Let_def word_le_nat_alt)
qed

lemma preflight_example:
  "d_code (pf_diagnostic (preflight_tables (read_package example_host) True 1000 example_reader
    \<lparr>pf_diagnostic = no_diagnostic, pf_packageSize = totalSize example_reader, declaredPayloadSize = 0, pf_fileCount = 0,
      packageType = ''nsp''\<rparr>)) = NoError"
proof -
  have t: "pfs0_tables (read_package example_host) (totalSize example_reader) example_reader = Inr (pack_tables example_title)"
    using full.pfs0_tables_eq [of example_host example_reader] reader_example parse_pack [OF packable_example]
    by (simp add: full_reader_def length_example reader_ok_def)
  have size: "totalSize example_reader = 210"
    using reader_example(1,4) by (simp add: reader_ok_def length_example)
  have "preflight_entries 210 (pack_tables example_title) 0 (t_entries (pack_tables example_title)) 0 = Inr 6"
    by code_simp
  then show ?thesis using t unfolding size by (simp add: preflight_tables_def Let_def)
qed

theorem preflight_payload_witness:
  "\<exists>q :: u64. unat (t_dataStart (pack_tables example_title)) + unat q \<le> unat (totalSize example_reader) \<and> uint q \<le> 1000"
proof -
  have t: "pfs0_tables (read_package example_host) (totalSize example_reader) example_reader = Inr (pack_tables example_title)"
    using full.pfs0_tables_eq [of example_host example_reader] reader_example parse_pack [OF packable_example]
    by (simp add: full_reader_def length_example reader_ok_def)
  let ?p = "\<lparr>pf_diagnostic = no_diagnostic, pf_packageSize = totalSize example_reader, declaredPayloadSize = 0, pf_fileCount = 0,
      packageType = ''nsp''\<rparr>"
  show ?thesis
    using preflight_payload [of "read_package example_host" ?p example_reader "pack_tables example_title" 1000] t preflight_example
    by (auto simp: Let_def)
qed

section \<open>Names, numbers and texts\<close>

text \<open>Bytes written as hexadecimal digits read back as the same bytes.\<close>

theorem hex_round_trip: "hexToBytes (bytesToHex bs) (length bs) = Some bs"
  by (rule hexToBytes_bytesToHex)

lemma hex_digit_not_dot: "n < 16 \<Longrightarrow> hex_digit n \<noteq> CHR ''.''"
proof -
  assume "n < 16"
  then have "n \<in> set [0..<16]" by simp
  moreover have "\<forall>n \<in> set [0..<16]. hex_digit n \<noteq> CHR ''.''" by code_simp
  ultimately show ?thesis by blast
qed

lemma bytesToHex_no_dot: "CHR ''.'' \<notin> set (bytesToHex bs)"
proof (induction bs)
  case (Cons b bs)
  have "unat b div 16 < 16" "unat b mod 16 < 16" using unat_byte [of b] by simp_all
  note digits = hex_digit_not_dot [OF this(1)] hex_digit_not_dot [OF this(2)]
  show ?case using Cons digits [symmetric] by (simp add: bytesToHex_def)
qed (simp add: bytesToHex_def)

text \<open>
  C38. The name of a content carries its id: for every id of 16 bytes and every suffix that
  starts with a dot, \<^verbatim>\<open>parseContentIdFromName\<close> finds the id again.
\<close>

theorem content_id_round_trip:
  assumes "length cid = 16"
  shows "parseContentIdFromName (bytesToHex cid @ ''.'' @ tail) = Some cid"
proof -
  have "takeWhile (\<lambda>x. x \<noteq> CHR ''.'') (bytesToHex cid @ ''.'' @ tail) = bytesToHex cid"
    using bytesToHex_no_dot [of cid] by (subst takeWhile_append2) auto
  then have "find_char (CHR ''.'') (bytesToHex cid @ ''.'' @ tail) = Some 32"
    using assms by (simp add: find_char_def length_bytesToHex)
  with assms hex_pairs_bytesToHex [of cid "''.'' @ tail"] show ?thesis by (simp add: parseContentIdFromName_def)
qed

theorem content_id_round_trip_witness:
  "parseContentIdFromName (bytesToHex (replicate 16 0xAB) @ ''.cnmt.nca'') = Some (replicate 16 0xAB)"
  using content_id_round_trip [of "replicate 16 0xAB" "''cnmt.nca''"] by simp

text \<open>\<^verbatim>\<open>checkedAdd\<close> refuses exactly the sums that do not fit 64 bits, and adds the others.\<close>

theorem checkedAdd_exact:
  "checkedAdd a b = (if unat a + unat b < 2 ^ 64 then Some (a + b) else None)"
  using checkedAdd_Some [of a b "a + b"] by (cases "checkedAdd a b") (auto simp: checkedAdd_Some)

text \<open>
  C39. The packed system version: written back as text it shows the three numbers it was packed
  from, cut off at the largest value of each field.
\<close>

theorem packed_version_text:
  "formatPackedSystemVersion (packed_firmware a b c) =
    decimal (min (unat a) 63) @ ''.'' @ decimal (min (unat b) 63) @ ''.'' @ decimal (min (unat c) 15)"
  by (rule format_packed)

text \<open>
  The code a user reads identifies the error: \<^verbatim>\<open>makeDiagnostic\<close> gives different codes to
  different errors, and the message \<^verbatim>\<open>formatDiagnostic\<close> shows contains the code.
\<close>

theorem diagnostic_identifies:
  "(aioCode (makeDiagnostic a t r) = aioCode (makeDiagnostic b t' r') \<longleftrightarrow> a = b) \<and>
    (\<exists>xs ys. formatDiagnostic (makeDiagnostic a t r) = xs @ aio_code a @ ys)"
proof -
  let ?d = "makeDiagnostic a t r"
  have "formatDiagnostic ?d = (d_title ?d @ newline @ newline @ d_message ?d @
      (if d_advice ?d \<noteq> [] then newline @ newline @ d_advice ?d else []) @
      newline @ newline @ ''C'' @ [CHR 0xC3, CHR 0xB3] @ ''digo: '') @ aio_code a @
      (if technical ?d \<noteq> [] then newline @ ''Detalle: '' @ technical ?d else [])"
    by (simp add: formatDiagnostic_def)
  then have "\<exists>xs ys. formatDiagnostic ?d = xs @ aio_code a @ ys" by blast
  then show ?thesis using aio_code_inj [of a b] by simp
qed

section \<open>The install stream\<close>

text \<open>
  C22. The ring buffer implements a queue of bytes: a round of \<^verbatim>\<open>push\<close> appends a prefix of the
  data to the stored bytes and leaves the rest, a round of \<^verbatim>\<open>readExact\<close> takes a prefix of the
  stored bytes; both keep the ring in order, and both move something when they can.
\<close>

theorem ring_is_queue:
  assumes "ring_ok s"
  shows "(case put_chunk bs s of (rest, s') \<Rightarrow> ring_ok s' \<and>
      (\<exists>xs. bs = xs @ rest \<and> contents s' = contents s @ xs \<and> (used s < capacity s \<longrightarrow> bs \<noteq> [] \<longrightarrow> xs \<noteq> []))) \<and>
    (case get_chunk n s of (got, s') \<Rightarrow> ring_ok s' \<and> contents s = got @ contents s' \<and> length got \<le> n \<and>
      (contents s \<noteq> [] \<longrightarrow> 0 < n \<longrightarrow> got \<noteq> []))"
proof -
  obtain rest s1 got s2 where p: "put_chunk bs s = (rest, s1)" "get_chunk n s = (got, s2)" by fastforce
  show ?thesis
    unfolding p prod.case using ring.put_law [OF assms p(1)] ring.get_law [OF assms p(2)] by blast
qed

theorem ring_is_queue_witness:
  "contents (snd (put_chunk [1, 2, 3] (new_stream 0))) = [1, 2, 3]"
proof -
  obtain rest s where p: "put_chunk [1, 2, 3] (new_stream 0) = (rest, s)" by fastforce
  have "rest = []" using p by (auto simp: put_chunk_def new_stream_def Let_def)
  with ring_is_queue [where bs = "[1, 2, 3]", OF ring_ok_new [of 0]] p show ?thesis by (auto simp: contents_new)
qed

text \<open>
  C23. In every interleaving of a producer, a consumer and a canceller, the ring stays in order
  and the bytes that were received are, in order, a prefix of the bytes that were sent; until
  the consumer finishes, the rest of them is in the ring.
\<close>

theorem stream_in_order:
  assumes "reachable n t"
  shows "ring_ok (ring_of t) \<and> (\<exists>rest. received t @ rest = sent t) \<and>
    (consumerDone (ring_of t) \<or> received t @ contents (ring_of t) = sent t)"
  using reachable_ok [OF assms] by (auto simp: threads_ok_def in_order_def split: if_splits)

text \<open>
  C24. No wake-up is lost: whenever the producer sleeps although it could write, a notification
  of \<^verbatim>\<open>canWrite\<close> is still to be sent, and likewise for the consumer. So with no notification
  outstanding the two never sleep at once.
\<close>

theorem stream_no_lost_wakeup:
  assumes "reachable n t"
  shows "(prod t = P_Asleep src \<longrightarrow> can_write (ring_of t) \<longrightarrow> CanWrite \<in> pending t) \<and>
    (cons t = C_Asleep k \<longrightarrow> can_read (ring_of t) \<longrightarrow> CanRead \<in> pending t) \<and>
    \<not> (pending t = {} \<and> prod t = P_Asleep src \<and> cons t = C_Asleep k)"
  using reachable_ok [OF assms] never_both_asleep [of t src] by (auto simp: threads_ok_def awaited_def)

text \<open>
  C26. The calls end: from no reachable state is there an endless sequence of rounds and
  notifications without new calls.
\<close>

theorem stream_terminates:
  assumes "reachable n t"
  shows "\<not> (\<exists>f. f 0 = t \<and> (\<forall>i. inner (f i) (f (Suc i))))"
proof
  assume "\<exists>f. f 0 = t \<and> (\<forall>i. inner (f i) (f (Suc i)))"
  then obtain f where f: "f 0 = t" "\<And>i. inner (f i) (f (Suc i))" by blast
  have ok: "threads_ok (f i)" for i
    by (induction i) (use f reachable_ok [OF assms] inner_ok in \<open>simp, blast\<close>)
  have "work (f i) + i \<le> work (f 0)" for i
  proof (induction i)
    case (Suc i)
    with inner_decreases [OF f(2) ok, of i] show ?case by linarith
  qed simp
  from this [of "Suc (work (f 0))"] show False by simp
qed

text \<open>
  C25. And they end well: from every reachable state rounds and notifications lead to a state
  with none of them left, where at least one side has returned; a producer that still waits
  waits for a full ring whose consumer has left the call, and a consumer for an empty ring.
\<close>

theorem stream_settles:
  assumes "reachable n t"
  shows "\<exists>t'. inner\<^sup>*\<^sup>* t t' \<and> (\<nexists>u. inner t' u) \<and> (prod t' = P_Idle \<or> cons t' = C_Idle) \<and>
    (\<forall>src. prod t' = P_Asleep src \<longrightarrow> used (ring_of t') = capacity (ring_of t') \<and> cons t' = C_Idle) \<and>
    (\<forall>k. cons t' = C_Asleep k \<longrightarrow> used (ring_of t') = 0 \<and> prod t' = P_Idle)"
proof -
  have "\<exists>t'. inner\<^sup>*\<^sup>* t t' \<and> threads_ok t' \<and> (\<nexists>u. inner t' u)" if "threads_ok t" for t
    using that
  proof (induction "work t" arbitrary: t rule: less_induct)
    case less
    show ?case
    proof (cases "\<exists>u. inner t u")
      case True
      then obtain u where u: "inner t u" by blast
      from less.hyps [OF inner_decreases [OF u less.prems] inner_ok [OF u less.prems]] u show ?thesis
        by (meson converse_rtranclp_into_rtranclp)
    qed (use less.prems in blast)
  qed
  from this [OF reachable_ok [OF assms]] obtain t' where t': "inner\<^sup>*\<^sup>* t t'" "threads_ok t'" "\<nexists>u. inner t' u" by blast
  note s = settled_returned [OF t'(2,3)]
  have "used (ring_of t') = capacity (ring_of t') \<and> cons t' = C_Idle" if "prod t' = P_Asleep src" for src
    using that s(1) s(3) by auto
  moreover have "used (ring_of t') = 0 \<and> prod t' = P_Idle" if "cons t' = C_Asleep k" for k
    using that s(1) s(4) by auto
  ultimately show ?thesis using t' s(1) by blast
qed

lemma reachable_example: "reachable 0 ((initial 0)\<lparr>prod := P_Run [1, 2]\<rparr>)"
  by (rule reachable.go [OF reachable.start step.call_push]) (simp_all add: initial_def)

theorem stream_in_order_witness: "\<exists>rest. received ((initial 0)\<lparr>prod := P_Run [1, 2]\<rparr>) @ rest = []"
  using stream_in_order [OF reachable_example] by (simp add: initial_def)

theorem stream_no_lost_wakeup_witness:
  "\<not> (pending ((initial 0)\<lparr>prod := P_Run [1, 2]\<rparr>) = {} \<and> prod ((initial 0)\<lparr>prod := P_Run [1, 2]\<rparr>) = P_Asleep [1] \<and>
    cons ((initial 0)\<lparr>prod := P_Run [1, 2]\<rparr>) = C_Asleep 3)"
  using stream_no_lost_wakeup [OF reachable_example] by blast

theorem stream_terminates_witness:
  "\<not> (\<exists>f. f 0 = (initial 0)\<lparr>prod := P_Run [1, 2]\<rparr> \<and> (\<forall>i. inner (f i) (f (Suc i))))"
  by (rule stream_terminates [OF reachable_example])

theorem stream_settles_witness:
  "\<exists>t'. inner\<^sup>*\<^sup>* ((initial 0)\<lparr>prod := P_Run [1, 2]\<rparr>) t' \<and> (prod t' = P_Idle \<or> cons t' = C_Idle)"
  using stream_settles [OF reachable_example] by blast

end
