(* ===== verification/Ncm_Service.thy ===== *)
theory Ncm_Service
  imports Title_Info
begin

text \<open>
  The console the transactional installer runs on (\<^verbatim>\<open>source/nsp_transaction_installer.cpp\<close>).
  The services of the console and the C structs of its SDK are not part of the repository: they
  are the fields of \<open>ncm\<close>, one for each call, and a definition that uses them takes them as its
  argument \<open>N\<close>. What the proofs rely on is \<open>ncm_contract\<close>, the documented effect of each call on
  the stored contents, the placeholders, the content meta database and the application records.

  Programs are state transformers on a \<open>device\<close>: the services, the stream of package bytes and the
  three files of the journal. The environment is adversarial: the schedule \<open>events\<close> says for each
  call whether it goes through, whether a file operation fails, and whether the power is lost, and
  the answers of the services are those of \<open>N\<close>. Once the power is lost nothing changes any more.
\<close>

section \<open>The services\<close>

type_synonym content_id = "u8 list"
type_synonym placeholder_id = "u8 list"

record meta_key =
  k_id :: u64
  k_version :: u32
  k_type :: u8
  k_install_type :: u8
  k_padding :: u16

record NcmContentInfo =
  ci_content_id :: content_id
  ci_size :: u64
  ci_attr :: u8
  ci_type :: u8
  ci_id_offset :: u8

record ContentStorageRecord =
  r_key :: meta_key
  r_storage_id :: u8

text \<open>
  The structs and constants of the SDK: sizes, the fields the source reads from raw bytes, and the
  values of the enumerators. \<open>info_size\<close> is \<^verbatim>\<open>ncmU64ToContentInfoSize\<close> followed by
  \<^verbatim>\<open>ncmContentInfoSizeToU64\<close>.
\<close>

record sdk =
  mt_Application :: u8
  mt_Patch :: u8
  mt_AddOnContent :: u8
  ct_Meta :: u8
  ct_Data :: u8
  ct_DeltaFragment :: u8
  it_Full :: u8
  st_SdCard :: u8
  hos15 :: bool
  info_size :: "u64 \<Rightarrow> u64"
  info_bytes :: "NcmContentInfo \<Rightarrow> u8 list"
  packaged_size :: nat
  packaged_info :: "u8 list \<Rightarrow> NcmContentInfo"
  meta_info_size :: nat
  header_ext_size :: "u8 list \<Rightarrow> u16"
  header_content_count :: "u8 list \<Rightarrow> u16"
  header_meta_count :: "u8 list \<Rightarrow> u16"
  header_for_db :: "u16 \<Rightarrow> u16 \<Rightarrow> u8 list \<Rightarrow> u8 list"
  app_ext_size :: nat
  app_required :: "u8 list \<Rightarrow> u32"
  patch_ext_size :: nat
  patch_application :: "u8 list \<Rightarrow> u64"
  patch_required :: "u8 list \<Rightarrow> u32"
  addon_ext_size :: nat
  addon_application :: "u8 list \<Rightarrow> u64"
  legacy_addon_ext_size :: nat
  legacy_addon_application :: "u8 list \<Rightarrow> u64"
  mt_DataPatch :: u8
  data_patch_ext_size :: nat
  data_patch_application :: "u8 list \<Rightarrow> u64"

text \<open>
  The calls. A result is a \<^verbatim>\<open>Result\<close>, zero for success, with what the call returns. The flag of
  \<open>n_latest\<close> says whether the database of the internal storage is asked. \<open>n_firmware\<close> is what
  \<^verbatim>\<open>sscanf\<close> reads from the version \<^verbatim>\<open>setsysGetFirmwareVersion\<close> returns, \<open>None\<close> when the call fails or
  fewer than two numbers are read. \<open>n_open_dir_all\<close> and \<open>n_dir_read_all\<close> are \<^verbatim>\<open>fsFsOpenDirectory\<close> and
  \<^verbatim>\<open>fsDirRead\<close> of files and directories, with a flag for a file. \<open>json_what\<close> is the text of an exception of the JSON library.
\<close>

record 's ncm = sdk +
  n_initialize :: "'s \<Rightarrow> u32 \<times> 's"
  n_open_storage :: "'s \<Rightarrow> u32 \<times> 's"
  n_open_db :: "'s \<Rightarrow> u32 \<times> 's"
  n_open_user_db :: "'s \<Rightarrow> u32 \<times> 's"
  n_has :: "content_id \<Rightarrow> 's \<Rightarrow> (u32 \<times> bool) \<times> 's"
  n_has_placeholder :: "placeholder_id \<Rightarrow> 's \<Rightarrow> (u32 \<times> bool) \<times> 's"
  n_generate :: "'s \<Rightarrow> (u32 \<times> placeholder_id) \<times> 's"
  n_create :: "content_id \<Rightarrow> placeholder_id \<Rightarrow> u64 \<Rightarrow> 's \<Rightarrow> u32 \<times> 's"
  n_write :: "placeholder_id \<Rightarrow> nat \<Rightarrow> u8 list \<Rightarrow> 's \<Rightarrow> u32 \<times> 's"
  n_register :: "content_id \<Rightarrow> placeholder_id \<Rightarrow> 's \<Rightarrow> u32 \<times> 's"
  n_delete :: "content_id \<Rightarrow> 's \<Rightarrow> u32 \<times> 's"
  n_delete_placeholder :: "placeholder_id \<Rightarrow> 's \<Rightarrow> u32 \<times> 's"
  n_meta_has :: "meta_key \<Rightarrow> 's \<Rightarrow> (u32 \<times> bool) \<times> 's"
  n_latest :: "bool \<Rightarrow> u64 \<Rightarrow> 's \<Rightarrow> (u32 \<times> meta_key) \<times> 's"
  n_meta_set :: "meta_key \<Rightarrow> u8 list \<Rightarrow> 's \<Rightarrow> u32 \<times> 's"
  n_meta_remove :: "meta_key \<Rightarrow> 's \<Rightarrow> u32 \<times> 's"
  n_meta_commit :: "'s \<Rightarrow> u32 \<times> 's"
  n_rights :: "content_id \<Rightarrow> 's \<Rightarrow> (u32 \<times> u8 list) \<times> 's"
  n_es_open :: "'s \<Rightarrow> u32 \<times> 's"
  n_import :: "u8 list \<Rightarrow> u8 list \<Rightarrow> 's \<Rightarrow> u32 \<times> 's"
  n_ns_initialize :: "'s \<Rightarrow> u32 \<times> 's"
  n_ns_manager :: "'s \<Rightarrow> u32 \<times> 's"
  n_list_records :: "u64 \<Rightarrow> 's \<Rightarrow> (u32 \<times> int \<times> ContentStorageRecord list) \<times> 's"
  n_push_record :: "u64 \<Rightarrow> ContentStorageRecord list \<Rightarrow> 's \<Rightarrow> u32 \<times> 's"
  n_free_space :: "'s \<Rightarrow> (u32 \<times> int) \<times> 's"
  n_firmware :: "'s \<Rightarrow> (u32 \<times> u32 \<times> u32) option \<times> 's"
  n_get_path :: "content_id \<Rightarrow> 's \<Rightarrow> (u32 \<times> string) \<times> 's"
  n_open_fs :: "string \<Rightarrow> 's \<Rightarrow> u32 \<times> 's"
  n_open_dir :: "'s \<Rightarrow> u32 \<times> 's"
  n_dir_count :: "'s \<Rightarrow> (u32 \<times> int) \<times> 's"
  n_dir_read :: "int \<Rightarrow> 's \<Rightarrow> (u32 \<times> string list) \<times> 's"
  n_open_dir_all :: "'s \<Rightarrow> u32 \<times> 's"
  n_dir_read_all :: "int \<Rightarrow> 's \<Rightarrow> (u32 \<times> (bool \<times> string) list) \<times> 's"
  n_open_file :: "string \<Rightarrow> 's \<Rightarrow> u32 \<times> 's"
  n_file_read :: "nat \<Rightarrow> nat \<Rightarrow> 's \<Rightarrow> (u32 \<times> u8 list) \<times> 's"
  json_what :: string

abbreviation succeeded :: "u32 \<Rightarrow> bool" where
  "succeeded rc \<equiv> rc = 0"

section \<open>The device\<close>

text \<open>
  The text of a journal file is given by what the JSON library reads from it, \<open>None\<close> for a text
  that is not JSON (an empty or cut off file). Numbers are unsigned integers: the installer writes
  no others.
\<close>

datatype json = JNull | JBool bool | JNum u64 | JStr string | JArr "json list" | JObj "(string \<times> json) list"

datatype jfile = Active | Tmp | Recovered

text \<open>\<open>Power_Cut b\<close>: the power is lost during the call, after its effect where \<open>b\<close> holds.\<close>

datatype event = Power_On | File_Error | Power_Cut bool

text \<open>
  \<open>replaces\<close> says whether \<^verbatim>\<open>rename\<close> replaces an existing file; on the FAT card it does not.
  \<open>polls\<close> are the next answers of \<^verbatim>\<open>ProgressEvent::getInterupt\<close>.
\<close>

record ('s, 'r) device =
  svc :: 's
  source :: 'r
  jfiles :: "jfile \<Rightarrow> json option option"
  work_dir :: bool
  replaces :: bool
  events :: "event list"
  polls :: "bool list"
  lost :: bool

type_synonym ('s, 'r, 'a) iprog = "(('s, 'r) device, 'a) state"

section \<open>Primitive programs\<close>

definition call :: "('s \<Rightarrow> 'a \<times> 's) \<Rightarrow> ('s, 'r, 'a) iprog" where
  "call f = State (\<lambda>d. case f (svc d) of (r, s) \<Rightarrow>
     if lost d then (r, d)
     else case events d of
         [] \<Rightarrow> (r, d\<lparr>svc := s\<rparr>)
       | Power_Cut b # es \<Rightarrow> (r, d\<lparr>svc := (if b then s else svc d), events := es, lost := True\<rparr>)
       | e # es \<Rightarrow> (r, d\<lparr>svc := s, events := es\<rparr>))"

text \<open>An operation on the files of the journal, with its result and effect when it fails.\<close>

definition file_op :: "(('s, 'r) device \<Rightarrow> 'a \<times> (jfile \<Rightarrow> json option option) \<times> bool) \<Rightarrow> 'a \<Rightarrow> ('s, 'r, 'a) iprog" where
  "file_op f x = State (\<lambda>d. case f d of (r, fs, wd) \<Rightarrow>
     if lost d then (r, d)
     else case events d of
         [] \<Rightarrow> (r, d\<lparr>jfiles := fs, work_dir := wd\<rparr>)
       | Power_On # es \<Rightarrow> (r, d\<lparr>jfiles := fs, work_dir := wd, events := es\<rparr>)
       | File_Error # es \<Rightarrow> (x, d\<lparr>events := es\<rparr>)
       | Power_Cut b # es \<Rightarrow> (r, d\<lparr>jfiles := (if b then fs else jfiles d), work_dir := (if b then wd else work_dir d),
           events := es, lost := True\<rparr>))"

definition peek :: "(('s, 'r) device \<Rightarrow> 'a) \<Rightarrow> ('s, 'r, 'a) iprog" where
  "peek f = State (\<lambda>d. (f d, d))"

text \<open>\<^verbatim>\<open>ProgressEvent::instance().getInterupt()\<close>\<close>

definition interrupted :: "('s, 'r, bool) iprog" where
  "interrupted = State (\<lambda>d. case polls d of [] \<Rightarrow> (False, d) | b # bs \<Rightarrow> (b, if lost d then d else d\<lparr>polls := bs\<rparr>))"

text \<open>What reads the package, \<^verbatim>\<open>readExact\<close> among it.\<close>

definition feed :: "('r \<Rightarrow> 'a \<times> 'r) \<Rightarrow> ('s, 'r, 'a) iprog" where
  "feed f = State (\<lambda>d. case f (source d) of (x, r) \<Rightarrow> (x, if lost d then d else d\<lparr>source := r\<rparr>))"

section \<open>What the services promise\<close>

record ncm_view =
  contents :: "content_id \<Rightarrow> u8 list option"
  holders :: "placeholder_id \<Rightarrow> u8 list option"
  metas :: "meta_key \<Rightarrow> u8 list option"
  committed :: "meta_key \<Rightarrow> u8 list option"
  app_records :: "u64 \<Rightarrow> ContentStorageRecord list"

text \<open>\<open>asks view f\<close>: the call \<open>f\<close> changes nothing of the view, \<open>does view f ok\<close>: it has the effect \<open>ok\<close> or fails.\<close>

definition asks :: "('s \<Rightarrow> ncm_view) \<Rightarrow> ('s \<Rightarrow> 'a \<times> 's) \<Rightarrow> bool" where
  "asks view f = (\<forall>s. view (snd (f s)) = view s)"

definition does :: "('s \<Rightarrow> ncm_view) \<Rightarrow> ('s \<Rightarrow> u32 \<times> 's) \<Rightarrow> (ncm_view \<Rightarrow> ncm_view \<Rightarrow> bool) \<Rightarrow> bool" where
  "does view f ok = (\<forall>s. if succeeded (fst (f s)) then ok (view s) (view (snd (f s))) else view (snd (f s)) = view s)"

text \<open>Overwriting a part of a placeholder.\<close>

definition patch :: "nat \<Rightarrow> u8 list \<Rightarrow> u8 list \<Rightarrow> u8 list" where
  "patch off bs old = take off old @ bs @ drop (off + length bs) old"

definition ncm_queries :: "'s ncm \<Rightarrow> ('s \<Rightarrow> ncm_view) \<Rightarrow> bool" where
  "ncm_queries N view =
    (asks view (n_initialize N) \<and> asks view (n_open_storage N) \<and> asks view (n_open_db N) \<and>
     asks view (n_open_user_db N) \<and> (\<forall>c. asks view (n_has N c)) \<and> (\<forall>p. asks view (n_has_placeholder N p)) \<and>
     asks view (n_generate N) \<and> (\<forall>k. asks view (n_meta_has N k)) \<and> (\<forall>b a. asks view (n_latest N b a)) \<and>
     (\<forall>c. asks view (n_rights N c)) \<and> asks view (n_es_open N) \<and> (\<forall>t c. asks view (n_import N t c)) \<and>
     asks view (n_ns_initialize N) \<and> asks view (n_ns_manager N) \<and> (\<forall>a. asks view (n_list_records N a)) \<and>
     asks view (n_free_space N) \<and> asks view (n_firmware N) \<and> (\<forall>c. asks view (n_get_path N c)) \<and>
     (\<forall>p. asks view (n_open_fs N p)) \<and> asks view (n_open_dir N) \<and> asks view (n_dir_count N) \<and>
     (\<forall>k. asks view (n_dir_read N k)) \<and> asks view (n_open_dir_all N) \<and>
     (\<forall>k. asks view (n_dir_read_all N k)) \<and> (\<forall>p. asks view (n_open_file N p)) \<and> (\<forall>i n. asks view (n_file_read N i n)))"

definition ncm_answers :: "'s ncm \<Rightarrow> ('s \<Rightarrow> ncm_view) \<Rightarrow> bool" where
  "ncm_answers N view = (\<forall>s.
     (\<forall>c. succeeded (fst (fst (n_has N c s))) \<longrightarrow> snd (fst (n_has N c s)) = (contents (view s) c \<noteq> None)) \<and>
     (\<forall>p. succeeded (fst (fst (n_has_placeholder N p s))) \<longrightarrow>
        snd (fst (n_has_placeholder N p s)) = (holders (view s) p \<noteq> None)) \<and>
     (\<forall>k. succeeded (fst (fst (n_meta_has N k s))) \<longrightarrow> snd (fst (n_meta_has N k s)) = (metas (view s) k \<noteq> None)) \<and>
     (succeeded (fst (fst (n_generate N s))) \<longrightarrow>
        length (snd (fst (n_generate N s))) = 16 \<and> holders (view s) (snd (fst (n_generate N s))) = None))"

definition ncm_effects :: "'s ncm \<Rightarrow> ('s \<Rightarrow> ncm_view) \<Rightarrow> bool" where
  "ncm_effects N view =
    ((\<forall>c p z. does view (n_create N c p z) (\<lambda>v v'. \<exists>bs. length bs = unat z \<and> v' = v\<lparr>holders := (holders v)(p \<mapsto> bs)\<rparr>)) \<and>
     (\<forall>p i bs. does view (n_write N p i bs) (\<lambda>v v'. \<exists>old. holders v p = Some old \<and> i + length bs \<le> length old \<and>
        v' = v\<lparr>holders := (holders v)(p \<mapsto> patch i bs old)\<rparr>)) \<and>
     (\<forall>c p. does view (n_register N c p) (\<lambda>v v'. contents v c = None \<and> holders v p \<noteq> None \<and>
        v' = v\<lparr>contents := (contents v)(c := holders v p), holders := (holders v)(p := None)\<rparr>)) \<and>
     (\<forall>c. does view (n_delete N c) (\<lambda>v v'. v' = v\<lparr>contents := (contents v)(c := None)\<rparr>)) \<and>
     (\<forall>p. does view (n_delete_placeholder N p) (\<lambda>v v'. v' = v\<lparr>holders := (holders v)(p := None)\<rparr>)) \<and>
     (\<forall>k b. does view (n_meta_set N k b) (\<lambda>v v'. v' = v\<lparr>metas := (metas v)(k \<mapsto> b)\<rparr>)) \<and>
     (\<forall>k. does view (n_meta_remove N k) (\<lambda>v v'. v' = v\<lparr>metas := (metas v)(k := None)\<rparr>)) \<and>
     does view (n_meta_commit N) (\<lambda>v v'. v' = v\<lparr>committed := metas v\<rparr>) \<and>
     (\<forall>a rs. does view (n_push_record N a rs) (\<lambda>v v'. v' = v\<lparr>app_records := (app_records v)(a := rs)\<rparr>)))"

definition ncm_contract :: "'s ncm \<Rightarrow> ('s \<Rightarrow> ncm_view) \<Rightarrow> bool" where
  "ncm_contract N view = (ncm_queries N view \<and> ncm_answers N view \<and> ncm_effects N view)"

end
