(* ===== verification/Install_Journal.thy ===== *)
theory Install_Journal
  imports Ncm_Service
begin

unbundle bit_operations_syntax

text \<open>
  The journal of the transactional installer (\<^verbatim>\<open>source/nsp_transaction_installer.cpp\<close>):
  \<^verbatim>\<open>saveJournal\<close>, \<^verbatim>\<open>removeJournal\<close> and the recovery of an interrupted installation,
  \<^verbatim>\<open>recoverStaleRealInstall\<close>.
\<close>

section \<open>The journal as JSON\<close>

record PlannedContent =
  pc_entry :: NspEntryInfo
  pc_info :: NcmContentInfo
  placeholder :: placeholder_id
  placeholderCreated :: bool
  registered :: bool
  preExisting :: bool

text \<open>
  \<^verbatim>\<open>hex\<close> is \<^verbatim>\<open>bytesToHex\<close> and \<^verbatim>\<open>fromHex\<close> is \<^verbatim>\<open>hexToBytes\<close>, which the file repeats. Where the result of
  \<^verbatim>\<open>fromHex\<close> is not looked at, the zeroed buffer holds the bytes before the first bad digit.
\<close>

fun hex_prefix :: "nat \<Rightarrow> string \<Rightarrow> u8 list" where
  "hex_prefix (Suc n) (a # b # s) =
    (let hi = hexNibble a; lo = hexNibble b in
     if hi < 0 \<or> lo < 0 then replicate (Suc n) 0
     else (push_bit 4 (word_of_int hi) OR word_of_int lo) # hex_prefix n s)"
| "hex_prefix n s = replicate n 0"

definition fromHex :: "string \<Rightarrow> nat \<Rightarrow> u8 list" where
  "fromHex text n = (if length text \<noteq> n * 2 then replicate n 0 else hex_prefix n text)"

definition content_json :: "PlannedContent \<Rightarrow> json" where
  "content_json c = JObj
    [(''content_id'', JStr (bytesToHex (ci_content_id (pc_info c)))),
     (''placeholder_id'', JStr (bytesToHex (placeholder c))),
     (''placeholder_created'', JBool (placeholderCreated c)),
     (''registered'', JBool (registered c)),
     (''pre_existing'', JBool (preExisting c))]"

definition key_json :: "meta_key \<Rightarrow> json" where
  "key_json k = JObj [(''id'', JNum (k_id k)), (''version'', JNum (ucast (k_version k))),
     (''type'', JNum (ucast (k_type k))), (''install_type'', JNum (ucast (k_install_type k)))]"

definition journal_json :: "string \<Rightarrow> u64 \<Rightarrow> meta_key \<Rightarrow> PlannedContent list \<Rightarrow> bool \<Rightarrow> bool \<Rightarrow> bool \<Rightarrow> string \<Rightarrow> json" where
  "journal_json package appId key plan metaSet recordPushed ticketImported stage = JObj
    [(''owner'', JStr ''aio-switch-updater-mod''), (''kind'', JStr ''real-install''), (''package'', JStr package),
     (''stage'', JStr stage), (''application_id'', JNum appId), (''meta_key'', key_json key),
     (''meta_set'', JBool metaSet), (''record_pushed'', JBool recordPushed), (''ticket_imported'', JBool ticketImported),
     (''contents'', JArr (map content_json plan))]"

text \<open>
  \<^verbatim>\<open>j.value(key, fallback)\<close>: \<open>None\<close> is an exception, thrown when \<open>j\<close> is not an object or the value
  has another type. A number is also read from a Boolean.
\<close>

fun lookup :: "string \<Rightarrow> json \<Rightarrow> json option option" where
  "lookup k (JObj fs) = Some (map_of fs k)"
| "lookup k _ = None"

definition str_value :: "string \<Rightarrow> string \<Rightarrow> json \<Rightarrow> string option" where
  "str_value k fallback j = (case lookup k j of
     None \<Rightarrow> None | Some None \<Rightarrow> Some fallback | Some (Some (JStr s)) \<Rightarrow> Some s | Some (Some _) \<Rightarrow> None)"

definition bool_value :: "string \<Rightarrow> bool \<Rightarrow> json \<Rightarrow> bool option" where
  "bool_value k fallback j = (case lookup k j of
     None \<Rightarrow> None | Some None \<Rightarrow> Some fallback | Some (Some (JBool b)) \<Rightarrow> Some b | Some (Some _) \<Rightarrow> None)"

definition num_value :: "string \<Rightarrow> u64 \<Rightarrow> json \<Rightarrow> u64 option" where
  "num_value k fallback j = (case lookup k j of
     None \<Rightarrow> None | Some None \<Rightarrow> Some fallback | Some (Some (JNum n)) \<Rightarrow> Some n
   | Some (Some (JBool b)) \<Rightarrow> Some (of_bool b) | Some (Some _) \<Rightarrow> None)"

text \<open>\<^verbatim>\<open>j["meta_key"]\<close> on an object, \<^verbatim>\<open>null\<close> where it has no such field.\<close>

definition key_value :: "json \<Rightarrow> meta_key option" where
  "key_value j =
    (case lookup ''meta_key'' j of
       Some (Some k) \<Rightarrow>
         (case (num_value ''id'' 0 k, num_value ''version'' 0 k, num_value ''type'' 0 k, num_value ''install_type'' 0 k) of
            (Some i, Some v, Some t, Some it) \<Rightarrow>
              Some \<lparr>k_id = i, k_version = ucast v, k_type = ucast t, k_install_type = ucast it, k_padding = 0\<rparr>
          | _ \<Rightarrow> None)
     | _ \<Rightarrow> None)"

text \<open>The values that the reverse iteration over \<^verbatim>\<open>j["contents"]\<close> visits; an empty list if it is missing.\<close>

definition contents_backwards :: "json \<Rightarrow> json list" where
  "contents_backwards j =
    (case lookup ''contents'' j of
       Some (Some (JArr xs)) \<Rightarrow> rev xs
     | Some (Some (JObj fs)) \<Rightarrow> rev (map snd fs)
     | Some (Some JNull) \<Rightarrow> []
     | Some (Some x) \<Rightarrow> [x]
     | _ \<Rightarrow> [])"

section \<open>Writing and removing the journal\<close>

definition fs_remove :: "jfile \<Rightarrow> ('s, 'r, bool) iprog" where
  "fs_remove f = file_op (\<lambda>d. (True, (jfiles d)(f := None), work_dir d)) False"

definition fs_rename :: "jfile \<Rightarrow> jfile \<Rightarrow> ('s, 'r, bool) iprog" where
  "fs_rename a b = file_op (\<lambda>d.
     if jfiles d a = None \<or> (jfiles d b \<noteq> None \<and> \<not> replaces d) then (False, jfiles d, work_dir d)
     else (True, (jfiles d)(b := jfiles d a, a := None), work_dir d)) False"

text \<open>\<^verbatim>\<open>std::ofstream out(tmp, binary | trunc)\<close> and, if it is open, \<^verbatim>\<open>out << text\<close>.\<close>

definition fs_truncate :: "jfile \<Rightarrow> ('s, 'r, bool) iprog" where
  "fs_truncate f = file_op (\<lambda>d.
     if work_dir d then (True, (jfiles d)(f := Some None), work_dir d) else (False, jfiles d, work_dir d)) False"

definition fs_write :: "jfile \<Rightarrow> json \<Rightarrow> ('s, 'r, bool) iprog" where
  "fs_write f j = file_op (\<lambda>d. (True, (jfiles d)(f := Some (Some j)), work_dir d)) False"

definition saveJournal ::
    "string \<Rightarrow> u64 \<Rightarrow> meta_key \<Rightarrow> PlannedContent list \<Rightarrow> bool \<Rightarrow> bool \<Rightarrow> bool \<Rightarrow> string \<Rightarrow> ('s, 'r, unit) iprog" where
  "saveJournal package appId key plan metaSet recordPushed ticketImported stage = do {
     file_op (\<lambda>d. (True, jfiles d, True)) False;
     out \<leftarrow> fs_truncate Tmp;
     (if out then do {
        fs_write Tmp (journal_json package appId key plan metaSet recordPushed ticketImported stage);
        State_Monad.return ()
      } else State_Monad.return ());
     ok \<leftarrow> fs_rename Tmp Active;
     (if \<not> ok then do {
        fs_remove Active;
        fs_rename Tmp Active;
        State_Monad.return ()
      } else State_Monad.return ())
   }"

definition removeJournal :: "('s, 'r, bool \<times> string) iprog" where
  "removeJournal = do {
     fs_remove Tmp;
     fs_remove Recovered;
     fs_remove Active;
     gone \<leftarrow> peek (\<lambda>d. jfiles d Active = None);
     if gone then State_Monad.return (True, ''Install journal cleared.'')
     else do {
       ok \<leftarrow> fs_rename Active Recovered;
       gone \<leftarrow> (if ok then do {
           fs_remove Recovered;
           peek (\<lambda>d. jfiles d Active = None)
         } else State_Monad.return False);
       State_Monad.return (if gone then (True, ''Install journal cleared after rename fallback.'')
         else (False, ''Could not remove the active install journal.''))
     }
   }"

section \<open>Recovery\<close>

definition rcDiag :: "u32 \<Rightarrow> ErrorCode \<Rightarrow> string \<Rightarrow> Diagnostic" where
  "rcDiag rc code where =
    (if succeeded rc then makeDiagnostic NoError [] 0 else makeDiagnostic code (where @ '' rc=0x'' @ hex_upper (unat rc)) rc)"

definition NcmContext_open :: "'s ncm \<Rightarrow> ('s, 'r, Diagnostic) iprog" where
  "NcmContext_open N = do {
     rc \<leftarrow> call (n_initialize N);
     if \<not> succeeded rc then State_Monad.return (rcDiag rc InternalError ''ncmInitialize'')
     else do {
       rc \<leftarrow> call (n_open_storage N);
       if \<not> succeeded rc then State_Monad.return (rcDiag rc PlaceholderError ''ncmOpenContentStorage(SD)'')
       else do {
         rc \<leftarrow> call (n_open_db N);
         State_Monad.return (if \<not> succeeded rc then rcDiag rc RegistrationError ''ncmOpenContentMetaDatabase(SD)''
           else makeDiagnostic NoError [] 0)
       }
     }
   }"

text \<open>The end of a recovery: the journal is cleared and \<open>done\<close> reported.\<close>

definition clear_journal :: "string \<Rightarrow> string \<Rightarrow> ('s, 'r, bool \<times> string) iprog" where
  "clear_journal failure done = do {
     (ok, detail) \<leftarrow> removeJournal;
     State_Monad.return (if ok then (True, done) else (False, failure @ detail))
   }"

definition recover_probe :: "'s ncm \<Rightarrow> json \<Rightarrow> ('s, 'r, bool \<times> string) iprog" where
  "recover_probe N j =
    (case str_value ''placeholder_id'' [] j of
       None \<Rightarrow> State_Monad.return (False, json_what N)
     | Some t \<Rightarrow>
        (case hexToBytes t 16 of
           None \<Rightarrow> State_Monad.return (False, ''Legacy ncm-probe journal has an invalid placeholder id.'')
         | Some ph \<Rightarrow> do {
             d \<leftarrow> NcmContext_open N;
             if \<not> diag_ok d then State_Monad.return (False, technical d)
             else do {
               (rc, exists) \<leftarrow> call (n_has_placeholder N ph);
               if \<not> succeeded rc then State_Monad.return (False, ''Could not inspect legacy NCM placeholder.'')
               else do {
                 rc \<leftarrow> (if exists then call (n_delete_placeholder N ph) else State_Monad.return 0);
                 if \<not> succeeded rc then State_Monad.return (False, ''Could not remove legacy NCM placeholder.'')
                 else clear_journal [] ''Legacy ncm-probe transaction recovered.''
               }
             }
           }))"

definition recover_cnmt :: "'s ncm \<Rightarrow> json \<Rightarrow> ('s, 'r, bool \<times> string) iprog" where
  "recover_cnmt N j =
    (case str_value ''content_id'' [] j of
       None \<Rightarrow> State_Monad.return (False, json_what N)
     | Some t \<Rightarrow>
        (case hexToBytes t 16 of
           None \<Rightarrow> State_Monad.return (False, ''Legacy cnmt-analysis journal has an invalid ContentId.'')
         | Some cid \<Rightarrow>
            (case bool_value ''content_created'' False j of
               None \<Rightarrow> State_Monad.return (False, json_what N)
             | Some False \<Rightarrow> clear_journal [] ''Legacy cnmt-analysis transaction recovered.''
             | Some True \<Rightarrow> do {
                 d \<leftarrow> NcmContext_open N;
                 if \<not> diag_ok d then State_Monad.return (False, technical d)
                 else do {
                   (rc, exists) \<leftarrow> call (n_has N cid);
                   if \<not> succeeded rc then State_Monad.return (False, ''Could not inspect legacy CNMT content.'')
                   else do {
                     rc \<leftarrow> (if exists then call (n_delete N cid) else State_Monad.return 0);
                     if \<not> succeeded rc then State_Monad.return (False, ''Could not remove legacy CNMT content.'')
                     else clear_journal [] ''Legacy cnmt-analysis transaction recovered.''
                   }
                 }
               })))"

text \<open>One round of the loop over the contents; \<open>False\<close> is an exception.\<close>

definition undo_content :: "'s ncm \<Rightarrow> json \<Rightarrow> ('s, 'r, bool) iprog" where
  "undo_content N x =
    (case (str_value ''content_id'' [] x, str_value ''placeholder_id'' [] x) of
       (Some ct, Some pt) \<Rightarrow>
        (let cid = fromHex ct 16; ph = fromHex pt 16 in
         case bool_value ''registered'' False x of
           None \<Rightarrow> State_Monad.return False
         | Some reg \<Rightarrow>
            (case (if reg then bool_value ''pre_existing'' False x else Some True) of
               None \<Rightarrow> State_Monad.return False
             | Some False \<Rightarrow> do {
                 (rc, exists) \<leftarrow> call (n_has N cid);
                 (if succeeded rc \<and> exists then call (n_delete N cid) else State_Monad.return 0);
                 State_Monad.return True
               }
             | Some True \<Rightarrow>
                (case bool_value ''placeholder_created'' False x of
                   None \<Rightarrow> State_Monad.return False
                 | Some False \<Rightarrow> State_Monad.return True
                 | Some True \<Rightarrow> do {
                     (rc, exists) \<leftarrow> call (n_has_placeholder N ph);
                     (if succeeded rc \<and> exists then call (n_delete_placeholder N ph) else State_Monad.return 0);
                     State_Monad.return True
                   })))
     | _ \<Rightarrow> State_Monad.return False)"

fun undo_contents :: "'s ncm \<Rightarrow> json list \<Rightarrow> ('s, 'r, bool) iprog" where
  "undo_contents N [] = State_Monad.return True"
| "undo_contents N (x # xs) = do {
     ok \<leftarrow> undo_content N x;
     if ok then undo_contents N xs else State_Monad.return False
   }"

definition undo_meta :: "'s ncm \<Rightarrow> json \<Rightarrow> ('s, 'r, bool) iprog" where
  "undo_meta N j =
    (case bool_value ''meta_set'' False j of
       None \<Rightarrow> State_Monad.return False
     | Some False \<Rightarrow> State_Monad.return True
     | Some True \<Rightarrow>
        (case key_value j of
           None \<Rightarrow> State_Monad.return False
         | Some key \<Rightarrow> do {
             call (n_meta_remove N key);
             call (n_meta_commit N);
             State_Monad.return True
           }))"

definition recover_install :: "'s ncm \<Rightarrow> json \<Rightarrow> ('s, 'r, bool \<times> string) iprog" where
  "recover_install N j =
    (case str_value ''stage'' [] j of
       None \<Rightarrow> State_Monad.return (False, json_what N)
     | Some stage \<Rightarrow>
         if stage = ''application-record'' \<or> stage = ''complete'' then clear_journal [] ''Completed install journal cleared.''
         else do {
           d \<leftarrow> NcmContext_open N;
           if \<not> diag_ok d then State_Monad.return (False, technical d)
           else do {
             ok \<leftarrow> undo_meta N j;
             ok \<leftarrow> (if ok then undo_contents N (contents_backwards j) else State_Monad.return False);
             if \<not> ok then State_Monad.return (False, json_what N)
             else clear_journal ''Rollback completed, but '' ''Interrupted AIO install rolled back and journal cleared.''
           }
         })"

definition recover_journal :: "'s ncm \<Rightarrow> json \<Rightarrow> ('s, 'r, bool \<times> string) iprog" where
  "recover_journal N j =
    (case str_value ''owner'' [] j of
       None \<Rightarrow> State_Monad.return (False, json_what N)
     | Some owner \<Rightarrow>
         if owner \<noteq> ''aio-switch-updater-mod''
         then State_Monad.return (False, ''Install journal belongs to an unknown owner; it was preserved.'')
         else
          (case str_value ''kind'' [] j of
             None \<Rightarrow> State_Monad.return (False, json_what N)
           | Some kind \<Rightarrow>
               if kind = ''ncm-probe'' then recover_probe N j
               else if kind = ''cnmt-analysis'' then recover_cnmt N j
               else if kind \<noteq> ''real-install''
               then State_Monad.return (False, ''Unknown AIO install journal kind: '' @ kind)
               else recover_install N j))"

text \<open>Opening the journal for reading may fail, which is the failure of a file operation.\<close>

definition recoverStaleRealInstall :: "'s ncm \<Rightarrow> ('s, 'r, bool \<times> string) iprog" where
  "recoverStaleRealInstall N = do {
     journal \<leftarrow> peek (\<lambda>d. jfiles d Active);
     case journal of
       None \<Rightarrow> State_Monad.return (True, [])
     | Some text \<Rightarrow> do {
         opened \<leftarrow> file_op (\<lambda>d. (True, jfiles d, work_dir d)) False;
         if \<not> opened then State_Monad.return (False, ''Could not open install journal for recovery.'')
         else case text of
             None \<Rightarrow> State_Monad.return (False, json_what N)
           | Some j \<Rightarrow> recover_journal N j
       }
   }"

end
