(* ===== verification/Stream_Install.thy ===== *)
theory Stream_Install
  imports Install_Journal
begin

text \<open>
  The direct installation of a package from the MTP stream: \<^verbatim>\<open>parseStreamManifest\<close>,
  \<^verbatim>\<open>parseInstalledMeta\<close>, \<^verbatim>\<open>buildMetaDbBlob\<close>, the checks against what is installed, and
  \<^verbatim>\<open>installNspStreamToSdTransactional\<close> (\<^verbatim>\<open>source/nsp_transaction_installer.cpp\<close>). The argument
  \<open>rd\<close> is the callback \<^verbatim>\<open>readExact\<close>.
\<close>

section \<open>The manifest of a stream\<close>

type_synonym 'r reader = "nat \<Rightarrow> 'r \<Rightarrow> u8 list option \<times> 'r"

text \<open>
  The part before the loop: a refusal is the error of \<^verbatim>\<open>out.diagnostic\<close> with the bytes consumed.
  The size of the entry table fits in 64 bits, so the check against \<^verbatim>\<open>SIZE_MAX\<close> never fails.
\<close>

definition stream_tables :: "'r reader \<Rightarrow> 'r \<Rightarrow> (Diagnostic \<times> u64 + Pfs0Tables) \<times> 'r" where
  "stream_tables rd s =
    (case rd 16 s of
       (None, s) \<Rightarrow> (Inl (makeDiagnostic PackageTruncated ''MTP stream ended before PFS0 header'' 0, 0), s)
     | (Some header, s) \<Rightarrow>
        (let fileCount = of_nat (field 4 4 header) :: u32;
             stringTableSize = of_nat (field 8 4 header) :: u32;
             entriesBytes = ucast fileCount * 24 :: u64 in
         if take 4 header \<noteq> map of_char ''PFS0''
         then (Inl (makeDiagnostic InvalidPfs0 ''MTP object is not a PFS0 NSP'' 0, 16), s)
         else if fileCount = 0 \<or> MAX_PFS0_FILES < fileCount \<or> MAX_STRING_TABLE < stringTableSize
         then (Inl (makeDiagnostic InvalidPfs0 (''PFS0 table limits invalid; files='' @ to_string fileCount @
           '', strings='' @ to_string stringTableSize) 0, 16), s)
         else case rd (unat entriesBytes) s of
           (None, s) \<Rightarrow> (Inl (makeDiagnostic PackageTruncated ''MTP stream ended in PFS0 entry table'' 0, 16), s)
         | (Some table, s) \<Rightarrow>
            (case (if stringTableSize \<noteq> 0 then rd (unat stringTableSize) s else (Some [], s)) of
               (None, s) \<Rightarrow> (Inl (makeDiagnostic PackageTruncated ''MTP stream ended in PFS0 string table'' 0,
                 16 + entriesBytes), s)
             | (Some names, s) \<Rightarrow>
                 (Inr \<lparr>t_fileCount = fileCount, t_stringTableSize = stringTableSize,
                    t_dataStart = 16 + entriesBytes + ucast stringTableSize,
                    t_entries = entries_of_bytes (unat fileCount) table, t_strings = names @ [0]\<rparr>, s))))"

text \<open>The loop over the entries with the running \<^verbatim>\<open>minimumPackageSize\<close>.\<close>

fun stream_entries :: "Pfs0Tables \<Rightarrow> Pfs0Entry list \<Rightarrow> NspManifest \<Rightarrow> u64 \<Rightarrow> NspManifest + NspManifest \<times> u64" where
  "stream_entries t [] m smallest = Inr (m, smallest)"
| "stream_entries t (e # es) m smallest =
    (if t_stringTableSize t \<le> e_stringOffset e
     then Inl (m\<lparr>diagnostic := makeDiagnostic InvalidPfs0 ''PFS0 filename offset outside string table'' 0\<rparr>)
     else if \<not> entry_name_ok t e
     then Inl (m\<lparr>diagnostic := makeDiagnostic InvalidPfs0 ''PFS0 filename is not terminated'' 0\<rparr>)
     else case checkedAdd (t_dataStart t) (e_offset e) of
       None \<Rightarrow> Inl (m\<lparr>diagnostic := makeDiagnostic InvalidPfs0 ''PFS0 entry integer overflow'' 0\<rparr>)
     | Some absoluteOffset \<Rightarrow>
        (case checkedAdd absoluteOffset (e_size e) of
           None \<Rightarrow> Inl (m\<lparr>diagnostic := makeDiagnostic InvalidPfs0 ''PFS0 entry integer overflow'' 0\<rparr>)
         | Some absoluteEnd \<Rightarrow>
             if packageSize m \<noteq> 0 \<and> packageSize m < absoluteEnd
             then Inl (m\<lparr>diagnostic := makeDiagnostic PackageTruncated (''PFS0 entry outside MTP object: '' @ entry_text t e) 0\<rparr>)
             else stream_entries t es (add_entry (entry_info (entry_text t e) absoluteOffset (e_size e)) m)
               (max smallest absoluteEnd)))"

definition check_stream :: "NspManifest \<Rightarrow> NspManifest" where
  "check_stream m =
    (if ncaCount m = 0 then m\<lparr>diagnostic := makeDiagnostic MissingContent ''NSP contains no NCA entries'' 0\<rparr>
     else if cnmtNcaCount m \<noteq> 1
     then m\<lparr>diagnostic := makeDiagnostic UnsupportedFormat
       (''Streaming installer requires exactly one CNMT NCA; count='' @ to_string (cnmtNcaCount m)) 0\<rparr>
     else if ticketCount m \<noteq> certCount m
     then m\<lparr>diagnostic := makeDiagnostic MissingContent
       (''Ticket/cert count mismatch; tik='' @ to_string (ticketCount m) @ '', cert='' @ to_string (certCount m)) 0\<rparr>
     else case find (\<lambda>e. isNca e \<and> \<not> hasContentId e) (entries m) of
       Some e \<Rightarrow> m\<lparr>diagnostic := makeDiagnostic InvalidNca (''Invalid NCA ContentId filename: '' @ n_name e) 0\<rparr>
     | None \<Rightarrow> m\<lparr>diagnostic := makeDiagnostic NoError [] 0\<rparr>)"

definition parseStreamManifest :: "u64 \<Rightarrow> 'r reader \<Rightarrow> 'r \<Rightarrow> (NspManifest \<times> u64) \<times> 'r" where
  "parseStreamManifest sz rd s =
    (let out = empty_manifest\<lparr>packageSize := sz\<rparr> in
     case stream_tables rd s of
       (Inl (d, consumed), s) \<Rightarrow> ((out\<lparr>diagnostic := d\<rparr>, consumed), s)
     | (Inr t, s) \<Rightarrow>
        ((case stream_entries t (t_entries t) out (t_dataStart t) of
            Inl m \<Rightarrow> m
          | Inr (m, smallest) \<Rightarrow> check_stream (if packageSize m = 0 then m\<lparr>packageSize := smallest\<rparr> else m),
          t_dataStart t), s))"

definition findCnmt :: "NspManifest \<Rightarrow> NspEntryInfo option" where
  "findCnmt m = find (\<lambda>e. isCnmtNca e \<and> hasContentId e) (entries m)"

section \<open>The meta data of the title\<close>

record ParsedMeta =
  pm_diagnostic :: Diagnostic
  pm_titleId :: u64
  pm_titleVersion :: u32
  pm_metaType :: u8
  pm_metaHeader :: "u8 list"
  pm_extendedHeader :: "u8 list"
  pm_contentInfos :: "NcmContentInfo list"
  pm_metaInfos :: "u8 list"
  pm_appId :: u64

definition meta_failure :: "Diagnostic \<Rightarrow> ParsedMeta" where
  "meta_failure d = \<lparr>pm_diagnostic = d, pm_titleId = 0, pm_titleVersion = 0, pm_metaType = 0, pm_metaHeader = replicate 8 0,
     pm_extendedHeader = [], pm_contentInfos = [], pm_metaInfos = [], pm_appId = 0\<rparr>"

definition applicationIdFor :: "('s ncm) \<Rightarrow> u64 \<Rightarrow> u8 \<Rightarrow> u8 list \<Rightarrow> u64" where
  "applicationIdFor N titleId type ext =
    (if type = mt_Application N then titleId
     else if type = mt_Patch N
     then (if patch_ext_size N \<le> length ext then patch_application N (take (patch_ext_size N) ext)
           else titleId AND NOT 0x800)
     else if type = mt_AddOnContent N
     then (if hos15 N \<and> addon_ext_size N \<le> length ext then addon_application N (take (addon_ext_size N) ext)
           else if legacy_addon_ext_size N \<le> length ext
           then legacy_addon_application N (take (legacy_addon_ext_size N) ext)
           else titleId)
     else titleId)"

text \<open>\<^verbatim>\<open>fsFileRead\<close> of exactly \<open>n\<close> bytes, with the result code.\<close>

definition cnmt_read :: "'s ncm \<Rightarrow> nat \<Rightarrow> nat \<Rightarrow> ('s, 'r, u32 \<times> u8 list option) iprog" where
  "cnmt_read N off n = do {
     (rc, bs) \<leftarrow> call (n_file_read N off n);
     State_Monad.return (rc, if succeeded rc \<and> length bs = n then Some bs else None)
   }"

text \<open>The loop over the \<open>k\<close> content records from offset \<open>off\<close>; the delta fragments are left out.\<close>

fun cnmt_contents :: "'s ncm \<Rightarrow> nat \<Rightarrow> nat \<Rightarrow> NcmContentInfo list \<Rightarrow> ('s, 'r, u32 + NcmContentInfo list) iprog" where
  "cnmt_contents N off 0 acc = State_Monad.return (Inr acc)"
| "cnmt_contents N off (Suc k) acc = do {
     (rc, bs) \<leftarrow> cnmt_read N off (packaged_size N);
     case bs of
       None \<Rightarrow> State_Monad.return (Inl rc)
     | Some bs \<Rightarrow>
        (let info = packaged_info N bs in
         cnmt_contents N (off + packaged_size N) k (if ci_type info \<noteq> ct_DeltaFragment N then acc @ [info] else acc))
   }"

text \<open>The part after the header was read and its counts were found in range.\<close>

definition cnmt_body :: "'s ncm \<Rightarrow> u8 list \<Rightarrow> ('s, 'r, ParsedMeta) iprog" where
  "cnmt_body N header =
    (let mh = take 8 (drop 14 header);
         extn = unat (header_ext_size N mh); contentn = unat (header_content_count N mh);
         metan = unat (header_meta_count N mh) in
     if 0x10000 < extn \<or> 0x4000 < contentn \<or> 0x4000 < metan
     then State_Monad.return (meta_failure (makeDiagnostic InvalidNca ''CNMT counts out of range'' 0))
     else do {
       (rc, ext) \<leftarrow> (if extn \<noteq> 0 then cnmt_read N 0x20 extn else State_Monad.return (0, Some []));
       case ext of
         None \<Rightarrow> State_Monad.return (meta_failure (makeDiagnostic InvalidNca ''CNMT ext incomplete'' rc))
       | Some ext \<Rightarrow> do {
           infos \<leftarrow> cnmt_contents N (0x20 + extn) contentn [];
           case infos of
             Inl rc \<Rightarrow> State_Monad.return (meta_failure (makeDiagnostic InvalidNca ''CNMT contents incomplete'' rc))
           | Inr infos \<Rightarrow> do {
               (rc, refs) \<leftarrow> (if metan \<noteq> 0
                 then cnmt_read N (0x20 + extn + contentn * packaged_size N) (metan * meta_info_size N)
                 else State_Monad.return (0, Some []));
               case refs of
                 None \<Rightarrow> State_Monad.return (meta_failure (makeDiagnostic InvalidNca ''CNMT meta refs incomplete'' rc))
               | Some refs \<Rightarrow>
                  (let titleId = of_nat (field 0 8 header); type = of_nat (field 12 1 header) in
                   State_Monad.return \<lparr>pm_diagnostic = makeDiagnostic NoError [] 0, pm_titleId = titleId,
                     pm_titleVersion = of_nat (field 8 4 header), pm_metaType = type, pm_metaHeader = mh,
                     pm_extendedHeader = ext, pm_contentInfos = infos, pm_metaInfos = refs,
                     pm_appId = applicationIdFor N titleId type ext\<rparr>)
             }
         }
     })"

definition cnmt_file :: "'s ncm \<Rightarrow> string \<Rightarrow> ('s, 'r, ParsedMeta) iprog" where
  "cnmt_file N name = do {
     rc \<leftarrow> call (n_open_file N (''/'' @ name));
     if \<not> succeeded rc then State_Monad.return (meta_failure (rcDiag rc InvalidNca ''Open CNMT file''))
     else do {
       (rc, header) \<leftarrow> cnmt_read N 0 0x20;
       case header of
         None \<Rightarrow> State_Monad.return (meta_failure (makeDiagnostic InvalidNca ''CNMT header incomplete'' rc))
       | Some header \<Rightarrow> cnmt_body N header
     }
   }"

definition parseInstalledMeta :: "'s ncm \<Rightarrow> NspEntryInfo \<Rightarrow> ('s, 'r, ParsedMeta) iprog" where
  "parseInstalledMeta N cnmtEntry = do {
     (rc, contentPath) \<leftarrow> call (n_get_path N (contentId cnmtEntry));
     if \<not> succeeded rc then State_Monad.return (meta_failure (rcDiag rc RegistrationError ''GetPath(CNMT)''))
     else do {
       rc \<leftarrow> call (n_open_fs N contentPath);
       if \<not> succeeded rc
       then State_Monad.return (meta_failure (rcDiag rc AuthorizationRejected ''fsOpenFileSystem(ContentMeta)''))
       else do {
         rc \<leftarrow> call (n_open_dir N);
         if \<not> succeeded rc then State_Monad.return (meta_failure (rcDiag rc InvalidNca ''Open CNMT dir''))
         else do {
           (rc, cnt) \<leftarrow> call (n_dir_count N);
           if \<not> succeeded rc \<or> cnt \<le> 0 \<or> 32 < cnt
           then State_Monad.return (meta_failure
             (makeDiagnostic InvalidNca ''CNMT file missing or directory count invalid'' rc))
           else do {
             (rc, names) \<leftarrow> call (n_dir_read N cnt);
             if \<not> succeeded rc then State_Monad.return (meta_failure (makeDiagnostic InvalidNca ''CNMT file missing'' rc))
             else case names of
               [] \<Rightarrow> State_Monad.return (meta_failure (makeDiagnostic InvalidNca ''CNMT file missing'' rc))
             | name # _ \<Rightarrow> cnmt_file N name
           }
         }
       }
     }
   }"

definition buildMetaDbBlob :: "'s ncm \<Rightarrow> ParsedMeta \<Rightarrow> NspEntryInfo \<Rightarrow> u8 list" where
  "buildMetaDbBlob N meta cnmt =
    header_for_db N (of_nat (length (pm_contentInfos meta) + 1)) (of_nat (length (pm_metaInfos meta) div meta_info_size N))
      (pm_metaHeader meta) @
    pm_extendedHeader meta @
    info_bytes N \<lparr>ci_content_id = contentId cnmt, ci_size = info_size N (n_size cnmt), ci_attr = 0, ci_type = ct_Meta N,
      ci_id_offset = 0\<rparr> @
    concat (map (info_bytes N) (pm_contentInfos meta)) @
    pm_metaInfos meta"

end
