(* ===== verification/Transaction.thy ===== *)
theory Transaction
  imports Stream_Install
begin

text \<open>
  The transaction of \<^verbatim>\<open>installNspStreamToSdTransactional\<close>
  (\<^verbatim>\<open>source/nsp_transaction_installer.cpp\<close>): the plan, the transfer of the contents, the meta
  data, the ticket and the application record. A step that fails returns the diagnostic that
  \<^verbatim>\<open>failRollback\<close> reports; the wrapper \<open>installNspStreamToSdTransactional\<close> then runs the recovery.
  The progress callback only shows the progress and is left out.
\<close>

section \<open>Checks against what is installed\<close>

definition streamCurrentFirmwarePacked :: "'s ncm \<Rightarrow> ('s, 'r, u32) iprog" where
  "streamCurrentFirmwarePacked N = do {
     fw \<leftarrow> call (n_firmware N);
     State_Monad.return (case fw of None \<Rightarrow> 0 | Some (major, minor, micro) \<Rightarrow> packed_firmware major minor micro)
   }"

definition streamRequiredSystemVersion :: "'s ncm \<Rightarrow> u8 \<Rightarrow> u8 list \<Rightarrow> u32" where
  "streamRequiredSystemVersion N metaType ext =
    (if metaType = mt_Application N \<and> app_ext_size N \<le> length ext then app_required N (take (app_ext_size N) ext)
     else if metaType = mt_Patch N \<and> patch_ext_size N \<le> length ext then patch_required N (take (patch_ext_size N) ext)
     else 0)"

text \<open>\<open>None\<close> where the source returns true, the text of \<^verbatim>\<open>technical\<close> where it returns false.\<close>

fun check_references :: "NspManifest \<Rightarrow> NcmContentInfo list \<Rightarrow> string option" where
  "check_references m [] = None"
| "check_references m (i # is) =
    (case findManifestContent m (ci_content_id i) of
       None \<Rightarrow> Some (''CNMT references ContentId missing from NSP: '' @ bytesToHex (ci_content_id i))
     | Some e \<Rightarrow>
         if n_size e \<noteq> ci_size i
         then Some (''CNMT/NCA size mismatch for '' @ n_name e @ ''; cnmt='' @ to_string (ci_size i) @
           '', pfs0='' @ to_string (n_size e))
         else check_references m is)"

definition streamValidateCnmtReferences :: "ParsedMeta \<Rightarrow> NspManifest \<Rightarrow> string option" where
  "streamValidateCnmtReferences meta m = check_references m (pm_contentInfos meta)"

text \<open>The latest key of a title in one of the two databases, if the title is there with the wanted type.\<close>

definition latest_of :: "'s ncm \<Rightarrow> bool \<Rightarrow> u64 \<Rightarrow> u8 \<Rightarrow> ('s, 'r, u32 option) iprog" where
  "latest_of N user title type = do {
     (rc, k) \<leftarrow> call (n_latest N user title);
     State_Monad.return (if succeeded rc \<and> k_type k = type then Some (k_version k) else None)
   }"

definition latest_of_user :: "'s ncm \<Rightarrow> u64 \<Rightarrow> u8 \<Rightarrow> ('s, 'r, u32 option) iprog" where
  "latest_of_user N title type = do {
     rc \<leftarrow> call (n_open_user_db N);
     if succeeded rc then latest_of N True title type else State_Monad.return None
   }"

definition base_installed :: "'s ncm \<Rightarrow> u64 \<Rightarrow> ('s, 'r, bool) iprog" where
  "base_installed N appId = do {
     sd \<leftarrow> latest_of N False appId (mt_Application N);
     if sd \<noteq> None then State_Monad.return True
     else do {
       user \<leftarrow> latest_of_user N appId (mt_Application N);
       State_Monad.return (user \<noteq> None)
     }
   }"

definition meta_key_of :: "'s ncm \<Rightarrow> ParsedMeta \<Rightarrow> meta_key" where
  "meta_key_of N meta = \<lparr>k_id = pm_titleId meta, k_version = pm_titleVersion meta, k_type = pm_metaType meta,
     k_install_type = it_Full N, k_padding = 0\<rparr>"

text \<open>The checks of the versions, after the base application was found.\<close>

definition check_versions :: "'s ncm \<Rightarrow> ParsedMeta \<Rightarrow> ('s, 'r, Diagnostic) iprog" where
  "check_versions N meta = do {
     sd \<leftarrow> latest_of N False (pm_titleId meta) (pm_metaType meta);
     user \<leftarrow> latest_of_user N (pm_titleId meta) (pm_metaType meta);
     let matching = (sd \<noteq> None \<or> user \<noteq> None);
     let latest = max (case sd of None \<Rightarrow> 0 | Some v \<Rightarrow> v) (case user of None \<Rightarrow> 0 | Some v \<Rightarrow> v);
     if matching \<and> pm_titleVersion meta \<le> latest
     then State_Monad.return (makeDiagnostic AlreadyInstalled ''The same or a newer version is already installed.'' 0)
     else if pm_metaType meta = mt_Application N \<and> matching
     then State_Monad.return (makeDiagnostic AlreadyInstalled
       ''Base application replacement is disabled; install newer content as an Update/Patch.'' 0)
     else do {
       let required = streamRequiredSystemVersion N (pm_metaType meta) (pm_extendedHeader meta);
       current \<leftarrow> streamCurrentFirmwarePacked N;
       State_Monad.return
         (if required \<noteq> 0 \<and> current \<noteq> 0 \<and> current < required
          then makeDiagnostic FirmwareTooOld (''required='' @ formatPackedSystemVersion required @
            '', current='' @ formatPackedSystemVersion current) 0
          else makeDiagnostic NoError [] 0)
     }
   }"

definition validateStreamMetaAgainstInstalled :: "'s ncm \<Rightarrow> ParsedMeta \<Rightarrow> ('s, 'r, Diagnostic) iprog" where
  "validateStreamMetaAgainstInstalled N meta =
    (if pm_metaType meta \<notin> {mt_Application N, mt_Patch N, mt_AddOnContent N}
     then State_Monad.return (makeDiagnostic UnsupportedFormat
       ''Only Application, Patch and AddOnContent CNMT types are supported.'' 0)
     else do {
       (rc, exact) \<leftarrow> call (n_meta_has N (meta_key_of N meta));
       if \<not> succeeded rc then State_Monad.return (rcDiag rc RegistrationError ''ContentMetaDatabaseHas'')
       else if exact
       then State_Monad.return (makeDiagnostic AlreadyInstalled ''This exact title/version is already installed.'' 0)
       else do {
         base \<leftarrow> (if pm_metaType meta = mt_Patch N \<or> pm_metaType meta = mt_AddOnContent N
           then base_installed N (pm_appId meta) else State_Monad.return True);
         if \<not> base
         then State_Monad.return (makeDiagnostic MissingContent
           ''The base application is not installed. Install the base game before its update/DLC.'' 0)
         else check_versions N meta
       }
     })"

section \<open>The plan\<close>

record RealInstallResult =
  ri_diagnostic :: Diagnostic
  ri_titleId :: u64
  ri_applicationId :: u64
  installedBytes :: u64
  installedContents :: u32
  ticketImported :: bool
  applicationRecordPushed :: bool

definition no_result :: RealInstallResult where
  "no_result = \<lparr>ri_diagnostic = no_diagnostic, ri_titleId = 0, ri_applicationId = 0, installedBytes = 0,
     installedContents = 0, ticketImported = False, applicationRecordPushed = False\<rparr>"

definition planned :: "'s ncm \<Rightarrow> NspEntryInfo \<Rightarrow> bool \<Rightarrow> PlannedContent" where
  "planned N e exists = \<lparr>pc_entry = e,
     pc_info = \<lparr>ci_content_id = contentId e, ci_size = info_size N (n_size e), ci_attr = 0,
       ci_type = (if isCnmtNca e then ct_Meta N else ct_Data N), ci_id_offset = 0\<rparr>,
     placeholder = replicate 16 0, placeholderCreated = False, registered = False, preExisting = exists\<rparr>"

fun make_plan :: "'s ncm \<Rightarrow> NspEntryInfo list \<Rightarrow> PlannedContent list \<Rightarrow> u64 \<Rightarrow>
    ('s, 'r, Diagnostic + PlannedContent list \<times> u64) iprog" where
  "make_plan N [] plan newBytes = State_Monad.return (Inr (plan, newBytes))"
| "make_plan N (e # es) plan newBytes =
    (if \<not> isNca e \<or> \<not> hasContentId e then make_plan N es plan newBytes
     else do {
       (rc, exists) \<leftarrow> call (n_has N (contentId e));
       if \<not> succeeded rc then State_Monad.return (Inl (rcDiag rc RegistrationError ''ContentStorageHas''))
       else if exists then make_plan N es (plan @ [planned N e exists]) newBytes
       else if (- 1) - n_size e < newBytes
       then State_Monad.return (Inl (makeDiagnostic NotEnoughSpace ''Install size overflow'' 0))
       else make_plan N es (plan @ [planned N e exists]) (newBytes + n_size e)
     })"

definition STREAM_INSTALL_SPACE_RESERVE :: u64 where
  "STREAM_INSTALL_SPACE_RESERVE = 64 * 1024 * 1024"

definition check_space :: "'s ncm \<Rightarrow> u64 \<Rightarrow> ('s, 'r, Diagnostic) iprog" where
  "check_space N newBytes = do {
     (rc, freeRaw) \<leftarrow> call (n_free_space N);
     let freeBytes = (of_int freeRaw :: u64);
     let required = (if (- 1) - STREAM_INSTALL_SPACE_RESERVE < newBytes then - 1
       else newBytes + STREAM_INSTALL_SPACE_RESERVE);
     State_Monad.return
       (if succeeded rc \<and> 0 \<le> freeRaw \<and> freeBytes < required
        then makeDiagnostic NotEnoughSpace (''stream_install_required='' @ to_string required @
          '', free='' @ to_string freeBytes) 0
        else makeDiagnostic NoError [] 0)
   }"

section \<open>Reading the stream\<close>

definition COPY_BUFFER_SIZE :: nat where "COPY_BUFFER_SIZE = 1024 * 1024"

text \<open>
  \<^verbatim>\<open>consumeBytes\<close>: \<open>remaining\<close> is \<^verbatim>\<open>bytes - local\<close>. It returns \<^verbatim>\<open>streamOffset\<close> and, in \<open>acc\<close>, the bytes it
  has handed to the sink.
\<close>

function consumeBytes :: "'r reader \<Rightarrow> (u8 list \<Rightarrow> nat \<Rightarrow> ('s, 'r, Diagnostic) iprog) \<Rightarrow> string \<Rightarrow> nat \<Rightarrow> u8 list \<Rightarrow> u64 \<Rightarrow>
    ('s, 'r, Diagnostic \<times> u64 \<times> u8 list) iprog" where
  "consumeBytes rd sink stage remaining acc streamOffset =
    (if remaining = 0 then State_Monad.return (makeDiagnostic NoError [] 0, streamOffset, acc)
     else do {
       stop \<leftarrow> interrupted;
       if stop then State_Monad.return (makeDiagnostic Cancelled ''User cancelled streaming install'' 0, streamOffset, acc)
       else do {
         let want = min COPY_BUFFER_SIZE remaining;
         io \<leftarrow> feed (rd want);
         case io of
           None \<Rightarrow> State_Monad.return (makeDiagnostic PackageTruncated
             (''MTP stream ended while reading '' @ stage @ ''; offset='' @ to_string streamOffset) 0, streamOffset, acc)
         | Some io \<Rightarrow> do {
             d \<leftarrow> sink io (length acc);
             if \<not> diag_ok d then State_Monad.return (d, streamOffset, acc)
             else consumeBytes rd sink stage (remaining - want) (acc @ io) (streamOffset + of_nat want)
           }
       }
     })"
  by pat_completeness auto
termination
  by (relation "measure (\<lambda>(rd, sink, stage, remaining, acc, streamOffset). remaining)")
    (auto simp: COPY_BUFFER_SIZE_def)

declare consumeBytes.simps [simp del]

definition no_sink :: "u8 list \<Rightarrow> nat \<Rightarrow> ('s, 'r, Diagnostic) iprog" where
  "no_sink io local = State_Monad.return (makeDiagnostic NoError [] 0)"

definition holder_sink :: "'s ncm \<Rightarrow> placeholder_id \<Rightarrow> u8 list \<Rightarrow> nat \<Rightarrow> ('s, 'r, Diagnostic) iprog" where
  "holder_sink N ph io local = do {
     wr \<leftarrow> call (n_write N ph local io);
     State_Monad.return (if \<not> succeeded wr then rcDiag wr WriteError ''WritePlaceHolder(stream)''
       else makeDiagnostic NoError [] 0)
   }"

section \<open>The transfer\<close>

text \<open>The local variables of the transfer, with the result so far.\<close>

record transfer =
  plan :: "PlannedContent list"
  aux :: "(NspEntryInfo \<times> u8 list) list"
  auxTotal :: u64
  installedNow :: u64
  contentOrdinal :: u32
  streamOffset :: u64
  outcome :: RealInstallResult

definition STREAM_MAX_AUX_FILE :: u64 where "STREAM_MAX_AUX_FILE = 16 * 1024 * 1024"
definition STREAM_MAX_AUX_TOTAL :: u64 where "STREAM_MAX_AUX_TOTAL = 32 * 1024 * 1024"

text \<open>\<^verbatim>\<open>findPlan\<close>: the position of the first planned content with the id.\<close>

fun findPlan :: "content_id \<Rightarrow> PlannedContent list \<Rightarrow> nat option" where
  "findPlan cid [] = None"
| "findPlan cid (p # ps) = (if ci_content_id (pc_info p) = cid then Some 0 else map_option Suc (findPlan cid ps))"

definition provisional_key :: meta_key where
  "provisional_key = \<lparr>k_id = 0, k_version = 0, k_type = 0, k_install_type = 0, k_padding = 0\<rparr>"

text \<open>A part of the stream that is read and dropped.\<close>

definition skip :: "'r reader \<Rightarrow> string \<Rightarrow> nat \<Rightarrow> transfer \<Rightarrow> ('s, 'r, Diagnostic \<times> transfer) iprog" where
  "skip rd stage n t = do {
     (d, off, got) \<leftarrow> consumeBytes rd no_sink stage n [] (streamOffset t);
     State_Monad.return (d, t\<lparr>streamOffset := off\<rparr>)
   }"

text \<open>A content that is not installed yet: placeholder, bytes, registration, each recorded in the journal.\<close>

definition receive_content ::
    "'s ncm \<Rightarrow> 'r reader \<Rightarrow> string \<Rightarrow> NspEntryInfo \<Rightarrow> nat \<Rightarrow> transfer \<Rightarrow> ('s, 'r, Diagnostic \<times> transfer) iprog" where
  "receive_content N rd displayName e i t = do {
     (rc, ph) \<leftarrow> call (n_generate N);
     if \<not> succeeded rc then State_Monad.return (rcDiag rc PlaceholderError ''GeneratePlaceHolderId'', t)
     else do {
       rc \<leftarrow> call (n_create N (contentId e) ph (n_size e));
       if \<not> succeeded rc then State_Monad.return (rcDiag rc PlaceholderError ''CreatePlaceHolder'', t)
       else do {
         let t = t\<lparr>plan := (plan t)[i := (plan t ! i)\<lparr>placeholder := ph, placeholderCreated := True\<rparr>]\<rparr>;
         saveJournal displayName 0 provisional_key (plan t) False False False ''stream-writing-content'';
         (d, off, got) \<leftarrow> consumeBytes rd (holder_sink N ph) (n_name e) (unat (n_size e)) [] (streamOffset t);
         let t = t\<lparr>streamOffset := off, installedNow := installedNow t + of_nat (length got)\<rparr>;
         if \<not> diag_ok d then State_Monad.return (d, t)
         else do {
           rc \<leftarrow> call (n_register N (contentId e) ph);
           if \<not> succeeded rc then State_Monad.return (rcDiag rc RegistrationError ''Register content(stream)'', t)
           else do {
             let t = t\<lparr>plan := (plan t)[i := (plan t ! i)\<lparr>placeholderCreated := False, registered := True\<rparr>],
               outcome := (outcome t)\<lparr>installedBytes := installedNow t, installedContents := installedContents (outcome t) + 1\<rparr>\<rparr>;
             saveJournal displayName 0 provisional_key (plan t) False False False ''stream-registered-content'';
             State_Monad.return (makeDiagnostic NoError [] 0, t)
           }
         }
       }
     }
   }"

text \<open>A ticket or a certificate, kept in memory.\<close>

definition receive_aux :: "'r reader \<Rightarrow> NspEntryInfo \<Rightarrow> transfer \<Rightarrow> ('s, 'r, Diagnostic \<times> transfer) iprog" where
  "receive_aux rd e t =
    (if STREAM_MAX_AUX_FILE < n_size e \<or> STREAM_MAX_AUX_TOTAL - n_size e < auxTotal t
     then State_Monad.return (makeDiagnostic UnsupportedFormat ''Ticket/cert payload is unexpectedly large'' 0, t)
     else do {
       (d, off, got) \<leftarrow> consumeBytes rd no_sink (n_name e) (unat (n_size e)) [] (streamOffset t);
       let t = t\<lparr>streamOffset := off\<rparr>;
       State_Monad.return (d, if \<not> diag_ok d then t
         else t\<lparr>auxTotal := auxTotal t + n_size e, aux := aux t @ [(e, got)]\<rparr>)
     })"

text \<open>One round of the loop over the entries in the order of their offsets.\<close>

definition receive_entry ::
    "'s ncm \<Rightarrow> 'r reader \<Rightarrow> string \<Rightarrow> NspEntryInfo \<Rightarrow> transfer \<Rightarrow> ('s, 'r, Diagnostic \<times> transfer) iprog" where
  "receive_entry N rd displayName e t =
    (if n_offset e < streamOffset t
     then State_Monad.return (makeDiagnostic InvalidPfs0 ''Overlapping/out-of-order PFS0 entries'' 0, t)
     else do {
       (d, t) \<leftarrow> (if streamOffset t < n_offset e
         then skip rd ''Skipping NSP padding'' (unat (n_offset e - streamOffset t)) t
         else State_Monad.return (makeDiagnostic NoError [] 0, t));
       if \<not> diag_ok d then State_Monad.return (d, t)
       else if isNca e
       then (let t = t\<lparr>contentOrdinal := contentOrdinal t + 1\<rparr> in
         case findPlan (contentId e) (plan t) of
           None \<Rightarrow> State_Monad.return (makeDiagnostic InternalError ''NCA missing from stream content plan'' 0, t)
         | Some i \<Rightarrow>
             if preExisting (plan t ! i)
             then skip rd (n_name e @ '' (already present)'') (unat (n_size e)) t
             else receive_content N rd displayName e i t)
       else if isTicket e \<or> isCert e then receive_aux rd e t
       else skip rd (''Skipping '' @ n_name e) (unat (n_size e)) t
     })"

fun receive_entries ::
    "'s ncm \<Rightarrow> 'r reader \<Rightarrow> string \<Rightarrow> NspEntryInfo list \<Rightarrow> transfer \<Rightarrow> ('s, 'r, Diagnostic \<times> transfer) iprog" where
  "receive_entries N rd displayName [] t = State_Monad.return (makeDiagnostic NoError [] 0, t)"
| "receive_entries N rd displayName (e # es) t = do {
     (d, t) \<leftarrow> receive_entry N rd displayName e t;
     if \<not> diag_ok d then State_Monad.return (d, t) else receive_entries N rd displayName es t
   }"

section \<open>Completing the title\<close>

definition importTicket :: "'s ncm \<Rightarrow> u8 list \<Rightarrow> u8 list \<Rightarrow> ('s, 'r, u32) iprog" where
  "importTicket N tik cert = do {
     rc \<leftarrow> call (n_es_open N);
     if \<not> succeeded rc then State_Monad.return rc else call (n_import N tik cert)
   }"

definition pushApplicationRecord :: "'s ncm \<Rightarrow> u64 \<Rightarrow> ContentStorageRecord list \<Rightarrow> ('s, 'r, u32) iprog" where
  "pushApplicationRecord N appId records = do {
     rc \<leftarrow> call (n_ns_initialize N);
     if \<not> succeeded rc then State_Monad.return rc
     else do {
       rc \<leftarrow> call (n_ns_manager N);
       if \<not> succeeded rc then State_Monad.return rc else call (n_push_record N appId records)
     }
   }"

definition listApplicationRecords :: "'s ncm \<Rightarrow> u64 \<Rightarrow> ('s, 'r, u32 \<times> ContentStorageRecord list) iprog" where
  "listApplicationRecords N appId = do {
     rr \<leftarrow> call (n_ns_initialize N);
     rr \<leftarrow> (if succeeded rr then call (n_ns_manager N) else State_Monad.return rr);
     if \<not> succeeded rr then State_Monad.return (rr, [])
     else do {
       (rr, entries, existing) \<leftarrow> call (n_list_records N appId);
       State_Monad.return (rr, if succeeded rr \<and> 0 < entries then take (nat (min entries 64)) existing else [])
     }
   }"

text \<open>The key is added unless it is among the records; \<^verbatim>\<open>records.empty()\<close> never holds after that.\<close>

definition add_record :: "'s ncm \<Rightarrow> meta_key \<Rightarrow> ContentStorageRecord list \<Rightarrow> ContentStorageRecord list" where
  "add_record N key records =
    (if key \<in> set (map r_key records) then records else records @ [\<lparr>r_key = key, r_storage_id = st_SdCard N\<rparr>])"

text \<open>
  The loop that looks for a rights id; contents without one are passed over. \<open>None\<close> is
  \<^verbatim>\<open>rightsFound == false\<close>.
\<close>

fun find_rights :: "'s ncm \<Rightarrow> PlannedContent list \<Rightarrow> ('s, 'r, u8 list option) iprog" where
  "find_rights N [] = State_Monad.return None"
| "find_rights N (p # ps) =
    (if isCnmtNca (pc_entry p) then find_rights N ps
     else do {
       (rr, rights) \<leftarrow> call (n_rights N (ci_content_id (pc_info p)));
       if succeeded rr \<and> rights \<noteq> replicate 16 0 then State_Monad.return (Some rights) else find_rights N ps
     })"

definition findBufferedRights :: "(NspEntryInfo \<times> u8 list) list \<Rightarrow> u8 list \<Rightarrow> bool \<Rightarrow> u8 list option" where
  "findBufferedRights kept rights ticket =
    map_option snd (find (\<lambda>(e, bs). (if ticket then isTicket e else isCert e) \<and>
      length (bytesToHex rights) \<le> length (n_name e) \<and>
      map tolower (take (length (bytesToHex rights)) (n_name e)) = map tolower (bytesToHex rights)) kept)"

text \<open>The ticket: the diagnostic, and whether one was imported.\<close>

definition install_ticket ::
    "'s ncm \<Rightarrow> string \<Rightarrow> u64 \<Rightarrow> meta_key \<Rightarrow> transfer \<Rightarrow> ('s, 'r, Diagnostic \<times> bool) iprog" where
  "install_ticket N displayName appId key t = do {
     rights \<leftarrow> find_rights N (plan t);
     case rights of
       None \<Rightarrow> State_Monad.return (makeDiagnostic NoError [] 0, False)
     | Some rights \<Rightarrow>
        (case (findBufferedRights (aux t) rights True, findBufferedRights (aux t) rights False) of
           (Some tik, Some cert) \<Rightarrow> do {
             rc \<leftarrow> importTicket N tik cert;
             if \<not> succeeded rc
             then State_Monad.return (rcDiag rc AuthorizationRejected ''es ImportTicket(stream)'', False)
             else do {
               saveJournal displayName appId key (plan t) True False True ''ticket-imported'';
               State_Monad.return (makeDiagnostic NoError [] 0, True)
             }
           }
         | _ \<Rightarrow> State_Monad.return
             (makeDiagnostic MissingContent ''Rights-managed title requires matching .tik and .cert'' 0, False))
   }"

definition push_records ::
    "'s ncm \<Rightarrow> string \<Rightarrow> ParsedMeta \<Rightarrow> meta_key \<Rightarrow> transfer \<Rightarrow> bool \<Rightarrow> ('s, 'r, Diagnostic) iprog" where
  "push_records N displayName meta key t ticket = do {
     (rr, existing) \<leftarrow> listApplicationRecords N (pm_appId meta);
     if \<not> succeeded rr \<and> pm_metaType meta \<noteq> mt_Application N
     then State_Monad.return (rcDiag rr RegistrationError ''ListApplicationRecordContentMeta(stream)'')
     else do {
       saveJournal displayName (pm_appId meta) key (plan t) True False ticket ''application-record-pending'';
       rc \<leftarrow> pushApplicationRecord N (pm_appId meta) (add_record N key existing);
       if \<not> succeeded rc
       then State_Monad.return (rcDiag rc RegistrationError ''PushApplicationRecord(stream)'')
       else do {
         saveJournal displayName (pm_appId meta) key (plan t) True True ticket ''application-record'';
         saveJournal displayName (pm_appId meta) key (plan t) True True ticket ''complete'';
         removeJournal;
         State_Monad.return (makeDiagnostic NoError [] 0)
       }
     }
   }"

text \<open>From the first \<^verbatim>\<open>saveJournal\<close> with the title's key to the end.\<close>

definition complete_title ::
    "'s ncm \<Rightarrow> string \<Rightarrow> NspEntryInfo \<Rightarrow> ParsedMeta \<Rightarrow> meta_key \<Rightarrow> transfer \<Rightarrow> ('s, 'r, Diagnostic \<times> transfer) iprog" where
  "complete_title N displayName cnmt meta key t = do {
     saveJournal displayName (pm_appId meta) key (plan t) False False False ''stream-content-complete'';
     saveJournal displayName (pm_appId meta) key (plan t) True False False ''metadata-pending'';
     rc \<leftarrow> call (n_meta_set N key (buildMetaDbBlob N meta cnmt));
     if \<not> succeeded rc then State_Monad.return (rcDiag rc RegistrationError ''ContentMetaDatabaseSet(stream)'', t)
     else do {
       rc \<leftarrow> call (n_meta_commit N);
       if \<not> succeeded rc then State_Monad.return (rcDiag rc RegistrationError ''ContentMetaDatabaseCommit(stream)'', t)
       else do {
         saveJournal displayName (pm_appId meta) key (plan t) True False False ''metadata-committed'';
         (d, ticket) \<leftarrow> install_ticket N displayName (pm_appId meta) key t;
         let t = t\<lparr>outcome := (outcome t)\<lparr>ticketImported := ticket\<rparr>\<rparr>;
         if \<not> diag_ok d then State_Monad.return (d, t)
         else do {
           d \<leftarrow> push_records N displayName meta key t ticket;
           if \<not> diag_ok d then State_Monad.return (d, t)
           else State_Monad.return
             (makeDiagnostic NoError ''Direct MTP streaming install completed'' 0,
              t\<lparr>outcome := (outcome t)\<lparr>applicationRecordPushed := True, ri_titleId := pm_titleId meta,
                ri_applicationId := pm_appId meta\<rparr>\<rparr>)
         }
       }
     }
   }"

section \<open>The handler\<close>

text \<open>Everything after the first \<^verbatim>\<open>saveJournal\<close>: what \<^verbatim>\<open>failRollback\<close> guards.\<close>

definition run_transaction ::
    "'s ncm \<Rightarrow> 'r reader \<Rightarrow> string \<Rightarrow> NspManifest \<Rightarrow> NspEntryInfo \<Rightarrow> transfer \<Rightarrow> ('s, 'r, Diagnostic \<times> transfer) iprog" where
  "run_transaction N rd displayName m cnmt t = do {
     (d, t) \<leftarrow> receive_entries N rd displayName (sort_key n_offset (entries m)) t;
     (d, t) \<leftarrow> (if diag_ok d \<and> streamOffset t < packageSize m
       then skip rd ''Finishing NSP stream'' (unat (packageSize m - streamOffset t)) t
       else State_Monad.return (d, t));
     if \<not> diag_ok d then State_Monad.return (d, t)
     else do {
       meta \<leftarrow> parseInstalledMeta N cnmt;
       if \<not> diag_ok (pm_diagnostic meta) then State_Monad.return (pm_diagnostic meta, t)
       else case streamValidateCnmtReferences meta m of
         Some refError \<Rightarrow> State_Monad.return (makeDiagnostic MissingContent refError 0, t)
       | None \<Rightarrow> do {
           d \<leftarrow> validateStreamMetaAgainstInstalled N meta;
           if \<not> diag_ok d then State_Monad.return (d, t)
           else complete_title N displayName cnmt meta (meta_key_of N meta) t
         }
     }
   }"

definition new_transfer :: "PlannedContent list \<Rightarrow> u64 \<Rightarrow> transfer" where
  "new_transfer ps off = \<lparr>plan = ps, aux = [], auxTotal = 0, installedNow = 0, contentOrdinal = 0, streamOffset = off,
     outcome = no_result\<rparr>"

definition guarded_transaction ::
    "'s ncm \<Rightarrow> 'r reader \<Rightarrow> string \<Rightarrow> NspManifest \<Rightarrow> NspEntryInfo \<Rightarrow> transfer \<Rightarrow> ('s, 'r, RealInstallResult) iprog" where
  "guarded_transaction N rd displayName m cnmt t = do {
     saveJournal displayName 0 provisional_key (plan t) False False False ''stream-prepared'';
     (d, t) \<leftarrow> run_transaction N rd displayName m cnmt t;
     (if \<not> diag_ok d then do { recoverStaleRealInstall N; State_Monad.return () } else State_Monad.return ());
     State_Monad.return ((outcome t)\<lparr>ri_diagnostic := d\<rparr>)
   }"

definition failure_result :: "Diagnostic \<Rightarrow> RealInstallResult" where
  "failure_result d = no_result\<lparr>ri_diagnostic := d\<rparr>"

text \<open>From the opening of the services to the first \<^verbatim>\<open>saveJournal\<close>.\<close>

definition prepare_transaction ::
    "'s ncm \<Rightarrow> NspManifest \<Rightarrow> ('s, 'r, Diagnostic + PlannedContent list) iprog" where
  "prepare_transaction N m = do {
     d \<leftarrow> NcmContext_open N;
     if \<not> diag_ok d then State_Monad.return (Inl d)
     else do {
       p \<leftarrow> make_plan N (entries m) [] 0;
       case p of
         Inl d \<Rightarrow> State_Monad.return (Inl d)
       | Inr (ps, newBytes) \<Rightarrow> do {
           d \<leftarrow> check_space N newBytes;
           State_Monad.return (if \<not> diag_ok d then Inl d else Inr ps)
         }
     }
   }"

definition installNspStreamToSdTransactional ::
    "'s ncm \<Rightarrow> 'r reader \<Rightarrow> string \<Rightarrow> u64 \<Rightarrow> ('s, 'r, RealInstallResult) iprog" where
  "installNspStreamToSdTransactional N rd displayName sz = do {
     (ok, recovery) \<leftarrow> recoverStaleRealInstall N;
     if \<not> ok then State_Monad.return (failure_result (makeDiagnostic RegistrationError (''Recovery failed: '' @ recovery) 0))
     else do {
       left \<leftarrow> peek (\<lambda>d. jfiles d Active \<noteq> None);
       if left
       then State_Monad.return (failure_result
         (makeDiagnostic RegistrationError (''Install journal remained after recovery: '' @ recovery) 0))
       else do {
         (m, consumed) \<leftarrow> feed (parseStreamManifest sz rd);
         if \<not> diag_ok (diagnostic m) then State_Monad.return (failure_result (diagnostic m))
         else case findCnmt m of
           None \<Rightarrow> State_Monad.return (failure_result (makeDiagnostic MissingContent ''CNMT NCA missing'' 0))
         | Some cnmt \<Rightarrow> do {
             p \<leftarrow> prepare_transaction N m;
             case p of
               Inl d \<Rightarrow> State_Monad.return (failure_result d)
             | Inr ps \<Rightarrow> guarded_transaction N rd displayName m cnmt (new_transfer ps consumed)
           }
       }
     }
   }"

end
