(* ===== verification/Ncm_Rules.thy ===== *)
theory Ncm_Rules
  imports Transaction
begin

text \<open>
  Rules for programs on a device. \<open>itriple M view C P p Q\<close>: started with the power on in a state
  that satisfies \<open>P\<close>, the program ends with \<open>Q\<close> of its result, or the power is lost and \<open>C\<close> holds;
  started with the power off it changes nothing. The predicates see of the device what \<open>obs\<close>
  shows: the view of the services, the files of the journal and the stream. With \<open>M\<close> set, no file
  operation fails and a rename replaces its target.
\<close>

record 'r obs =
  o_ncm :: ncm_view
  o_files :: "jfile \<Rightarrow> json option option"
  o_dir :: bool
  o_source :: 'r

definition obs :: "('s \<Rightarrow> ncm_view) \<Rightarrow> ('s, 'r) device \<Rightarrow> 'r obs" where
  "obs view d = \<lparr>o_ncm = view (svc d), o_files = jfiles d, o_dir = work_dir d, o_source = source d\<rparr>"

definition sound_files :: "('s, 'r) device \<Rightarrow> bool" where
  "sound_files d = (replaces d \<and> File_Error \<notin> set (events d))"

definition itriple :: "bool \<Rightarrow> ('s \<Rightarrow> ncm_view) \<Rightarrow> ('r obs \<Rightarrow> bool) \<Rightarrow> ('r obs \<Rightarrow> bool) \<Rightarrow> ('s, 'r, 'a) iprog \<Rightarrow>
    ('a \<Rightarrow> 'r obs \<Rightarrow> bool) \<Rightarrow> bool" where
  "itriple M view C P p Q = (\<forall>d. if lost d then snd (run_state p d) = d
     else (M \<longrightarrow> sound_files d) \<and> P (obs view d) \<longrightarrow>
       (if lost (snd (run_state p d)) then C (obs view (snd (run_state p d)))
        else (M \<longrightarrow> sound_files (snd (run_state p d))) \<and> Q (fst (run_state p d)) (obs view (snd (run_state p d)))))"

named_theorems itriple_intros

lemma itripleI:
  assumes "\<And>d. lost d \<Longrightarrow> snd (run_state p d) = d"
    and "\<And>d r d'. \<not> lost d \<Longrightarrow> (M \<Longrightarrow> sound_files d) \<Longrightarrow> P (obs view d) \<Longrightarrow> run_state p d = (r, d') \<Longrightarrow>
      (if lost d' then C (obs view d') else (M \<longrightarrow> sound_files d') \<and> Q r (obs view d'))"
  shows "itriple M view C P p Q"
  unfolding itriple_def
proof (intro allI)
  fix d
  obtain r d' where run: "run_state p d = (r, d')" by fastforce
  show "if lost d then snd (run_state p d) = d
     else (M \<longrightarrow> sound_files d) \<and> P (obs view d) \<longrightarrow>
       (if lost (snd (run_state p d)) then C (obs view (snd (run_state p d)))
        else (M \<longrightarrow> sound_files (snd (run_state p d))) \<and> Q (fst (run_state p d)) (obs view (snd (run_state p d))))"
    using assms(1) [of d] assms(2) [of d r d'] run by auto
qed

lemma itripleD:
  assumes "itriple M view C P p Q" and "\<not> lost d" and "M \<Longrightarrow> sound_files d" and "P (obs view d)"
    and "run_state p d = (r, d')"
  shows "if lost d' then C (obs view d') else (M \<longrightarrow> sound_files d') \<and> Q r (obs view d')"
  using assms unfolding itriple_def by (metis fst_conv snd_conv)

lemma itriple_lost: "itriple M view C P p Q \<Longrightarrow> lost d \<Longrightarrow> run_state p d = (r, d') \<Longrightarrow> d' = d"
  unfolding itriple_def by (metis snd_conv)

lemma itriple_return [itriple_intros]: "(\<And>x. P x \<Longrightarrow> Q a x) \<Longrightarrow> itriple M view C P (State_Monad.return a) Q"
  by (rule itripleI) auto

lemma itriple_bind:
  assumes "itriple M view C P m R" and "\<And>a. itriple M view C (R a) (f a) Q"
  shows "itriple M view C P (State_Monad.bind m f) Q"
proof (rule itripleI)
  fix d :: "('a, 'b) device"
  assume "lost d"
  then show "snd (run_state (State_Monad.bind m f) d) = d"
    using itriple_lost [OF assms(1)] itriple_lost [OF assms(2)]
    by (cases "run_state m d") (metis run_state_bind_fst_snd fst_conv prod.exhaust_sel snd_conv)
next
  fix d r d'
  assume d: "\<not> lost d" "M \<Longrightarrow> sound_files d" "P (obs view d)" and run: "run_state (State_Monad.bind m f) d = (r, d')"
  obtain a e where m: "run_state m d = (a, e)" by fastforce
  with run have f: "run_state (f a) e = (r, d')" by simp
  note m' = itripleD [OF assms(1) d m]
  show "if lost d' then C (obs view d') else (M \<longrightarrow> sound_files d') \<and> Q r (obs view d')"
  proof (cases "lost e")
    case True
    then show ?thesis using itriple_lost [OF assms(2) True f] m' by simp
  next
    case False
    then show ?thesis using itripleD [OF assms(2) False _ _ f] m' by simp
  qed
qed

lemma itriple_weaken:
  assumes "itriple M view C P p Q" and "\<And>x. P' x \<Longrightarrow> P x" and "\<And>x. C x \<Longrightarrow> C' x" and "\<And>r x. Q r x \<Longrightarrow> Q' r x"
  shows "itriple M view C' P' p Q'"
  using assms unfolding itriple_def by (metis (mono_tags, lifting))

lemma itriple_if [itriple_intros]:
  "(b \<Longrightarrow> itriple M view C P p Q) \<Longrightarrow> (\<not> b \<Longrightarrow> itriple M view C P q Q) \<Longrightarrow> itriple M view C P (if b then p else q) Q"
  by simp

lemma itriple_option [itriple_intros]:
  "(a = None \<Longrightarrow> itriple M view C P p Q) \<Longrightarrow> (\<And>y. a = Some y \<Longrightarrow> itriple M view C P (q y) Q) \<Longrightarrow>
    itriple M view C P (case a of None \<Rightarrow> p | Some y \<Rightarrow> q y) Q"
  by (cases a) simp_all

lemma itriple_prod [itriple_intros]:
  "(\<And>y z. a = (y, z) \<Longrightarrow> itriple M view C P (q y z) Q) \<Longrightarrow> itriple M view C P (case a of (y, z) \<Rightarrow> q y z) Q"
  by (cases a) simp_all

lemma itriple_sum [itriple_intros]:
  "(\<And>y. a = Inl y \<Longrightarrow> itriple M view C P (p y) Q) \<Longrightarrow> (\<And>y. a = Inr y \<Longrightarrow> itriple M view C P (q y) Q) \<Longrightarrow>
    itriple M view C P (case a of Inl y \<Rightarrow> p y | Inr y \<Rightarrow> q y) Q"
  by (cases a) simp_all

lemma itriple_list [itriple_intros]:
  "(a = [] \<Longrightarrow> itriple M view C P p Q) \<Longrightarrow> (\<And>y ys. a = y # ys \<Longrightarrow> itriple M view C P (q y ys) Q) \<Longrightarrow>
    itriple M view C P (case a of [] \<Rightarrow> p | y # ys \<Rightarrow> q y ys) Q"
  by (cases a) simp_all

lemma itriple_bool [itriple_intros]:
  "(a \<Longrightarrow> itriple M view C P p Q) \<Longrightarrow> (\<not> a \<Longrightarrow> itriple M view C P q Q) \<Longrightarrow>
    itriple M view C P (case a of True \<Rightarrow> p | False \<Rightarrow> q) Q"
  by (cases a) simp_all

text \<open>A part of the precondition that does not depend on the state; \<open>still\<close>: with the power off nothing happens.\<close>

definition still :: "('s, 'r, 'a) iprog \<Rightarrow> bool" where
  "still p = (\<forall>d. lost d \<longrightarrow> snd (run_state p d) = d)"

lemma still_itriple: "still p \<longleftrightarrow> itriple False view (\<lambda>_. True) (\<lambda>_. False) p (\<lambda>_ _. True)"
  by (auto simp: still_def itriple_def)

lemma itriple_pre: "still p \<Longrightarrow> (\<phi> \<Longrightarrow> itriple M view C P p Q) \<Longrightarrow> itriple M view C (\<lambda>x. \<phi> \<and> P x) p Q"
  by (cases \<phi>) (auto simp: itriple_def still_def)

lemma itriple_ex: "(\<And>y. itriple M view C (P y) p Q) \<Longrightarrow> itriple M view C (\<lambda>x. \<exists>y. P y x) p Q"
  unfolding itriple_def by (metis (mono_tags, lifting))

section \<open>The primitives\<close>

text \<open>A call: what holds before it, after it, and if the power is lost before or after its effect.\<close>

lemma itriple_call:
  assumes "\<And>s x. o_ncm x = view s \<Longrightarrow> P x \<Longrightarrow> C x \<and> C (x\<lparr>o_ncm := view (snd (f s))\<rparr>) \<and>
    Q (fst (f s)) (x\<lparr>o_ncm := view (snd (f s))\<rparr>)"
  shows "itriple M view C P (call f) Q"
proof (rule itripleI)
  fix d r d'
  assume d: "\<not> lost d" "M \<Longrightarrow> sound_files d" "P (obs view d)" and run: "run_state (call f) d = (r, d')"
  obtain r0 s0 where f: "f (svc d) = (r0, s0)" by fastforce
  have "obs view (d\<lparr>svc := s0, events := es, lost := b\<rparr>) = (obs view d)\<lparr>o_ncm := view (snd (f (svc d)))\<rparr>"
    "obs view (d\<lparr>svc := s0, events := es\<rparr>) = (obs view d)\<lparr>o_ncm := view (snd (f (svc d)))\<rparr>"
    "obs view (d\<lparr>svc := s0\<rparr>) = (obs view d)\<lparr>o_ncm := view (snd (f (svc d)))\<rparr>"
    "obs view (d\<lparr>svc := svc d, events := es, lost := b\<rparr>) = obs view d" for es b
    by (simp_all add: obs_def f)
  note obs = this
  have c: "C (obs view d) \<and> C ((obs view d)\<lparr>o_ncm := view (snd (f (svc d)))\<rparr>) \<and>
      Q (fst (f (svc d))) ((obs view d)\<lparr>o_ncm := view (snd (f (svc d)))\<rparr>)"
    using assms [of "obs view d" "svc d"] d(3) by (simp add: obs_def)
  show "if lost d' then C (obs view d') else (M \<longrightarrow> sound_files d') \<and> Q r (obs view d')"
    using run c d(1,2) obs f
    by (auto simp: call_def sound_files_def split: list.splits event.splits if_splits)
qed (auto simp: call_def split: prod.splits)

text \<open>A call that changes nothing.\<close>

lemma itriple_ask:
  assumes "asks view f" and "\<And>x. P x \<Longrightarrow> C x" and "\<And>s x. o_ncm x = view s \<Longrightarrow> P x \<Longrightarrow> Q (fst (f s)) x"
  shows "itriple M view C P (call f :: ('s, 'r, 'a) iprog) Q"
proof (rule itriple_call)
  fix s and x :: "'r obs"
  assume x: "o_ncm x = view s" "P x"
  then have "x\<lparr>o_ncm := view (snd (f s))\<rparr> = x" using assms(1) by (simp add: asks_def)
  then show "C x \<and> C (x\<lparr>o_ncm := view (snd (f s))\<rparr>) \<and> Q (fst (f s)) (x\<lparr>o_ncm := view (snd (f s))\<rparr>)"
    using assms(2,3) x by simp
qed

text \<open>A call with an effect.\<close>

lemma itriple_does:
  assumes "does view f ok" and "\<And>x. P x \<Longrightarrow> C x"
    and "\<And>x v. P x \<Longrightarrow> ok (o_ncm x) v \<Longrightarrow> C (x\<lparr>o_ncm := v\<rparr>) \<and> Q 0 (x\<lparr>o_ncm := v\<rparr>)"
    and "\<And>x rc. P x \<Longrightarrow> \<not> succeeded rc \<Longrightarrow> Q rc x"
  shows "itriple M view C P (call f :: ('s, 'r, u32) iprog) Q"
proof (rule itriple_call)
  fix s and x :: "'r obs"
  assume x: "o_ncm x = view s" "P x"
  show "C x \<and> C (x\<lparr>o_ncm := view (snd (f s))\<rparr>) \<and> Q (fst (f s)) (x\<lparr>o_ncm := view (snd (f s))\<rparr>)"
  proof (cases "succeeded (fst (f s))")
    case True
    then have "ok (view s) (view (snd (f s)))" using assms(1) by (auto simp: does_def)
    with assms(2,3) x True show ?thesis by simp
  next
    case False
    then have "x\<lparr>o_ncm := view (snd (f s))\<rparr> = x" using assms(1) x(1) by (simp add: does_def)
    with assms(2,4) x False show ?thesis by simp
  qed
qed

lemma itriple_peek:
  "(\<And>d. P (obs view d) \<Longrightarrow> Q (f d) (obs view d)) \<Longrightarrow> itriple M view C P (peek f) Q"
  by (rule itripleI) (auto simp: peek_def)

lemma itriple_interrupted [itriple_intros]:
  assumes "\<And>x b. P x \<Longrightarrow> Q b x"
  shows "itriple M view C P interrupted Q"
proof (rule itripleI)
  fix d r d'
  assume d: "\<not> lost d" "M \<Longrightarrow> sound_files d" "P (obs view d)" and run: "run_state interrupted d = (r, d')"
  then have "obs view d' = obs view d" "lost d' = lost d" "sound_files d' = sound_files d"
    by (auto simp: interrupted_def obs_def sound_files_def split: list.splits)
  with d assms show "if lost d' then C (obs view d') else (M \<longrightarrow> sound_files d') \<and> Q r (obs view d')" by simp
qed (auto simp: interrupted_def split: list.splits)

lemma itriple_feed:
  assumes "\<And>x. P x \<Longrightarrow> Q (fst (f (o_source x))) (x\<lparr>o_source := snd (f (o_source x))\<rparr>)"
  shows "itriple M view C P (feed f) Q"
proof (rule itripleI)
  fix d r d'
  assume d: "\<not> lost d" "M \<Longrightarrow> sound_files d" "P (obs view d)" and run: "run_state (feed f) d = (r, d')"
  then have "obs view d' = (obs view d)\<lparr>o_source := snd (f (source d))\<rparr>" "r = fst (f (source d))" "lost d' = lost d"
    "sound_files d' = sound_files d"
    by (auto simp: feed_def obs_def sound_files_def split: prod.splits)
  with d assms [of "obs view d"]
  show "if lost d' then C (obs view d') else (M \<longrightarrow> sound_files d') \<and> Q r (obs view d')" by (simp add: obs_def)
qed (auto simp: feed_def split: prod.splits)

text \<open>
  A file operation whose effect on the files is \<open>g\<close>. Without \<open>M\<close> it may fail, which leaves the files
  as they are.
\<close>

lemma itriple_file:
  assumes f: "\<And>d. f d = g (replaces d) (jfiles d) (work_dir d)"
    and "\<And>x. P x \<Longrightarrow> C x"
    and ok: "\<And>x b r fs wd. P x \<Longrightarrow> M \<longrightarrow> b \<Longrightarrow> g b (o_files x) (o_dir x) = (r, fs, wd) \<Longrightarrow>
      C (x\<lparr>o_files := fs, o_dir := wd\<rparr>) \<and> Q r (x\<lparr>o_files := fs, o_dir := wd\<rparr>)"
    and fail: "\<And>x. P x \<Longrightarrow> \<not> M \<Longrightarrow> Q e x"
  shows "itriple M view C P (file_op f e) Q"
proof (rule itripleI)
  fix d r d'
  assume d: "\<not> lost d" "M \<Longrightarrow> sound_files d" "P (obs view d)" and run: "run_state (file_op f e) d = (r, d')"
  obtain r0 fs wd where g: "g (replaces d) (jfiles d) (work_dir d) = (r0, fs, wd)" by (metis prod.exhaust)
  have obs: "obs view (d\<lparr>jfiles := fs, work_dir := wd\<rparr>) = (obs view d)\<lparr>o_files := fs, o_dir := wd\<rparr>"
    "obs view (d\<lparr>jfiles := fs, work_dir := wd, events := es\<rparr>) = (obs view d)\<lparr>o_files := fs, o_dir := wd\<rparr>"
    "obs view (d\<lparr>jfiles := fs, work_dir := wd, events := es, lost := b\<rparr>) = (obs view d)\<lparr>o_files := fs, o_dir := wd\<rparr>"
    "obs view (d\<lparr>events := es\<rparr>) = obs view d"
    "obs view (d\<lparr>jfiles := jfiles d, work_dir := work_dir d, events := es, lost := b\<rparr>) = obs view d" for es b
    by (simp_all add: obs_def)
  have "C ((obs view d)\<lparr>o_files := fs, o_dir := wd\<rparr>) \<and> Q r0 ((obs view d)\<lparr>o_files := fs, o_dir := wd\<rparr>)"
    using ok [OF d(3), of "replaces d" r0 fs wd] d(2) g by (auto simp: obs_def sound_files_def)
  then show "if lost d' then C (obs view d') else (M \<longrightarrow> sound_files d') \<and> Q r (obs view d')"
    using run d(1,2) g obs assms(2) [OF d(3)] fail [OF d(3)] d(2)
    by (cases M) (auto simp: file_op_def f sound_files_def split: list.splits event.splits if_splits)
qed (auto simp: file_op_def split: prod.splits)

section \<open>Invariants\<close>

text \<open>
  \<open>invar view I V p\<close>: the program preserves \<open>I\<close>, whatever the schedule and also when the power is
  lost during it, and its result satisfies \<open>V\<close>.
\<close>

definition invar :: "('s \<Rightarrow> ncm_view) \<Rightarrow> ('r obs \<Rightarrow> bool) \<Rightarrow> ('a \<Rightarrow> bool) \<Rightarrow> ('s, 'r, 'a) iprog \<Rightarrow> bool" where
  "invar view I V p = (\<forall>d. I (obs view d) \<longrightarrow>
     I (obs view (snd (run_state p d))) \<and> V (fst (run_state p d)))"

named_theorems invar_intros

lemma obs_same: "o_ncm x = v \<Longrightarrow> x\<lparr>o_ncm := v\<rparr> = x"
  by (cases x) simp

lemma invar_bind:
  assumes "invar view I V m" and "\<And>a. V a \<Longrightarrow> invar view I W (f a)"
  shows "invar view I W (State_Monad.bind m f)"
  using assms unfolding invar_def by (simp add: case_prod_beta)

lemma invar_weaken: "invar view I V p \<Longrightarrow> (\<And>a. V a \<Longrightarrow> W a) \<Longrightarrow> invar view I W p"
  by (auto simp: invar_def)

lemma invar_return [invar_intros]: "V a \<Longrightarrow> invar view I V (State_Monad.return a)"
  by (simp add: invar_def)

lemma invar_cases [invar_intros]:
  "(b \<Longrightarrow> invar view I V p) \<Longrightarrow> (\<not> b \<Longrightarrow> invar view I V q) \<Longrightarrow> invar view I V (if b then p else q)"
  "(a = None \<Longrightarrow> invar view I V p) \<Longrightarrow> (\<And>y. a = Some y \<Longrightarrow> invar view I V (g y)) \<Longrightarrow>
    invar view I V (case a of None \<Rightarrow> p | Some y \<Rightarrow> g y)"
  "(\<And>y z. c = (y, z) \<Longrightarrow> invar view I V (h y z)) \<Longrightarrow> invar view I V (case c of (y, z) \<Rightarrow> h y z)"
  "(\<And>y. e = Inl y \<Longrightarrow> invar view I V (k y)) \<Longrightarrow> (\<And>y. e = Inr y \<Longrightarrow> invar view I V (l y)) \<Longrightarrow>
    invar view I V (case e of Inl y \<Rightarrow> k y | Inr y \<Rightarrow> l y)"
  "(xs = [] \<Longrightarrow> invar view I V p) \<Longrightarrow> (\<And>y ys. xs = y # ys \<Longrightarrow> invar view I V (m y ys)) \<Longrightarrow>
    invar view I V (case xs of [] \<Rightarrow> p | y # ys \<Rightarrow> m y ys)"
  "(b \<Longrightarrow> invar view I V p) \<Longrightarrow> (\<not> b \<Longrightarrow> invar view I V q) \<Longrightarrow> invar view I V (case b of True \<Rightarrow> p | False \<Rightarrow> q)"
  by (auto split: option.splits prod.splits sum.splits list.splits bool.splits)

lemma invar_call:
  assumes "\<And>s x. o_ncm x = view s \<Longrightarrow> I x \<Longrightarrow> I (x\<lparr>o_ncm := view (snd (f s))\<rparr>) \<and> V (fst (f s))"
  shows "invar view I V (call f)"
  unfolding invar_def
proof (intro allI impI)
  fix d
  assume I: "I (obs view d)"
  obtain r0 s0 where f: "f (svc d) = (r0, s0)" by fastforce
  have "obs view (d\<lparr>svc := s0, events := es, lost := b\<rparr>) = (obs view d)\<lparr>o_ncm := view s0\<rparr>"
    "obs view (d\<lparr>svc := s0, events := es\<rparr>) = (obs view d)\<lparr>o_ncm := view s0\<rparr>"
    "obs view (d\<lparr>svc := s0\<rparr>) = (obs view d)\<lparr>o_ncm := view s0\<rparr>"
    "obs view (d\<lparr>svc := svc d, events := es, lost := b\<rparr>) = obs view d" for es b
    by (simp_all add: obs_def)
  moreover have "I ((obs view d)\<lparr>o_ncm := view s0\<rparr>) \<and> V r0"
    using assms [of "obs view d" "svc d"] I f by (simp add: obs_def)
  ultimately show "I (obs view (snd (run_state (call f) d))) \<and> V (fst (run_state (call f) d))"
    using I f by (auto simp: call_def split: list.splits event.splits)
qed

lemma invar_ask [invar_intros]:
  assumes "asks view f" and "\<And>s x. o_ncm x = view s \<Longrightarrow> I x \<Longrightarrow> V (fst (f s))"
  shows "invar view I V (call f)"
proof (rule invar_call)
  fix s x
  assume x: "o_ncm x = view s" "I x"
  then have "x\<lparr>o_ncm := view (snd (f s))\<rparr> = x" using assms(1) by (simp add: asks_def)
  then show "I (x\<lparr>o_ncm := view (snd (f s))\<rparr>) \<and> V (fst (f s))" using assms(2) x by simp
qed

lemma invar_does:
  assumes "does view f ok" and "\<And>x v. I x \<Longrightarrow> ok (o_ncm x) v \<Longrightarrow> I (x\<lparr>o_ncm := v\<rparr>)"
  shows "invar view I (\<lambda>_. True) (call f)"
proof (rule invar_call)
  fix s x
  assume x: "o_ncm x = view s" "I x"
  then show "I (x\<lparr>o_ncm := view (snd (f s))\<rparr>) \<and> True"
    using assms(1) [unfolded does_def, rule_format, of s] assms(2) [OF x(2)]
    by (cases "succeeded (fst (f s))") (auto simp: obs_same)
qed

lemma invar_file:
  assumes "\<And>d r fs wd. I (obs view d) \<Longrightarrow> f d = (r, fs, wd) \<Longrightarrow> I ((obs view d)\<lparr>o_files := fs, o_dir := wd\<rparr>)"
  shows "invar view I (\<lambda>_. True) (file_op f e)"
  unfolding invar_def
proof (intro allI impI)
  fix d
  assume I: "I (obs view d)"
  obtain r0 fs wd where f: "f d = (r0, fs, wd)" by (metis prod.exhaust)
  have "obs view (d\<lparr>jfiles := fs, work_dir := wd\<rparr>) = (obs view d)\<lparr>o_files := fs, o_dir := wd\<rparr>"
    "obs view (d\<lparr>jfiles := fs, work_dir := wd, events := es\<rparr>) = (obs view d)\<lparr>o_files := fs, o_dir := wd\<rparr>"
    "obs view (d\<lparr>jfiles := fs, work_dir := wd, events := es, lost := b\<rparr>) = (obs view d)\<lparr>o_files := fs, o_dir := wd\<rparr>"
    "obs view (d\<lparr>events := es\<rparr>) = obs view d"
    "obs view (d\<lparr>jfiles := jfiles d, work_dir := work_dir d, events := es, lost := b\<rparr>) = obs view d" for es b
    by (simp_all add: obs_def)
  then show "I (obs view (snd (run_state (file_op f e) d))) \<and> True"
    using I f assms [OF I f] by (auto simp: file_op_def split: list.splits event.splits)
qed

lemma invar_peek [invar_intros]: "(\<And>d. I (obs view d) \<Longrightarrow> V (f d)) \<Longrightarrow> invar view I V (peek f)"
  by (simp add: invar_def peek_def)

lemma obs_events: "obs view (d\<lparr>polls := ps\<rparr>) = obs view d"
  by (simp add: obs_def)

lemma invar_interrupted [invar_intros]: "(\<And>b. V b) \<Longrightarrow> invar view I V interrupted"
  by (auto simp: invar_def interrupted_def obs_events split: list.splits)

lemma invar_feed:
  assumes "\<And>x. I x \<Longrightarrow> I (x\<lparr>o_source := snd (f (o_source x))\<rparr>) \<and> V (fst (f (o_source x)))"
  shows "invar view I V (feed f)"
  unfolding invar_def
proof (intro allI impI)
  fix d
  assume "I (obs view d)"
  moreover have "obs view (d\<lparr>source := snd (f (source d))\<rparr>) = (obs view d)\<lparr>o_source := snd (f (o_source (obs view d)))\<rparr>"
    by (simp add: obs_def)
  ultimately show "I (obs view (snd (run_state (feed f) d))) \<and> V (fst (run_state (feed f) d))"
    using assms [of "obs view d"] by (auto simp: feed_def obs_def split: prod.splits)
qed

end
