(* ===== verification/Shared_Contents.thy ===== *)
theory Shared_Contents
  imports Ncm_Rules
begin

text \<open>
  Contents that were installed before a transaction are never touched by it: no installation and
  no recovery, whatever fails and whenever the power is lost, deletes or replaces one. The
  argument is an invariant of the device, \<open>shared_kept\<close>: the old contents are there, and no journal
  file on the card makes a recovery delete one of them.
\<close>

section \<open>What a journal makes a recovery delete\<close>

definition condemns :: "json \<Rightarrow> content_id \<Rightarrow> bool" where
  "condemns j c =
    ((\<exists>t. str_value ''content_id'' [] j = Some t \<and> hexToBytes t 16 = Some c \<and>
        bool_value ''content_created'' False j = Some True) \<or>
     (\<exists>x \<in> set (contents_backwards j). \<exists>t. str_value ''content_id'' [] x = Some t \<and> fromHex t 16 = c \<and>
        bool_value ''registered'' False x = Some True \<and> bool_value ''pre_existing'' False x = Some False))"

definition spares_old :: "(content_id \<Rightarrow> u8 list option) \<Rightarrow> json \<Rightarrow> bool" where
  "spares_old old j = (\<forall>c. condemns j c \<longrightarrow> old c = None)"

definition shared_kept :: "(content_id \<Rightarrow> u8 list option) \<Rightarrow> 'r obs \<Rightarrow> bool" where
  "shared_kept old x = (old \<subseteq>\<^sub>m contents (o_ncm x) \<and> (\<forall>f j. o_files x f = Some (Some j) \<longrightarrow> spares_old old j))"

abbreviation guards :: "('s \<Rightarrow> ncm_view) \<Rightarrow> (content_id \<Rightarrow> u8 list option) \<Rightarrow> ('a \<Rightarrow> bool) \<Rightarrow> ('s, 'r, 'a) iprog \<Rightarrow> bool" where
  "guards view old V p \<equiv> invar view (shared_kept old) V p"

lemma guards_then: "guards view old (\<lambda>_. True) m \<Longrightarrow> (\<And>a. guards view old W (f a)) \<Longrightarrow>
    guards view old W (State_Monad.bind m f)"
  by (rule invar_bind)

section \<open>The journal of a plan\<close>

lemma hex_prefix_pairs: "hex_pairs n s = Some bs \<Longrightarrow> hex_prefix n s = bs"
proof (induction n s arbitrary: bs rule: hex_pairs.induct)
  case (1 n a b s)
  then show ?case by (auto simp: Let_def split: if_splits)
qed simp_all

lemma fromHex_bytesToHex: "length b = n \<Longrightarrow> fromHex (bytesToHex b) n = b"
  using hex_pairs_bytesToHex [of b "[]"] hex_prefix_pairs [of n "bytesToHex b" b]
  by (auto simp: fromHex_def length_bytesToHex)

lemma content_json_values [simp]:
  "str_value ''content_id'' [] (content_json c) = Some (bytesToHex (ci_content_id (pc_info c)))"
  "str_value ''placeholder_id'' [] (content_json c) = Some (bytesToHex (placeholder c))"
  "bool_value ''registered'' False (content_json c) = Some (registered c)"
  "bool_value ''pre_existing'' False (content_json c) = Some (preExisting c)"
  "bool_value ''placeholder_created'' False (content_json c) = Some (placeholderCreated c)"
  by (simp_all add: str_value_def bool_value_def content_json_def)

lemma journal_json_values [simp]:
  "str_value ''owner'' [] (journal_json p a k ps ms rp ti st) = Some ''aio-switch-updater-mod''"
  "str_value ''kind'' [] (journal_json p a k ps ms rp ti st) = Some ''real-install''"
  "str_value ''stage'' [] (journal_json p a k ps ms rp ti st) = Some st"
  "bool_value ''meta_set'' False (journal_json p a k ps ms rp ti st) = Some ms"
  "contents_backwards (journal_json p a k ps ms rp ti st) = rev (map content_json ps)"
  "bool_value ''content_created'' False (journal_json p a k ps ms rp ti st) = Some False"
  by (simp_all add: str_value_def bool_value_def journal_json_def contents_backwards_def)

text \<open>A plan that marks every old content as pre-existing.\<close>

definition plan_ok :: "(content_id \<Rightarrow> u8 list option) \<Rightarrow> PlannedContent list \<Rightarrow> bool" where
  "plan_ok old ps = (\<forall>p \<in> set ps. length (ci_content_id (pc_info p)) = 16 \<and>
     (\<not> preExisting p \<longrightarrow> old (ci_content_id (pc_info p)) = None))"

lemma plan_spares: "plan_ok old ps \<Longrightarrow> spares_old old (journal_json p a k ps ms rp ti st)"
  by (auto simp: spares_old_def condemns_def plan_ok_def fromHex_bytesToHex)

lemma plan_ok_update:
  assumes "plan_ok old ps" and "i < length ps" and "pc_info p = pc_info (ps ! i)" and "preExisting p = preExisting (ps ! i)"
  shows "plan_ok old (ps[i := p])"
proof -
  have "ps ! i \<in> set ps" using assms(2) by simp
  then show ?thesis using assms set_update_subset_insert [of ps i p] by (auto simp: plan_ok_def)
qed

section \<open>The files\<close>

lemma guards_file_ops [invar_intros]:
  "guards view old (\<lambda>_. True) (fs_remove f)" "guards view old (\<lambda>_. True) (fs_rename f g)"
  "guards view old (\<lambda>_. True) (fs_truncate f)" "spares_old old j \<Longrightarrow> guards view old (\<lambda>_. True) (fs_write f j)"
  "guards view old (\<lambda>_. True) (file_op (\<lambda>d. (b, jfiles d, wd d)) e)"
  unfolding fs_remove_def fs_rename_def fs_truncate_def fs_write_def
  by (rule invar_file; auto simp: shared_kept_def obs_def split: if_splits)+

lemma guards_saveJournal [invar_intros]:
  "plan_ok old ps \<Longrightarrow> guards view old (\<lambda>_. True) (saveJournal p a k ps ms rp ti st)"
  unfolding saveJournal_def by (intro guards_then invar_intros plan_spares) simp_all

lemma guards_removeJournal [invar_intros]: "guards view old (\<lambda>_. True) removeJournal"
  unfolding removeJournal_def by (intro guards_then invar_intros) simp_all

lemma guards_clear_journal [invar_intros]: "guards view old (\<lambda>_. True) (clear_journal a b)"
  unfolding clear_journal_def by (intro guards_then invar_intros) simp_all

section \<open>The services\<close>

lemma contractD:
  assumes "ncm_contract N view"
  shows "asks view (n_initialize N)" "asks view (n_open_storage N)" "asks view (n_open_db N)"
    "asks view (n_open_user_db N)" "asks view (n_has N c)" "asks view (n_has_placeholder N ph)" "asks view (n_generate N)"
    "asks view (n_meta_has N k)" "asks view (n_latest N b a)" "asks view (n_rights N c)" "asks view (n_es_open N)"
    "asks view (n_import N t cert)" "asks view (n_ns_initialize N)" "asks view (n_ns_manager N)"
    "asks view (n_list_records N a)" "asks view (n_free_space N)" "asks view (n_firmware N)" "asks view (n_get_path N c)"
    "asks view (n_open_fs N nm)" "asks view (n_open_dir N)" "asks view (n_dir_count N)" "asks view (n_dir_read N cnt)"
    "asks view (n_open_file N nm)" "asks view (n_file_read N i n)" "asks view (n_open_dir_all N)"
    "asks view (n_dir_read_all N cnt)"
  using assms by (simp_all add: ncm_contract_def ncm_queries_def)

lemma contract_effects:
  assumes "ncm_contract N view"
  shows "does view (n_create N c p z) (\<lambda>v v'. \<exists>bs. length bs = unat z \<and> v' = v\<lparr>holders := (holders v)(p \<mapsto> bs)\<rparr>)"
    and "does view (n_write N p i bs) (\<lambda>v v'. \<exists>old. holders v p = Some old \<and> i + length bs \<le> length old \<and>
        v' = v\<lparr>holders := (holders v)(p \<mapsto> patch i bs old)\<rparr>)"
    and "does view (n_register N c p) (\<lambda>v v'. contents v c = None \<and> holders v p \<noteq> None \<and>
        v' = v\<lparr>contents := (contents v)(c := holders v p), holders := (holders v)(p := None)\<rparr>)"
    and "does view (n_delete N c) (\<lambda>v v'. v' = v\<lparr>contents := (contents v)(c := None)\<rparr>)"
    and "does view (n_delete_placeholder N p) (\<lambda>v v'. v' = v\<lparr>holders := (holders v)(p := None)\<rparr>)"
    and "does view (n_meta_set N k b) (\<lambda>v v'. v' = v\<lparr>metas := (metas v)(k \<mapsto> b)\<rparr>)"
    and "does view (n_meta_remove N k) (\<lambda>v v'. v' = v\<lparr>metas := (metas v)(k := None)\<rparr>)"
    and "does view (n_meta_commit N) (\<lambda>v v'. v' = v\<lparr>committed := metas v\<rparr>)"
    and "does view (n_push_record N a rs) (\<lambda>v v'. v' = v\<lparr>app_records := (app_records v)(a := rs)\<rparr>)"
  using assms by (simp_all add: ncm_contract_def ncm_effects_def)

lemma guards_contents:
  assumes "does view f ok" and "\<And>v v'. ok v v' \<Longrightarrow> contents v' = contents v"
  shows "guards view old (\<lambda>_. True) (call f)"
  by (rule invar_does [OF assms(1)]) (auto simp: shared_kept_def assms(2))

lemma guards_ask: "asks view f \<Longrightarrow> guards view old (\<lambda>_. True) (call f)"
  by (rule invar_ask) simp_all

lemma guards_has:
  assumes "ncm_contract N view"
  shows "guards view old (\<lambda>(rc, exists). succeeded rc \<longrightarrow> \<not> exists \<longrightarrow> old c = None) (call (n_has N c))"
proof (rule invar_ask [OF contractD(5) [OF assms]])
  fix s and x :: "'r obs"
  assume "o_ncm x = view s" "shared_kept old x"
  moreover have "succeeded (fst (fst (n_has N c s))) \<longrightarrow> snd (fst (n_has N c s)) = (contents (view s) c \<noteq> None)"
    using assms by (simp add: ncm_contract_def ncm_answers_def)
  ultimately show "case fst (n_has N c s) of (rc, exists) \<Rightarrow> succeeded rc \<longrightarrow> \<not> exists \<longrightarrow> old c = None"
    by (cases "fst (n_has N c s)"; cases "old c") (auto simp: shared_kept_def map_le_def dom_def)
qed

lemma guards_register:
  assumes "ncm_contract N view"
  shows "guards view old (\<lambda>_. True) (call (n_register N c p))"
  by (rule invar_does [OF contract_effects(3) [OF assms]])
    (auto simp: shared_kept_def map_le_def dom_def)

lemma guards_delete:
  assumes "ncm_contract N view" and "old c = None"
  shows "guards view old (\<lambda>_. True) (call (n_delete N c))"
  by (rule invar_does [OF contract_effects(4) [OF assms(1)]])
    (use assms(2) in \<open>auto simp: shared_kept_def map_le_def dom_def\<close>)

text \<open>The calls that need no condition.\<close>

lemma guards_calls:
  assumes "ncm_contract N view"
  shows "guards view old (\<lambda>_. True) (call (n_initialize N))" "guards view old (\<lambda>_. True) (call (n_open_storage N))"
    "guards view old (\<lambda>_. True) (call (n_open_db N))" "guards view old (\<lambda>_. True) (call (n_open_user_db N))"
    "guards view old (\<lambda>_. True) (call (n_has_placeholder N p))" "guards view old (\<lambda>_. True) (call (n_generate N))"
    "guards view old (\<lambda>_. True) (call (n_meta_has N k))" "guards view old (\<lambda>_. True) (call (n_latest N b a))"
    "guards view old (\<lambda>_. True) (call (n_rights N c))" "guards view old (\<lambda>_. True) (call (n_es_open N))"
    "guards view old (\<lambda>_. True) (call (n_import N t cert))" "guards view old (\<lambda>_. True) (call (n_ns_initialize N))"
    "guards view old (\<lambda>_. True) (call (n_ns_manager N))" "guards view old (\<lambda>_. True) (call (n_list_records N a))"
    "guards view old (\<lambda>_. True) (call (n_free_space N))" "guards view old (\<lambda>_. True) (call (n_firmware N))"
    "guards view old (\<lambda>_. True) (call (n_get_path N c))" "guards view old (\<lambda>_. True) (call (n_open_fs N nm))"
    "guards view old (\<lambda>_. True) (call (n_open_dir N))" "guards view old (\<lambda>_. True) (call (n_dir_count N))"
    "guards view old (\<lambda>_. True) (call (n_dir_read N cnt))" "guards view old (\<lambda>_. True) (call (n_open_file N nm))"
    "guards view old (\<lambda>_. True) (call (n_file_read N i n))" "guards view old (\<lambda>_. True) (call (n_create N c p z))"
    "guards view old (\<lambda>_. True) (call (n_write N p i bs))" "guards view old (\<lambda>_. True) (call (n_delete_placeholder N p))"
    "guards view old (\<lambda>_. True) (call (n_meta_set N k bs))" "guards view old (\<lambda>_. True) (call (n_meta_remove N k))"
    "guards view old (\<lambda>_. True) (call (n_meta_commit N))" "guards view old (\<lambda>_. True) (call (n_push_record N a rs))"
    "guards view old (\<lambda>_. True) (call (n_open_dir_all N))" "guards view old (\<lambda>_. True) (call (n_dir_read_all N cnt))"
    "guards view old (\<lambda>_. True) (call (n_register N c p))" "guards view old (\<lambda>_. True) (call (n_has N c))"
  by (rule guards_register [OF assms] guards_contents [OF contract_effects(1) [OF assms]]
      guards_contents [OF contract_effects(2) [OF assms]] guards_contents [OF contract_effects(5) [OF assms]]
      guards_contents [OF contract_effects(6) [OF assms]] guards_contents [OF contract_effects(7) [OF assms]]
      guards_contents [OF contract_effects(8) [OF assms]] guards_contents [OF contract_effects(9) [OF assms]]
      contractD [OF assms, THEN guards_ask]; auto)+

lemma guards_feed [invar_intros]: "guards view old (\<lambda>_. True) (feed f)"
  by (rule invar_feed) (auto simp: shared_kept_def)

lemma guards_journal:
  "guards view old (\<lambda>t. \<forall>j. t = Some (Some j) \<longrightarrow> spares_old old j) (peek (\<lambda>d. jfiles d f))"
  by (rule invar_peek) (auto simp: shared_kept_def obs_def)

section \<open>Recovery\<close>

lemma guards_open: "ncm_contract N view \<Longrightarrow> guards view old (\<lambda>_. True) (NcmContext_open N)"
  unfolding NcmContext_open_def by (intro guards_then invar_intros guards_calls) simp_all

lemma guards_recover_probe: "ncm_contract N view \<Longrightarrow> guards view old (\<lambda>_. True) (recover_probe N j)"
  unfolding recover_probe_def by (intro guards_then guards_calls guards_open invar_intros) simp_all

lemma guards_recover_cnmt:
  assumes "ncm_contract N view" and "spares_old old j"
  shows "guards view old (\<lambda>_. True) (recover_cnmt N j)"
proof -
  have "old c = None"
    if "str_value ''content_id'' [] j = Some t" "hexToBytes t 16 = Some c" "bool_value ''content_created'' False j = Some True"
    for t c
    using assms(2) that by (auto simp: spares_old_def condemns_def)
  then show ?thesis
    unfolding recover_cnmt_def
    by (intro guards_then invar_intros guards_calls guards_open guards_delete assms(1)) auto
qed

lemma guards_undo_content:
  assumes "ncm_contract N view" and "spares_old old j" and "x \<in> set (contents_backwards j)"
  shows "guards view old (\<lambda>_. True) (undo_content N x)"
proof -
  have "old (fromHex t 16) = None"
    if "str_value ''content_id'' [] x = Some t" "bool_value ''registered'' False x = Some True"
      "bool_value ''pre_existing'' False x = Some False" for t
    using assms(2,3) that by (auto simp: spares_old_def condemns_def)
  then show ?thesis
    unfolding undo_content_def Let_def
    by (intro guards_then invar_intros guards_calls guards_delete assms(1)) (auto split: if_splits)
qed

lemma guards_undo_contents:
  assumes "ncm_contract N view" and "spares_old old j"
  shows "set xs \<subseteq> set (contents_backwards j) \<Longrightarrow> guards view old (\<lambda>_. True) (undo_contents N xs)"
proof (induction xs)
  case (Cons x xs)
  then show ?case by (auto intro!: guards_then guards_undo_content [OF assms] invar_intros)
qed (simp add: invar_intros)

lemma guards_recover_install:
  assumes "ncm_contract N view" and "spares_old old j"
  shows "guards view old (\<lambda>_. True) (recover_install N j)"
proof -
  note undo = guards_undo_contents [OF assms order.refl]
  show ?thesis
    unfolding recover_install_def undo_meta_def
    by (intro guards_then guards_calls [OF assms(1)] guards_open [OF assms(1)] undo invar_intros) simp_all
qed

lemma guards_recover:
  assumes "ncm_contract N view"
  shows "guards view old (\<lambda>_. True) (recoverStaleRealInstall N)"
  unfolding recoverStaleRealInstall_def recover_journal_def
  by (rule invar_bind [OF guards_journal])
    (intro guards_then invar_intros guards_recover_probe guards_recover_cnmt guards_recover_install assms; simp)

section \<open>Installation\<close>

lemma length_hex_pairs: "hex_pairs n s = Some bs \<Longrightarrow> length bs = n"
  by (induction n s arbitrary: bs rule: hex_pairs.induct) (auto simp: Let_def split: if_splits)

lemma entry_info_id: "length (contentId (entry_info name off sz)) = 16"
  by (auto simp: entry_info_def Let_def parseContentIdFromName_def length_hex_pairs split: option.splits if_splits)

lemma stream_entries_ids:
  "stream_entries t es m z = Inr (m', z') \<Longrightarrow> \<forall>e \<in> set (entries m). length (contentId e) = 16 \<Longrightarrow>
    \<forall>e \<in> set (entries m'). length (contentId e) = 16"
proof (induction es arbitrary: m z)
  case (Cons e es)
  from Cons.prems show ?case
    by (auto simp: add_entry_def entry_info_id split: if_splits option.splits dest!: Cons.IH)
qed simp

lemma stream_entries_Inl_code:
  "stream_entries t es m z = Inl m' \<Longrightarrow> \<not> diag_ok (diagnostic m')"
  by (induction es arbitrary: m z) (auto simp: diag_ok_def split: if_splits option.splits)

lemma check_stream_simps [simp]: "entries (check_stream m) = entries m"
  by (simp add: check_stream_def split: option.splits)

lemma stream_tables_code: "stream_tables rd s = (Inl (d, k), s') \<Longrightarrow> \<not> diag_ok d"
  by (auto simp: stream_tables_def diag_ok_def Let_def split: option.splits prod.splits if_splits)

lemma parseStreamManifest_ids:
  assumes "parseStreamManifest sz rd s = ((m, k), s')" and "diag_ok (diagnostic m)"
  shows "\<forall>e \<in> set (entries m). length (contentId e) = 16"
proof -
  let ?out = "empty_manifest\<lparr>packageSize := sz\<rparr>"
  obtain t s1 where t: "stream_tables rd s = (Inr t, s1)"
    using assms stream_tables_code [of rd s]
    by (cases "stream_tables rd s"; cases "fst (stream_tables rd s)") (fastforce simp: parseStreamManifest_def)+
  obtain m1 z where m1: "stream_entries t (t_entries t) ?out (t_dataStart t) = Inr (m1, z)"
    using assms t stream_entries_Inl_code [of t "t_entries t" ?out "t_dataStart t"]
    by (cases "stream_entries t (t_entries t) ?out (t_dataStart t)") (fastforce simp: parseStreamManifest_def)+
  have "entries m = entries m1"
    using assms(1) t m1 by (auto simp: parseStreamManifest_def split: if_splits)
  with stream_entries_ids [OF m1] show ?thesis by (simp add: empty_manifest_def)
qed

lemma guards_consumeBytes:
  assumes "\<And>io l. guards view old (\<lambda>_. True) (sink io l)"
  shows "guards view old (\<lambda>_. True) (consumeBytes rd sink stage remaining acc off)"
proof (induction remaining arbitrary: acc off rule: less_induct)
  case (less remaining)
  show ?case
    unfolding consumeBytes.simps [of rd sink stage remaining acc off] Let_def
    by (intro guards_then invar_intros assms less) (auto simp: COPY_BUFFER_SIZE_def)
qed

lemma guards_skip: "guards view old (\<lambda>(d, t'). plan t' = plan t) (skip rd stage n t)"
  unfolding skip_def no_sink_def by (intro guards_then invar_intros guards_consumeBytes) auto

lemma findPlan_Some: "findPlan c ps = Some i \<Longrightarrow> i < length ps \<and> ci_content_id (pc_info (ps ! i)) = c"
  by (induction ps arbitrary: i) (auto split: if_splits)

lemma guards_receive_content:
  assumes "ncm_contract N view" and "plan_ok old (plan t)" and "i < length (plan t)"
  shows "guards view old (\<lambda>(d, t'). plan_ok old (plan t')) (receive_content N rd displayName e i t)"
proof -
  have ok: "plan_ok old ((plan t)[i := (plan t ! i)\<lparr>placeholder := ph, placeholderCreated := c, registered := r\<rparr>])"
    "plan_ok old ((plan t)[i := (plan t ! i)\<lparr>placeholder := ph, placeholderCreated := c\<rparr>])" for ph c r
    by (intro plan_ok_update assms; simp)+
  show ?thesis
    unfolding receive_content_def holder_sink_def Let_def
    by (intro guards_then invar_intros guards_calls [OF assms(1)] guards_consumeBytes)
      (use assms(3) ok in \<open>simp_all add: assms(2)\<close>)
qed

lemma guards_receive_entry:
  assumes "ncm_contract N view" and "plan_ok old (plan t)"
  shows "guards view old (\<lambda>(d, t'). plan_ok old (plan t')) (receive_entry N rd displayName e t)"
proof -
  have skip: "guards view old (\<lambda>(d, t'). plan_ok old (plan t')) (skip rd stage n u)"
    if "plan_ok old (plan u)" for stage n u
    by (rule invar_weaken [OF guards_skip]) (use that in auto)
  have aux: "guards view old (\<lambda>(d, t'). plan_ok old (plan t')) (receive_aux rd e u)" if "plan_ok old (plan u)" for u
    unfolding receive_aux_def no_sink_def Let_def
    by (intro guards_then invar_intros guards_consumeBytes) (use that in auto)
  show ?thesis
    unfolding receive_entry_def Let_def
    by (intro invar_intros invar_bind [where V = "\<lambda>(d, t'). plan_ok old (plan t')"] skip aux
        guards_receive_content assms) (auto simp: assms dest: findPlan_Some)
qed

lemma guards_receive_entries:
  assumes "ncm_contract N view"
  shows "plan_ok old (plan t) \<Longrightarrow> guards view old (\<lambda>(d, t'). plan_ok old (plan t')) (receive_entries N rd displayName es t)"
proof (induction es arbitrary: t)
  case (Cons e es)
  have "guards view old (\<lambda>(d, t'). plan_ok old (plan t'))
      (if \<not> diag_ok d then State_Monad.return (d, u) else receive_entries N rd displayName es u)"
    if "plan_ok old (plan u)" for d u
    by (intro invar_intros Cons.IH) (use that in auto)
  then show ?case
    unfolding receive_entries.simps
    by (intro invar_bind [OF guards_receive_entry [OF assms Cons.prems]] invar_cases(3)) auto
qed (simp add: invar_intros)

lemma guards_cnmt_read: "ncm_contract N view \<Longrightarrow> guards view old (\<lambda>_. True) (cnmt_read N off n)"
  unfolding cnmt_read_def by (intro guards_then invar_intros guards_calls) simp_all

lemma guards_cnmt_contents: "ncm_contract N view \<Longrightarrow> guards view old (\<lambda>_. True) (cnmt_contents N off k acc)"
  by (induction k arbitrary: off acc) (auto intro!: guards_then invar_intros guards_cnmt_read simp: Let_def)

lemma guards_parseInstalledMeta: "ncm_contract N view \<Longrightarrow> guards view old (\<lambda>_. True) (parseInstalledMeta N e)"
  unfolding parseInstalledMeta_def cnmt_file_def cnmt_body_def Let_def
  by (intro guards_then invar_intros guards_calls guards_cnmt_read guards_cnmt_contents) simp_all

lemma guards_validate: "ncm_contract N view \<Longrightarrow> guards view old (\<lambda>_. True) (validateStreamMetaAgainstInstalled N meta)"
  unfolding validateStreamMetaAgainstInstalled_def base_installed_def check_versions_def latest_of_user_def latest_of_def
    streamCurrentFirmwarePacked_def Let_def
  by (intro guards_then invar_intros guards_calls) simp_all

lemma guards_make_plan:
  assumes "ncm_contract N view" and "\<forall>e \<in> set es. length (contentId e) = 16"
  shows "plan_ok old ps \<Longrightarrow> guards view old (\<lambda>r. case r of Inl d \<Rightarrow> True | Inr (ps, n) \<Rightarrow> plan_ok old ps)
    (make_plan N es ps n :: ('s, 'r, _) iprog)"
  using assms(2)
proof (induction es arbitrary: ps n)
  case (Cons e es)
  have IH: "guards view old (\<lambda>r. case r of Inl d \<Rightarrow> True | Inr (ps, n) \<Rightarrow> plan_ok old ps)
      (make_plan N es (ps @ [planned N e exists]) k :: ('s, 'r, _) iprog)" if "\<not> exists \<longrightarrow> old (contentId e) = None" for exists k
    by (rule Cons.IH) (use Cons.prems that in \<open>auto simp: plan_ok_def planned_def\<close>)
  show ?case
    unfolding make_plan.simps
    by (intro invar_intros invar_bind [OF guards_has [OF assms(1)]] IH Cons.IH) (use Cons.prems in auto)
qed (simp add: invar_intros)

lemma guards_find_rights: "ncm_contract N view \<Longrightarrow> guards view old (\<lambda>_. True) (find_rights N ps)"
  by (induction ps) (auto intro!: guards_then invar_intros guards_calls)

lemma guards_complete_title:
  assumes "ncm_contract N view" and "plan_ok old (plan t)"
  shows "guards view old (\<lambda>(d, t'). True) (complete_title N displayName cnmt meta key t)"
  unfolding complete_title_def install_ticket_def push_records_def importTicket_def listApplicationRecords_def
    pushApplicationRecord_def Let_def
  by (intro guards_then guards_calls [OF assms(1)] guards_find_rights [OF assms(1)] invar_intros) (simp_all add: assms(2))

lemma guards_run_transaction:
  assumes "ncm_contract N view" and "plan_ok old (plan t)"
  shows "guards view old (\<lambda>_. True) (run_transaction N rd displayName m cnmt t)"
proof -
  have skip: "guards view old (\<lambda>(d, t'). plan_ok old (plan t')) (skip rd stage n u)"
    if "plan_ok old (plan u)" for stage n u
    by (rule invar_weaken [OF guards_skip]) (use that in auto)
  show ?thesis
    unfolding run_transaction_def
    by (intro invar_bind [OF guards_receive_entries [OF assms]] invar_cases(3)
          invar_bind [where V = "\<lambda>(d, t'). plan_ok old (plan t')"],
        goal_cases)
      (auto intro!: invar_intros skip guards_then guards_parseInstalledMeta assms(1) guards_validate
        invar_weaken [OF guards_complete_title [OF assms(1)]])
qed

lemma guards_check_space: "ncm_contract N view \<Longrightarrow> guards view old (\<lambda>_. True) (check_space N k)"
  unfolding check_space_def Let_def by (intro guards_then guards_calls invar_intros) simp_all

lemma guards_prepare:
  assumes "ncm_contract N view" and "\<forall>e \<in> set (entries m). length (contentId e) = 16"
  shows "guards view old (\<lambda>r. case r of Inl d \<Rightarrow> True | Inr ps \<Rightarrow> plan_ok old ps) (prepare_transaction N m)"
  unfolding prepare_transaction_def
  by (intro guards_then [OF guards_open] guards_then [OF guards_check_space] assms(1) invar_intros
      invar_bind [OF guards_make_plan [OF assms]]) (auto simp: plan_ok_def)

lemma guards_install:
  assumes "ncm_contract N view"
  shows "guards view old (\<lambda>_. True) (installNspStreamToSdTransactional N rd displayName sz :: ('s, 'r, _) iprog)"
proof -
  have parse: "guards view old (\<lambda>(m, k). diag_ok (diagnostic m) \<longrightarrow> (\<forall>e \<in> set (entries m). length (contentId e) = 16))
      (feed (parseStreamManifest sz rd) :: ('s, 'r, _) iprog)"
  proof (rule invar_feed)
    fix x :: "'r obs"
    assume "shared_kept old x"
    then show "shared_kept old (x\<lparr>o_source := snd (parseStreamManifest sz rd (o_source x))\<rparr>) \<and>
        (case fst (parseStreamManifest sz rd (o_source x)) of (m, k) \<Rightarrow>
          diag_ok (diagnostic m) \<longrightarrow> (\<forall>e \<in> set (entries m). length (contentId e) = 16))"
      using parseStreamManifest_ids [of sz rd "o_source x"]
      by (cases "parseStreamManifest sz rd (o_source x)") (auto simp: shared_kept_def)
  qed
  have tx: "guards view old (\<lambda>_. True) (guarded_transaction N rd displayName m cnmt (new_transfer ps k))"
    if "plan_ok old ps" for m cnmt ps k
    unfolding guarded_transaction_def
    by (intro guards_then invar_intros guards_run_transaction guards_recover assms) (simp_all add: new_transfer_def that)
  show ?thesis
    unfolding installNspStreamToSdTransactional_def
    by (intro guards_then guards_recover assms invar_cases invar_return invar_peek TrueI
        invar_bind [OF parse] invar_bind [OF guards_prepare [OF assms]] tx) auto
qed

section \<open>Across restarts\<close>

text \<open>
  What can happen to a device: an installation of any package, a recovery, and a restart, which ends
  a loss of power; the meta database then holds what was committed, and the schedule of faults and
  the stream are new.
\<close>

inductive sessions :: "'s ncm \<Rightarrow> ('s \<Rightarrow> ncm_view) \<Rightarrow> ('s, 'r) device \<Rightarrow> ('s, 'r) device \<Rightarrow> bool"
  for N :: "'s ncm" and view :: "'s \<Rightarrow> ncm_view" and d :: "('s, 'r) device" where
  start: "sessions N view d d"
| install: "sessions N view d e \<Longrightarrow>
    sessions N view d (snd (run_state (installNspStreamToSdTransactional N rd displayName sz) e))"
| recover: "sessions N view d e \<Longrightarrow> sessions N view d (snd (run_state (recoverStaleRealInstall N) e))"
| restart: "sessions N view d e \<Longrightarrow> jfiles e' = jfiles e \<Longrightarrow> contents (view (svc e')) = contents (view (svc e)) \<Longrightarrow>
    holders (view (svc e')) = holders (view (svc e)) \<Longrightarrow> committed (view (svc e')) = committed (view (svc e)) \<Longrightarrow>
    metas (view (svc e')) = committed (view (svc e)) \<Longrightarrow> sessions N view d e'"

lemma sessions_shared:
  assumes "sessions N view d e" and "ncm_contract N view" and "shared_kept old (obs view d)"
  shows "shared_kept old (obs view e)"
  using assms(1)
proof induction
  case start
  show ?case by (rule assms(3))
next
  case (install e rd displayName sz)
  then show ?case using guards_install [OF assms(2), of old rd displayName sz] by (simp add: invar_def)
next
  case (recover e)
  then show ?case using guards_recover [OF assms(2), unfolded invar_def, rule_format, OF recover.IH] by simp
next
  case (restart e e')
  then show ?case by (simp add: shared_kept_def obs_def)
qed

end
