(* ===== verification/Install_Recovery.thy ===== *)
theory Install_Recovery
  imports Shared_Contents
begin

text \<open>
  What the journal is for. \<open>tracked\<close> says that a journal covers everything the transaction has
  changed so far, up to one leaked object: a recovery then brings the services back to the state
  \<open>old\<close> before the transaction. The installer keeps this up at every step, so a loss of power at any
  point is repaired by the next recovery, or finds the title completely installed.
\<close>

section \<open>Programs that are switched off\<close>

named_theorems still_intros

lemma still_bind [still_intros]: "still m \<Longrightarrow> (\<And>a. still (f a)) \<Longrightarrow> still (State_Monad.bind m f)"
  by (simp add: still_def case_prod_beta)

lemma still_basic [still_intros]:
  "still (State_Monad.return a)" "still (call g)" "still (file_op h e)" "still (peek k)" "still interrupted" "still (feed l)"
  by (auto simp: still_def call_def file_op_def peek_def interrupted_def feed_def split: prod.splits list.splits)

lemma still_cases [still_intros]:
  "still p \<Longrightarrow> still q \<Longrightarrow> still (if b then p else q)"
  "still p \<Longrightarrow> (\<And>y. still (g y)) \<Longrightarrow> still (case a of None \<Rightarrow> p | Some y \<Rightarrow> g y)"
  "(\<And>y z. still (h y z)) \<Longrightarrow> still (case c of (y, z) \<Rightarrow> h y z)"
  "(\<And>y. still (k y)) \<Longrightarrow> (\<And>y. still (l y)) \<Longrightarrow> still (case e of Inl y \<Rightarrow> k y | Inr y \<Rightarrow> l y)"
  "still p \<Longrightarrow> (\<And>y ys. still (m y ys)) \<Longrightarrow> still (case xs of [] \<Rightarrow> p | y # ys \<Rightarrow> m y ys)"
  "still p \<Longrightarrow> still q \<Longrightarrow> still (case b of True \<Rightarrow> p | False \<Rightarrow> q)"
  by (auto split: option.splits prod.splits sum.splits list.splits bool.splits)

lemma still_journal [still_intros]:
  "still (saveJournal p a k ps ms rp ti st)" "still removeJournal" "still (clear_journal s t)"
  unfolding saveJournal_def removeJournal_def clear_journal_def fs_remove_def fs_rename_def fs_truncate_def fs_write_def
  by (intro still_intros)+

lemma still_undo [still_intros]: "still (undo_contents N xs)" "still (undo_content N x)" "still (undo_meta N j)"
  unfolding undo_meta_def by (induction xs) (auto simp: undo_content_def Let_def intro!: still_intros)

lemma still_recover [still_intros]: "still (NcmContext_open N)" "still (recoverStaleRealInstall N)"
  unfolding recoverStaleRealInstall_def recover_journal_def recover_probe_def recover_cnmt_def recover_install_def
    NcmContext_open_def
  by (intro still_intros)+

lemma still_consumeBytes [still_intros]:
  assumes "\<And>io l. still (sink io l)"
  shows "still (consumeBytes rd sink stage remaining acc off)"
proof (induction remaining arbitrary: acc off rule: less_induct)
  case (less remaining)
  show ?case
    unfolding consumeBytes.simps [of rd sink stage remaining acc off] Let_def
    by (cases "remaining = 0") (auto intro!: still_intros assms less simp: COPY_BUFFER_SIZE_def)
qed

lemma still_receive [still_intros]:
  "still (skip rd stage n t)" "still (receive_content N rd dn e i t)" "still (receive_entry N rd dn e t)"
proof -
  show a: "still (skip rd stage n t)" for stage n t unfolding skip_def no_sink_def by (intro still_intros)
  show b: "still (receive_content N rd dn e i t)" for t i
    unfolding receive_content_def holder_sink_def Let_def by (intro still_intros)
  show "still (receive_entry N rd dn e t)"
    unfolding receive_entry_def receive_aux_def no_sink_def Let_def by (intro still_intros a b)
qed

lemma still_receive_entries [still_intros]: "still (receive_entries N rd dn es t)"
  by (induction es arbitrary: t) (auto intro!: still_intros)

lemma still_cnmt [still_intros]: "still (cnmt_contents N off k acc)" "still (cnmt_read N off n)"
  by (induction k arbitrary: off acc) (auto simp: cnmt_read_def Let_def intro!: still_intros)

lemma still_title [still_intros]:
  "still (parseInstalledMeta N e)" "still (validateStreamMetaAgainstInstalled N meta)" "still (find_rights N ps)"
  "still (check_space N z)" "still (make_plan N es ps z)"
proof -
  show "still (find_rights N ps)" by (induction ps) (auto intro!: still_intros)
  show "still (make_plan N es ps z)" by (induction es arbitrary: ps z) (auto intro!: still_intros)
  show "still (check_space N z)" unfolding check_space_def Let_def by (intro still_intros)
qed (unfold parseInstalledMeta_def cnmt_file_def cnmt_body_def validateStreamMetaAgainstInstalled_def base_installed_def
    check_versions_def latest_of_user_def latest_of_def streamCurrentFirmwarePacked_def Let_def, (intro still_intros)+)

lemma still_complete [still_intros]:
  "still (push_records N dn meta key t ticket)" "still (install_ticket N dn app key t)"
  "still (complete_title N dn cnmt meta key t)"
  unfolding complete_title_def install_ticket_def push_records_def importTicket_def listApplicationRecords_def
    pushApplicationRecord_def Let_def
  by (intro still_intros)+

lemma still_run [still_intros]:
  "still (run_transaction N rd dn m cnmt t)" "still (guarded_transaction N rd dn m cnmt t)" "still (prepare_transaction N m)"
  unfolding guarded_transaction_def run_transaction_def prepare_transaction_def by (intro still_intros)+

section \<open>Programs that change nothing\<close>

text \<open>Neither the services nor the files of the journal.\<close>

definition inert :: "('s \<Rightarrow> ncm_view) \<Rightarrow> ('s, 'r, 'a) iprog \<Rightarrow> bool" where
  "inert view p = (\<forall>M A. itriple M view (\<lambda>x. A (o_files x) (o_ncm x)) (\<lambda>x. A (o_files x) (o_ncm x)) p
     (\<lambda>_ x. A (o_files x) (o_ncm x)))"

named_theorems inert_intros

lemma inert_bind [inert_intros]:
  "inert view m \<Longrightarrow> (\<And>a. inert view (f a)) \<Longrightarrow> inert view (State_Monad.bind m f)"
  unfolding inert_def by (blast intro: itriple_bind)

lemma inert_cases [inert_intros]:
  "inert view p \<Longrightarrow> inert view q \<Longrightarrow> inert view (if b then p else q)"
  "inert view p \<Longrightarrow> (\<And>y. inert view (g y)) \<Longrightarrow> inert view (case a of None \<Rightarrow> p | Some y \<Rightarrow> g y)"
  "(\<And>y z. inert view (h y z)) \<Longrightarrow> inert view (case c of (y, z) \<Rightarrow> h y z)"
  "(\<And>y. inert view (k y)) \<Longrightarrow> (\<And>y. inert view (l y)) \<Longrightarrow> inert view (case e of Inl y \<Rightarrow> k y | Inr y \<Rightarrow> l y)"
  "inert view p \<Longrightarrow> (\<And>y ys. inert view (m y ys)) \<Longrightarrow> inert view (case xs of [] \<Rightarrow> p | y # ys \<Rightarrow> m y ys)"
  by (auto split: option.splits prod.splits sum.splits list.splits)

lemma inert_return [inert_intros]: "inert view (State_Monad.return a)"
  unfolding inert_def by (auto intro: itriple_return)

lemma inert_ask: "asks view f \<Longrightarrow> inert view (call f)"
  unfolding inert_def by (auto intro: itriple_ask)

lemma inert_feed [inert_intros]: "inert view (feed f)" "inert view interrupted"
  unfolding inert_def by (auto intro: itriple_feed itriple_interrupted)

lemma inert_triple:
  assumes "inert view p" and "\<And>x. P x = A (o_files x) (o_ncm x)" and "\<And>x. P x \<Longrightarrow> C x"
  shows "itriple M view C P p (\<lambda>_. P)"
  using assms(1) [unfolded inert_def, rule_format, of M A] assms(2,3)
  by (auto intro: itriple_weaken)

text \<open>A inert program, then the rest.\<close>

lemma itriple_inert:
  assumes "inert view m" and "\<And>x. P x = A (o_files x) (o_ncm x)" and "\<And>x. P x \<Longrightarrow> C x"
    and "\<And>a. itriple M view C P (f a) Q"
  shows "itriple M view C P (State_Monad.bind m f) Q"
  by (rule itriple_bind [where R = "\<lambda>_. P"])
    (use inert_triple [OF assms(1), of P A C M] assms(2,3,4) in blast)+

lemma inert_consumeBytes [inert_intros]:
  assumes "\<And>io l. inert view (sink io l)"
  shows "inert view (consumeBytes rd sink stage remaining acc off)"
proof (induction remaining arbitrary: acc off rule: less_induct)
  case (less remaining)
  show ?case
    unfolding consumeBytes.simps [of rd sink stage remaining acc off] Let_def
    by (cases "remaining = 0") (auto intro!: inert_intros assms less simp: COPY_BUFFER_SIZE_def)
qed

lemma inert_skip [inert_intros]: "inert view (skip rd stage n t)" "inert view (receive_aux rd e t)"
  unfolding skip_def receive_aux_def no_sink_def Let_def by (intro inert_intros)+

lemma inert_asks:
  assumes "ncm_contract N view"
  shows "inert view (cnmt_read N off n)" "inert view (cnmt_contents N off k acc)" "inert view (parseInstalledMeta N e)"
    "inert view (find_rights N ps)" "inert view (check_space N z)" "inert view (make_plan N es ps z)"
    "inert view (NcmContext_open N)" "inert view (importTicket N tik cert)" "inert view (listApplicationRecords N app)"
proof -
  note ask = contractD [OF assms, THEN inert_ask]
  show read: "inert view (cnmt_read N off n)" for off n unfolding cnmt_read_def by (intro inert_intros ask)
  show contents: "inert view (cnmt_contents N off k acc)" for off k acc
    by (induction k arbitrary: off acc) (auto simp: Let_def intro!: inert_intros read)
  show "inert view (parseInstalledMeta N e)"
    unfolding parseInstalledMeta_def cnmt_file_def cnmt_body_def Let_def by (intro inert_intros ask read contents)
  show "inert view (find_rights N ps)" by (induction ps) (auto intro!: inert_intros ask)
  show "inert view (check_space N z)" unfolding check_space_def Let_def by (intro inert_intros ask)
  show "inert view (make_plan N es ps z)" by (induction es arbitrary: ps z) (auto intro!: inert_intros ask)
  show "inert view (NcmContext_open N)" "inert view (importTicket N tik cert)" "inert view (listApplicationRecords N app)"
    unfolding NcmContext_open_def importTicket_def listApplicationRecords_def by (intro inert_intros ask)+
qed

section \<open>The journal on the card\<close>

text \<open>Predicates on the active journal and the services.\<close>

definition on_card :: "(json option option \<Rightarrow> ncm_view \<Rightarrow> bool) \<Rightarrow> 'r obs \<Rightarrow> bool" where
  "on_card A x = A (o_files x Active) (o_ncm x)"

lemma on_card_mono: "on_card A x \<Longrightarrow> (\<And>a v. A a v \<Longrightarrow> B a v) \<Longrightarrow> on_card B x"
  by (simp add: on_card_def)

lemma on_card_inert:
  assumes "inert view m" and "\<And>a v. A a v \<Longrightarrow> C a v" and "\<And>a. itriple M view (on_card C) (on_card A) (f a) Q"
  shows "itriple M view (on_card C) (on_card A) (State_Monad.bind m f) Q"
  by (rule itriple_inert [OF assms(1), where A = "\<lambda>fs. A (fs Active)"]) (auto simp: on_card_def assms(2,3))

lemma on_card_does:
  assumes "does view f ok" and "\<And>a v. A a v \<Longrightarrow> C a v" and "\<And>a v v'. A a v \<Longrightarrow> ok v v' \<Longrightarrow> C a v'"
    and "itriple M view (on_card C) (on_card (\<lambda>a v'. \<exists>v. A a v \<and> ok v v')) (g 0) Q"
    and "\<And>rc. \<not> succeeded rc \<Longrightarrow> itriple M view (on_card C) (on_card A) (g rc) Q"
  shows "itriple M view (on_card C) (on_card A) (State_Monad.bind (call f) g) Q"
proof (rule itriple_bind)
  show "itriple M view (on_card C) (on_card A) (call f)
      (\<lambda>rc x. if succeeded rc then on_card (\<lambda>a v'. \<exists>v. A a v \<and> ok v v') x else on_card A x)"
    by (rule itriple_does [OF assms(1)]) (auto simp: on_card_def assms(2,3))
  show "itriple M view (on_card C)
      (\<lambda>x. if succeeded rc then on_card (\<lambda>a v'. \<exists>v. A a v \<and> ok v v') x else on_card A x) (g rc) Q" for rc
    using assms(4,5) by (cases "succeeded rc") simp_all
qed

lemma triple_save:
  fixes p a k ps ms rp ti st
  defines "doc \<equiv> journal_json p a k ps ms rp ti st"
  assumes "\<And>a v. A a v \<Longrightarrow> C a v" and "\<And>a v. A a v \<Longrightarrow> C (Some (Some doc)) v"
  shows "itriple True view (on_card C) (on_card A) (saveJournal p a k ps ms rp ti st)
    (\<lambda>_. on_card (\<lambda>a v. a = Some (Some doc) \<and> (\<exists>b. A b v)))"
  unfolding saveJournal_def doc_def [symmetric]
proof (rule itriple_bind [where R = "\<lambda>_ x. o_dir x \<and> on_card A x"], goal_cases)
  case 1
  show ?case
    by (rule itriple_file [where g = "\<lambda>b fs wd. (True, fs, True)"]) (auto simp: on_card_def assms(2,3))
next
  case (2 u)
  show ?case
  proof (rule itriple_bind [where R = "\<lambda>out x. out \<and> o_files x Tmp = Some None \<and> on_card A x"], goal_cases)
    case 1
    show ?case
      unfolding fs_truncate_def
      by (rule itriple_file [where g = "\<lambda>b fs wd. if wd then (True, fs(Tmp := Some None), wd) else (False, fs, wd)"])
        (auto simp: on_card_def assms(2,3))
  next
    case (2 b)
    show ?case
    proof (rule itriple_pre)
      assume b: "b"
      show "itriple True view (on_card C) (\<lambda>x. o_files x Tmp = Some None \<and> on_card A x)
        (State_Monad.bind (if b then fs_write Tmp doc \<bind> (\<lambda>_. State_Monad.return ()) else State_Monad.return ())
          (\<lambda>_. fs_rename Tmp Active \<bind> (\<lambda>ok. if \<not> ok
            then fs_remove Active \<bind> (\<lambda>_. fs_rename Tmp Active \<bind> (\<lambda>_. State_Monad.return ()))
            else State_Monad.return ())))
        (\<lambda>_. on_card (\<lambda>a v. a = Some (Some doc) \<and> (\<exists>b. A b v)))"
      proof (rule itriple_bind [where R = "\<lambda>_ x. o_files x Tmp = Some (Some doc) \<and> on_card A x"], goal_cases)
        case 1
        have w: "itriple True view (on_card C) (\<lambda>x. o_files x Tmp = Some None \<and> on_card A x) (fs_write Tmp doc)
            (\<lambda>_ x. o_files x Tmp = Some (Some doc) \<and> on_card A x)"
          unfolding fs_write_def
          by (rule itriple_file [where g = "\<lambda>b fs wd. (True, fs(Tmp := Some (Some doc)), wd)"])
            (auto simp: on_card_def assms(2,3))
        show ?case using b by (auto intro!: itriple_bind [OF w] itriple_return)
      next
        case (2 v)
        show ?case
        proof (rule itriple_bind [where R = "\<lambda>ok x. ok \<and> on_card (\<lambda>a v. a = Some (Some doc) \<and> (\<exists>b. A b v)) x"],
            goal_cases)
          case 1
          show ?case
            unfolding fs_rename_def
            by (rule itriple_file [where g = "\<lambda>b fs wd. if fs Tmp = None \<or> (fs Active \<noteq> None \<and> \<not> b) then (False, fs, wd)
                else (True, fs(Active := fs Tmp, Tmp := None), wd)"])
              (auto simp: on_card_def assms(2,3))
        next
          case (2 ok)
          show ?case
            by (rule itriple_pre)
              (auto simp: fs_remove_def fs_rename_def intro!: still_intros itriple_return)
        qed
      qed
    qed (auto simp: fs_write_def fs_remove_def fs_rename_def intro!: still_intros)
  qed
qed

lemma triple_remove:
  assumes "\<And>a v. A a v \<Longrightarrow> C a v" and "\<And>a v. A a v \<Longrightarrow> C None v"
  shows "itriple True view (on_card C) (on_card A) removeJournal
    (\<lambda>(ok, _) x. ok \<and> on_card (\<lambda>a v. a = None \<and> (\<exists>b. A b v)) x)"
proof -
  have rm: "itriple True view (on_card C) (on_card A) (fs_remove f) (\<lambda>_. on_card A)" if "f \<noteq> Active" for f
    unfolding fs_remove_def
    by (rule itriple_file [where g = "\<lambda>b fs wd. (True, fs(f := None), wd)"]) (use that in \<open>auto simp: on_card_def assms\<close>)
  have act: "itriple True view (on_card C) (on_card A) (fs_remove Active)
      (\<lambda>_. on_card (\<lambda>a v. a = None \<and> (\<exists>b. A b v)))"
    unfolding fs_remove_def
    by (rule itriple_file [where g = "\<lambda>b fs wd. (True, fs(Active := None), wd)"]) (auto simp: on_card_def assms)
  have gone: "itriple True view (on_card C) (on_card (\<lambda>a v. a = None \<and> (\<exists>b. A b v)))
      (peek (\<lambda>d. jfiles d Active = None)) (\<lambda>g x. g \<and> on_card (\<lambda>a v. a = None \<and> (\<exists>b. A b v)) x)"
    by (rule itriple_peek) (auto simp: on_card_def obs_def)
  show ?thesis
    unfolding removeJournal_def
    by (rule itriple_bind [OF rm], simp, rule itriple_bind [OF rm], simp, rule itriple_bind [OF act],
        rule itriple_bind [OF gone], rule itriple_pre)
      (auto intro!: still_intros itriple_return simp: fs_rename_def fs_remove_def)
qed

section \<open>What a journal covers\<close>

abbreviation cid :: "PlannedContent \<Rightarrow> content_id" where
  "cid p \<equiv> ci_content_id (pc_info p)"

text \<open>A content the recovery deletes, and a placeholder it deletes.\<close>

definition undoes_content :: "PlannedContent \<Rightarrow> bool" where
  "undoes_content p = (registered p \<and> \<not> preExisting p)"

definition undoes_holder :: "PlannedContent \<Rightarrow> bool" where
  "undoes_holder p = (\<not> undoes_content p \<and> placeholderCreated p)"

text \<open>
  \<open>L\<close> and \<open>H\<close> are contents and placeholders that the journal does not know of.
\<close>

definition plan_fit :: "ncm_view \<Rightarrow> PlannedContent list \<Rightarrow> bool" where
  "plan_fit old ps = (\<forall>p \<in> set ps. length (cid p) = 16 \<and> length (placeholder p) = 16 \<and>
     (undoes_content p \<longrightarrow> contents old (cid p) = None) \<and> (placeholderCreated p \<longrightarrow> holders old (placeholder p) = None))"

definition storage_tracked :: "ncm_view \<Rightarrow> PlannedContent list \<Rightarrow> content_id set \<Rightarrow> placeholder_id set \<Rightarrow> ncm_view \<Rightarrow> bool" where
  "storage_tracked old ps L H v =
    ((\<forall>c. contents old c \<noteq> None \<longrightarrow> contents v c = contents old c) \<and>
     (\<forall>h. holders old h \<noteq> None \<longrightarrow> holders v h = holders old h) \<and>
     (\<forall>c. contents old c = None \<longrightarrow> contents v c \<noteq> None \<longrightarrow> c \<in> L \<or> (\<exists>p \<in> set ps. undoes_content p \<and> cid p = c)) \<and>
     (\<forall>h. holders old h = None \<longrightarrow> holders v h \<noteq> None \<longrightarrow> h \<in> H \<or> (\<exists>p \<in> set ps. undoes_holder p \<and> placeholder p = h)))"

definition metas_tracked :: "ncm_view \<Rightarrow> meta_key \<Rightarrow> bool \<Rightarrow> ncm_view \<Rightarrow> bool" where
  "metas_tracked old key ms v =
    ((\<forall>k. k = key \<and> ms \<or> metas v k = metas old k \<and> committed v k = metas old k) \<and>
     (ms \<longrightarrow> metas old key = None \<and> k_padding key = 0))"

definition tracked :: "ncm_view \<Rightarrow> meta_key \<Rightarrow> PlannedContent list \<Rightarrow> bool \<Rightarrow> content_id set \<Rightarrow> placeholder_id set \<Rightarrow>
    ncm_view \<Rightarrow> bool" where
  "tracked old key ps ms L H v = (plan_fit old ps \<and> storage_tracked old ps L H v \<and> metas_tracked old key ms v)"

text \<open>The services are as before, up to the leaked objects.\<close>

definition restored_upto :: "ncm_view \<Rightarrow> content_id set \<Rightarrow> placeholder_id set \<Rightarrow> ncm_view \<Rightarrow> bool" where
  "restored_upto old L H v = (contents old \<subseteq>\<^sub>m contents v \<and> (\<forall>c. c \<notin> L \<longrightarrow> contents v c = contents old c) \<and>
     holders old \<subseteq>\<^sub>m holders v \<and> (\<forall>h. h \<notin> H \<longrightarrow> holders v h = holders old h) \<and>
     metas v = metas old \<and> committed v = metas old)"

definition final_stage :: "string \<Rightarrow> bool" where
  "final_stage st = (st = ''application-record'' \<or> st = ''complete'')"

definition repairable :: "ncm_view \<Rightarrow> content_id set \<Rightarrow> placeholder_id set \<Rightarrow> json option option \<Rightarrow> ncm_view \<Rightarrow> bool" where
  "repairable old L H a v =
    (if a = None then restored_upto old L H v
     else \<exists>p app key ps ms rp ti st. a = Some (Some (journal_json p app key ps ms rp ti st)) \<and> \<not> final_stage st \<and>
       tracked old key ps ms L H v)"

text \<open>The title is installed: its contents are there, its meta data committed, its record pushed.\<close>

definition title_installed :: "content_id set \<Rightarrow> ncm_view \<Rightarrow> bool" where
  "title_installed S v = ((\<forall>c \<in> S. contents v c \<noteq> None) \<and>
     (\<exists>key app. committed v key \<noteq> None \<and> metas v key = committed v key \<and> key \<in> r_key ` set (app_records v app)))"

definition install_done :: "content_id set \<Rightarrow> json option option \<Rightarrow> ncm_view \<Rightarrow> bool" where
  "install_done S a v = (title_installed S v \<and>
     (a = None \<or> (\<exists>p app key ps ms rp ti st. a = Some (Some (journal_json p app key ps ms rp ti st)) \<and> final_stage st)))"

section \<open>Recovery restores\<close>

text \<open>The calls the recovery makes succeed where there is something to delete.\<close>

definition ncm_reliable :: "'s ncm \<Rightarrow> ('s \<Rightarrow> ncm_view) \<Rightarrow> bool" where
  "ncm_reliable N view = (\<forall>s.
     succeeded (fst (n_initialize N s)) \<and> succeeded (fst (n_open_storage N s)) \<and> succeeded (fst (n_open_db N s)) \<and>
     (\<forall>c. succeeded (fst (fst (n_has N c s))) \<and> (contents (view s) c \<noteq> None \<longrightarrow> succeeded (fst (n_delete N c s)))) \<and>
     (\<forall>p. succeeded (fst (fst (n_has_placeholder N p s))) \<and>
        (holders (view s) p \<noteq> None \<longrightarrow> succeeded (fst (n_delete_placeholder N p s)))) \<and>
     (\<forall>k. metas (view s) k \<noteq> None \<longrightarrow> succeeded (fst (n_meta_remove N k s))) \<and> succeeded (fst (n_meta_commit N s)))"

lemma ucast_back: "ucast (ucast (x :: u32) :: u64) = x" "ucast (ucast (y :: u8) :: u64) = y"
  by (rule bit_word_eqI; simp add: bit_ucast_iff)+

lemma key_value_key_json:
  assumes "k_padding key = 0"
  shows "key_value (journal_json p a key ps ms rp ti st) = Some key"
proof -
  have "lookup ''meta_key'' (journal_json p a key ps ms rp ti st) = Some (Some (key_json key))"
    by (simp add: journal_json_def)
  moreover have "num_value ''id'' 0 (key_json key) = Some (k_id key)"
    "num_value ''version'' 0 (key_json key) = Some (ucast (k_version key))"
    "num_value ''type'' 0 (key_json key) = Some (ucast (k_type key))"
    "num_value ''install_type'' 0 (key_json key) = Some (ucast (k_install_type key))"
    by (simp_all add: key_json_def num_value_def)
  ultimately show ?thesis using assms by (simp add: key_value_def ucast_back)
qed

text \<open>What the calls of the recovery answer.\<close>

lemma recovery_calls:
  assumes "ncm_contract N view" and "ncm_reliable N view"
  shows "fst (n_has N c s) = (0, contents (view s) c \<noteq> None)"
    and "fst (n_has_placeholder N h s) = (0, holders (view s) h \<noteq> None)"
    and "contents (view s) c \<noteq> None \<Longrightarrow> fst (n_delete N c s) = 0 \<and>
      view (snd (n_delete N c s)) = (view s)\<lparr>contents := (contents (view s))(c := None)\<rparr>"
    and "holders (view s) h \<noteq> None \<Longrightarrow> fst (n_delete_placeholder N h s) = 0 \<and>
      view (snd (n_delete_placeholder N h s)) = (view s)\<lparr>holders := (holders (view s))(h := None)\<rparr>"
    and "metas (view s) k \<noteq> None \<Longrightarrow> fst (n_meta_remove N k s) = 0 \<and>
      view (snd (n_meta_remove N k s)) = (view s)\<lparr>metas := (metas (view s))(k := None)\<rparr>"
    and "fst (n_meta_commit N s) = 0 \<and> view (snd (n_meta_commit N s)) = (view s)\<lparr>committed := metas (view s)\<rparr>"
    and "fst (n_initialize N s) = 0" "fst (n_open_storage N s) = 0" "fst (n_open_db N s) = 0"
proof -
  note rel = assms(2) [unfolded ncm_reliable_def, THEN spec, of s]
  note ans = assms(1) [unfolded ncm_contract_def ncm_answers_def, THEN conjunct2, THEN conjunct1, THEN spec, of s]
  have ok: "succeeded (fst (fst (n_has N c s)))" "succeeded (fst (fst (n_has_placeholder N h s)))"
    "contents (view s) c \<noteq> None \<Longrightarrow> succeeded (fst (n_delete N c s))"
    "holders (view s) h \<noteq> None \<Longrightarrow> succeeded (fst (n_delete_placeholder N h s))"
    "metas (view s) k \<noteq> None \<Longrightarrow> succeeded (fst (n_meta_remove N k s))" "succeeded (fst (n_meta_commit N s))"
    using rel by blast+
  have "snd (fst (n_has N c s)) = (contents (view s) c \<noteq> None)" using ans ok(1) by blast
  then show "fst (n_has N c s) = (0, contents (view s) c \<noteq> None)" using ok(1) by (simp add: prod_eq_iff)
  have "snd (fst (n_has_placeholder N h s)) = (holders (view s) h \<noteq> None)" using ans ok(2) by blast
  then show "fst (n_has_placeholder N h s) = (0, holders (view s) h \<noteq> None)" using ok(2) by (simp add: prod_eq_iff)
  note eff = contract_effects [OF assms(1), unfolded does_def, THEN spec]
  show "contents (view s) c \<noteq> None \<Longrightarrow> fst (n_delete N c s) = 0 \<and>
      view (snd (n_delete N c s)) = (view s)\<lparr>contents := (contents (view s))(c := None)\<rparr>"
    using ok(3) eff(4) [of c s] by simp
  show "holders (view s) h \<noteq> None \<Longrightarrow> fst (n_delete_placeholder N h s) = 0 \<and>
      view (snd (n_delete_placeholder N h s)) = (view s)\<lparr>holders := (holders (view s))(h := None)\<rparr>"
    using ok(4) eff(5) [of h s] by simp
  show "metas (view s) k \<noteq> None \<Longrightarrow> fst (n_meta_remove N k s) = 0 \<and>
      view (snd (n_meta_remove N k s)) = (view s)\<lparr>metas := (metas (view s))(k := None)\<rparr>"
    using ok(5) eff(7) [of k s] by simp
  show "fst (n_meta_commit N s) = 0 \<and> view (snd (n_meta_commit N s)) = (view s)\<lparr>committed := metas (view s)\<rparr>"
    using ok(6) eff(8) [of s] by simp
  show "fst (n_initialize N s) = 0" "fst (n_open_storage N s) = 0" "fst (n_open_db N s) = 0" using rel by blast+
qed

text \<open>Deleting what the entry \<open>p\<close> of a plan stands for.\<close>

definition drop_content :: "content_id \<Rightarrow> ncm_view \<Rightarrow> ncm_view" where
  "drop_content c v = v\<lparr>contents := (contents v)(c := None)\<rparr>"

definition drop_holder :: "placeholder_id \<Rightarrow> ncm_view \<Rightarrow> ncm_view" where
  "drop_holder h v = v\<lparr>holders := (holders v)(h := None)\<rparr>"

definition without :: "PlannedContent \<Rightarrow> ncm_view \<Rightarrow> ncm_view" where
  "without p v = (if undoes_content p then drop_content (cid p) v
     else if undoes_holder p then drop_holder (placeholder p) v else v)"

lemma tracked_without: "tracked old key ps ms L H v \<Longrightarrow> p \<in> set ps \<Longrightarrow> tracked old key ps ms L H (without p v)"
  unfolding tracked_def plan_fit_def storage_tracked_def metas_tracked_def without_def undoes_holder_def drop_content_def
    drop_holder_def
  by (auto split: if_splits)

lemma drop_idle: "contents v c = None \<Longrightarrow> drop_content c v = v" "holders v h = None \<Longrightarrow> drop_holder h v = v"
  by (cases v; simp add: drop_content_def drop_holder_def fun_upd_idem)+

lemma triple_purge:
  assumes N: "ncm_contract N view" "ncm_reliable N view"
    and A: "\<And>v. A v \<Longrightarrow> C v \<and> C (drop_content c v)"
  shows "itriple M view (on_card (\<lambda>a v. a = j \<and> C v)) (on_card (\<lambda>a v. a = j \<and> A v))
    (do {
       (rc, exists) \<leftarrow> call (n_has N c);
       (if succeeded rc \<and> exists then call (n_delete N c) else State_Monad.return 0);
       State_Monad.return True
     })
    (\<lambda>ok x. ok \<and> on_card (\<lambda>a v. a = j \<and> (\<exists>u. A u \<and> v = drop_content c u)) x)"
proof (rule itriple_bind [where R = "\<lambda>(rc, e). on_card (\<lambda>a v. a = j \<and> A v \<and> rc = 0 \<and> e = (contents v c \<noteq> None))"], goal_cases)
  case 1
  show ?case
    by (rule itriple_ask [OF contractD(5) [OF N(1)]]) (use A in \<open>auto simp: on_card_def recovery_calls [OF N]\<close>)
next
  case (2 r)
  show ?case
  proof (cases r)
    case (Pair rc e)
    have del: "itriple M view (on_card (\<lambda>a v. a = j \<and> C v)) (on_card (\<lambda>a v. a = j \<and> A v \<and> rc = 0 \<and> e = (contents v c \<noteq> None)))
        (if succeeded rc \<and> e then call (n_delete N c) else State_Monad.return 0)
        (\<lambda>_. on_card (\<lambda>a v. a = j \<and> (\<exists>u. A u \<and> v = drop_content c u)))"
    proof (intro itriple_if itriple_call itriple_return)
      fix s and x :: "'c obs"
      assume "succeeded rc \<and> e" "o_ncm x = view s" "on_card (\<lambda>a v. a = j \<and> A v \<and> rc = 0 \<and> e = (contents v c \<noteq> None)) x"
      then show "on_card (\<lambda>a v. a = j \<and> C v) x \<and>
          on_card (\<lambda>a v. a = j \<and> C v) (x\<lparr>o_ncm := view (snd (n_delete N c s))\<rparr>) \<and>
          on_card (\<lambda>a v. a = j \<and> (\<exists>u. A u \<and> v = drop_content c u)) (x\<lparr>o_ncm := view (snd (n_delete N c s))\<rparr>)"
        using A recovery_calls(3) [OF N, of s c] by (auto simp: on_card_def drop_content_def)
    next
      fix x :: "'c obs"
      assume "\<not> (succeeded rc \<and> e)" "on_card (\<lambda>a v. a = j \<and> A v \<and> rc = 0 \<and> e = (contents v c \<noteq> None)) x"
      then show "on_card (\<lambda>a v. a = j \<and> (\<exists>u. A u \<and> v = drop_content c u)) x"
        using drop_idle(1) [of "o_ncm x" c] by (fastforce simp: on_card_def)
    qed
    show ?thesis unfolding Pair prod.case by (rule itriple_bind [OF del], rule itriple_return, simp)
  qed
qed

lemma triple_purge_holder:
  assumes N: "ncm_contract N view" "ncm_reliable N view"
    and A: "\<And>v. A v \<Longrightarrow> C v \<and> C (drop_holder h v)"
  shows "itriple M view (on_card (\<lambda>a v. a = j \<and> C v)) (on_card (\<lambda>a v. a = j \<and> A v))
    (do {
       (rc, exists) \<leftarrow> call (n_has_placeholder N h);
       (if succeeded rc \<and> exists then call (n_delete_placeholder N h) else State_Monad.return 0);
       State_Monad.return True
     })
    (\<lambda>ok x. ok \<and> on_card (\<lambda>a v. a = j \<and> (\<exists>u. A u \<and> v = drop_holder h u)) x)"
proof (rule itriple_bind [where R = "\<lambda>(rc, e). on_card (\<lambda>a v. a = j \<and> A v \<and> rc = 0 \<and> e = (holders v h \<noteq> None))"], goal_cases)
  case 1
  show ?case
    by (rule itriple_ask [OF contractD(6) [OF N(1)]]) (use A in \<open>auto simp: on_card_def recovery_calls [OF N]\<close>)
next
  case (2 r)
  show ?case
  proof (cases r)
    case (Pair rc e)
    have del: "itriple M view (on_card (\<lambda>a v. a = j \<and> C v)) (on_card (\<lambda>a v. a = j \<and> A v \<and> rc = 0 \<and> e = (holders v h \<noteq> None)))
        (if succeeded rc \<and> e then call (n_delete_placeholder N h) else State_Monad.return 0)
        (\<lambda>_. on_card (\<lambda>a v. a = j \<and> (\<exists>u. A u \<and> v = drop_holder h u)))"
    proof (intro itriple_if itriple_call itriple_return)
      fix s and x :: "'c obs"
      assume "succeeded rc \<and> e" "o_ncm x = view s" "on_card (\<lambda>a v. a = j \<and> A v \<and> rc = 0 \<and> e = (holders v h \<noteq> None)) x"
      then show "on_card (\<lambda>a v. a = j \<and> C v) x \<and>
          on_card (\<lambda>a v. a = j \<and> C v) (x\<lparr>o_ncm := view (snd (n_delete_placeholder N h s))\<rparr>) \<and>
          on_card (\<lambda>a v. a = j \<and> (\<exists>u. A u \<and> v = drop_holder h u)) (x\<lparr>o_ncm := view (snd (n_delete_placeholder N h s))\<rparr>)"
        using A recovery_calls(4) [OF N, of s h] by (auto simp: on_card_def drop_holder_def)
    next
      fix x :: "'c obs"
      assume "\<not> (succeeded rc \<and> e)" "on_card (\<lambda>a v. a = j \<and> A v \<and> rc = 0 \<and> e = (holders v h \<noteq> None)) x"
      then show "on_card (\<lambda>a v. a = j \<and> (\<exists>u. A u \<and> v = drop_holder h u)) x"
        using drop_idle(2) [of "o_ncm x" h] by (fastforce simp: on_card_def)
    qed
    show ?thesis unfolding Pair prod.case by (rule itriple_bind [OF del], rule itriple_return, simp)
  qed
qed

lemma triple_undo_content:
  assumes N: "ncm_contract N view" "ncm_reliable N view" and p: "length (cid p) = 16" "length (placeholder p) = 16"
    and A: "\<And>v. A v \<Longrightarrow> C v \<and> C (without p v)"
  shows "itriple M view (on_card (\<lambda>a v. a = j \<and> C v)) (on_card (\<lambda>a v. a = j \<and> A v)) (undo_content N (content_json p))
    (\<lambda>ok x. ok \<and> on_card (\<lambda>a v. a = j \<and> (\<exists>u. A u \<and> v = without p u)) x)"
proof -
  have hex: "fromHex (bytesToHex (cid p)) 16 = cid p" "fromHex (bytesToHex (placeholder p)) 16 = placeholder p"
    using p by (simp_all add: fromHex_bytesToHex)
  consider (c) "undoes_content p" | (h) "undoes_holder p" | (n) "\<not> undoes_content p" "\<not> undoes_holder p" by blast
  then show ?thesis
  proof cases
    case c
    then have w: "without p = drop_content (cid p)" by (simp add: without_def fun_eq_iff)
    show ?thesis
      using triple_purge [OF N, of A C "cid p" M j] A c by (simp add: undo_content_def hex undoes_content_def w Let_def)
  next
    case h
    then have w: "without p = drop_holder (placeholder p)" by (simp add: without_def fun_eq_iff undoes_holder_def)
    show ?thesis
      using triple_purge_holder [OF N, of A C "placeholder p" M j] A h
      by (auto simp: undo_content_def hex undoes_content_def undoes_holder_def w Let_def)
  next
    case n
    then have "without p = (\<lambda>v. v)" by (simp add: without_def fun_eq_iff)
    then show ?thesis
      using n by (auto simp: undo_content_def hex undoes_content_def undoes_holder_def on_card_def Let_def intro!: itriple_return)
  qed
qed

text \<open>The loop: afterwards every entry has been undone.\<close>

definition gone :: "PlannedContent list \<Rightarrow> ncm_view \<Rightarrow> bool" where
  "gone ps v = (\<forall>p \<in> set ps. (undoes_content p \<longrightarrow> contents v (cid p) = None) \<and>
     (undoes_holder p \<longrightarrow> holders v (placeholder p) = None))"

lemma gone_without: "gone ps v \<Longrightarrow> gone ps (without p v)" "gone [p] (without p v)"
  by (auto simp: gone_def without_def drop_content_def drop_holder_def undoes_holder_def)

lemma triple_undo_contents:
  assumes N: "ncm_contract N view" "ncm_reliable N view" and ps: "\<And>p. p \<in> set ps \<Longrightarrow> length (cid p) = 16 \<and> length (placeholder p) = 16"
    and A: "\<And>v p. A v \<Longrightarrow> p \<in> set ps \<Longrightarrow> A (without p v)"
  shows "set qs \<subseteq> set ps \<Longrightarrow> itriple M view (on_card (\<lambda>a v. a = j \<and> A v)) (on_card (\<lambda>a v. a = j \<and> A v \<and> gone rs v))
    (undo_contents N (map content_json qs)) (\<lambda>ok x. ok \<and> on_card (\<lambda>a v. a = j \<and> A v \<and> gone (rs @ qs) v) x)"
proof (induction qs arbitrary: rs)
  case (Cons p qs)
  have next_gone: "A (without p u) \<and> gone (rs @ [p]) (without p u)" if "A u" "gone rs u" for u
    using that A Cons.prems gone_without(1) [of rs u p] gone_without(2) [of p u] by (auto simp: gone_def)
  have step: "itriple M view (on_card (\<lambda>a v. a = j \<and> A v)) (on_card (\<lambda>a v. a = j \<and> A v \<and> gone rs v))
      (undo_content N (content_json p)) (\<lambda>ok x. ok \<and> on_card (\<lambda>a v. a = j \<and> A v \<and> gone (rs @ [p]) v) x)"
    by (rule itriple_weaken [OF triple_undo_content [OF N, of p "\<lambda>v. A v \<and> gone rs v" A M j]])
      (use ps A Cons.prems next_gone in \<open>auto simp: on_card_def\<close>)
  show ?case
    unfolding list.map undo_contents.simps
    by (rule itriple_bind [OF step], rule itriple_pre)
      (use Cons.IH [of "rs @ [p]"] Cons.prems in \<open>auto intro!: still_intros\<close>)
qed (auto intro: itriple_return)

section \<open>The whole recovery\<close>

lemma triple_open:
  assumes N: "ncm_contract N view" "ncm_reliable N view" and "\<And>a v. A a v \<Longrightarrow> C a v"
  shows "itriple M view (on_card C) (on_card A) (NcmContext_open N) (\<lambda>d x. diag_ok d \<and> on_card A x)"
proof -
  have ask: "itriple M view (on_card C) (on_card A) (call f) (\<lambda>rc x. rc = 0 \<and> on_card A x)"
    if "asks view f" "\<And>s. fst (f s) = 0" for f
    by (rule itriple_ask [OF that(1)]) (auto simp: on_card_def assms(3) that(2))
  note calls = ask [OF contractD(1) [OF N(1)] recovery_calls(7) [OF N]]
    ask [OF contractD(2) [OF N(1)] recovery_calls(8) [OF N]] ask [OF contractD(3) [OF N(1)] recovery_calls(9) [OF N]]
  show ?thesis
    unfolding NcmContext_open_def
    by (rule itriple_bind [OF calls(1)], rule itriple_pre, (intro still_intros)[1], simp,
        rule itriple_bind [OF calls(2)], rule itriple_pre, (intro still_intros)[1], simp,
        rule itriple_bind [OF calls(3)], rule itriple_return, simp add: diag_ok_def)
qed

lemma triple_clear:
  assumes "\<And>a v. A a v \<Longrightarrow> C a v \<and> C None v"
  shows "itriple True view (on_card C) (on_card A) (clear_journal s t)
    (\<lambda>(ok, _) x. ok \<and> on_card (\<lambda>a v. a = None \<and> (\<exists>b. A b v)) x)"
proof -
  have rm: "itriple True view (on_card C) (on_card A) removeJournal
      (\<lambda>(ok, _) x. ok \<and> on_card (\<lambda>a v. a = None \<and> (\<exists>b. A b v)) x)"
    by (rule triple_remove) (auto simp: assms)
  show ?thesis
    unfolding clear_journal_def by (rule itriple_bind [OF rm]) (auto intro!: itriple_return split: prod.splits)
qed

text \<open>The meta data is as before.\<close>

definition metas_back :: "ncm_view \<Rightarrow> ncm_view \<Rightarrow> bool" where
  "metas_back old v = (metas v = metas old \<and> committed v = metas old)"

lemma without_metas [simp]: "metas (without p v) = metas v" "committed (without p v) = committed v"
  by (simp_all add: without_def drop_content_def drop_holder_def)

lemma tracked_metas:
  "tracked old key ps True L H v \<Longrightarrow> tracked old key ps True L H (v\<lparr>metas := (metas v)(key := b)\<rparr>)"
  "tracked old key ps ms L H v \<Longrightarrow> (\<And>k. k \<noteq> key \<or> \<not> ms \<Longrightarrow> m k = metas old k) \<Longrightarrow>
    tracked old key ps ms L H (v\<lparr>committed := m\<rparr>)"
  by (auto simp: tracked_def storage_tracked_def metas_tracked_def)

lemma triple_undo_meta:
  fixes old key ps L H
  assumes N: "ncm_contract N view" "ncm_reliable N view"
  defines "T \<equiv> \<lambda>ms. tracked old key ps ms L H"
  shows "itriple M view (on_card (\<lambda>a v. a = j \<and> T ms v)) (on_card (\<lambda>a v. a = j \<and> T ms v))
    (undo_meta N (journal_json p app key ps ms rp ti st) :: ('s, 'r, bool) iprog) (\<lambda>ok x. ok \<and> on_card (\<lambda>a v. a = j \<and> T ms v \<and> metas_back old v) x)"
proof (cases ms)
  case False
  then show ?thesis
    by (auto simp: undo_meta_def on_card_def T_def tracked_def metas_tracked_def metas_back_def intro!: itriple_return)
next
  case True
  show ?thesis
  proof (cases "k_padding key = 0")
    case pad: True
    have rem: "itriple M view (on_card (\<lambda>a v. a = j \<and> T ms v)) (on_card (\<lambda>a v. a = j \<and> T ms v))
        (call (n_meta_remove N key) :: ('s, 'r, u32) iprog)
        (\<lambda>_. on_card (\<lambda>a v. a = j \<and> T ms v \<and> metas v = metas old))"
    proof (rule itriple_call)
      fix s and x :: "'r obs"
      assume x: "o_ncm x = view s" "on_card (\<lambda>a v. a = j \<and> T ms v) x"
      let ?v = "view (snd (n_meta_remove N key s))"
      have t: "T True (view s)" using x True by (simp add: on_card_def)
      then have k: "metas old key = None" "\<And>k. k \<noteq> key \<Longrightarrow> metas (view s) k = metas old k"
        by (auto simp: T_def tracked_def metas_tracked_def)
      have "T True ?v \<and> metas ?v = metas old"
      proof (cases "metas (view s) key = None")
        case True
        then have "?v = view s"
          using contract_effects(7) [OF N(1), of key, unfolded does_def, THEN spec, of s]
          by (cases "view s") (auto split: if_splits simp: fun_upd_idem)
        then show ?thesis using t k True by (metis ext)
      next
        case False
        then have "?v = (view s)\<lparr>metas := (metas (view s))(key := None)\<rparr>" using recovery_calls(5) [OF N] by blast
        then show ?thesis using t k tracked_metas(1) [of old key ps L H "view s" None] by (auto simp: T_def)
      qed
      then show "on_card (\<lambda>a v. a = j \<and> T ms v) x \<and> on_card (\<lambda>a v. a = j \<and> T ms v) (x\<lparr>o_ncm := ?v\<rparr>) \<and>
          on_card (\<lambda>a v. a = j \<and> T ms v \<and> metas v = metas old) (x\<lparr>o_ncm := ?v\<rparr>)"
        using x(2) True by (simp add: on_card_def)
    qed
    have com: "itriple M view (on_card (\<lambda>a v. a = j \<and> T ms v)) (on_card (\<lambda>a v. a = j \<and> T ms v \<and> metas v = metas old))
        (call (n_meta_commit N) :: ('s, 'r, u32) iprog) (\<lambda>_. on_card (\<lambda>a v. a = j \<and> T ms v \<and> metas_back old v))"
      by (rule itriple_call)
        (auto simp: on_card_def recovery_calls(6) [OF N] T_def metas_back_def intro!: tracked_metas(2))
    show ?thesis
    proof -
      have eq: "undo_meta N (journal_json p app key ps ms rp ti st) =
          do { call (n_meta_remove N key); call (n_meta_commit N); State_Monad.return True }"
        using True pad by (simp add: undo_meta_def key_value_key_json)
      show ?thesis
        unfolding eq by (rule itriple_bind [OF rem], rule itriple_bind [OF com], rule itriple_return) simp
    qed
  next
    case False
    have "\<not> T ms v" for v using False True by (simp add: T_def tracked_def metas_tracked_def)
    then show ?thesis
      by (auto simp: itriple_def on_card_def) (metis still_def still_undo(3))
  qed
qed

lemma tracked_restored:
  assumes "tracked old key ps ms L H v" and "gone ps v" and "metas_back old v"
  shows "restored_upto old L H v"
proof -
  note t = assms(1) [unfolded tracked_def storage_tracked_def]
  have c: "contents v c = contents old c" if "c \<notin> L" for c
  proof (cases "contents old c = None")
    case True
    then have "contents v c \<noteq> None \<longrightarrow> (\<exists>p \<in> set ps. undoes_content p \<and> cid p = c)" using t that by blast
    then show ?thesis using assms(2) True unfolding gone_def by metis
  next
    case False
    then show ?thesis using t by blast
  qed
  have h: "holders v h = holders old h" if "h \<notin> H" for h
  proof (cases "holders old h = None")
    case True
    then have "holders v h \<noteq> None \<longrightarrow> (\<exists>p \<in> set ps. undoes_holder p \<and> placeholder p = h)" using t that by blast
    then show ?thesis using assms(2) True unfolding gone_def by metis
  next
    case False
    then show ?thesis using t by blast
  qed
  have "contents old \<subseteq>\<^sub>m contents v" "holders old \<subseteq>\<^sub>m holders v"
    using t unfolding map_le_def dom_def by simp_all
  then show ?thesis using c h assms(3) by (simp add: restored_upto_def metas_back_def)
qed

lemma triple_recover_tracked:
  fixes old L H p app key ps ms rp ti st
  assumes N: "ncm_contract N view" "ncm_reliable N view" and st: "\<not> final_stage st"
  defines "doc \<equiv> journal_json p app key ps ms rp ti st"
  defines "P \<equiv> (\<lambda>a v. a = Some (Some doc) \<and> tracked old key ps ms L H v)"
  shows "itriple True view (on_card (repairable old L H)) (on_card P) (recover_install N doc)
    (\<lambda>(ok, _) x. ok \<and> on_card (\<lambda>a v. a = None \<and> restored_upto old L H v) x)"
proof -
  have rec: "repairable old L H a v" if "P a v" for a v
    using that st unfolding P_def doc_def repairable_def by simp blast
  have fit: "length (cid q) = 16 \<and> length (placeholder q) = 16" if "P a v" "q \<in> set ps" for a v q
    using that by (auto simp: P_def tracked_def plan_fit_def)
  have meta: "itriple True view (on_card (repairable old L H)) (on_card P) (undo_meta N doc)
      (\<lambda>ok x. ok \<and> on_card (\<lambda>a v. P a v \<and> metas_back old v) x)"
    unfolding doc_def
    by (rule itriple_weaken [OF triple_undo_meta [OF N, of True "Some (Some doc)" old key ps ms L H]])
      (auto simp: on_card_def P_def intro: rec [unfolded P_def])
  have loop: "itriple True view (on_card (repairable old L H)) (on_card (\<lambda>a v. P a v \<and> metas_back old v))
      (undo_contents N (contents_backwards doc)) (\<lambda>ok x. ok \<and> on_card (\<lambda>a v. P a v \<and> metas_back old v \<and> gone ps v) x)"
  proof (cases "\<exists>a v. P a v")
    case True
    let ?A = "\<lambda>v. tracked old key ps ms L H v \<and> metas_back old v"
    have "?A v \<Longrightarrow> q \<in> set ps \<Longrightarrow> ?A (without q v)" for v q
      using tracked_without [of old key ps ms L H v q] by (simp add: metas_back_def)
    note l = triple_undo_contents [OF N, of ps ?A "rev ps" True "Some (Some doc)" "[]", OF _ this]
    show ?thesis
      unfolding doc_def journal_json_values rev_map
      by (rule itriple_weaken [OF l])
        (use fit True in \<open>auto simp: on_card_def P_def gone_def intro: rec [unfolded P_def]\<close>)
  next
    case False
    then show ?thesis by (auto simp: itriple_def on_card_def) (metis still_def still_undo(1))
  qed
  have clear: "itriple True view (on_card (repairable old L H)) (on_card (\<lambda>a v. P a v \<and> metas_back old v \<and> gone ps v))
      (clear_journal s t) (\<lambda>(ok, _) x. ok \<and> on_card (\<lambda>a v. a = None \<and> restored_upto old L H v) x)" for s t
    by (rule itriple_weaken [OF triple_clear [where A = "\<lambda>a v. P a v \<and> metas_back old v \<and> gone ps v"]])
      (auto simp: on_card_def P_def repairable_def [of _ _ _ None] intro: rec [unfolded P_def] tracked_restored)
  note open_ok = triple_open [OF N, of P "repairable old L H" True, OF rec]
  have vals: "str_value ''stage'' [] doc = Some st" "\<not> (st = ''application-record'' \<or> st = ''complete'')"
    using st by (simp_all add: doc_def final_stage_def)
  show ?thesis
    unfolding recover_install_def vals(1) option.case if_not_P [OF vals(2)]
  proof (rule itriple_bind [OF open_ok], assumption, rule itriple_pre)
    fix d
    assume d: "diag_ok d"
    show "itriple True view (on_card (repairable old L H)) (on_card P)
      (if \<not> diag_ok d then State_Monad.return (False, technical d)
       else do {
         ok \<leftarrow> undo_meta N doc;
         ok \<leftarrow> (if ok then undo_contents N (contents_backwards doc) else State_Monad.return False);
         if \<not> ok then State_Monad.return (False, json_what N)
         else clear_journal ''Rollback completed, but '' ''Interrupted AIO install rolled back and journal cleared.''
       })
      (\<lambda>(ok, _) x. ok \<and> on_card (\<lambda>a v. a = None \<and> restored_upto old L H v) x)"
      using d
      by (simp, intro itriple_bind [OF meta] itriple_pre still_intros)
        (simp, rule itriple_bind [OF loop], rule itriple_pre, (intro still_intros)[1], simp add: clear)
  qed (intro still_intros)
qed

lemma journal_kind [simp]:
  "recover_journal N (journal_json p app key ps ms rp ti st) = recover_install N (journal_json p app key ps ms rp ti st)"
  by (simp add: recover_journal_def)

lemma still_recover_journal [still_intros]: "still (recover_journal N j)" "still (recover_install N j)"
  unfolding recover_journal_def recover_install_def recover_probe_def recover_cnmt_def by (intro still_intros)+

lemma itriple_False: "still p \<Longrightarrow> (\<And>x. \<not> P x) \<Longrightarrow> itriple M view C P p Q"
  by (simp add: itriple_def still_def)

text \<open>Reading the journal: what is on the card is what is recovered.\<close>

lemma triple_recover_from:
  assumes none: "\<And>v. A None v \<Longrightarrow> B None v" and C: "\<And>a v. A a v \<Longrightarrow> C a v"
    and some: "\<And>t. itriple True view (on_card C) (on_card (\<lambda>a v. a = Some t \<and> A a v))
      ((case t of None \<Rightarrow> State_Monad.return (False, json_what N) | Some j \<Rightarrow> recover_journal N j) :: ('s, 'r, bool \<times> string) iprog)
      (\<lambda>(ok, _) x. ok \<and> on_card B x)"
  shows "itriple True view (on_card C) (on_card A) (recoverStaleRealInstall N :: ('s, 'r, bool \<times> string) iprog) (\<lambda>(ok, _) x. ok \<and> on_card B x)"
  unfolding recoverStaleRealInstall_def
proof (rule itriple_bind [where R = "\<lambda>t. on_card (\<lambda>a v. a = t \<and> A a v)"], goal_cases)
  case 1
  show ?case by (rule itriple_peek) (simp add: on_card_def obs_def)
next
  case (2 t)
  show ?case
  proof (cases t)
    case None
    then show ?thesis by (auto simp: on_card_def intro!: itriple_return none)
  next
    case (Some u)
    have opened: "itriple True view (on_card C) (on_card (\<lambda>a v. a = Some u \<and> A a v))
        (file_op (\<lambda>d. (True, jfiles d, work_dir d)) False :: ('s, 'r, bool) iprog) (\<lambda>ok x. ok \<and> on_card (\<lambda>a v. a = Some u \<and> A a v) x)"
      by (rule itriple_file [where g = "\<lambda>b fs wd. (True, fs, wd)"]) (auto simp: on_card_def C)
    have s: "still ((case u of None \<Rightarrow> State_Monad.return (False, json_what N)
        | Some j \<Rightarrow> recover_journal N j) :: ('s, 'r, bool \<times> string) iprog)"
      by (intro still_intros)
    show ?thesis
      unfolding Some option.case
      by (rule itriple_bind [OF opened], rule itriple_pre) (use some [of u] s in \<open>auto intro!: still_intros\<close>)
  qed
qed

text \<open>A journal of the installer on the card, in a form the rules can take apart.\<close>

lemma triple_journal_cases:
  assumes R: "\<And>v. R (Some t) v \<Longrightarrow> \<exists>p app key ps ms rp ti st. t = Some (journal_json p app key ps ms rp ti st) \<and>
      W st \<and> T key ps ms v"
    and rec: "\<And>p app key ps ms rp ti st. W st \<Longrightarrow>
      itriple True view C (on_card (\<lambda>a v. a = Some (Some (journal_json p app key ps ms rp ti st)) \<and> T key ps ms v))
        (recover_install N (journal_json p app key ps ms rp ti st)) Q"
  shows "itriple True view C (on_card (\<lambda>a v. a = Some t \<and> R a v))
      (case t of None \<Rightarrow> State_Monad.return (False, json_what N) | Some j \<Rightarrow> recover_journal N j) Q"
proof -
  let ?P = "\<lambda>x. \<exists>p app key ps ms rp ti st. (t = Some (journal_json p app key ps ms rp ti st) \<and> W st) \<and>
    on_card (\<lambda>a v. a = Some (Some (journal_json p app key ps ms rp ti st)) \<and> T key ps ms v) x"
  have "itriple True view C ?P
      (case t of None \<Rightarrow> State_Monad.return (False, json_what N) | Some j \<Rightarrow> recover_journal N j) Q"
  proof (intro itriple_ex itriple_pre)
    fix p app key ps ms rp ti st
    assume "t = Some (journal_json p app key ps ms rp ti st) \<and> W st"
    then show "itriple True view C (on_card (\<lambda>a v. a = Some (Some (journal_json p app key ps ms rp ti st)) \<and> T key ps ms v))
        (case t of None \<Rightarrow> State_Monad.return (False, json_what N) | Some j \<Rightarrow> recover_journal N j) Q"
      using rec by simp
  qed (intro still_intros)
  then show ?thesis
    by (rule itriple_weaken) (use R in \<open>fastforce simp: on_card_def\<close>)+
qed

theorem triple_recover:
  assumes N: "ncm_contract N view" "ncm_reliable N view"
  shows "itriple True view (on_card (repairable old L H)) (on_card (repairable old L H)) (recoverStaleRealInstall N)
    (\<lambda>(ok, _) x. ok \<and> on_card (\<lambda>a v. a = None \<and> restored_upto old L H v) x)"
proof (rule triple_recover_from)
  fix t
  show "itriple True view (on_card (repairable old L H)) (on_card (\<lambda>a v. a = Some t \<and> repairable old L H a v))
      (case t of None \<Rightarrow> State_Monad.return (False, json_what N) | Some j \<Rightarrow> recover_journal N j)
      (\<lambda>(ok, _) x. ok \<and> on_card (\<lambda>a v. a = None \<and> restored_upto old L H v) x)"
    by (rule triple_journal_cases [where W = "\<lambda>st. \<not> final_stage st" and
          T = "\<lambda>key ps ms. tracked old key ps ms L H"], simp add: repairable_def, rule triple_recover_tracked [OF N])
qed (simp_all add: repairable_def)

lemma finished_journal:
  "title_installed S v \<Longrightarrow> final_stage st \<Longrightarrow> install_done S (Some (Some (journal_json p app key ps ms rp ti st))) v"
  unfolding install_done_def by blast

lemma finished_None: "install_done S None v = title_installed S v"
  by (simp add: install_done_def)

theorem triple_recover_finished:
  "itriple True view (on_card (install_done S)) (on_card (install_done S)) (recoverStaleRealInstall N)
    (\<lambda>(ok, _) x. ok \<and> on_card (\<lambda>a v. a = None \<and> title_installed S v) x)"
proof (rule triple_recover_from)
  fix t
  show "itriple True view (on_card (install_done S)) (on_card (\<lambda>a v. a = Some t \<and> install_done S a v))
      (case t of None \<Rightarrow> State_Monad.return (False, json_what N) | Some j \<Rightarrow> recover_journal N j)
      (\<lambda>(ok, _) x. ok \<and> on_card (\<lambda>a v. a = None \<and> title_installed S v) x)"
  proof (rule triple_journal_cases [where W = final_stage and T = "\<lambda>key ps ms. title_installed S"])
    fix p app key ps ms rp ti st
    assume st: "final_stage st"
    let ?doc = "journal_json p app key ps ms rp ti st"
    have eq: "recover_install N ?doc = clear_journal [] ''Completed install journal cleared.''"
      using st by (simp add: recover_install_def final_stage_def)
    show "itriple True view (on_card (install_done S)) (on_card (\<lambda>a v. a = Some (Some ?doc) \<and> title_installed S v))
        (recover_install N ?doc) (\<lambda>(ok, _) x. ok \<and> on_card (\<lambda>a v. a = None \<and> title_installed S v) x)"
      unfolding eq
      by (rule itriple_weaken [OF triple_clear [where A = "\<lambda>a v. a = Some (Some ?doc) \<and> title_installed S v" and
            C = "install_done S"]]) (use st in \<open>auto simp: finished_None on_card_def intro: finished_journal\<close>)
  qed (auto simp: install_done_def)
qed (simp_all add: install_done_def)

end
