(* ===== verification/Install_Crash.thy ===== *)
theory Install_Crash
  imports Install_Recovery
begin

text \<open>
  The installer keeps its journal ahead of its changes: at every point of a transaction the device
  is \<open>crash_ok\<close>, that is, the journal on the card covers all changes but one object at most, or the
  title is completely installed. The lemmas on \<open>tracked\<close> follow the steps for one content:
  placeholder, journal, bytes, registration, journal.
\<close>

section \<open>What holds at a loss of power\<close>

definition small :: "content_id set \<Rightarrow> placeholder_id set \<Rightarrow> bool" where
  "small L H = ((\<exists>c. L \<subseteq> {c} \<and> H = {}) \<or> (\<exists>h. L = {} \<and> H \<subseteq> {h}))"

definition recovers :: "ncm_view \<Rightarrow> json option option \<Rightarrow> ncm_view \<Rightarrow> bool" where
  "recovers old a v = (\<exists>L H. small L H \<and> repairable old L H a v)"

definition crash_ok :: "ncm_view \<Rightarrow> content_id set \<Rightarrow> json option option \<Rightarrow> ncm_view \<Rightarrow> bool" where
  "crash_ok old S a v = (recovers old a v \<or> install_done S a v)"

lemma small_simps [simp]: "small {} {}" "small {c} {}" "small {} {h}" "small {} (if b then {h} else {})"
  by (auto simp: small_def)

lemma repairable_journal:
  "tracked old key ps ms L H v \<Longrightarrow> \<not> final_stage st \<Longrightarrow>
    repairable old L H (Some (Some (journal_json p app key ps ms rp ti st))) v"
  by (simp add: repairable_def) blast

lemma crash_journal:
  "tracked old key ps ms L H v \<Longrightarrow> small L H \<Longrightarrow> \<not> final_stage st \<Longrightarrow>
    recovers old (Some (Some (journal_json p app key ps ms rp ti st))) v"
  using repairable_journal unfolding recovers_def by blast

lemma recovers_crash_ok: "recovers old a v \<Longrightarrow> crash_ok old S a v"
  by (simp add: crash_ok_def)

lemma final_stage_simps [simp]:
  "\<not> final_stage ''stream-prepared''" "\<not> final_stage ''stream-writing-content''" "\<not> final_stage ''stream-registered-content''"
  "\<not> final_stage ''stream-content-complete''" "\<not> final_stage ''metadata-pending''" "\<not> final_stage ''metadata-committed''"
  "\<not> final_stage ''ticket-imported''" "\<not> final_stage ''application-record-pending''" "final_stage ''application-record''"
  "final_stage ''complete''"
  by (simp_all add: final_stage_def)

section \<open>The steps for one content\<close>

lemma in_updated: "q \<in> set ps \<Longrightarrow> q \<in> set (ps[i := p]) \<or> q = ps ! i"
  by (metis in_set_conv_nth length_list_update nth_list_update_neq nth_mem)

lemma updated_in: "q \<in> set (ps[i := p]) \<Longrightarrow> q = p \<or> q \<in> set ps"
  using set_update_subset_insert [of ps i p] by auto

lemma storage_tracked_mono:
  assumes "storage_tracked old ps L H v"
    and "\<And>c. contents v c \<noteq> None \<Longrightarrow> c \<in> L \<or> (\<exists>p \<in> set ps. undoes_content p \<and> cid p = c) \<Longrightarrow>
      c \<in> L' \<or> (\<exists>p \<in> set qs. undoes_content p \<and> cid p = c)"
    and "\<And>h. holders v h \<noteq> None \<Longrightarrow> h \<in> H \<or> (\<exists>p \<in> set ps. undoes_holder p \<and> placeholder p = h) \<Longrightarrow>
      h \<in> H' \<or> (\<exists>p \<in> set qs. undoes_holder p \<and> placeholder p = h)"
  shows "storage_tracked old qs L' H' v"
proof -
  note t = assms(1) [unfolded storage_tracked_def]
  show ?thesis
    unfolding storage_tracked_def
  proof (intro conjI)
    show "\<forall>c. contents old c = None \<longrightarrow> contents v c \<noteq> None \<longrightarrow> c \<in> L' \<or> (\<exists>p \<in> set qs. undoes_content p \<and> cid p = c)"
      using t assms(2) by meson
    show "\<forall>h. holders old h = None \<longrightarrow> holders v h \<noteq> None \<longrightarrow> h \<in> H' \<or> (\<exists>p \<in> set qs. undoes_holder p \<and> placeholder p = h)"
      using t assms(3) by meson
  qed (use t in simp_all)
qed

lemma plan_fit_update:
  assumes "plan_fit old ps" and "length (cid q) = 16" and "length (placeholder q) = 16"
    and "undoes_content q \<Longrightarrow> contents old (cid q) = None" and "placeholderCreated q \<Longrightarrow> holders old (placeholder q) = None"
  shows "plan_fit old (ps[i := q])"
  unfolding plan_fit_def
proof
  fix p
  assume "p \<in> set (ps[i := q])"
  then consider "p = q" | "p \<in> set ps" using updated_in [of p ps i q] by blast
  then show "length (cid p) = 16 \<and> length (placeholder p) = 16 \<and>
      (undoes_content p \<longrightarrow> contents old (cid p) = None) \<and> (placeholderCreated p \<longrightarrow> holders old (placeholder p) = None)"
    by cases (use assms in \<open>auto simp: plan_fit_def\<close>)
qed

text \<open>A placeholder that is not an old one is changed.\<close>

lemma storage_holder:
  assumes "storage_tracked old ps L H v" and "holders old h = None"
    and "h \<in> H' \<or> (\<exists>p \<in> set ps. undoes_holder p \<and> placeholder p = h)" and "H \<subseteq> H'"
  shows "storage_tracked old ps L H' (v\<lparr>holders := (holders v)(h := x)\<rparr>)"
proof -
  note t = assms(1) [unfolded storage_tracked_def]
  have "h' \<in> H' \<or> (\<exists>p \<in> set ps. undoes_holder p \<and> placeholder p = h')"
    if "holders old h' = None" "((holders v)(h := x)) h' \<noteq> None" for h'
  proof (cases "h' = h")
    case False
    then have "h' \<in> H \<or> (\<exists>p \<in> set ps. undoes_holder p \<and> placeholder p = h')" using t that by simp
    then show ?thesis using assms(4) by blast
  qed (use assms(3) in simp)
  moreover have "((holders v)(h := x)) h' = holders old h'" if "holders old h' \<noteq> None" for h'
    using t that assms(2) by (cases "h' = h") simp_all
  ultimately show ?thesis using t unfolding storage_tracked_def by simp
qed

lemma tracked_create:
  "tracked old key ps ms {} {} v \<Longrightarrow> holders v h = None \<Longrightarrow> tracked old key ps ms {} {h} (v\<lparr>holders := (holders v)(h \<mapsto> bs)\<rparr>)"
  using storage_holder [of old ps "{}" "{}" v h "{h}" "Some bs"]
  by (cases "holders old h") (simp_all add: tracked_def metas_tracked_def storage_tracked_def)

lemma tracked_planned:
  assumes "tracked old key ps ms {} {h} v" and "holders old h = None" and "i < length ps" and "length h = 16"
    and "\<forall>p \<in> set ps. \<not> placeholderCreated p"
  defines "qs \<equiv> ps[i := (ps ! i)\<lparr>placeholder := h, placeholderCreated := True\<rparr>]"
  shows "tracked old key qs ms {} (if registered (ps ! i) then {h} else {}) v"
proof -
  let ?q = "(ps ! i)\<lparr>placeholder := h, placeholderCreated := True\<rparr>"
  have i: "ps ! i \<in> set ps" "?q \<in> set qs" using assms(3) by (simp_all add: qs_def set_update_memI)
  have u: "undoes_content ?q = undoes_content (ps ! i)" by (simp add: undoes_content_def)
  have fit_i: "length (cid (ps ! i)) = 16" "undoes_content (ps ! i) \<Longrightarrow> contents old (cid (ps ! i)) = None"
    using assms(1) i(1) unfolding tracked_def plan_fit_def by blast+
  have fit: "plan_fit old qs"
    unfolding qs_def by (rule plan_fit_update) (use assms(1,2,4) fit_i u in \<open>simp_all add: tracked_def\<close>)
  have c: "\<exists>p \<in> set qs. undoes_content p \<and> cid p = c" if "\<exists>p \<in> set ps. undoes_content p \<and> cid p = c" for c
  proof -
    from that obtain p where p: "p \<in> set ps" "undoes_content p" "cid p = c" by blast
    from in_updated [OF p(1), of i ?q] show ?thesis using p u i(2) unfolding qs_def by fastforce
  qed
  have nh: "\<not> undoes_holder p" if "p \<in> set ps" for p using that assms(5) by (simp add: undoes_holder_def)
  have hh: "h \<in> (if registered (ps ! i) then {h} else {}) \<or> (\<exists>p \<in> set qs. undoes_holder p \<and> placeholder p = h)"
    using i(2) by (cases "registered (ps ! i)") (auto simp: undoes_holder_def undoes_content_def intro!: bexI [of _ ?q])
  have "storage_tracked old qs {} (if registered (ps ! i) then {h} else {}) v"
    by (rule storage_tracked_mono [of old ps "{}" "{h}"]) (use assms(1) c nh hh in \<open>auto simp: tracked_def\<close>)
  with assms(1) fit show ?thesis by (simp add: tracked_def)
qed

text \<open>Bytes go to a placeholder that is not an old one.\<close>

lemma tracked_write:
  assumes "tracked old key ps ms L H v" and "holders old h = None" and "holders v h \<noteq> None"
  shows "tracked old key ps ms L H (v\<lparr>holders := (holders v)(h \<mapsto> bs)\<rparr>)"
proof -
  have "h \<in> H \<or> (\<exists>p \<in> set ps. undoes_holder p \<and> placeholder p = h)"
    using assms unfolding tracked_def storage_tracked_def by blast
  then show ?thesis
    using assms storage_holder [of old ps L H v h H "Some bs"] by (simp add: tracked_def metas_tracked_def)
qed

text \<open>The placeholder of entry \<open>i\<close> becomes a content: first only on the storage, then in the journal.\<close>

lemma tracked_register:
  assumes t: "tracked old key ps ms {} {} v" and i: "i < length ps" and c: "contents v (cid (ps ! i)) = None"
    and h: "placeholder (ps ! i) = h" "placeholderCreated (ps ! i)"
    and others: "\<And>k. k < length ps \<Longrightarrow> k \<noteq> i \<Longrightarrow> \<not> placeholderCreated (ps ! k)"
    and reg: "\<not> registered (ps ! i)" "\<not> preExisting (ps ! i)"
  defines "w \<equiv> v\<lparr>contents := (contents v)(cid (ps ! i) := holders v h), holders := (holders v)(h := None)\<rparr>"
    and "qs \<equiv> ps[i := (ps ! i)\<lparr>placeholderCreated := False, registered := True\<rparr>]"
  shows "tracked old key ps ms {cid (ps ! i)} {} w" and "tracked old key qs ms {} {} w"
proof -
  have mem: "ps ! i \<in> set ps" using i by simp
  have oldc: "contents old (cid (ps ! i)) = None" and oldh: "holders old h = None"
    using t c h mem unfolding tracked_def storage_tracked_def plan_fit_def by (metis option.distinct(1))+
  have "storage_tracked old ps {cid (ps ! i)} {} w"
    using t oldc oldh unfolding tracked_def storage_tracked_def w_def by auto
  then show one: "tracked old key ps ms {cid (ps ! i)} {} w"
    using t by (simp add: tracked_def metas_tracked_def w_def)
  let ?q = "(ps ! i)\<lparr>placeholderCreated := False, registered := True\<rparr>"
  have q: "?q \<in> set qs" using i by (simp add: qs_def set_update_memI)
  have "length (cid (ps ! i)) = 16" "length (placeholder (ps ! i)) = 16"
    using t mem unfolding tracked_def plan_fit_def by blast+
  then have "plan_fit old qs"
    unfolding qs_def by (intro plan_fit_update) (use t oldc in \<open>simp_all add: tracked_def\<close>)
  moreover have "storage_tracked old qs {} {} w"
  proof (rule storage_tracked_mono [of old ps "{cid (ps ! i)}" "{}"])
    show "storage_tracked old ps {cid (ps ! i)} {} w" by fact
    show "c \<in> {} \<or> (\<exists>p \<in> set qs. undoes_content p \<and> cid p = c)"
      if "c \<in> {cid (ps ! i)} \<or> (\<exists>p \<in> set ps. undoes_content p \<and> cid p = c)" for c
    proof (cases "c = cid (ps ! i)")
      case True
      then show ?thesis using q reg by (auto simp: undoes_content_def intro!: bexI [of _ ?q])
    next
      case False
      with that obtain p where p: "p \<in> set ps" "undoes_content p" "cid p = c" by auto
      from in_updated [OF p(1), of i ?q] False p show ?thesis unfolding qs_def by auto
    qed
    show "h' \<in> {} \<or> (\<exists>p \<in> set qs. undoes_holder p \<and> placeholder p = h')"
      if "holders w h' \<noteq> None" "h' \<in> {} \<or> (\<exists>p \<in> set ps. undoes_holder p \<and> placeholder p = h')" for h'
    proof -
      from that obtain k where "k < length ps" "undoes_holder (ps ! k)" "placeholder (ps ! k) = h'"
        by (auto simp: in_set_conv_nth)
      then have "h' = h" using others h by (cases "k = i") (auto simp: undoes_holder_def)
      with that(1) show ?thesis by (simp add: w_def)
    qed
  qed
  ultimately show "tracked old key qs ms {} {} w" using one by (simp add: tracked_def)
qed

text \<open>The meta data of the title, once the journal has its key.\<close>

lemma tracked_set_meta:
  "tracked old key ps True L H v \<Longrightarrow> tracked old key ps True L H (v\<lparr>metas := (metas v)(key \<mapsto> b)\<rparr>)"
  "tracked old key ps True L H v \<Longrightarrow> tracked old key ps True L H (v\<lparr>committed := metas v\<rparr>)"
  "tracked old key ps ms L H v \<Longrightarrow> tracked old key ps ms L H (v\<lparr>app_records := r\<rparr>)"
  by (auto simp: tracked_def storage_tracked_def metas_tracked_def)

lemma tracked_new_key:
  "tracked old key ps False L H v \<Longrightarrow> tracked old key' ps False L H v"
  "tracked old key ps False L H v \<Longrightarrow> metas v key' = None \<Longrightarrow> k_padding key' = 0 \<Longrightarrow> tracked old key' ps True L H v"
  by (auto simp: tracked_def metas_tracked_def)

section \<open>The transfer of the contents\<close>

text \<open>
  Between two entries the journal is that of the plan, no placeholder is open, and what the plan
  calls registered or pre-existing is on the storage.
\<close>

definition ready :: "PlannedContent list \<Rightarrow> ncm_view \<Rightarrow> bool" where
  "ready ps v = (\<forall>p \<in> set ps. registered p \<or> preExisting p \<longrightarrow> contents v (cid p) \<noteq> None)"

definition journaled :: "ncm_view \<Rightarrow> string \<Rightarrow> PlannedContent list \<Rightarrow> content_id set \<Rightarrow> placeholder_id set \<Rightarrow>
    json option option \<Rightarrow> ncm_view \<Rightarrow> bool" where
  "journaled old dn ps L H a v =
    ((\<exists>st. a = Some (Some (journal_json dn 0 provisional_key ps False False False st)) \<and> \<not> final_stage st) \<and>
     tracked old provisional_key ps False L H v \<and> ready ps v)"

definition idle_plan :: "PlannedContent list \<Rightarrow> bool" where
  "idle_plan ps = (\<forall>p \<in> set ps. \<not> placeholderCreated p)"

definition settled_ids :: "PlannedContent list \<Rightarrow> content_id set" where
  "settled_ids ps = cid ` {p \<in> set ps. registered p \<or> preExisting p}"

definition settles :: "content_id set \<Rightarrow> PlannedContent list \<Rightarrow> PlannedContent list \<Rightarrow> bool" where
  "settles D ps qs = (idle_plan qs \<and> D \<union> settled_ids ps \<subseteq> settled_ids qs)"

lemma journaled_recovers: "journaled old dn ps L H a v \<Longrightarrow> small L H \<Longrightarrow> recovers old a v"
  unfolding journaled_def using crash_journal by blast

lemma diag_codes [simp]:
  "diag_ok (makeDiagnostic c s r) \<longleftrightarrow> c = NoError"
  "c \<noteq> NoError \<Longrightarrow> diag_ok (rcDiag rc c s) \<longleftrightarrow> succeeded rc"
  by (simp_all add: diag_ok_def rcDiag_def)

lemma triple_generate:
  assumes "ncm_contract N view" and "\<And>a v. A a v \<Longrightarrow> C a v"
  shows "itriple M view (on_card C) (on_card A) (call (n_generate N))
    (\<lambda>(rc, h). on_card (\<lambda>a v. A a v \<and> (succeeded rc \<longrightarrow> length h = 16 \<and> holders v h = None)))"
proof (rule itriple_ask [OF contractD(7) [OF assms(1)]])
  fix s x
  assume "o_ncm x = view s" "on_card A x"
  moreover have "succeeded (fst (fst (n_generate N s))) \<longrightarrow>
      length (snd (fst (n_generate N s))) = 16 \<and> holders (view s) (snd (fst (n_generate N s))) = None"
    using assms(1) by (simp add: ncm_contract_def ncm_answers_def)
  ultimately show "(case fst (n_generate N s) of (rc, h) \<Rightarrow>
      on_card (\<lambda>a v. A a v \<and> (succeeded rc \<longrightarrow> length h = 16 \<and> holders v h = None))) x"
    by (cases "fst (n_generate N s)") (simp add: on_card_def)
qed (use assms(2) in \<open>auto simp: on_card_def\<close>)

text \<open>The bytes go to a sink that keeps \<open>A\<close>.\<close>

lemma triple_consumeBytes:
  assumes "\<And>io l. itriple M view (on_card C) (on_card A) (sink io l) (\<lambda>_. on_card A)" and "\<And>a v. A a v \<Longrightarrow> C a v"
  shows "itriple M view (on_card C) (on_card A) (consumeBytes rd sink stage remaining acc off) (\<lambda>_. on_card A)"
proof (induction remaining arbitrary: acc off rule: less_induct)
  case (less remaining)
  show ?case
    unfolding consumeBytes.simps [of rd sink stage remaining acc off] Let_def
    by (intro itriple_if itriple_return on_card_inert [OF _ assms(2)] inert_intros itriple_option itriple_bind [OF assms(1)] less)
      (auto simp: COPY_BUFFER_SIZE_def)
qed

lemma on_card_pure: "on_card (\<lambda>a v. \<phi> \<and> A a v) = (\<lambda>x. \<phi> \<and> on_card A x)"
  by (simp add: on_card_def fun_eq_iff)

lemma itriple_pure:
  "still p \<Longrightarrow> (\<phi> \<Longrightarrow> itriple M view C (on_card A) p Q) \<Longrightarrow> itriple M view C (on_card (\<lambda>a v. \<phi> \<and> A a v)) p Q"
  using itriple_pre [of p \<phi> M view C "on_card A" Q] by (simp add: on_card_pure)

lemma ready_mono: "ready ps v \<Longrightarrow> (\<And>c. contents v c \<noteq> None \<Longrightarrow> contents w c \<noteq> None) \<Longrightarrow> ready ps w"
  by (auto simp: ready_def)

lemma ready_holders [simp]: "ready ps (v\<lparr>holders := f\<rparr>) = ready ps v"
  by (simp add: ready_def)

lemma triple_save_plan:
  assumes "\<And>a v. A a v \<Longrightarrow> recovers old a v"
    and "\<And>a v. A a v \<Longrightarrow> tracked old provisional_key ps False L H v \<and> ready ps v" and "small L H" and "\<not> final_stage st"
  shows "itriple True view (on_card (crash_ok old S)) (on_card A)
    (saveJournal dn 0 provisional_key ps False False False st) (\<lambda>_. on_card (journaled old dn ps L H))"
proof (rule itriple_weaken [OF triple_save [of A "crash_ok old S"]])
  fix a v
  assume A: "A a v"
  show "crash_ok old S a v" using assms(1) [OF A] by (rule recovers_crash_ok)
  show "crash_ok old S (Some (Some (journal_json dn 0 provisional_key ps False False False st))) v"
    using assms(2) [OF A] assms(3,4) crash_journal recovers_crash_ok by blast
next
  show "on_card (journaled old dn ps L H) x"
    if "on_card (\<lambda>a v. a = Some (Some (journal_json dn 0 provisional_key ps False False False st)) \<and> (\<exists>b. A b v)) x" for x
    using that assms(2,4) by (auto simp: on_card_def journaled_def)
qed

text \<open>The outcome of a step of the transfer.\<close>

fun step_post :: "ncm_view \<Rightarrow> string \<Rightarrow> content_id set \<Rightarrow> PlannedContent list \<Rightarrow> Diagnostic \<times> transfer \<Rightarrow> 'r obs \<Rightarrow> bool" where
  "step_post old dn D ps (d, t) x =
    (if diag_ok d then settles D ps (plan t) \<and> on_card (journaled old dn (plan t) {} {}) x else on_card (recovers old) x)"

lemma on_card_recovers: "on_card (journaled old dn ps L H) x \<Longrightarrow> small L H \<Longrightarrow> on_card (recovers old) x"
  using journaled_recovers unfolding on_card_def by blast

text \<open>The bytes of a content.\<close>

lemma triple_holder_bytes:
  assumes N: "ncm_contract N view" and h: "holders old h = None" and s: "small L H"
  shows "itriple True view (on_card (crash_ok old S)) (on_card (journaled old dn ps L H))
    (consumeBytes rd (holder_sink N h) stage n acc off) (\<lambda>_. on_card (journaled old dn ps L H))"
proof (rule triple_consumeBytes)
  show C: "journaled old dn ps L H a v \<Longrightarrow> crash_ok old S a v" for a v
    using journaled_recovers [OF _ s] recovers_crash_ok by blast
  have ok: "journaled old dn ps L H a w"
    if "journaled old dn ps L H a v" "\<exists>b. holders v h = Some b \<and> l + length io \<le> length b \<and>
        w = v\<lparr>holders := (holders v)(h \<mapsto> patch l io b)\<rparr>" for a v w l io
    using that tracked_write [OF _ h] by (auto simp: journaled_def)
  show "itriple True view (on_card (crash_ok old S)) (on_card (journaled old dn ps L H)) (holder_sink N h io l)
      (\<lambda>_. on_card (journaled old dn ps L H))" for io l
    unfolding holder_sink_def
  proof (rule on_card_does [OF contract_effects(2) [OF N]], goal_cases)
    case 1
    then show ?case by (rule C)
  next
    case (2 a v v')
    then show ?case using ok C by blast
  next
    case 3
    show ?case by (rule itriple_return) (use ok in \<open>auto simp: on_card_def\<close>)
  next
    case 4
    show ?case by (rule itriple_return)
  qed
qed

lemma settles_update:
  assumes "i < length ps" and "idle_plan qs" and "cid (qs ! i) = c" and "registered (qs ! i)" and "length qs = length ps"
    and "\<And>k. k < length ps \<Longrightarrow> k \<noteq> i \<Longrightarrow> qs ! k = ps ! k" and "cid (ps ! i) = c"
  shows "settles {c} ps qs"
proof -
  have "c \<in> settled_ids qs" using assms(1,3,4,5) by (force simp: settled_ids_def)
  moreover have "cid p \<in> settled_ids qs" if "p \<in> set ps" "registered p \<or> preExisting p" for p
  proof -
    from that(1) obtain k where k: "k < length ps" "ps ! k = p" by (auto simp: in_set_conv_nth)
    show ?thesis
    proof (cases "k = i")
      case True
      then show ?thesis using k assms(7) \<open>c \<in> settled_ids qs\<close> by simp
    next
      case False
      then have "p \<in> set qs" using assms(5,6) k by (metis nth_mem)
      then show ?thesis using that(2) by (auto simp: settled_ids_def)
    qed
  qed
  ultimately show ?thesis using assms(2) by (auto simp: settles_def settled_ids_def)
qed

lemma tracked_old_holder:
  assumes "tracked old key ps ms L H v" and "holders v h = None"
  shows "holders old h = None"
proof -
  have "holders old h \<noteq> None \<longrightarrow> holders v h = holders old h" using assms(1) unfolding tracked_def storage_tracked_def by blast
  with assms(2) show ?thesis by auto
qed

end
