(* ===== verification/Install_Content.thy ===== *)
theory Install_Content
  imports Install_Crash
begin

text \<open>
  The transfer of the contents, \<open>receive_content\<close> to \<open>receive_entries\<close>: at every loss of power the device
  is \<open>crash_ok\<close>, after a failure a recovery restores, and after success every content of the package is
  on the storage.
\<close>

section \<open>One content\<close>

text \<open>The plan with a placeholder for entry \<open>i\<close>, and with its content registered.\<close>

definition with_holder :: "nat \<Rightarrow> placeholder_id \<Rightarrow> PlannedContent list \<Rightarrow> PlannedContent list" where
  "with_holder i h ps = ps[i := (ps ! i)\<lparr>placeholder := h, placeholderCreated := True\<rparr>]"

definition stored :: "nat \<Rightarrow> PlannedContent list \<Rightarrow> PlannedContent list" where
  "stored i ps = ps[i := (ps ! i)\<lparr>placeholderCreated := False, registered := True\<rparr>]"

text \<open>The three parts of \<open>receive_content\<close>: from the registration, from the journal, all.\<close>

definition register_content :: "'s ncm \<Rightarrow> string \<Rightarrow> NspEntryInfo \<Rightarrow> nat \<Rightarrow> placeholder_id \<Rightarrow> transfer \<Rightarrow>
    ('s, 'r, Diagnostic \<times> transfer) iprog" where
  "register_content N dn e i h t = do {
     rc \<leftarrow> call (n_register N (contentId e) h);
     if \<not> succeeded rc then State_Monad.return (rcDiag rc RegistrationError ''Register content(stream)'', t)
     else do {
       saveJournal dn 0 provisional_key (stored i (plan t)) False False False ''stream-registered-content'';
       State_Monad.return (makeDiagnostic NoError [] 0, t\<lparr>plan := stored i (plan t),
         outcome := (outcome t)\<lparr>installedBytes := installedNow t, installedContents := installedContents (outcome t) + 1\<rparr>\<rparr>)
     }
   }"

definition write_content :: "'s ncm \<Rightarrow> 'r reader \<Rightarrow> string \<Rightarrow> NspEntryInfo \<Rightarrow> nat \<Rightarrow> placeholder_id \<Rightarrow> transfer \<Rightarrow>
    ('s, 'r, Diagnostic \<times> transfer) iprog" where
  "write_content N rd dn e i h t = do {
     saveJournal dn 0 provisional_key (plan t) False False False ''stream-writing-content'';
     (d, off, got) \<leftarrow> consumeBytes rd (holder_sink N h) (n_name e) (unat (n_size e)) [] (streamOffset t);
     let u = t\<lparr>streamOffset := off, installedNow := installedNow t + of_nat (length got)\<rparr>;
     if \<not> diag_ok d then State_Monad.return (d, u) else register_content N dn e i h u
   }"

lemma receive_content_parts:
  "receive_content N rd dn e i t = do {
     (rc, h) \<leftarrow> call (n_generate N);
     if \<not> succeeded rc then State_Monad.return (rcDiag rc PlaceholderError ''GeneratePlaceHolderId'', t)
     else do {
       rc \<leftarrow> call (n_create N (contentId e) h (n_size e));
       if \<not> succeeded rc then State_Monad.return (rcDiag rc PlaceholderError ''CreatePlaceHolder'', t)
       else write_content N rd dn e i h (t\<lparr>plan := with_holder i h (plan t)\<rparr>)
     }
   }"
  unfolding receive_content_def write_content_def register_content_def Let_def
  by (simp add: with_holder_def stored_def cong: if_cong)

text \<open>An entry of the plan that is to be received.\<close>

definition wanted :: "PlannedContent list \<Rightarrow> nat \<Rightarrow> content_id \<Rightarrow> bool" where
  "wanted ps i c = (i < length ps \<and> cid (ps ! i) = c \<and> \<not> preExisting (ps ! i) \<and> idle_plan ps)"

lemma with_holder_facts:
  assumes "wanted ps i c"
  shows "length (with_holder i h ps) = length ps" "cid (with_holder i h ps ! i) = c" "registered (with_holder i h ps ! i) = registered (ps ! i)"
    "\<not> preExisting (with_holder i h ps ! i)" "placeholder (with_holder i h ps ! i) = h" "placeholderCreated (with_holder i h ps ! i)"
    "k \<noteq> i \<Longrightarrow> with_holder i h ps ! k = ps ! k" "ready ps v \<Longrightarrow> ready (with_holder i h ps) v"
  using assms by (auto simp: wanted_def with_holder_def ready_def dest!: updated_in)

lemma stored_settles:
  assumes "wanted ps i c"
  shows "settles {c} ps (stored i (with_holder i h ps))"
proof (rule settles_update [of i])
  show "idle_plan (stored i (with_holder i h ps))"
    using assms by (auto simp: wanted_def idle_plan_def stored_def with_holder_def dest!: updated_in)
qed (use assms with_holder_facts [OF assms] in \<open>simp_all add: wanted_def stored_def\<close>)

text \<open>A failure with a journal on the card.\<close>

lemma triple_fails:
  assumes "\<not> diag_ok d" and "\<And>a v. A a v \<Longrightarrow> recovers old a v"
  shows "itriple True view (on_card C) (on_card A) (State_Monad.return (d, u) :: ('s, 'r, _) iprog) (step_post old dn D ps)"
  by (rule itriple_return) (use assms in \<open>auto simp: on_card_def\<close>)

text \<open>The leaked placeholder of a content that the plan already calls registered.\<close>

abbreviation leaked :: "PlannedContent list \<Rightarrow> nat \<Rightarrow> placeholder_id \<Rightarrow> placeholder_id set" where
  "leaked ps i h \<equiv> if registered (ps ! i) then {h} else {}"

lemma journaled_leaked: "journaled old dn qs {} (leaked ps i h) a v \<Longrightarrow> recovers old a v"
  by (erule journaled_recovers) simp

lemma journaled_registers:
  assumes w: "wanted ps i c" and j: "journaled old dn (with_holder i h ps) {} (leaked ps i h) a v"
    and v: "contents v c = None \<and> holders v h \<noteq> None \<and>
      v' = v\<lparr>contents := (contents v)(c := holders v h), holders := (holders v)(h := None)\<rparr>"
  shows "journaled old dn (with_holder i h ps) {c} {} a v' \<and>
    tracked old provisional_key (stored i (with_holder i h ps)) False {} {} v' \<and> ready (stored i (with_holder i h ps)) v'"
proof -
  let ?qs = "with_holder i h ps"
  note qs = with_holder_facts [OF w]
  have ready: "ready ?qs v" and tr: "tracked old provisional_key ?qs False {} (leaked ps i h) v"
    using j by (simp_all add: journaled_def)
  have "?qs ! i \<in> set ?qs" using w qs(1) [of h] by (simp add: wanted_def)
  with ready have r: "\<not> registered (ps ! i)" using qs(2,3) v unfolding ready_def by metis
  have others: "\<not> placeholderCreated (?qs ! k)" if "k < length ?qs" "k \<noteq> i" for k
    using w that qs(1,7) by (auto simp: wanted_def idle_plan_def)
  note reg = tracked_register [where ps = ?qs and i = i and h = h and v = v, unfolded qs(2), folded stored_def, OF _ _ _ _ _ others]
  have "tracked old provisional_key ?qs False {c} {} v'" "tracked old provisional_key (stored i ?qs) False {} {} v'"
    using reg(1,2) [of old provisional_key False] tr r v w qs by (simp_all add: wanted_def)
  moreover have "ready ?qs v'" using ready by (rule ready_mono) (use v in auto)
  moreover from this have "ready (stored i ?qs) v'"
    unfolding stored_def ready_def using v qs(2) by (auto dest!: updated_in)
  ultimately show ?thesis using j by (simp add: journaled_def)
qed

lemma triple_register_content:
  assumes N: "ncm_contract N view" and w: "wanted ps i (contentId e)" and t: "plan t = with_holder i h ps"
  shows "itriple True view (on_card (crash_ok old S)) (on_card (journaled old dn (with_holder i h ps) {} (leaked ps i h)))
    (register_content N dn e i h t :: ('s, 'r, _) iprog) (step_post old dn {contentId e} ps)"
proof -
  let ?C = "crash_ok old S" and ?c = "contentId e" and ?qs = "with_holder i h ps"
  let ?J = "journaled old dn ?qs {} (leaked ps i h)"
  let ?A = "\<lambda>a v. journaled old dn ?qs {?c} {} a v \<and> tracked old provisional_key (stored i ?qs) False {} {} v \<and> ready (stored i ?qs) v"
  let ?done = "\<lambda>u. saveJournal dn 0 provisional_key (stored i ?qs) False False False ''stream-registered-content'' \<bind>
      (\<lambda>_. State_Monad.return (makeDiagnostic NoError [] 0, u)) :: ('s, 'r, _) iprog"
  have last: "itriple True view (on_card ?C) (on_card ?A) (?done u) (step_post old dn {?c} ps)" if "plan u = stored i ?qs" for u
    by (rule itriple_bind [OF triple_save_plan [where L = "{}" and H = "{}"]], use journaled_recovers in \<open>fastforce\<close>)
      (use stored_settles [OF w] that in \<open>auto simp: final_stage_def intro!: itriple_return\<close>)
  show ?thesis
    unfolding register_content_def t
  proof (rule on_card_does [OF contract_effects(3) [OF N]], goal_cases)
    case (1 a v)
    then show ?case using journaled_leaked recovers_crash_ok by blast
  next
    case (2 a v v')
    then show ?case using journaled_registers [OF w, of old dn h a v v'] journaled_recovers recovers_crash_ok small_simps by metis
  next
    case 3
    show ?case
      by (simp only: simp_thms if_False, rule itriple_weaken [OF last], simp, erule on_card_mono)
        (use journaled_registers [OF w] in blast)+
  next
    case (4 rc)
    then show ?case by (simp add: triple_fails journaled_leaked)
  qed
qed

lemma triple_write_content:
  assumes N: "ncm_contract N view" and w: "wanted ps i (contentId e)" and t: "plan t = with_holder i h ps"
    and h: "length h = 16" "holders old h = None"
  shows "itriple True view (on_card (crash_ok old S)) (on_card (journaled old dn ps {} {h}))
    (write_content N rd dn e i h t :: ('s, 'r, _) iprog) (step_post old dn {contentId e} ps)"
  unfolding write_content_def Let_def
proof (rule itriple_bind [OF triple_save_plan [where H = "leaked ps i h" and L = "{}"]])
  fix a v
  assume j: "journaled old dn ps {} {h} a v"
  then show "recovers old a v" using journaled_recovers by fastforce
  have "\<forall>p \<in> set ps. \<not> placeholderCreated p" "i < length ps" using w by (simp_all add: wanted_def idle_plan_def)
  then have "tracked old provisional_key (with_holder i h ps) False {} (leaked ps i h) v"
    using j tracked_planned [OF _ h(2) _ h(1)] by (simp add: journaled_def with_holder_def)
  then show "tracked old provisional_key (plan t) False {} (leaked ps i h) v \<and> ready (plan t) v"
    using j with_holder_facts(8) [OF w] by (simp add: journaled_def t)
next
  let ?J = "journaled old dn (with_holder i h ps) {} (leaked ps i h)"
  have small: "small {} (leaked ps i h)" by simp
  have reg: "itriple True view (on_card (crash_ok old S)) (on_card ?J)
      (register_content N dn e i h u :: ('s, 'r, _) iprog) (step_post old dn {contentId e} ps)" if "plan u = with_holder i h ps" for u
    by (rule triple_register_content [OF N w that])
  show "itriple True view (on_card (crash_ok old S)) (on_card (journaled old dn (plan t) {} (leaked ps i h)))
      (consumeBytes rd (holder_sink N h) (n_name e) (unat (n_size e)) [] (streamOffset t) \<bind> (\<lambda>(d, off, got).
        if \<not> diag_ok d then State_Monad.return (d, t\<lparr>streamOffset := off, installedNow := installedNow t + of_nat (length got)\<rparr>)
        else register_content N dn e i h (t\<lparr>streamOffset := off, installedNow := installedNow t + of_nat (length got)\<rparr>)))
      (step_post old dn {contentId e} ps)"
    unfolding t
    by (rule itriple_bind [OF triple_holder_bytes [OF N h(2) small]], intro itriple_prod itriple_if triple_fails reg)
      (simp_all add: t journaled_leaked)
qed (simp_all add: final_stage_def)

lemma still_write_content [still_intros]: "still (write_content N rd dn e i h t)"
  unfolding write_content_def register_content_def holder_sink_def Let_def by (intro still_intros)

lemma triple_create_content:
  fixes old :: ncm_view and dn :: string
  assumes N: "ncm_contract N view" and w: "wanted (plan t) i (contentId e)"
  defines "J \<equiv> journaled old dn (plan t) {} {}"
  shows "itriple True view (on_card (crash_ok old S)) (on_card (\<lambda>a v. (length h = 16 \<and> holders old h = None) \<and> J a v \<and> holders v h = None))
    (call (n_create N (contentId e) h (n_size e)) \<bind> (\<lambda>rc.
       if \<not> succeeded rc then State_Monad.return (rcDiag rc PlaceholderError ''CreatePlaceHolder'', t)
       else write_content N rd dn e i h (t\<lparr>plan := with_holder i h (plan t)\<rparr>)) :: ('s, 'r, _) iprog)
    (step_post old dn {contentId e} (plan t))"
proof (rule itriple_pure)
  assume h: "length h = 16 \<and> holders old h = None"
  have placed: "journaled old dn (plan t) {} {h} a v'" if "J a v \<and> holders v h = None"
      "\<exists>bs. length bs = k \<and> v' = v\<lparr>holders := (holders v)(h \<mapsto> bs)\<rparr>" for a v v' k
    using that tracked_create by (auto simp: journaled_def J_def)
  have rec: "J a v \<Longrightarrow> recovers old a v" for a v unfolding J_def by (erule journaled_recovers) simp
  show "itriple True view (on_card (crash_ok old S)) (on_card (\<lambda>a v. J a v \<and> holders v h = None))
    (call (n_create N (contentId e) h (n_size e)) \<bind> (\<lambda>rc.
       if \<not> succeeded rc then State_Monad.return (rcDiag rc PlaceholderError ''CreatePlaceHolder'', t)
       else write_content N rd dn e i h (t\<lparr>plan := with_holder i h (plan t)\<rparr>)) :: ('s, 'r, _) iprog)
    (step_post old dn {contentId e} (plan t))"
  proof (rule on_card_does [OF contract_effects(1) [OF N]], goal_cases)
    case (1 a v)
    then show ?case using rec recovers_crash_ok by blast
  next
    case (2 a v v')
    then show ?case using placed [of a v] journaled_recovers recovers_crash_ok small_simps by metis
  next
    case 3
    show ?case
      by (simp only: simp_thms if_False, rule itriple_weaken [OF triple_write_content [OF N w _ conjunct1 [OF h] conjunct2 [OF h]]],
          simp, erule on_card_mono) (use placed in blast)+
  next
    case (4 rc)
    then show ?case by (simp only: not_False_eq_True if_True) (rule triple_fails, simp, use rec in blast)
  qed
qed (intro still_intros)

lemma triple_receive_content:
  assumes N: "ncm_contract N view" and w: "wanted (plan t) i (contentId e)"
  shows "itriple True view (on_card (crash_ok old S)) (on_card (journaled old dn (plan t) {} {}))
    (receive_content N rd dn e i t :: ('s, 'r, _) iprog) (step_post old dn {contentId e} (plan t))"
  unfolding receive_content_parts
proof (rule itriple_bind [OF triple_generate [OF N]], goal_cases)
  case (1 a v)
  then show ?case using journaled_recovers recovers_crash_ok small_simps by metis
next
  case (2 rh)
  let ?J = "journaled old dn (plan t) {} {}"
  obtain rc h where rh: "rh = (rc, h)" by fastforce
  show ?case
  proof (cases "succeeded rc")
    case True
    have "on_card (\<lambda>a v. (length h = 16 \<and> holders old h = None) \<and> ?J a v \<and> holders v h = None) x"
      if "on_card (\<lambda>a v. ?J a v \<and> (succeeded rc \<longrightarrow> length h = 16 \<and> holders v h = None)) x" for x
      using that True tracked_old_holder [of old provisional_key "plan t" False "{}" "{}" "o_ncm x" h]
      by (simp add: on_card_def journaled_def)
    then show ?thesis
      unfolding rh prod.case using True by (simp, intro itriple_weaken [OF triple_create_content [OF N w]]) auto
  next
    case False
    have "?J a v \<Longrightarrow> recovers old a v" for a v by (erule journaled_recovers) simp
    with False show ?thesis
      unfolding rh prod.case by (simp only: if_True not_False_eq_True, intro triple_fails) auto
  qed
qed

section \<open>All entries\<close>

lemma triple_skip:
  assumes "\<And>a v. A a v \<Longrightarrow> C a v"
  shows "itriple M view (on_card C) (on_card A) (skip rd stage n t) (\<lambda>(d, t') x. plan t' = plan t \<and> on_card A x)"
    and "itriple M view (on_card C) (on_card A) (receive_aux rd e t) (\<lambda>(d, t') x. plan t' = plan t \<and> on_card A x)"
  unfolding skip_def receive_aux_def no_sink_def Let_def
  by (intro on_card_inert [OF _ assms] inert_intros itriple_prod itriple_return itriple_if; simp)+

lemma settles_refl: "idle_plan ps \<Longrightarrow> D \<subseteq> settled_ids ps \<Longrightarrow> settles D ps ps"
  by (simp add: settles_def)

lemma settles_trans: "settles D ps qs \<Longrightarrow> settles E qs rs \<Longrightarrow> settles (D \<union> E) ps rs"
  by (auto simp: settles_def)

lemma on_card_idle: "on_card (journaled old dn ps {} {}) x \<Longrightarrow> on_card (recovers old) x"
  by (erule on_card_recovers) simp

text \<open>A step that keeps the plan.\<close>

lemma triple_keeps_plan:
  assumes "itriple True view (on_card (crash_ok old S)) (on_card (journaled old dn ps {} {})) p
      (\<lambda>(d, t') x. plan t' = ps \<and> on_card (journaled old dn ps {} {}) x)" and "settles D ps ps"
  shows "itriple True view (on_card (crash_ok old S)) (on_card (journaled old dn ps {} {})) p (step_post old dn D ps)"
  by (rule itriple_weaken [OF assms(1)]) (use assms(2) on_card_idle in auto)

lemma journaled_crash_ok: "journaled old dn ps {} {} a v \<Longrightarrow> crash_ok old S a v"
  using journaled_recovers [of old dn ps "{}" "{}" a v] recovers_crash_ok by simp

lemma triple_receive_entry:
  assumes N: "ncm_contract N view" and idle_plan: "idle_plan (plan t)"
  shows "itriple True view (on_card (crash_ok old S)) (on_card (journaled old dn (plan t) {} {}))
    (receive_entry N rd dn e t :: ('s, 'r, _) iprog) (step_post old dn (if isNca e then {contentId e} else {}) (plan t))"
proof -
  let ?D = "if isNca e then {contentId e} else {}" and ?C = "on_card (crash_ok old S)"
  let ?J = "on_card (journaled old dn (plan t) {} {})"
  have fails: "itriple True view ?C ?J (State_Monad.return (d, u)) (step_post old dn D (plan t))"
    if "\<not> diag_ok d" for d u D
    by (rule itriple_return) (use that on_card_idle in auto)
  have keep: "itriple True view ?C ?J p (step_post old dn ?D (plan t))"
    if "itriple True view ?C ?J p (\<lambda>(d, t') x. plan t' = plan t \<and> ?J x)" "?D \<subseteq> settled_ids (plan t)"
    for p :: "('s, 'r, Diagnostic \<times> transfer) iprog"
    by (rule triple_keeps_plan [OF that(1)]) (use that(2) idle_plan settles_refl in blast)
  have skips: "itriple True view ?C ?J (skip rd stage n u :: ('s, 'r, _) iprog) (\<lambda>(d, u') x. plan u' = plan u \<and> ?J x)"
    "itriple True view ?C ?J (receive_aux rd e u :: ('s, 'r, _) iprog) (\<lambda>(d, u') x. plan u' = plan u \<and> ?J x)" for stage n u
    by (rule triple_skip; erule journaled_crash_ok)+
  have pay: "itriple True view ?C ?J (if isNca e
      then (let t = u\<lparr>contentOrdinal := contentOrdinal u + 1\<rparr> in
        case findPlan (contentId e) (plan t) of
          None \<Rightarrow> State_Monad.return (makeDiagnostic InternalError ''NCA missing from stream content plan'' 0, t)
        | Some i \<Rightarrow>
            if preExisting (plan t ! i) then skip rd (n_name e @ '' (already present)'') (unat (n_size e)) t
            else receive_content N rd dn e i t)
      else if isTicket e \<or> isCert e then receive_aux rd e u
      else skip rd (''Skipping '' @ n_name e) (unat (n_size e)) u) (step_post old dn ?D (plan t))"
    if u: "plan u = plan t" for u
  proof (cases "isNca e")
    case True
    let ?u = "u\<lparr>contentOrdinal := contentOrdinal u + 1\<rparr>"
    show ?thesis
    proof (cases "findPlan (contentId e) (plan t)")
      case None
      then show ?thesis using True u by (simp add: Let_def fails)
    next
      case (Some i)
      then have i: "i < length (plan t)" "cid (plan t ! i) = contentId e" using findPlan_Some by blast+
      show ?thesis
      proof (cases "preExisting (plan t ! i)")
        case pre: True
        have "contentId e \<in> settled_ids (plan t)" using i pre by (force simp: settled_ids_def)
        then have "itriple True view ?C ?J (skip rd (n_name e @ '' (already present)'') (unat (n_size e)) ?u :: ('s, 'r, _) iprog)
            (step_post old dn ?D (plan t))"
          using skips(1) [of _ _ ?u] u by (intro keep) simp_all
        then show ?thesis using True Some pre u by (simp add: Let_def)
      next
        case pre: False
        have "itriple True view ?C ?J (receive_content N rd dn e i ?u) (step_post old dn {contentId e} (plan t))"
          using triple_receive_content [OF N, of ?u i e old S dn rd] i pre idle_plan u by (simp add: wanted_def)
        then show ?thesis using True Some pre u by (simp add: Let_def)
      qed
    qed
  next
    case False
    have "itriple True view ?C ?J (receive_aux rd e u :: ('s, 'r, _) iprog) (step_post old dn ?D (plan t))"
      "itriple True view ?C ?J (skip rd (''Skipping '' @ n_name e) (unat (n_size e)) u :: ('s, 'r, _) iprog) (step_post old dn ?D (plan t))"
      using skips(1) [of _ _ u] skips(2) [of u] u False by (intro keep; simp)+
    then show ?thesis using False by (simp only: if_False split: if_split) simp
  qed
  have padding: "itriple True view ?C ?J (if streamOffset t < n_offset e
        then skip rd ''Skipping NSP padding'' (unat (n_offset e - streamOffset t)) t
        else State_Monad.return (makeDiagnostic NoError [] 0, t)) (\<lambda>(d, u) x. plan u = plan t \<and> ?J x)"
    by (intro itriple_if skips itriple_return) simp
  show ?thesis
    unfolding receive_entry_def
  proof (intro itriple_if, goal_cases)
    case 1
    then show ?case by (simp add: fails)
  next
    case 2
    show ?case
    proof (rule itriple_bind [OF padding], clarify, rule itriple_pre)
      fix d and u :: transfer
      assume "plan u = plan t"
      then show "itriple True view ?C ?J (if \<not> diag_ok d then State_Monad.return (d, u) else if isNca e
        then (let t = u\<lparr>contentOrdinal := contentOrdinal u + 1\<rparr> in
          case findPlan (contentId e) (plan t) of
            None \<Rightarrow> State_Monad.return (makeDiagnostic InternalError ''NCA missing from stream content plan'' 0, t)
          | Some i \<Rightarrow>
              if preExisting (plan t ! i) then skip rd (n_name e @ '' (already present)'') (unat (n_size e)) t
              else receive_content N rd dn e i t)
        else if isTicket e \<or> isCert e then receive_aux rd e u
        else skip rd (''Skipping '' @ n_name e) (unat (n_size e)) u) (step_post old dn ?D (plan t))"
        using pay by (intro itriple_if fails) simp_all
    qed (auto simp: Let_def receive_aux_def no_sink_def intro!: still_intros)
  qed
qed

definition nca_ids :: "NspEntryInfo list \<Rightarrow> content_id set" where
  "nca_ids es = contentId ` {e \<in> set es. isNca e}"

lemma nca_ids_simps: "nca_ids [] = {}" "nca_ids (e # es) = (if isNca e then {contentId e} else {}) \<union> nca_ids es"
  by (auto simp: nca_ids_def)

lemma triple_receive_entries:
  assumes N: "ncm_contract N view"
  shows "idle_plan (plan t) \<Longrightarrow> itriple True view (on_card (crash_ok old S)) (on_card (journaled old dn (plan t) {} {}))
    (receive_entries N rd dn es t :: ('s, 'r, _) iprog) (step_post old dn (nca_ids es) (plan t))"
proof (induction es arbitrary: t)
  case Nil
  then show ?case by (auto intro!: itriple_return settles_refl simp: nca_ids_simps)
next
  case (Cons e es)
  let ?D = "if isNca e then {contentId e} else {}"
  show ?case
    unfolding receive_entries.simps
  proof (rule itriple_bind [OF triple_receive_entry [OF N Cons.prems]], clarify)
    fix d u
    show "itriple True view (on_card (crash_ok old S)) (step_post old dn ?D (plan t) (d, u))
        (if \<not> diag_ok d then State_Monad.return (d, u) else receive_entries N rd dn es u :: ('s, 'r, _) iprog)
        (step_post old dn (nca_ids (e # es)) (plan t))"
    proof (cases "diag_ok d")
      case True
      have "itriple True view (on_card (crash_ok old S)) (\<lambda>x. settles ?D (plan t) (plan u) \<and> on_card (journaled old dn (plan u) {} {}) x)
          (receive_entries N rd dn es u :: ('s, 'r, _) iprog) (step_post old dn (nca_ids (e # es)) (plan t))"
      proof (rule itriple_pre)
        assume s: "settles ?D (plan t) (plan u)"
        then have "idle_plan (plan u)" by (simp add: settles_def)
        from Cons.IH [OF this]
        show "itriple True view (on_card (crash_ok old S)) (on_card (journaled old dn (plan u) {} {}))
            (receive_entries N rd dn es u :: ('s, 'r, _) iprog) (step_post old dn (nca_ids (e # es)) (plan t))"
          by (rule itriple_weaken) (use settles_trans [OF s] in \<open>auto simp: nca_ids_simps(2)\<close>)
      qed (intro still_intros)
      then show ?thesis
        using True by (simp only: not_True_eq_False if_False, elim itriple_weaken) auto
    next
      case False
      then show ?thesis by (auto intro!: itriple_return)
    qed
  qed
qed

end
