(* ===== verification/Install_Outcome.thy ===== *)
theory Install_Outcome
  imports Install_Content
begin

text \<open>
  The end of a transaction: the checks of the title, its meta data, ticket and application record, the
  rollback of a failure, and the whole of \<open>installNspStreamToSdTransactional\<close>. Its outcome is the
  installed title or the state before, and so is that of a loss of power followed by a recovery.
\<close>

section \<open>The title\<close>

lemma triple_validate:
  assumes N: "ncm_contract N view" and C: "\<And>a v. A a v \<Longrightarrow> C a v"
  shows "itriple M view (on_card C) (on_card A) (validateStreamMetaAgainstInstalled N meta :: ('s, 'r, _) iprog)
    (\<lambda>d. on_card (\<lambda>a v. A a v \<and> (diag_ok d \<longrightarrow> metas v (meta_key_of N meta) = None)))"
proof -
  let ?k = "meta_key_of N meta" and ?Q = "\<lambda>d. on_card (\<lambda>a v. A a v \<and> (diag_ok d \<longrightarrow> metas v (meta_key_of N meta) = None))"
  let ?B = "\<lambda>a v. A a v \<and> metas v ?k = None"
  have fails: "itriple M view (on_card C) (on_card A) (State_Monad.return d) ?Q" if "\<not> diag_ok d" for d
    by (rule itriple_return) (use that in \<open>auto simp: on_card_def\<close>)
  have has: "itriple M view (on_card C) (on_card A) (call (n_meta_has N ?k) :: ('s, 'r, _) iprog)
      (\<lambda>(rc, exact). on_card (\<lambda>a v. A a v \<and> (succeeded rc \<and> \<not> exact \<longrightarrow> metas v ?k = None)))"
  proof (rule itriple_ask [OF contractD(8) [OF N]])
    fix s and x :: "'r obs"
    assume "o_ncm x = view s" "on_card A x"
    moreover have "succeeded (fst (fst (n_meta_has N ?k s))) \<longrightarrow> snd (fst (n_meta_has N ?k s)) = (metas (view s) ?k \<noteq> None)"
      using N by (simp add: ncm_contract_def ncm_answers_def)
    ultimately show "(case fst (n_meta_has N ?k s) of (rc, exact) \<Rightarrow>
        on_card (\<lambda>a v. A a v \<and> (succeeded rc \<and> \<not> exact \<longrightarrow> metas v ?k = None))) x"
      by (cases "fst (n_meta_has N ?k s)") (auto simp: on_card_def)
  qed (use C in \<open>auto simp: on_card_def\<close>)
  note ask = contractD [OF N, THEN inert_ask]
  have rest: "inert view (check_versions N meta)" "inert view (base_installed N (pm_appId meta))"
    unfolding check_versions_def base_installed_def latest_of_user_def latest_of_def streamCurrentFirmwarePacked_def Let_def
    by (intro inert_intros ask)+
  have CB: "?B a v \<Longrightarrow> C a v" for a v using C by blast
  have "itriple M view (on_card C) (on_card ?B) (check_versions N meta :: ('s, 'r, _) iprog) (\<lambda>_. on_card ?B)"
    by (rule inert_triple [OF rest(1), where A = "\<lambda>fs. ?B (fs Active)"]) (auto simp: on_card_def C)
  then have versions: "itriple M view (on_card C) (on_card ?B) (check_versions N meta :: ('s, 'r, _) iprog) ?Q"
    by (rule itriple_weaken) (auto simp: on_card_def)
  have after: "itriple M view (on_card C) (on_card ?B) (State_Monad.bind
      (if pm_metaType meta = mt_Patch N \<or> pm_metaType meta = mt_AddOnContent N then base_installed N (pm_appId meta)
       else State_Monad.return True) (\<lambda>base. if \<not> base
        then State_Monad.return (makeDiagnostic MissingContent
          ''The base application is not installed. Install the base game before its update/DLC.'' 0)
        else check_versions N meta) :: ('s, 'r, _) iprog) ?Q"
    by (intro on_card_inert [OF _ CB] inert_intros rest itriple_if versions itriple_return) (auto simp: on_card_def)
  show ?thesis
    unfolding validateStreamMetaAgainstInstalled_def
  proof (intro itriple_if, goal_cases)
    case 1
    then show ?case by (simp add: fails)
  next
    case 2
    show ?case
    proof (rule itriple_bind [OF has], clarify)
      fix rc exact
      show "itriple M view (on_card C) (on_card (\<lambda>a v. A a v \<and> (succeeded rc \<and> \<not> exact \<longrightarrow> metas v ?k = None)))
        (if \<not> succeeded rc then State_Monad.return (rcDiag rc RegistrationError ''ContentMetaDatabaseHas'')
         else if exact
         then State_Monad.return (makeDiagnostic AlreadyInstalled ''This exact title/version is already installed.'' 0)
         else do {
           base \<leftarrow> (if pm_metaType meta = mt_Patch N \<or> pm_metaType meta = mt_AddOnContent N
             then base_installed N (pm_appId meta) else State_Monad.return True);
           if \<not> base
           then State_Monad.return (makeDiagnostic MissingContent
             ''The base application is not installed. Install the base game before its update/DLC.'' 0)
           else check_versions N meta
         } :: ('s, 'r, _) iprog) ?Q"
      proof (cases "succeeded rc \<and> \<not> exact")
        case True
        then show ?thesis
          using after by (simp only: simp_thms if_False) 
      next
        case False
        then show ?thesis
          by (intro itriple_if itriple_return) (auto simp: on_card_def)
      qed
    qed
  qed
qed

text \<open>A journal of the title that still stands for a rollback, and the meta data on the storage.\<close>

definition titled :: "ncm_view \<Rightarrow> PlannedContent list \<Rightarrow> meta_key \<Rightarrow> bool \<Rightarrow> json option option \<Rightarrow> ncm_view \<Rightarrow> bool" where
  "titled old ps key ms a v =
    ((\<exists>p app rp ti st. a = Some (Some (journal_json p app key ps ms rp ti st)) \<and> \<not> final_stage st) \<and>
     tracked old key ps ms {} {} v \<and> ready ps v)"

definition meta_there :: "meta_key \<Rightarrow> ncm_view \<Rightarrow> bool" where
  "meta_there key v = (metas v key \<noteq> None \<and> committed v = metas v)"

lemma journaled_titled: "journaled old dn ps {} {} a v \<Longrightarrow> titled old ps provisional_key False a v"
  unfolding journaled_def titled_def by blast

lemma titled_recovers: "titled old ps key ms a v \<Longrightarrow> recovers old a v"
  unfolding titled_def using crash_journal small_simps(1) by blast

lemma titled_crash_ok: "titled old ps key ms a v \<Longrightarrow> crash_ok old S a v"
  using titled_recovers recovers_crash_ok by blast

lemma triple_save_title:
  assumes "\<And>a v. A a v \<Longrightarrow> recovers old a v \<and> tracked old key ps ms {} {} v \<and> ready ps v \<and> E v" and "\<not> final_stage st"
  shows "itriple True view (on_card (crash_ok old S)) (on_card A) (saveJournal p app key ps ms rp ti st)
    (\<lambda>_. on_card (\<lambda>a v. titled old ps key ms a v \<and> E v))"
proof (rule itriple_weaken [OF triple_save [of A "crash_ok old S"]])
  fix a v
  assume A: "A a v"
  show "crash_ok old S a v" using assms(1) [OF A] recovers_crash_ok by blast
  show "crash_ok old S (Some (Some (journal_json p app key ps ms rp ti st))) v"
    using assms(1) [OF A] assms(2) crash_journal recovers_crash_ok small_simps(1) by blast
next
  show "on_card (\<lambda>a v. titled old ps key ms a v \<and> E v) x"
    if "on_card (\<lambda>a v. a = Some (Some (journal_json p app key ps ms rp ti st)) \<and> (\<exists>b. A b v)) x" for x
    using that assms unfolding on_card_def titled_def by blast
qed

lemma titled_set:
  "titled old ps key True a v \<Longrightarrow> titled old ps key True a (v\<lparr>metas := (metas v)(key \<mapsto> b)\<rparr>)"
  "titled old ps key True a v \<Longrightarrow> titled old ps key True a (v\<lparr>committed := metas v\<rparr>)"
  "titled old ps key ms a v \<Longrightarrow> titled old ps key ms a (v\<lparr>app_records := r\<rparr>)"
  using tracked_set_meta by (auto simp: titled_def ready_def)

lemma titled_new_key:
  assumes "titled old ps key False a v"
  shows "recovers old a v \<and> tracked old key' ps False {} {} v \<and> ready ps v"
    and "metas v key' = None \<Longrightarrow> k_padding key' = 0 \<Longrightarrow> recovers old a v \<and> tracked old key' ps True {} {} v \<and> ready ps v \<and> True"
  using assms tracked_new_key titled_recovers [OF assms] unfolding titled_def by blast+

lemma titled_same_key: "titled old ps key ms a v \<Longrightarrow> recovers old a v \<and> tracked old key ps ms {} {} v \<and> ready ps v"
  using titled_recovers by (auto simp: titled_def)

abbreviation closing :: "ncm_view \<Rightarrow> PlannedContent list \<Rightarrow> meta_key \<Rightarrow> json option option \<Rightarrow> ncm_view \<Rightarrow> bool" where
  "closing old ps key a v \<equiv> titled old ps key True a v \<and> meta_there key v"

text \<open>The ticket.\<close>

lemma triple_install_ticket:
  assumes N: "ncm_contract N view"
  shows "itriple True view (on_card (crash_ok old S)) (on_card (closing old (plan t) key))
    (install_ticket N dn app key t :: ('s, 'r, _) iprog) (\<lambda>_. on_card (closing old (plan t) key))"
proof -
  have C: "closing old (plan t) key a v \<Longrightarrow> crash_ok old S a v" for a v using titled_crash_ok by blast
  have save: "itriple True view (on_card (crash_ok old S)) (on_card (closing old (plan t) key))
      (saveJournal dn app key (plan t) True False True ''ticket-imported'' :: ('s, 'r, _) iprog)
      (\<lambda>_. on_card (closing old (plan t) key))"
    by (rule triple_save_title) (use titled_same_key in \<open>auto simp: final_stage_def\<close>)
  show ?thesis
    unfolding install_ticket_def
    by (intro on_card_inert [OF _ C] inert_asks [OF N] itriple_option itriple_prod itriple_if itriple_return
        itriple_bind [OF save]; assumption?)
qed

text \<open>The outcome of the transaction: the title is installed, or a recovery restores.\<close>

definition settled_post :: "ncm_view \<Rightarrow> content_id set \<Rightarrow> Diagnostic \<Rightarrow> 'r obs \<Rightarrow> bool" where
  "settled_post old S d x = (if diag_ok d then on_card (\<lambda>a v. a = None \<and> title_installed S v) x else on_card (recovers old) x)"

lemma ready_settled: "ready ps v \<Longrightarrow> S \<subseteq> settled_ids ps \<Longrightarrow> \<forall>c \<in> S. contents v c \<noteq> None"
  unfolding ready_def settled_ids_def by blast

lemma closing_installed:
  assumes "closing old ps key a v" and "S \<subseteq> settled_ids ps" and "key \<in> r_key ` set (app_records v app)"
  shows "title_installed S v"
proof -
  have "\<forall>c \<in> S. contents v c \<noteq> None" using assms(1,2) ready_settled unfolding titled_def by blast
  then show ?thesis using assms(1,3) unfolding title_installed_def meta_there_def by metis
qed

lemma add_record_key: "key \<in> r_key ` set (add_record N key rs)"
  by (auto simp: add_record_def)

lemma done_crash_ok: "install_done S a v \<Longrightarrow> crash_ok old S a v"
  by (simp add: crash_ok_def)

lemma triple_save_done:
  assumes "\<And>a v. A a v \<Longrightarrow> crash_ok old S a v \<and> title_installed S v" and "final_stage st"
  shows "itriple True view (on_card (crash_ok old S)) (on_card A) (saveJournal p app key ps ms rp ti st) (\<lambda>_. on_card (install_done S))"
proof (rule itriple_weaken [OF triple_save [of A "crash_ok old S"]])
  fix a v
  assume A: "A a v"
  show "crash_ok old S a v" using assms(1) [OF A] by blast
  show "crash_ok old S (Some (Some (journal_json p app key ps ms rp ti st))) v"
    using assms(1) [OF A] finished_journal [OF _ assms(2)] done_crash_ok by blast
next
  show "on_card (install_done S) x"
    if "on_card (\<lambda>a v. a = Some (Some (journal_json p app key ps ms rp ti st)) \<and> (\<exists>b. A b v)) x" for x
    using that assms(1) finished_journal [OF _ assms(2)] unfolding on_card_def by metis
qed

lemma triple_push:
  assumes N: "ncm_contract N view" and rs: "key \<in> r_key ` set rs"
  shows "itriple True view (on_card (crash_ok old S)) (on_card (closing old ps key)) (pushApplicationRecord N app rs :: ('s, 'r, _) iprog)
    (\<lambda>rc. on_card (\<lambda>a v. closing old ps key a v \<and> (succeeded rc \<longrightarrow> key \<in> r_key ` set (app_records v app))))"
proof -
  let ?Q = "\<lambda>rc. on_card (\<lambda>a v. closing old ps key a v \<and> (succeeded rc \<longrightarrow> key \<in> r_key ` set (app_records v app)))"
  have C: "closing old ps key a v \<Longrightarrow> crash_ok old S a v" for a v using titled_crash_ok by blast
  have push: "itriple True view (on_card (crash_ok old S)) (on_card (closing old ps key)) (call (n_push_record N app rs) :: ('s, 'r, _) iprog) ?Q"
  proof (rule itriple_does [OF contract_effects(9) [OF N]])
    fix x :: "'r obs" and v
    assume "on_card (closing old ps key) x" "v = (o_ncm x)\<lparr>app_records := (app_records (o_ncm x))(app := rs)\<rparr>"
    then show "on_card (crash_ok old S) (x\<lparr>o_ncm := v\<rparr>) \<and> ?Q 0 (x\<lparr>o_ncm := v\<rparr>)"
      using titled_set(3) [of old ps key True] C rs by (simp add: on_card_def meta_there_def)
  qed (auto simp: on_card_def C)
  note ask = contractD [OF N, THEN inert_ask]
  show ?thesis
    unfolding pushApplicationRecord_def
    by (intro on_card_inert [OF _ C] ask itriple_if push itriple_return; (assumption | simp add: on_card_def)?)
qed

lemma triple_push_records:
  assumes N: "ncm_contract N view" and S: "S \<subseteq> settled_ids (plan t)"
  shows "itriple True view (on_card (crash_ok old S)) (on_card (closing old (plan t) key))
    (push_records N dn meta key t ticket :: ('s, 'r, _) iprog) (settled_post old S)"
proof -
  let ?J = "closing old (plan t) key" and ?app = "pm_appId meta"
  have C: "?J a v \<Longrightarrow> crash_ok old S a v" for a v using titled_crash_ok by blast
  have fails: "itriple True view (on_card (crash_ok old S)) (on_card A) (State_Monad.return d) (settled_post old S)"
    if "\<not> diag_ok d" "\<And>a v. A a v \<Longrightarrow> ?J a v" for d A
  proof (rule itriple_return)
    have "recovers old a v" if "A a v" for a v using that that titled_recovers \<open>\<And>a v. A a v \<Longrightarrow> ?J a v\<close> by blast
    then show "settled_post old S d x" if "on_card A x" for x using that \<open>\<not> diag_ok d\<close> by (simp add: settled_post_def on_card_def)
  qed
  have save: "itriple True view (on_card (crash_ok old S)) (on_card ?J)
      (saveJournal dn ?app key (plan t) True False ticket ''application-record-pending'' :: ('s, 'r, _) iprog) (\<lambda>_. on_card ?J)"
    by (rule triple_save_title) (use titled_same_key in \<open>auto simp: final_stage_def\<close>)
  let ?K = "\<lambda>a v. ?J a v \<and> (0 = (0 :: u32) \<longrightarrow> key \<in> r_key ` set (app_records v ?app))"
  have done1: "itriple True view (on_card (crash_ok old S)) (on_card ?K)
      (saveJournal dn ?app key (plan t) True True ticket ''application-record'' :: ('s, 'r, _) iprog) (\<lambda>_. on_card (install_done S))"
    by (rule triple_save_done) (use C closing_installed [of old "plan t" key _ _ S ?app] S in \<open>blast | simp add: final_stage_def\<close>)+
  have done2: "itriple True view (on_card (crash_ok old S)) (on_card (install_done S))
      (saveJournal dn ?app key (plan t) True True ticket ''complete'' :: ('s, 'r, _) iprog) (\<lambda>_. on_card (install_done S))"
    by (rule triple_save_done) (auto simp: final_stage_def done_crash_ok install_done_def [of S])
  have clear: "itriple True view (on_card (crash_ok old S)) (on_card (install_done S)) (removeJournal :: ('s, 'r, _) iprog)
      (\<lambda>(ok, _) x. ok \<and> on_card (\<lambda>a v. a = None \<and> (\<exists>b. install_done S b v)) x)"
    by (rule triple_remove) (auto simp: done_crash_ok install_done_def [of S])
  have finish: "itriple True view (on_card (crash_ok old S)) (on_card ?K) (do {
      saveJournal dn ?app key (plan t) True True ticket ''application-record'';
      saveJournal dn ?app key (plan t) True True ticket ''complete'';
      removeJournal;
      State_Monad.return (makeDiagnostic NoError [] 0)
    } :: ('s, 'r, _) iprog) (settled_post old S)"
    by (rule itriple_bind [OF done1], rule itriple_bind [OF done2], rule itriple_bind [OF clear], rule itriple_return)
      (auto simp: settled_post_def on_card_def install_done_def)
  have push: "itriple True view (on_card (crash_ok old S)) (on_card ?J) (do {
      rc \<leftarrow> pushApplicationRecord N ?app rs;
      if \<not> succeeded rc then State_Monad.return (rcDiag rc RegistrationError ''PushApplicationRecord(stream)'')
      else do {
        saveJournal dn ?app key (plan t) True True ticket ''application-record'';
        saveJournal dn ?app key (plan t) True True ticket ''complete'';
        removeJournal;
        State_Monad.return (makeDiagnostic NoError [] 0)
      }
    } :: ('s, 'r, _) iprog) (settled_post old S)" if rs: "key \<in> r_key ` set rs" for rs
  proof (rule itriple_bind [OF triple_push [OF N rs]], goal_cases)
    case (1 rc)
    show ?case
    proof (cases "succeeded rc")
      case True
      with finish show ?thesis by simp
    next
      case False
      then show ?thesis by (simp add: fails)
    qed
  qed
  show ?thesis
    unfolding push_records_def
    by (intro on_card_inert [OF _ C] inert_asks [OF N] itriple_prod itriple_if itriple_bind [OF save] push add_record_key;
      (assumption | simp add: fails))
qed

lemma triple_complete_title:
  assumes N: "ncm_contract N view" and S: "S \<subseteq> settled_ids (plan t)" and pad: "k_padding key = 0"
  shows "itriple True view (on_card (crash_ok old S)) (on_card (\<lambda>a v. titled old (plan t) provisional_key False a v \<and> metas v key = None))
    (complete_title N dn cnmt meta key t :: ('s, 'r, _) iprog) (\<lambda>(d, _). settled_post old S d)"
proof -
  let ?C = "on_card (crash_ok old S)" and ?ps = "plan t" and ?app = "pm_appId meta"
  let ?save = "\<lambda>ms st. saveJournal dn ?app key ?ps ms False False st :: ('s, 'r, unit) iprog"
  let ?A = "\<lambda>a v. titled old ?ps provisional_key False a v \<and> metas v key = None"
  let ?B = "\<lambda>a v. titled old ?ps key False a v \<and> metas v key = None"
  let ?T = "\<lambda>a v. titled old ?ps key True a v \<and> True"
  have fails: "itriple True view ?C (on_card (\<lambda>a v. titled old ?ps key True a v \<and> E v)) (State_Monad.return (d, u) :: ('s, 'r, _) iprog)
      (\<lambda>(d, _). settled_post old S d)" if "\<not> diag_ok d" for d and u :: transfer and E
    by (rule itriple_return) (use that titled_recovers [of old ?ps key True] in \<open>auto simp: settled_post_def on_card_def\<close>)
  have s1: "itriple True view ?C (on_card ?A) (?save False ''stream-content-complete'') (\<lambda>_. on_card ?B)"
    by (rule triple_save_title) (use titled_new_key(1) in \<open>blast | simp add: final_stage_def\<close>)+
  have s2: "itriple True view ?C (on_card ?B) (?save True ''metadata-pending'') (\<lambda>_. on_card ?T)"
    by (rule triple_save_title) (use titled_new_key(2) [OF _ _ pad] in \<open>blast | simp add: final_stage_def\<close>)+
  have s3: "itriple True view ?C (on_card (closing old ?ps key)) (?save True ''metadata-committed'') (\<lambda>_. on_card (closing old ?ps key))"
    by (rule triple_save_title) (use titled_same_key in \<open>auto simp: final_stage_def\<close>)
  have set: "itriple True view ?C (on_card ?T) (call (n_meta_set N key b) :: ('s, 'r, u32) iprog)
      (\<lambda>rc. on_card (\<lambda>a v. titled old ?ps key True a v \<and> (succeeded rc \<longrightarrow> metas v key \<noteq> None)))" for b
  proof (rule itriple_does [OF contract_effects(6) [OF N]])
    fix x :: "'r obs" and v
    assume "on_card ?T x" "v = (o_ncm x)\<lparr>metas := (metas (o_ncm x))(key \<mapsto> b)\<rparr>"
    then show "?C (x\<lparr>o_ncm := v\<rparr>) \<and> on_card (\<lambda>a v. titled old ?ps key True a v \<and> (succeeded 0 \<longrightarrow> metas v key \<noteq> None)) (x\<lparr>o_ncm := v\<rparr>)"
      using titled_set(1) [of old ?ps key] titled_crash_ok [of old ?ps key True _ _ S] by (simp add: on_card_def)
  qed (use titled_crash_ok [of old ?ps key True _ _ S] in \<open>auto simp: on_card_def\<close>)
  have commit: "itriple True view ?C (on_card (\<lambda>a v. titled old ?ps key True a v \<and> (succeeded 0 \<longrightarrow> metas v key \<noteq> None)))
      (call (n_meta_commit N) :: ('s, 'r, u32) iprog)
      (\<lambda>rc. on_card (\<lambda>a v. titled old ?ps key True a v \<and> (succeeded rc \<longrightarrow> meta_there key v)))"
  proof (rule itriple_does [OF contract_effects(8) [OF N]])
    fix x :: "'r obs" and v
    assume "on_card (\<lambda>a v. titled old ?ps key True a v \<and> (succeeded 0 \<longrightarrow> metas v key \<noteq> None)) x"
      "v = (o_ncm x)\<lparr>committed := metas (o_ncm x)\<rparr>"
    then show "?C (x\<lparr>o_ncm := v\<rparr>) \<and> on_card (\<lambda>a v. titled old ?ps key True a v \<and> (succeeded 0 \<longrightarrow> meta_there key v)) (x\<lparr>o_ncm := v\<rparr>)"
      using titled_set(2) [of old ?ps key] titled_crash_ok [of old ?ps key True _ _ S] by (simp add: on_card_def meta_there_def)
  qed (use titled_crash_ok [of old ?ps key True _ _ S] in \<open>auto simp: on_card_def\<close>)
  have ticket: "itriple True view ?C (on_card (closing old ?ps key)) (install_ticket N dn ?app key t :: ('s, 'r, _) iprog)
      (\<lambda>_. on_card (closing old ?ps key))"
    by (rule triple_install_ticket [OF N])
  have push: "itriple True view ?C (on_card (closing old ?ps key)) (push_records N dn meta key u b :: ('s, 'r, _) iprog) (settled_post old S)"
    if "plan u = ?ps" for u b
    using triple_push_records [OF N, of S u old key dn meta b] S that by simp
  have last: "itriple True view ?C (on_card (closing old ?ps key)) (do {
      ?save True ''metadata-committed'';
      (d, ticket) \<leftarrow> install_ticket N dn ?app key t;
      let t = t\<lparr>outcome := (outcome t)\<lparr>ticketImported := ticket\<rparr>\<rparr>;
      if \<not> diag_ok d then State_Monad.return (d, t)
      else do {
        d \<leftarrow> push_records N dn meta key t ticket;
        if \<not> diag_ok d then State_Monad.return (d, t)
        else State_Monad.return
          (makeDiagnostic NoError ''Direct MTP streaming install completed'' 0,
           t\<lparr>outcome := (outcome t)\<lparr>applicationRecordPushed := True, ri_titleId := pm_titleId meta, ri_applicationId := ?app\<rparr>\<rparr>)
      }
    } :: ('s, 'r, _) iprog) (\<lambda>(d, _). settled_post old S d)"
    unfolding Let_def
  proof (rule itriple_bind [OF s3], rule itriple_bind [OF ticket], clarify, intro itriple_if fails, simp, goal_cases)
    case (1 d b)
    show ?case
      by (rule itriple_bind [OF push], simp, intro itriple_if itriple_return) (auto simp: settled_post_def)
  qed
  show ?thesis
    unfolding complete_title_def
  proof (rule itriple_bind [OF s1], rule itriple_bind [OF s2], rule itriple_bind [OF set], goal_cases)
    case (1 _ _ rc)
    show ?case
    proof (cases "succeeded rc")
      case True
      then have rc: "rc = 0" by simp
      show ?thesis
        unfolding rc
      proof (simp only: simp_thms if_False, rule itriple_bind [OF commit, unfolded simp_thms], goal_cases)
        case (1 rc)
        show ?case
        proof (cases "succeeded rc")
          case True
          with last show ?thesis by simp
        next
          case False
          then show ?thesis using fails [of _ "\<lambda>_. True"] by simp
        qed
      qed
    next
      case False
      then show ?thesis using fails [of _ "\<lambda>_. True"] by simp
    qed
  qed
qed

section \<open>The whole transaction\<close>

lemma nca_ids_sort [simp]: "nca_ids (sort_key f es) = nca_ids es"
  by (simp add: nca_ids_def)

lemma triple_run_transaction:
  assumes N: "ncm_contract N view" and idle_plan: "idle_plan (plan t)"
  shows "itriple True view (on_card (crash_ok old (nca_ids (entries m)))) (on_card (journaled old dn (plan t) {} {}))
    (run_transaction N rd dn m cnmt t :: ('s, 'r, _) iprog) (\<lambda>(d, _). settled_post old (nca_ids (entries m)) d)"
proof -
  let ?S = "nca_ids (entries m)"
  let ?C = "on_card (crash_ok old ?S)" and ?post = "\<lambda>(d, _). settled_post old ?S d"
  have tail: "itriple True view ?C (step_post old dn ?S (plan t) (d, u))
      (if diag_ok d \<and> streamOffset u < packageSize m
       then skip rd ''Finishing NSP stream'' (unat (packageSize m - streamOffset u)) u
       else State_Monad.return (d, u) :: ('s, 'r, _) iprog) (step_post old dn ?S (plan t))" for d u
  proof (cases "diag_ok d \<and> streamOffset u < packageSize m")
    case True
    have "itriple True view ?C (\<lambda>x. settles ?S (plan t) (plan u) \<and> on_card (journaled old dn (plan u) {} {}) x)
        (skip rd ''Finishing NSP stream'' (unat (packageSize m - streamOffset u)) u :: ('s, 'r, _) iprog) (step_post old dn ?S (plan t))"
    proof (rule itriple_pre)
      assume "settles ?S (plan t) (plan u)"
      then show "itriple True view ?C (on_card (journaled old dn (plan u) {} {}))
        (skip rd ''Finishing NSP stream'' (unat (packageSize m - streamOffset u)) u :: ('s, 'r, _) iprog) (step_post old dn ?S (plan t))"
        by (intro itriple_weaken [OF triple_skip(1) [OF journaled_crash_ok]]) (auto intro: on_card_idle)
    qed (intro still_intros)
    then show ?thesis using True by (simp, elim itriple_weaken) auto
  qed (simp only: if_False, rule itriple_return)
  have title: "itriple True view ?C (on_card (journaled old dn (plan u) {} {})) (do {
      meta \<leftarrow> parseInstalledMeta N cnmt;
      if \<not> diag_ok (pm_diagnostic meta) then State_Monad.return (pm_diagnostic meta, u)
      else case streamValidateCnmtReferences meta m of
        Some refError \<Rightarrow> State_Monad.return (makeDiagnostic MissingContent refError 0, u)
      | None \<Rightarrow> do {
          d \<leftarrow> validateStreamMetaAgainstInstalled N meta;
          if \<not> diag_ok d then State_Monad.return (d, u)
          else complete_title N dn cnmt meta (meta_key_of N meta) u
        }
    } :: ('s, 'r, _) iprog) ?post" if S: "?S \<subseteq> settled_ids (plan u)" for u
  proof -
    let ?J = "journaled old dn (plan u) {} {}"
    have fails: "itriple True view ?C (on_card (\<lambda>a v. ?J a v \<and> E v)) (State_Monad.return (d, u) :: ('s, 'r, _) iprog) ?post"
      if "\<not> diag_ok d" for d E
      by (rule itriple_return) (use that journaled_recovers [of old dn "plan u" "{}" "{}"] in \<open>auto simp: settled_post_def on_card_def\<close>)
    have rest: "itriple True view ?C (on_card ?J) (do {
        d \<leftarrow> validateStreamMetaAgainstInstalled N meta;
        if \<not> diag_ok d then State_Monad.return (d, u)
        else complete_title N dn cnmt meta (meta_key_of N meta) u
      } :: ('s, 'r, _) iprog) ?post" for meta
    proof (rule itriple_bind [OF triple_validate [OF N]], erule journaled_crash_ok, goal_cases)
      case (1 d)
      show ?case
      proof (cases "diag_ok d")
        case True
        have "itriple True view ?C (on_card (\<lambda>a v. titled old (plan u) provisional_key False a v \<and> metas v (meta_key_of N meta) = None))
            (complete_title N dn cnmt meta (meta_key_of N meta) u :: ('s, 'r, _) iprog) ?post"
          by (rule triple_complete_title [OF N S]) (simp add: meta_key_of_def)
        then show ?thesis
          using True by (simp, elim itriple_weaken) (use journaled_titled in \<open>auto simp: on_card_def\<close>)
      next
        case False
        then show ?thesis using fails [of d "\<lambda>_. True"] by simp
      qed
    qed
    show ?thesis
      by (rule on_card_inert [OF inert_asks(3) [OF N] journaled_crash_ok], assumption)
        (intro itriple_if itriple_option rest; use fails [of _ "\<lambda>_. True"] in simp)
  qed
  have finish: "itriple True view ?C (step_post old dn ?S (plan t) (d, u)) (if \<not> diag_ok d then State_Monad.return (d, u) else do {
      meta \<leftarrow> parseInstalledMeta N cnmt;
      if \<not> diag_ok (pm_diagnostic meta) then State_Monad.return (pm_diagnostic meta, u)
      else case streamValidateCnmtReferences meta m of
        Some refError \<Rightarrow> State_Monad.return (makeDiagnostic MissingContent refError 0, u)
      | None \<Rightarrow> do {
          d \<leftarrow> validateStreamMetaAgainstInstalled N meta;
          if \<not> diag_ok d then State_Monad.return (d, u)
          else complete_title N dn cnmt meta (meta_key_of N meta) u
        }
    } :: ('s, 'r, _) iprog) ?post" for d u
  proof (cases "diag_ok d")
    case True
    then have eq: "step_post old dn ?S (plan t) (d, u) =
        (\<lambda>x. settles ?S (plan t) (plan u) \<and> on_card (journaled old dn (plan u) {} {}) x)"
      by (simp add: fun_eq_iff)
    show ?thesis
      unfolding eq using True
      by (simp only: not_True_eq_False if_False, intro itriple_pre title still_intros)
        (auto simp: settles_def intro!: still_intros)
  next
    case False
    then show ?thesis by (simp only: not_False_eq_True if_True, intro itriple_return) (simp add: settled_post_def)
  qed
  show ?thesis
    unfolding run_transaction_def
    by (rule itriple_bind [OF triple_receive_entries [OF N idle_plan, where es = "sort_key n_offset (entries m)", unfolded nca_ids_sort]], simp only: split_paired_all prod.case,
        rule itriple_bind [OF tail], simp only: split_paired_all prod.case, rule finish)
qed

definition rolled_back :: "ncm_view \<Rightarrow> json option option \<Rightarrow> ncm_view \<Rightarrow> bool" where
  "rolled_back old a v = (a = None \<and> (\<exists>L H. small L H \<and> restored_upto old L H v))"

definition ended :: "ncm_view \<Rightarrow> content_id set \<Rightarrow> Diagnostic \<Rightarrow> 'r obs \<Rightarrow> bool" where
  "ended old S d x = (if diag_ok d then on_card (\<lambda>a v. a = None \<and> title_installed S v) x else on_card (rolled_back old) x)"

lemma triple_recover_small:
  assumes N: "ncm_contract N view" "ncm_reliable N view"
  shows "itriple True view (on_card (crash_ok old S)) (on_card (recovers old)) (recoverStaleRealInstall N)
    (\<lambda>(ok, _) x. ok \<and> on_card (rolled_back old) x)"
proof -
  have eq: "on_card (recovers old) = (\<lambda>x. \<exists>L H. small L H \<and> on_card (repairable old L H) x)"
    by (simp add: on_card_def recovers_def fun_eq_iff)
  show ?thesis
    unfolding eq
  proof (intro itriple_ex itriple_pre still_intros)
    fix L H
    assume s: "small L H"
    have "crash_ok old S a v" if "repairable old L H a v" for a v
      using that s unfolding crash_ok_def recovers_def by blast
    then show "itriple True view (on_card (crash_ok old S)) (on_card (repairable old L H)) (recoverStaleRealInstall N)
        (\<lambda>(ok, _) x. ok \<and> on_card (rolled_back old) x)"
      by (intro itriple_weaken [OF triple_recover [OF N, of old L H]])
        (use s in \<open>auto simp: on_card_def rolled_back_def\<close>)
  qed
qed

text \<open>The state before the transaction, and a plan made in it.\<close>

definition fresh_plan :: "ncm_view \<Rightarrow> PlannedContent list \<Rightarrow> bool" where
  "fresh_plan old ps = (\<forall>p \<in> set ps. length (cid p) = 16 \<and> length (placeholder p) = 16 \<and> \<not> placeholderCreated p \<and>
     \<not> registered p \<and> (preExisting p \<longrightarrow> contents old (cid p) \<noteq> None))"

definition before_install :: "ncm_view \<Rightarrow> json option option \<Rightarrow> ncm_view \<Rightarrow> bool" where
  "before_install old a v = (a = None \<and> v = old \<and> committed old = metas old)"

lemma before_install_rolled_back: "before_install old a v \<Longrightarrow> rolled_back old a v"
  by (auto simp: before_install_def rolled_back_def restored_upto_def intro!: exI [of _ "{}"])

lemma before_install_recovers: "before_install old a v \<Longrightarrow> recovers old a v"
  by (auto simp: before_install_def recovers_def repairable_def restored_upto_def intro!: exI [of _ "{}"])

lemma fresh_tracked:
  assumes "fresh_plan old ps" and "before_install old a v"
  shows "tracked old provisional_key ps False {} {} v \<and> ready ps v"
  using assms
  by (auto simp: fresh_plan_def before_install_def tracked_def plan_fit_def storage_tracked_def metas_tracked_def ready_def undoes_content_def)

lemma triple_guarded:
  assumes N: "ncm_contract N view" "ncm_reliable N view" and fresh: "fresh_plan old (plan t)"
  shows "itriple True view (on_card (crash_ok old (nca_ids (entries m)))) (on_card (before_install old))
    (guarded_transaction N rd dn m cnmt t :: ('s, 'r, _) iprog) (\<lambda>r. ended old (nca_ids (entries m)) (ri_diagnostic r))"
proof -
  let ?S = "nca_ids (entries m)"
  let ?C = "on_card (crash_ok old ?S)"
  have save: "itriple True view ?C (on_card (before_install old))
      (saveJournal dn 0 provisional_key (plan t) False False False ''stream-prepared'' :: ('s, 'r, _) iprog)
      (\<lambda>_. on_card (journaled old dn (plan t) {} {}))"
    by (rule triple_save_plan [OF before_install_recovers fresh_tracked [OF fresh]]) (simp_all add: final_stage_def)
  have idle_plan: "idle_plan (plan t)" using fresh by (simp add: fresh_plan_def idle_plan_def)
  have finish: "itriple True view ?C (settled_post old ?S d) (do {
      (if \<not> diag_ok d then do { recoverStaleRealInstall N; State_Monad.return () } else State_Monad.return ());
      State_Monad.return ((outcome u)\<lparr>ri_diagnostic := d\<rparr>)
    } :: ('s, 'r, _) iprog) (\<lambda>r. ended old ?S (ri_diagnostic r))" for d u
  proof (cases "diag_ok d")
    case True
    then show ?thesis
      by (simp, intro itriple_return) (simp add: settled_post_def ended_def)
  next
    case False
    then have eq: "settled_post old ?S d = on_card (recovers old)" by (simp add: settled_post_def fun_eq_iff)
    show ?thesis
      unfolding eq using False
      by (simp, intro itriple_bind [OF triple_recover_small [OF N]] itriple_return) (auto simp: ended_def)
  qed
  show ?thesis
    unfolding guarded_transaction_def
    by (rule itriple_bind [OF save], rule itriple_bind [OF triple_run_transaction [OF N(1) idle_plan]],
        simp only: split_paired_all prod.case, rule finish)
qed

section \<open>The handler\<close>

lemma triple_make_plan:
  assumes N: "ncm_contract N view" and A: "\<And>a v. A a v \<Longrightarrow> C a v" "\<And>a v. A a v \<Longrightarrow> contents v = contents old"
    and "\<forall>e \<in> set es. length (contentId e) = 16"
  shows "fresh_plan old ps \<Longrightarrow> itriple True view (on_card C) (on_card A) (make_plan N es ps n :: ('s, 'r, _) iprog)
    (\<lambda>r x. (case r of Inl d \<Rightarrow> \<not> diag_ok d | Inr (qs, _) \<Rightarrow> fresh_plan old qs) \<and> on_card A x)"
  using assms(4)
proof (induction es arbitrary: ps n)
  case Nil
  then show ?case by (auto intro!: itriple_return)
next
  case (Cons e es)
  let ?Q = "\<lambda>r x. (case r of Inl d \<Rightarrow> \<not> diag_ok d | Inr (qs, _) \<Rightarrow> fresh_plan old qs) \<and> on_card A x"
  have has: "itriple True view (on_card C) (on_card A) (call (n_has N (contentId e)) :: ('s, 'r, _) iprog)
      (\<lambda>(rc, exists) x. (succeeded rc \<longrightarrow> exists = (contents old (contentId e) \<noteq> None)) \<and> on_card A x)"
  proof (rule itriple_ask [OF contractD(5) [OF N]])
    fix s and x :: "'r obs"
    assume x: "o_ncm x = view s" "on_card A x"
    then have "contents (view s) = contents old" using A(2) by (simp add: on_card_def)
    moreover have "succeeded (fst (fst (n_has N (contentId e) s))) \<longrightarrow>
        snd (fst (n_has N (contentId e) s)) = (contents (view s) (contentId e) \<noteq> None)"
      using N by (simp add: ncm_contract_def ncm_answers_def)
    ultimately show "(case fst (n_has N (contentId e) s) of (rc, exists) \<Rightarrow>
        \<lambda>x. (succeeded rc \<longrightarrow> exists = (contents old (contentId e) \<noteq> None)) \<and> on_card A x) x"
      using x(2) by (cases "fst (n_has N (contentId e) s)") auto
  qed (use A(1) in \<open>auto simp: on_card_def\<close>)
  have IH: "itriple True view (on_card C) (on_card A) (make_plan N es qs k :: ('s, 'r, _) iprog) ?Q" if "fresh_plan old qs" for qs k
    using Cons.IH [OF that] Cons.prems(2) by simp
  have planned: "fresh_plan old (ps @ [planned N e ex])" if "ex \<longrightarrow> contents old (contentId e) \<noteq> None" for ex
    using Cons.prems that by (auto simp: fresh_plan_def planned_def)
  show ?case
    unfolding make_plan.simps
  proof (intro itriple_if, goal_cases)
    case 1
    show ?case by (rule IH [OF Cons.prems(1)])
  next
    case 2
    show ?case
    proof (rule itriple_bind [OF has], simp only: split_paired_all prod.case, rule itriple_pre, goal_cases)
      case (1 rc exists)
      show ?case by (intro still_intros)
    next
      case (2 rc exists)
      then show ?case
        by (intro itriple_if itriple_return IH planned) auto
    qed
  qed
qed

lemma before_install_crash_ok: "before_install old a v \<Longrightarrow> crash_ok old S a v"
  using before_install_recovers recovers_crash_ok by blast

lemma triple_prepare:
  assumes N: "ncm_contract N view" and ids: "\<forall>e \<in> set (entries m). length (contentId e) = 16"
  shows "itriple True view (on_card (crash_ok old S)) (on_card (before_install old)) (prepare_transaction N m :: ('s, 'r, _) iprog)
    (\<lambda>r x. (case r of Inl d \<Rightarrow> \<not> diag_ok d | Inr qs \<Rightarrow> fresh_plan old qs) \<and> on_card (before_install old) x)"
proof -
  have plan: "itriple True view (on_card (crash_ok old S)) (on_card (before_install old)) (make_plan N (entries m) [] 0 :: ('s, 'r, _) iprog)
    (\<lambda>r x. (case r of Inl d \<Rightarrow> \<not> diag_ok d | Inr (qs, _) \<Rightarrow> fresh_plan old qs) \<and> on_card (before_install old) x)"
    by (rule triple_make_plan [OF N before_install_crash_ok _ ids]) (auto simp: before_install_def fresh_plan_def)
  show ?thesis
    unfolding prepare_transaction_def
  proof (rule on_card_inert [OF inert_asks(7) [OF N] before_install_crash_ok], assumption, intro itriple_if, goal_cases)
    case (1 d)
    then show ?case by (auto intro!: itriple_return)
  next
    case (2 d)
    show ?case
    proof (rule itriple_bind [OF plan], rule itriple_pre, goal_cases)
      case (1 r)
      show ?case by (intro still_intros)
    next
      case (2 r)
      then show ?case
        by (intro itriple_sum itriple_prod on_card_inert [OF inert_asks(5) [OF N] before_install_crash_ok] itriple_return) auto
    qed
  qed
qed

text \<open>The handler after the manifest was read.\<close>

definition after_manifest :: "'s ncm \<Rightarrow> 'r reader \<Rightarrow> string \<Rightarrow> NspManifest \<Rightarrow> u64 \<Rightarrow> ('s, 'r, RealInstallResult) iprog" where
  "after_manifest N rd dn m consumed =
    (if \<not> diag_ok (diagnostic m) then State_Monad.return (failure_result (diagnostic m))
     else case findCnmt m of
       None \<Rightarrow> State_Monad.return (failure_result (makeDiagnostic MissingContent ''CNMT NCA missing'' 0))
     | Some cnmt \<Rightarrow> do {
         p \<leftarrow> prepare_transaction N m;
         case p of
           Inl d \<Rightarrow> State_Monad.return (failure_result d)
         | Inr ps \<Rightarrow> guarded_transaction N rd dn m cnmt (new_transfer ps consumed)
       })"

lemma install_run:
  assumes "jfiles d Active = None" and "\<not> lost d" and "parseStreamManifest sz rd (source d) = ((m, k), s)"
  shows "run_state (installNspStreamToSdTransactional N rd dn sz) d = run_state (after_manifest N rd dn m k) (d\<lparr>source := s\<rparr>)"
  using assms
  by (simp add: installNspStreamToSdTransactional_def recoverStaleRealInstall_def peek_def feed_def after_manifest_def)

lemma triple_after_manifest:
  assumes N: "ncm_contract N view" "ncm_reliable N view"
    and ids: "diag_ok (diagnostic m) \<Longrightarrow> \<forall>e \<in> set (entries m). length (contentId e) = 16"
  shows "itriple True view (on_card (crash_ok old (nca_ids (entries m)))) (on_card (before_install old))
    (after_manifest N rd dn m k :: ('s, 'r, _) iprog) (\<lambda>r. ended old (nca_ids (entries m)) (ri_diagnostic r))"
proof -
  let ?S = "nca_ids (entries m)"
  have fails: "itriple True view (on_card (crash_ok old ?S)) (on_card (before_install old)) (State_Monad.return (failure_result d) :: ('s, 'r, _) iprog)
      (\<lambda>r. ended old ?S (ri_diagnostic r))" if "\<not> diag_ok d" for d
    by (rule itriple_return) (use that before_install_rolled_back in \<open>auto simp: ended_def failure_result_def on_card_def\<close>)
  have start: "itriple True view (on_card (crash_ok old ?S)) (on_card (before_install old)) (do {
      p \<leftarrow> prepare_transaction N m;
      case p of
        Inl d \<Rightarrow> State_Monad.return (failure_result d)
      | Inr ps \<Rightarrow> guarded_transaction N rd dn m cnmt (new_transfer ps k)
    } :: ('s, 'r, _) iprog) (\<lambda>r. ended old ?S (ri_diagnostic r))" if ok: "diag_ok (diagnostic m)" for cnmt
  proof (rule itriple_bind [OF triple_prepare [OF N(1) ids [OF ok]]], rule itriple_pre, goal_cases)
    case (1 r)
    show ?case by (intro still_intros)
  next
    case (2 r)
    have tr: "fresh_plan old ps \<Longrightarrow> itriple True view (on_card (crash_ok old ?S)) (on_card (before_install old))
        (guarded_transaction N rd dn m cnmt (new_transfer ps k) :: ('s, 'r, _) iprog) (\<lambda>r. ended old ?S (ri_diagnostic r))" for ps
      using triple_guarded [OF N, of old "new_transfer ps k"] by (simp add: new_transfer_def)
    show ?case using 2 by (intro itriple_sum fails tr) auto
  qed
  show ?thesis
    unfolding after_manifest_def
    by (intro itriple_if itriple_option start; simp add: fails)
qed

lemma install_outcome:
  assumes N: "ncm_contract N view" "ncm_reliable N view" and d: "sound_files d" "\<not> lost d" "jfiles d Active = None"
    and clean: "committed (view (svc d)) = metas (view (svc d))"
    and parse: "parseStreamManifest sz rd (source d) = ((m, k), s)"
    and run: "run_state (installNspStreamToSdTransactional N rd dn sz) d = (r, e)"
  shows "if lost e then crash_ok (view (svc d)) (nca_ids (entries m)) (jfiles e Active) (view (svc e))
    else ended (view (svc d)) (nca_ids (entries m)) (ri_diagnostic r) (obs view e)"
proof -
  let ?d = "d\<lparr>source := s\<rparr>"
  have run': "run_state (after_manifest N rd dn m k) ?d = (r, e)" using run install_run [OF d(3,2) parse] by simp
  have "itriple True view (on_card (crash_ok (view (svc d)) (nca_ids (entries m)))) (on_card (before_install (view (svc d))))
    (after_manifest N rd dn m k) (\<lambda>r. ended (view (svc d)) (nca_ids (entries m)) (ri_diagnostic r))"
    using triple_after_manifest [OF N] parseStreamManifest_ids [OF parse] by blast
  from itripleD [OF this _ _ _ run'] show ?thesis
    using d clean by (simp add: on_card_def obs_def before_install_def sound_files_def split: if_splits)
qed

section \<open>After a restart\<close>

text \<open>A restart: what was not committed of the meta data is gone.\<close>

definition restarted :: "('s \<Rightarrow> ncm_view) \<Rightarrow> ('s, 'r) device \<Rightarrow> ('s, 'r) device \<Rightarrow> bool" where
  "restarted view d e \<longleftrightarrow> \<not> lost e \<and> sound_files e \<and> jfiles e = jfiles d \<and>
     view (svc e) = (view (svc d))\<lparr>metas := committed (view (svc d))\<rparr>"

lemma restart_crash_ok:
  assumes "crash_ok old S a v"
  shows "crash_ok old S a (v\<lparr>metas := committed v\<rparr>)"
proof -
  have "tracked old key ps ms L H (v\<lparr>metas := committed v\<rparr>)" if "tracked old key ps ms L H v" for key ps ms L H
    using that unfolding tracked_def storage_tracked_def metas_tracked_def by simp metis
  then have "repairable old L H a (v\<lparr>metas := committed v\<rparr>)" if "repairable old L H a v" for L H
    using that unfolding repairable_def restored_upto_def by (cases "a = None") (simp; blast)+
  moreover have "title_installed S (v\<lparr>metas := committed v\<rparr>)" if "title_installed S v"
    using that by (auto simp: title_installed_def)
  ultimately show ?thesis
    using assms unfolding crash_ok_def recovers_def install_done_def by blast
qed

lemma recovery_after_crash:
  assumes N: "ncm_contract N view" "ncm_reliable N view" and "crash_ok old S (jfiles d Active) (view (svc d))"
    and "sound_files d" and "\<not> lost d" and "run_state (recoverStaleRealInstall N) d = ((ok, msg), e)"
  shows "if lost e then crash_ok old S (jfiles e Active) (view (svc e))
    else ok \<and> jfiles e Active = None \<and> (title_installed S (view (svc e)) \<or> rolled_back old None (view (svc e)))"
proof (cases "recovers old (jfiles d Active) (view (svc d))")
  case True
  then show ?thesis
    using itripleD [OF triple_recover_small [OF N, of old S] assms(5,4) _ assms(6)]
    by (auto simp: on_card_def obs_def rolled_back_def split: if_splits)
next
  case False
  then have "install_done S (jfiles d Active) (view (svc d))" using assms(3) by (simp add: crash_ok_def)
  then show ?thesis
    using itripleD [OF triple_recover_finished [of view S N] assms(5,4) _ assms(6)]
    by (auto simp: on_card_def obs_def crash_ok_def split: if_splits)
qed

end
