(* ===== verification/Transaction_Facts.thy ===== *)
theory Transaction_Facts
  imports Install_Outcome Nsp_Pack
begin

text \<open>
  What the transactional installer guarantees (\<^verbatim>\<open>source/nsp_transaction_installer.cpp\<close>), for all services
  that keep the contract, all packages and all schedules of failures and losses of power. The
  services \<open>demo\<close> are an instance of the contract: they keep the view itself.
\<close>

section \<open>Services that keep the contract\<close>

definition demo_holder :: placeholder_id where
  "demo_holder = replicate 16 1"

definition demo_asks :: "u32 \<times> 'a \<Rightarrow> ncm_view \<Rightarrow> (u32 \<times> 'a) \<times> ncm_view" where
  "demo_asks a v = (a, v)"

definition demo_does :: "bool \<Rightarrow> (ncm_view \<Rightarrow> ncm_view) \<Rightarrow> ncm_view \<Rightarrow> u32 \<times> ncm_view" where
  "demo_does b f v = (if b then (0, f v) else (1, v))"

definition demo_key :: meta_key where
  "demo_key = \<lparr>k_id = 0, k_version = 0, k_type = 0, k_install_type = 0, k_padding = 0\<rparr>"

definition demo :: "ncm_view ncm" where
  "demo = \<lparr>mt_Application = 0x80, mt_Patch = 0x81, mt_AddOnContent = 0x82, ct_Meta = 0, ct_Data = 2, ct_DeltaFragment = 6,
     it_Full = 0, st_SdCard = 5, hos15 = False, info_size = id, info_bytes = (\<lambda>i. ci_content_id i), packaged_size = 56,
     packaged_info = (\<lambda>bs. \<lparr>ci_content_id = take 16 bs, ci_size = 0, ci_attr = 0, ci_type = 0, ci_id_offset = 0\<rparr>),
     meta_info_size = 16, header_ext_size = (\<lambda>_. 0), header_content_count = (\<lambda>_. 0), header_meta_count = (\<lambda>_. 0),
     header_for_db = (\<lambda>_ _ bs. bs), app_ext_size = 16, app_required = (\<lambda>_. 0), patch_ext_size = 24,
     patch_application = (\<lambda>_. 0), patch_required = (\<lambda>_. 0), addon_ext_size = 24, addon_application = (\<lambda>_. 0),
     legacy_addon_ext_size = 16, legacy_addon_application = (\<lambda>_. 0),
     mt_DataPatch = 0x84, data_patch_ext_size = 16, data_patch_application = (\<lambda>_. 0),
     n_initialize = Pair 0, n_open_storage = Pair 0, n_open_db = Pair 0, n_open_user_db = Pair 0,
     n_has = (\<lambda>c v. demo_asks (0, contents v c \<noteq> None) v), n_has_placeholder = (\<lambda>p v. demo_asks (0, holders v p \<noteq> None) v),
     n_generate = (\<lambda>v. demo_asks (if holders v demo_holder = None then 0 else 1, demo_holder) v),
     n_create = (\<lambda>c p z. demo_does True (\<lambda>v. v\<lparr>holders := (holders v)(p \<mapsto> replicate (unat z) 0)\<rparr>)),
     n_write = (\<lambda>p i bs v. case holders v p of
        None \<Rightarrow> (1, v)
      | Some old \<Rightarrow> demo_does (i + length bs \<le> length old) (\<lambda>v. v\<lparr>holders := (holders v)(p \<mapsto> patch i bs old)\<rparr>) v),
     n_register = (\<lambda>c p v. demo_does (contents v c = None \<and> holders v p \<noteq> None)
        (\<lambda>v. v\<lparr>contents := (contents v)(c := holders v p), holders := (holders v)(p := None)\<rparr>) v),
     n_delete = (\<lambda>c. demo_does True (\<lambda>v. v\<lparr>contents := (contents v)(c := None)\<rparr>)),
     n_delete_placeholder = (\<lambda>p. demo_does True (\<lambda>v. v\<lparr>holders := (holders v)(p := None)\<rparr>)),
     n_meta_has = (\<lambda>k v. demo_asks (0, metas v k \<noteq> None) v), n_latest = (\<lambda>_ _. demo_asks (1, demo_key)),
     n_meta_set = (\<lambda>k bs. demo_does True (\<lambda>v. v\<lparr>metas := (metas v)(k \<mapsto> bs)\<rparr>)),
     n_meta_remove = (\<lambda>k. demo_does True (\<lambda>v. v\<lparr>metas := (metas v)(k := None)\<rparr>)),
     n_meta_commit = demo_does True (\<lambda>v. v\<lparr>committed := metas v\<rparr>),
     n_rights = (\<lambda>_. demo_asks (0, replicate 16 0)), n_es_open = Pair 0, n_import = (\<lambda>_ _. Pair 0),
     n_ns_initialize = Pair 0, n_ns_manager = Pair 0,
     n_list_records = (\<lambda>a v. demo_asks (0, int (length (app_records v a)), app_records v a) v),
     n_push_record = (\<lambda>a rs. demo_does True (\<lambda>v. v\<lparr>app_records := (app_records v)(a := rs)\<rparr>)),
     n_free_space = demo_asks (0, 2 ^ 40), n_firmware = (\<lambda>v. (Some (20, 0, 0), v)), n_get_path = (\<lambda>_. demo_asks (0, ''path'')),
     n_open_fs = (\<lambda>_. Pair 0), n_open_dir = Pair 0, n_dir_count = demo_asks (0, 1), n_dir_read = (\<lambda>_. demo_asks (0, [''a.cnmt''])),
     n_open_dir_all = Pair 0, n_dir_read_all = (\<lambda>_. demo_asks (0, [(True, ''a.cnmt'')])), n_open_file = (\<lambda>_. Pair 0), n_file_read = (\<lambda>_ n. demo_asks (0, take n (replicate 12 0 @ [0x80] @ replicate n 0))), json_what = ''json''\<rparr>"

lemma demo_contract: "ncm_contract demo id"
  unfolding ncm_contract_def ncm_queries_def ncm_answers_def ncm_effects_def
  by (simp add: demo_def asks_def does_def demo_asks_def demo_does_def demo_holder_def split: option.splits) (metis length_replicate)

lemma demo_reliable: "ncm_reliable demo id"
  by (simp add: ncm_reliable_def demo_def demo_asks_def demo_does_def)

definition demo_id :: content_id where
  "demo_id = replicate 16 7"

definition demo_view :: ncm_view where
  "demo_view = \<lparr>contents = [demo_id \<mapsto> [1, 2, 3]], holders = (\<lambda>_. None), metas = (\<lambda>_. None), committed = (\<lambda>_. None),
     app_records = (\<lambda>_. [])\<rparr>"

definition demo_device :: "ncm_view \<Rightarrow> json option option \<Rightarrow> event list \<Rightarrow> (ncm_view, u8 list) device" where
  "demo_device v j es = \<lparr>svc = v, source = [], jfiles = (\<lambda>_. None)(Active := j), work_dir = False, replaces = True, events = es,
     polls = [], lost = False\<rparr>"

text \<open>A reader of the bytes that have arrived.\<close>

definition bytes_reader :: "u8 list reader" where
  "bytes_reader n bs = (if n \<le> length bs then (Some (take n bs), drop n bs) else (None, bs))"


section \<open>Contents that were there before\<close>

text \<open>
  C6. Shared contents are never lost. Start with no journal file. After any installations of any
  packages, recoveries and restarts, whatever fails and wherever the power is lost, every content that
  was on the storage at the start is there, byte for byte.
\<close>

theorem shared_contents_kept:
  assumes "ncm_contract N view" and "sessions N view d e" and "jfiles d = (\<lambda>_. None)"
    and "contents (view (svc d)) c = Some bs"
  shows "contents (view (svc e)) c = Some bs"
proof -
  have "shared_kept (contents (view (svc d))) (obs view d)"
    using assms(3) by (simp add: shared_kept_def obs_def)
  from sessions_shared [OF assms(2,1) this] show ?thesis
    using assms(4) by (auto simp: shared_kept_def obs_def map_le_def dom_def)
qed

theorem shared_contents_kept_witness:
  "contents (svc (snd (run_state (installNspStreamToSdTransactional demo bytes_reader ''a.nsp'' 4096)
     (demo_device demo_view None [Power_On, Power_Cut True])))) demo_id = Some [1, 2, 3]"
  using shared_contents_kept [OF demo_contract sessions.install [OF sessions.start, where rd = bytes_reader and
      displayName = "''a.nsp''" and sz = 4096], of "demo_device demo_view None [Power_On, Power_Cut True]" demo_id "[1, 2, 3]"]
  by (simp add: demo_device_def demo_view_def)

section \<open>Recovery\<close>


definition demo_planned :: "content_id \<Rightarrow> placeholder_id \<Rightarrow> bool \<Rightarrow> bool \<Rightarrow> PlannedContent" where
  "demo_planned c h created reg = \<lparr>pc_entry = entry_info ''a.nca'' 0 3,
     pc_info = \<lparr>ci_content_id = c, ci_size = 3, ci_attr = 0, ci_type = 0, ci_id_offset = 0\<rparr>,
     placeholder = h, placeholderCreated = created, registered = reg, preExisting = False\<rparr>"

definition demo_plan :: "PlannedContent list" where
  "demo_plan = [demo_planned (replicate 16 8) (replicate 16 2) False True, demo_planned (replicate 16 9) demo_holder True False]"

text \<open>The storage in the middle of the transaction: one content registered, one placeholder left.\<close>

definition demo_middle :: ncm_view where
  "demo_middle = demo_view\<lparr>contents := (contents demo_view)(replicate 16 8 \<mapsto> [4]), holders := [demo_holder \<mapsto> [0]]\<rparr>"

abbreviation demo_journal :: json where
  "demo_journal \<equiv> journal_json ''a.nsp'' 0 provisional_key demo_plan False False False ''stream-writing-content''"

lemma demo_tracked: "tracked demo_view provisional_key demo_plan False {} {} demo_middle"
  by (simp add: tracked_def plan_fit_def storage_tracked_def metas_tracked_def undoes_content_def undoes_holder_def
      demo_plan_def demo_planned_def demo_middle_def demo_view_def demo_holder_def demo_id_def)

lemma demo_repairable: "repairable demo_view {} {} (Some (Some demo_journal)) demo_middle"
  unfolding repairable_def using demo_tracked by (force simp: final_stage_def)


section \<open>The transaction\<close>

text \<open>The contents of the package that a stream delivers.\<close>

definition package_ids :: "u64 \<Rightarrow> 'r reader \<Rightarrow> 'r \<Rightarrow> content_id set" where
  "package_ids sz rd s = nca_ids (entries (fst (fst (parseStreamManifest sz rd s))))"

lemma install_ends:
  assumes "ncm_contract N view" "ncm_reliable N view" and "sound_files d" "\<not> lost d" "jfiles d Active = None"
    and "committed (view (svc d)) = metas (view (svc d))"
    and "run_state (installNspStreamToSdTransactional N rd displayName sz) d = (r, e)"
  shows "if lost e then crash_ok (view (svc d)) (package_ids sz rd (source d)) (jfiles e Active) (view (svc e))
    else ended (view (svc d)) (package_ids sz rd (source d)) (ri_diagnostic r) (obs view e)"
proof -
  obtain m k s where parse: "parseStreamManifest sz rd (source d) = ((m, k), s)" by (metis prod.exhaust)
  then show ?thesis using install_outcome [OF assms(1-6) parse assms(7)] by (simp add: package_ids_def)
qed


text \<open>A package with one content, and a device that receives it.\<close>

definition demo_package :: "u8 list" where
  "demo_package = pack_files [(bytesToHex (replicate 16 8) @ ''.cnmt.nca'', [1, 2, 3])]"

definition demo_start :: "event list \<Rightarrow> (ncm_view, u8 list) device" where
  "demo_start es = (demo_device demo_view None es)\<lparr>source := demo_package\<rparr>"

lemma demo_start_facts:
  "File_Error \<notin> set es \<Longrightarrow> sound_files (demo_start es)" "\<not> lost (demo_start es)" "jfiles (demo_start es) Active = None"
  "svc (demo_start es) = demo_view" "committed demo_view = metas demo_view"
  by (simp_all add: demo_start_def demo_device_def sound_files_def demo_view_def)


section \<open>Losses of power\<close>

text \<open>Any number of restarts, each with a recovery that may be interrupted as well.\<close>

inductive power_cycles :: "'s ncm \<Rightarrow> ('s \<Rightarrow> ncm_view) \<Rightarrow> ('s, 'r) device \<Rightarrow> ('s, 'r) device \<Rightarrow> bool"
  for N :: "'s ncm" and view :: "'s \<Rightarrow> ncm_view" and d :: "('s, 'r) device" where
  none: "power_cycles N view d d"
| cycle: "power_cycles N view d e \<Longrightarrow> restarted view e f \<Longrightarrow>
    power_cycles N view d (snd (run_state (recoverStaleRealInstall N) f))"

lemma ended_crash_ok: "ended old S d (obs view e) \<Longrightarrow> crash_ok old S (jfiles e Active) (view (svc e))"
  by (auto simp: ended_def on_card_def obs_def crash_ok_def rolled_back_def recovers_def repairable_def install_done_def
      split: if_splits)

lemma restarted_crash_ok:
  "crash_ok old S (jfiles e Active) (view (svc e)) \<Longrightarrow> restarted view e f \<Longrightarrow> crash_ok old S (jfiles f Active) (view (svc f))"
  using restart_crash_ok by (simp add: restarted_def)

lemma recovered_crash_ok:
  assumes "jfiles e Active = None \<and> (title_installed S (view (svc e)) \<or> rolled_back old None (view (svc e)))"
  shows "crash_ok old S (jfiles e Active) (view (svc e))"
  using assms by (auto simp: crash_ok_def rolled_back_def recovers_def repairable_def install_done_def)

lemma cycles_crash_ok:
  assumes "power_cycles N view d e" and "ncm_contract N view" "ncm_reliable N view"
    and "crash_ok old S (jfiles d Active) (view (svc d))"
  shows "crash_ok old S (jfiles e Active) (view (svc e))"
  using assms(1)
proof induction
  case none
  show ?case by (rule assms(4))
next
  case (cycle e f)
  obtain ok msg g where run: "run_state (recoverStaleRealInstall N) f = ((ok, msg), g)" by (metis prod.exhaust)
  have f: "crash_ok old S (jfiles f Active) (view (svc f))" "sound_files f" "\<not> lost f"
    using restarted_crash_ok [OF cycle.IH cycle.hyps(2)] cycle.hyps(2) by (simp_all add: restarted_def)
  show ?case
    using recovery_after_crash [OF assms(2,3) f run] recovered_crash_ok [of g S view old] run by (auto split: if_splits)
qed


definition demo_restart :: "(ncm_view, 'r) device \<Rightarrow> (ncm_view, 'r) device" where
  "demo_restart e = e\<lparr>svc := (svc e)\<lparr>metas := committed (svc e)\<rparr>, replaces := True, events := [], lost := False\<rparr>"

lemma demo_restarted: "restarted id e (demo_restart e)"
  by (simp add: restarted_def demo_restart_def sound_files_def)


end
