(* ===== verification/Package_Probe.thy ===== *)
theory Package_Probe
  imports Transaction Package_Reader
begin

unbundle bit_operations_syntax

text \<open>
  The two tools of \<^verbatim>\<open>source/nsp_ncm_probe.cpp\<close> that use the content storage: \<^verbatim>\<open>runSafeNcmProbe\<close>, which
  copies the smallest content of a package into a placeholder and deletes it again, and
  \<^verbatim>\<open>analyzeCnmtRequirements\<close>, which registers the CNMT of a package for as long as it reads it. Both keep
  a journal in the file of the installer, written in place. The package is a file on the host \<open>h\<close>; the
  reader of the package is the \<open>source\<close> of the device.
\<close>

type_synonym ('s, 'a) package_prog = "('s, Package_Reader.reader, 'a) iprog"

section \<open>Journals\<close>

definition probe_json :: "string \<Rightarrow> NspEntryInfo \<Rightarrow> placeholder_id \<Rightarrow> string \<Rightarrow> json" where
  "probe_json package e ph stage = JObj
    [(''owner'', JStr ''aio-switch-updater-mod''), (''kind'', JStr ''ncm-probe''), (''stage'', JStr stage),
     (''package'', JStr package), (''content_name'', JStr (n_name e)), (''content_size'', JNum (n_size e)),
     (''content_id'', JStr (bytesToHex (contentId e))), (''placeholder_id'', JStr (bytesToHex ph))]"

definition writeJournal :: "string \<Rightarrow> NspEntryInfo \<Rightarrow> placeholder_id \<Rightarrow> string \<Rightarrow> ('s, 'r, unit) iprog" where
  "writeJournal package e ph stage = do {
     file_op (\<lambda>d. (True, jfiles d, True)) False;
     out \<leftarrow> fs_truncate Active;
     if out then do { fs_write Active (probe_json package e ph stage); State_Monad.return () } else State_Monad.return ()
   }"

definition analysis_json :: "NspEntryInfo \<Rightarrow> bool \<Rightarrow> json" where
  "analysis_json e created = JObj
    [(''owner'', JStr ''aio-switch-updater-mod''), (''kind'', JStr ''cnmt-analysis''), (''content_name'', JStr (n_name e)),
     (''content_id'', JStr (bytesToHex (contentId e))), (''content_created'', JBool created)]"

definition writeCnmtAnalysisJournal :: "NspEntryInfo \<Rightarrow> bool \<Rightarrow> ('s, 'r, unit) iprog" where
  "writeCnmtAnalysisJournal e created = do {
     file_op (\<lambda>d. (True, jfiles d, True)) False;
     out \<leftarrow> fs_truncate Active;
     if out then do { fs_write Active (analysis_json e created); State_Monad.return () } else State_Monad.return ()
   }"

definition dropJournal :: "('s, 'r, unit) iprog" where
  "dropJournal = do { fs_remove Active; State_Monad.return () }"

definition resultToDiagnostic :: "u32 \<Rightarrow> ErrorCode \<Rightarrow> string \<Rightarrow> Diagnostic" where
  "resultToDiagnostic rc fallback where =
    (if succeeded rc then makeDiagnostic NoError [] 0
     else makeDiagnostic fallback (where @ '' rc=0x'' @ hex_upper (unat rc)) rc)"

definition NcmSession_open :: "'s ncm \<Rightarrow> ('s, 'r, Diagnostic) iprog" where
  "NcmSession_open N = do {
     rc \<leftarrow> call (n_initialize N);
     if \<not> succeeded rc then State_Monad.return (resultToDiagnostic rc InternalError ''ncmInitialize'')
     else do {
       rc \<leftarrow> call (n_open_storage N);
       State_Monad.return (if \<not> succeeded rc then resultToDiagnostic rc PlaceholderError ''ncmOpenContentStorage(SD)''
         else makeDiagnostic NoError [] 0)
     }
   }"

text \<open>\<^verbatim>\<open>in >> j\<close>: a journal that cannot be opened or is not JSON is an exception, here \<open>None\<close>.\<close>

definition read_journal :: "json option \<Rightarrow> ('s, 'r, json option) iprog" where
  "read_journal text = do {
     opened \<leftarrow> file_op (\<lambda>d. (True, jfiles d, work_dir d)) False;
     State_Monad.return (if opened then text else None)
   }"

text \<open>Whether the journal is of the given kind: \<open>None\<close> is an exception.\<close>

definition owned_journal :: "string \<Rightarrow> json \<Rightarrow> bool option" where
  "owned_journal kind j =
    (case str_value ''owner'' [] j of
       None \<Rightarrow> None
     | Some owner \<Rightarrow>
         if owner \<noteq> ''aio-switch-updater-mod'' then Some False
         else map_option (\<lambda>k. k = kind) (str_value ''kind'' [] j))"

section \<open>The probe\<close>

definition recoverStaleNcmProbe :: "'s ncm \<Rightarrow> ('s, 'r, bool \<times> string) iprog" where
  "recoverStaleNcmProbe N = do {
     journal \<leftarrow> peek (\<lambda>d. jfiles d Active);
     case journal of
       None \<Rightarrow> State_Monad.return (True, [])
     | Some text \<Rightarrow> do {
         j \<leftarrow> read_journal text;
         case j of
           None \<Rightarrow> State_Monad.return (False, json_what N)
         | Some j \<Rightarrow>
            (case (owned_journal ''ncm-probe'' j, str_value ''placeholder_id'' [] j) of
               (None, _) \<Rightarrow> State_Monad.return (False, json_what N)
             | (Some False, _) \<Rightarrow>
                 State_Monad.return (False, ''Journal no pertenece al NCM probe de AIO; no se modifico.'')
             | (Some True, None) \<Rightarrow> State_Monad.return (False, json_what N)
             | (Some True, Some t) \<Rightarrow>
                (case hexToBytes t 16 of
                   None \<Rightarrow> State_Monad.return (False, ''Placeholder ID invalido en journal.'')
                 | Some ph \<Rightarrow> do {
                     d \<leftarrow> NcmSession_open N;
                     if \<not> diag_ok d then State_Monad.return (False, technical d)
                     else do {
                       (rc, exists) \<leftarrow> call (n_has_placeholder N ph);
                       if \<not> succeeded rc then State_Monad.return (False, ''No se pudo consultar placeholder antiguo.'')
                       else do {
                         rc \<leftarrow> (if exists then call (n_delete_placeholder N ph) else State_Monad.return 0);
                         if \<not> succeeded rc then State_Monad.return (False, ''No se pudo eliminar placeholder antiguo.'')
                         else do {
                           dropJournal;
                           State_Monad.return (True, if exists then ''Placeholder incompleto anterior eliminado.''
                             else ''Journal antiguo limpiado; placeholder ya no existia.'')
                         }
                       }
                     }
                   }))
       }
   }"

text \<open>\<^verbatim>\<open>getSystemSnapshot().sdFreeBytes\<close>\<close>

definition snapshot_free :: "'s ncm \<Rightarrow> ('s, 'r, int) iprog" where
  "snapshot_free N = do {
     call (n_firmware N);
     (rc, freeBytes) \<leftarrow> call (n_free_space N);
     State_Monad.return (if succeeded rc then freeBytes else - 1)
   }"

definition probe_candidate :: "NspManifest \<Rightarrow> NspEntryInfo option" where
  "probe_candidate m = fold (\<lambda>e candidate.
     if \<not> isNca e \<or> \<not> hasContentId e \<or> n_size e = 0 then candidate
     else case candidate of
         None \<Rightarrow> Some e
       | Some c \<Rightarrow> if n_size e < n_size c then Some e else candidate) (entries m) None"

text \<open>The loop that copies a content into a placeholder, and how it ends.\<close>

datatype copy_end = Copied | ReadFailed | WriteFailed u32

function copy_content :: "'s ncm \<Rightarrow> 'r reader \<Rightarrow> placeholder_id \<Rightarrow> nat \<Rightarrow> u64 \<Rightarrow> ('s, 'r, copy_end \<times> u64) iprog" where
  "copy_content N rd ph remaining copied =
    (if remaining = 0 then State_Monad.return (Copied, copied)
     else do {
       let want = min COPY_BUFFER_SIZE remaining;
       io \<leftarrow> feed (rd want);
       case io of
         None \<Rightarrow> State_Monad.return (ReadFailed, copied)
       | Some io \<Rightarrow> do {
           rc \<leftarrow> call (n_write N ph (unat copied) io);
           if \<not> succeeded rc then State_Monad.return (WriteFailed rc, copied)
           else copy_content N rd ph (remaining - want) (copied + of_nat want)
         }
     })"
  by pat_completeness auto
termination
  by (relation "measure (\<lambda>(N, rd, ph, remaining, copied). remaining)") (auto simp: COPY_BUFFER_SIZE_def)

declare copy_content.simps [simp del]

record NcmProbeResult =
  pr_diagnostic :: Diagnostic
  testedContentName :: string
  testedBytes :: u64
  staleTransactionRecovered :: bool

definition no_probe :: NcmProbeResult where
  "no_probe = \<lparr>pr_diagnostic = no_diagnostic, testedContentName = [], testedBytes = 0, staleTransactionRecovered = False\<rparr>"

definition probe_cleanup :: "'s ncm \<Rightarrow> placeholder_id \<Rightarrow> ('s, 'r, unit) iprog" where
  "probe_cleanup N ph = do { call (n_delete_placeholder N ph); dropJournal }"

text \<open>From the placeholder on: the diagnostic of the result.\<close>

definition probe_copy :: "'s ncm \<Rightarrow> host \<Rightarrow> string \<Rightarrow> NspEntryInfo \<Rightarrow> placeholder_id \<Rightarrow> ('s, Diagnostic) package_prog" where
  "probe_copy N h nspPath c ph = do {
     writeJournal nspPath c ph ''placeholder-created'';
     sought \<leftarrow> feed (\<lambda>r. seek h r (n_offset c));
     if \<not> sought then do {
       probe_cleanup N ph;
       State_Monad.return (makeDiagnostic PackageTruncated ''No se pudo posicionar en NCA seleccionada'' 0)
     } else do {
       writeJournal nspPath c ph ''writing-placeholder'';
       (res, copied) \<leftarrow> copy_content N (read_package h) ph (unat (n_size c)) 0;
       case res of
         ReadFailed \<Rightarrow> do {
           probe_cleanup N ph;
           State_Monad.return (makeDiagnostic PackageTruncated (''NSP termino durante copia NCM en offset='' @ to_string copied) 0)
         }
       | WriteFailed rc \<Rightarrow> do {
           probe_cleanup N ph;
           State_Monad.return (resultToDiagnostic rc WriteError ''WritePlaceHolder'')
         }
       | Copied \<Rightarrow> do {
           writeJournal nspPath c ph ''write-complete-rolling-back'';
           rc \<leftarrow> call (n_delete_placeholder N ph);
           if \<not> succeeded rc
           then State_Monad.return (resultToDiagnostic rc PlaceholderError ''DeletePlaceHolder after probe'')
           else do {
             dropJournal;
             State_Monad.return (makeDiagnostic NoError
               (''NCM ContentStorage probe OK; copied_and_rolled_back='' @ to_string copied @ ''; content='' @ n_name c) 0)
           }
         }
     }
   }"

text \<open>From the reopening of the package to the creation of the placeholder.\<close>

definition probe_storage :: "'s ncm \<Rightarrow> host \<Rightarrow> string \<Rightarrow> NspEntryInfo \<Rightarrow> ('s, Diagnostic) package_prog" where
  "probe_storage N h nspPath c = do {
     feed (\<lambda>_. open_package h nspPath);
     opened \<leftarrow> peek (\<lambda>d. isOpen (source d));
     if \<not> opened then State_Monad.return (makeDiagnostic InternalError ''No se pudo reabrir NSP para NCM probe'' 0)
     else do {
       d \<leftarrow> NcmSession_open N;
       if \<not> diag_ok d then State_Monad.return d
       else do {
         (rc, ph) \<leftarrow> call (n_generate N);
         if \<not> succeeded rc then State_Monad.return (resultToDiagnostic rc PlaceholderError ''GeneratePlaceHolderId'')
         else do {
           (rc, exists) \<leftarrow> call (n_has_placeholder N ph);
           if \<not> succeeded rc then State_Monad.return (resultToDiagnostic rc PlaceholderError ''HasPlaceHolder'')
           else do {
             (if exists then call (n_delete_placeholder N ph) else State_Monad.return 0);
             rc \<leftarrow> call (n_create N (contentId c) ph (n_size c));
             if \<not> succeeded rc then State_Monad.return (resultToDiagnostic rc PlaceholderError ''CreatePlaceHolder'')
             else probe_copy N h nspPath c ph
           }
         }
       }
     }
   }"

definition runSafeNcmProbe :: "'s ncm \<Rightarrow> host \<Rightarrow> string \<Rightarrow> ('s, NcmProbeResult) package_prog" where
  "runSafeNcmProbe N h nspPath = do {
     stale \<leftarrow> peek (\<lambda>d. jfiles d Active \<noteq> None);
     (ok, recovery) \<leftarrow> (if stale then recoverStaleNcmProbe N else State_Monad.return (True, []));
     if \<not> ok
     then State_Monad.return (no_probe\<lparr>pr_diagnostic :=
       makeDiagnostic PlaceholderError (''No se pudo recuperar transaccion anterior: '' @ recovery) 0\<rparr>)
     else do {
       let out = no_probe\<lparr>staleTransactionRecovered := stale\<rparr>;
       let m = inspectNspManifest h nspPath;
       if \<not> diag_ok (diagnostic m) then State_Monad.return (out\<lparr>pr_diagnostic := diagnostic m\<rparr>)
       else case probe_candidate m of
         None \<Rightarrow> State_Monad.return (out\<lparr>pr_diagnostic :=
           makeDiagnostic MissingContent ''No hay NCA valida para probar ContentStorage'' 0\<rparr>)
       | Some c \<Rightarrow> do {
           let out = out\<lparr>testedContentName := n_name c, testedBytes := n_size c\<rparr>;
           free \<leftarrow> snapshot_free N;
           if 0 \<le> free \<and> (of_int free :: u64) < n_size c
           then State_Monad.return (out\<lparr>pr_diagnostic := makeDiagnostic NotEnoughSpace
             (''probe_required='' @ to_string (n_size c) @ '', free='' @ to_string (of_int free :: u64)) 0\<rparr>)
           else do {
             d \<leftarrow> probe_storage N h nspPath c;
             State_Monad.return (out\<lparr>pr_diagnostic := d\<rparr>)
           }
         }
     }
   }"

section \<open>The analysis of the CNMT\<close>

definition recoverStaleCnmtAnalysis :: "'s ncm \<Rightarrow> ('s, 'r, bool \<times> string) iprog" where
  "recoverStaleCnmtAnalysis N = do {
     journal \<leftarrow> peek (\<lambda>d. jfiles d Active);
     case journal of
       None \<Rightarrow> State_Monad.return (True, [])
     | Some text \<Rightarrow> do {
         j \<leftarrow> read_journal text;
         case j of
           None \<Rightarrow> State_Monad.return (False, json_what N)
         | Some j \<Rightarrow>
            (case (owned_journal ''cnmt-analysis'' j, str_value ''content_id'' [] j, bool_value ''content_created'' False j) of
               (None, _) \<Rightarrow> State_Monad.return (False, json_what N)
             | (Some False, _) \<Rightarrow> State_Monad.return (True, [])
             | (Some True, None, _) \<Rightarrow> State_Monad.return (False, json_what N)
             | (Some True, Some t, created) \<Rightarrow>
                (case hexToBytes t 16 of
                   None \<Rightarrow> State_Monad.return (False, ''Content ID invalido en journal CNMT.'')
                 | Some c \<Rightarrow>
                    (case created of
                       None \<Rightarrow> State_Monad.return (False, json_what N)
                     | Some False \<Rightarrow> do {
                         dropJournal;
                         State_Monad.return (True, ''Transaccion CNMT temporal recuperada.'')
                       }
                     | Some True \<Rightarrow> do {
                         d \<leftarrow> NcmSession_open N;
                         if \<not> diag_ok d then State_Monad.return (False, technical d)
                         else do {
                           (rc, exists) \<leftarrow> call (n_has N c);
                           if \<not> succeeded rc
                           then State_Monad.return (False, ''No se pudo consultar contenido CNMT temporal.'')
                           else do {
                             rc \<leftarrow> (if exists then call (n_delete N c) else State_Monad.return 0);
                             if \<not> succeeded rc
                             then State_Monad.return (False, ''No se pudo eliminar contenido CNMT temporal.'')
                             else do {
                               dropJournal;
                               State_Monad.return (True, ''Transaccion CNMT temporal recuperada.'')
                             }
                           }
                         }
                       })))
       }
   }"

definition getApplicationIdForMeta :: "'s ncm \<Rightarrow> u64 \<Rightarrow> u8 \<Rightarrow> u8 list \<Rightarrow> u64" where
  "getApplicationIdForMeta N titleId metaType ext =
    (if metaType = mt_Application N then titleId
     else if metaType = mt_Patch N
     then (if patch_ext_size N \<le> length ext then patch_application N (take (patch_ext_size N) ext) else titleId XOR 0x800)
     else if metaType = mt_AddOnContent N
     then (if legacy_addon_ext_size N \<le> length ext then of_nat (field 0 8 ext) else (titleId XOR 0x1000) AND NOT 0xFFF)
     else if metaType = mt_DataPatch N
     then (if data_patch_ext_size N \<le> length ext then data_patch_application N (take (data_patch_ext_size N) ext)
           else (titleId XOR 0x1000) AND NOT 0xFFF)
     else titleId)"

definition getRequiredSystemVersion :: "'s ncm \<Rightarrow> u8 \<Rightarrow> u8 list \<Rightarrow> u32" where
  "getRequiredSystemVersion N metaType ext =
    (if metaType = mt_Application N
     then (if app_ext_size N \<le> length ext then app_required N (take (app_ext_size N) ext) else 0)
     else if metaType = mt_Patch N
     then (if patch_ext_size N \<le> length ext then patch_required N (take (patch_ext_size N) ext) else 0)
     else 0)"

record CnmtAnalysisResult =
  ca_diagnostic :: Diagnostic
  ca_titleId :: u64
  ca_applicationId :: u64
  ca_titleVersion :: u32
  requiredSystemVersion :: u32
  ca_metaType :: u8
  expectedContentCount :: u32
  matchedContentCount :: u32
  expectedInstallBytes :: u64
  cnmtEntryName :: string
  missingContentIds :: "string list"
  sizeMismatchContentIds :: "string list"

definition no_analysis :: CnmtAnalysisResult where
  "no_analysis = \<lparr>ca_diagnostic = no_diagnostic, ca_titleId = 0, ca_applicationId = 0, ca_titleVersion = 0,
     requiredSystemVersion = 0, ca_metaType = 0, expectedContentCount = 0, matchedContentCount = 0, expectedInstallBytes = 0,
     cnmtEntryName = [], missingContentIds = [], sizeMismatchContentIds = []\<rparr>"

text \<open>
  The CNMT on the content storage, with its journal: \<open>Inl\<close> is an early return, \<open>Inr\<close> the value of
  \<^verbatim>\<open>createdContent\<close>.
\<close>

definition copy_cnmt :: "'s ncm \<Rightarrow> host \<Rightarrow> string \<Rightarrow> NspEntryInfo \<Rightarrow> placeholder_id \<Rightarrow> ('s, Diagnostic option) package_prog" where
  "copy_cnmt N h nspPath e ph = do {
     feed (\<lambda>_. open_package h nspPath);
     opened \<leftarrow> peek (\<lambda>d. isOpen (source d));
     if \<not> opened
     then State_Monad.return (Some (makeDiagnostic InternalError ''No se pudo abrir NSP para copiar CNMT'' 0))
     else do {
       sought \<leftarrow> feed (\<lambda>r. seek h r (n_offset e));
       if \<not> sought
       then State_Monad.return (Some (makeDiagnostic PackageTruncated ''No se pudo posicionar en CNMT NCA'' 0))
       else do {
         (res, copied) \<leftarrow> copy_content N (read_package h) ph (unat (n_size e)) 0;
         case res of
           ReadFailed \<Rightarrow> State_Monad.return (Some (makeDiagnostic PackageTruncated ''NSP termino durante copia CNMT'' 0))
         | WriteFailed rc \<Rightarrow> State_Monad.return (Some (resultToDiagnostic rc WriteError ''WritePlaceHolder(CNMT)''))
         | Copied \<Rightarrow> do {
             rc \<leftarrow> call (n_register N (contentId e) ph);
             State_Monad.return (if \<not> succeeded rc
               then Some (resultToDiagnostic rc RegistrationError ''Register(CNMT)'') else None)
           }
       }
     }
   }"

definition stage_cnmt :: "'s ncm \<Rightarrow> host \<Rightarrow> string \<Rightarrow> NspEntryInfo \<Rightarrow> ('s, Diagnostic + bool) package_prog" where
  "stage_cnmt N h nspPath e = do {
     (rc, existed) \<leftarrow> call (n_has N (contentId e));
     if \<not> succeeded rc then State_Monad.return (Inl (resultToDiagnostic rc RegistrationError ''ContentStorageHas(CNMT)''))
     else if existed then do {
       writeCnmtAnalysisJournal e False;
       State_Monad.return (Inr False)
     } else do {
       (rc, ph) \<leftarrow> call (n_generate N);
       if \<not> succeeded rc
       then State_Monad.return (Inl (resultToDiagnostic rc PlaceholderError ''GeneratePlaceHolderId(CNMT)''))
       else do {
         rc \<leftarrow> call (n_create N (contentId e) ph (n_size e));
         if \<not> succeeded rc
         then State_Monad.return (Inl (resultToDiagnostic rc PlaceholderError ''CreatePlaceHolder(CNMT)''))
         else do {
           failed \<leftarrow> copy_cnmt N h nspPath e ph;
           case failed of
             Some d \<Rightarrow> do {
               call (n_delete_placeholder N ph);
               State_Monad.return (Inl d)
             }
           | None \<Rightarrow> do {
               writeCnmtAnalysisJournal e True;
               State_Monad.return (Inr True)
             }
         }
       }
     }
   }"

text \<open>The loop over the content records; \<open>Inl\<close> is an early return with the result code.\<close>

fun analyze_contents :: "'s ncm \<Rightarrow> NspManifest \<Rightarrow> nat \<Rightarrow> nat \<Rightarrow> CnmtAnalysisResult \<Rightarrow>
    ('s, 'r, u32 option \<times> CnmtAnalysisResult) iprog" where
  "analyze_contents N m off 0 out = State_Monad.return (None, out)"
| "analyze_contents N m off (Suc k) out = do {
     (rc, bs) \<leftarrow> cnmt_read N off (packaged_size N);
     case bs of
       None \<Rightarrow> State_Monad.return (Some rc, out)
     | Some bs \<Rightarrow>
        (let info = packaged_info N bs; off = off + packaged_size N in
         if ci_type info = ct_DeltaFragment N then analyze_contents N m off k out
         else
          (let out = out\<lparr>expectedInstallBytes := expectedInstallBytes out + ci_size info\<rparr>;
               cid = bytesToHex (ci_content_id info) in
           case findManifestContent m (ci_content_id info) of
             None \<Rightarrow> analyze_contents N m off k (out\<lparr>missingContentIds := missingContentIds out @ [cid]\<rparr>)
           | Some actual \<Rightarrow>
               if n_size actual \<noteq> ci_size info
               then analyze_contents N m off k (out\<lparr>sizeMismatchContentIds := sizeMismatchContentIds out @ [cid]\<rparr>)
               else analyze_contents N m off k (out\<lparr>matchedContentCount := matchedContentCount out + 1\<rparr>)))
   }"

text \<open>From the header on: the diagnostic of an early return, if any, and the fields filled in.\<close>

definition analyze_header :: "'s ncm \<Rightarrow> NspManifest \<Rightarrow> u8 list \<Rightarrow> CnmtAnalysisResult \<Rightarrow>
    ('s, 'r, Diagnostic option \<times> CnmtAnalysisResult) iprog" where
  "analyze_header N m header out =
    (let mh = take 8 (drop 14 header);
         titleId = of_nat (field 0 8 header); metaType = of_nat (field 12 1 header);
         extn = unat (header_ext_size N mh); contentn = header_content_count N mh;
         out = out\<lparr>ca_titleId := titleId, ca_titleVersion := of_nat (field 8 4 header), ca_metaType := metaType,
           expectedContentCount := ucast contentn\<rparr> in
     if 0x10000 < extn \<or> 0x4000 < unat contentn
     then State_Monad.return (Some (makeDiagnostic InvalidNca ''CNMT contiene contadores fuera de limite'' 0), out)
     else do {
       (rc, ext) \<leftarrow> (if extn \<noteq> 0 then cnmt_read N 0x20 extn else State_Monad.return (0, Some []));
       case ext of
         None \<Rightarrow> State_Monad.return (Some (makeDiagnostic InvalidNca ''Extended header CNMT incompleto'' rc), out)
       | Some ext \<Rightarrow> do {
           let out = out\<lparr>ca_applicationId := getApplicationIdForMeta N titleId metaType ext,
             requiredSystemVersion := getRequiredSystemVersion N metaType ext\<rparr>;
           (failed, out) \<leftarrow> analyze_contents N m (0x20 + extn) (unat contentn) out;
           State_Monad.return (map_option (makeDiagnostic InvalidNca ''Lista de contenidos CNMT incompleta'') failed, out)
         }
     })"

definition analyze_file :: "'s ncm \<Rightarrow> NspManifest \<Rightarrow> (bool \<times> string) list \<Rightarrow> CnmtAnalysisResult \<Rightarrow>
    ('s, 'r, Diagnostic option \<times> CnmtAnalysisResult) iprog" where
  "analyze_file N m found out =
    (case find fst found of
       None \<Rightarrow> State_Monad.return (Some (makeDiagnostic InvalidNca ''ContentMeta no contiene archivo CNMT'' 0), out)
     | Some (_, name) \<Rightarrow> do {
         rc \<leftarrow> call (n_open_file N (''/'' @ name));
         if \<not> succeeded rc then State_Monad.return (Some (resultToDiagnostic rc InvalidNca ''Open CNMT file''), out)
         else do {
           (rc, header) \<leftarrow> cnmt_read N 0 0x20;
           case header of
             None \<Rightarrow> State_Monad.return (Some (makeDiagnostic InvalidNca ''CNMT header incompleto'' rc), out)
           | Some header \<Rightarrow> analyze_header N m header out
         }
       })"

definition analyze_cnmt :: "'s ncm \<Rightarrow> NspManifest \<Rightarrow> NspEntryInfo \<Rightarrow> CnmtAnalysisResult \<Rightarrow>
    ('s, 'r, Diagnostic option \<times> CnmtAnalysisResult) iprog" where
  "analyze_cnmt N m e out = do {
     (rc, contentPath) \<leftarrow> call (n_get_path N (contentId e));
     if \<not> succeeded rc then State_Monad.return (Some (resultToDiagnostic rc RegistrationError ''GetPath(CNMT)''), out)
     else do {
       rc \<leftarrow> call (n_open_fs N contentPath);
       if \<not> succeeded rc
       then State_Monad.return (Some (resultToDiagnostic rc AuthorizationRejected ''fsOpenFileSystem(ContentMeta)''), out)
       else do {
         rc \<leftarrow> call (n_open_dir_all N);
         if \<not> succeeded rc then State_Monad.return (Some (resultToDiagnostic rc InvalidNca ''Open CNMT directory''), out)
         else do {
           (rc, cnt) \<leftarrow> call (n_dir_count N);
           if \<not> succeeded rc \<or> cnt \<le> 0 \<or> 16 < cnt
           then State_Monad.return (Some (makeDiagnostic InvalidNca ''CNMT filesystem sin archivo metadata valido'' rc), out)
           else do {
             (rc, found) \<leftarrow> call (n_dir_read_all N cnt);
             if \<not> succeeded rc \<or> found = []
             then State_Monad.return (Some (resultToDiagnostic rc InvalidNca ''Read CNMT directory''), out)
             else analyze_file N m found out
           }
         }
       }
     }
   }"

text \<open>After the clean-up: what the fields say.\<close>

definition judge_analysis :: "'s ncm \<Rightarrow> CnmtAnalysisResult \<Rightarrow> ('s, 'r, CnmtAnalysisResult) iprog" where
  "judge_analysis N out =
    (if missingContentIds out \<noteq> [] \<or> sizeMismatchContentIds out \<noteq> []
     then State_Monad.return (out\<lparr>ca_diagnostic := makeDiagnostic MissingContent
       (''missing='' @ decimal (length (missingContentIds out)) @
        '', size_mismatch='' @ decimal (length (sizeMismatchContentIds out)) @
        (if missingContentIds out \<noteq> [] then '', first_missing='' @ hd (missingContentIds out) else []) @
        (if sizeMismatchContentIds out \<noteq> [] then '', first_size_mismatch='' @ hd (sizeMismatchContentIds out) else [])) 0\<rparr>)
     else do {
       current \<leftarrow> streamCurrentFirmwarePacked N;
       if requiredSystemVersion out \<noteq> 0 \<and> current \<noteq> 0 \<and> current < requiredSystemVersion out
       then State_Monad.return (out\<lparr>ca_diagnostic := makeDiagnostic FirmwareTooOld
         (''required='' @ formatPackedSystemVersion (requiredSystemVersion out) @
          '', current='' @ formatPackedSystemVersion current) 0\<rparr>)
       else do {
         free \<leftarrow> snapshot_free N;
         State_Monad.return (out\<lparr>ca_diagnostic :=
           (if 0 \<le> free \<and> (of_int free :: u64) < expectedInstallBytes out
            then makeDiagnostic NotEnoughSpace (''install_required='' @ to_string (expectedInstallBytes out) @
              '', free='' @ to_string (of_int free :: u64)) 0
            else makeDiagnostic NoError
              (''CNMT OK title='' @ formatTitleId (ca_titleId out) @ '' type=0x'' @ map tolower (hex_upper (unat (ca_metaType out))) @
               '' contents='' @ to_string (matchedContentCount out) @ '' install_bytes='' @ to_string (expectedInstallBytes out) @
               '' required_fw='' @ formatPackedSystemVersion (requiredSystemVersion out)) 0)\<rparr>)
       }
     })"

definition analysis_cleanup :: "'s ncm \<Rightarrow> content_id \<Rightarrow> bool \<Rightarrow> ('s, 'r, unit) iprog" where
  "analysis_cleanup N c created = do {
     (if created then call (n_delete N c) else State_Monad.return 0);
     dropJournal
   }"

definition analyze_entry :: "'s ncm \<Rightarrow> host \<Rightarrow> string \<Rightarrow> NspManifest \<Rightarrow> NspEntryInfo \<Rightarrow> ('s, CnmtAnalysisResult) package_prog" where
  "analyze_entry N h nspPath m e = do {
     let out = no_analysis\<lparr>cnmtEntryName := n_name e\<rparr>;
     d \<leftarrow> NcmSession_open N;
     if \<not> diag_ok d then State_Monad.return (out\<lparr>ca_diagnostic := d\<rparr>)
     else do {
       staged \<leftarrow> stage_cnmt N h nspPath e;
       case staged of
         Inl d \<Rightarrow> State_Monad.return (out\<lparr>ca_diagnostic := d\<rparr>)
       | Inr created \<Rightarrow> do {
           (failed, out) \<leftarrow> analyze_cnmt N m e out;
           analysis_cleanup N (contentId e) created;
           case failed of
             Some d \<Rightarrow> State_Monad.return (out\<lparr>ca_diagnostic := d\<rparr>)
           | None \<Rightarrow> judge_analysis N (out\<lparr>expectedInstallBytes := expectedInstallBytes out + n_size e\<rparr>)
         }
     }
   }"

definition analyzeCnmtRequirements :: "'s ncm \<Rightarrow> host \<Rightarrow> string \<Rightarrow> ('s, CnmtAnalysisResult) package_prog" where
  "analyzeCnmtRequirements N h nspPath = do {
     (ok, recovery) \<leftarrow> recoverStaleCnmtAnalysis N;
     if \<not> ok
     then State_Monad.return (no_analysis\<lparr>ca_diagnostic :=
       makeDiagnostic RegistrationError (''No se pudo recuperar analisis CNMT anterior: '' @ recovery) 0\<rparr>)
     else do {
       left \<leftarrow> peek (\<lambda>d. jfiles d Active \<noteq> None);
       if left
       then State_Monad.return (no_analysis\<lparr>ca_diagnostic := makeDiagnostic InternalError
         (''Existe otra transaccion AIO activa: '' @
          ''/switch/aio-switch-updater-mod/config/install_work/current_install.json'') 0\<rparr>)
       else (let m = inspectNspManifest h nspPath in
         if \<not> diag_ok (diagnostic m) then State_Monad.return (no_analysis\<lparr>ca_diagnostic := diagnostic m\<rparr>)
         else case findCnmt m of
           None \<Rightarrow> State_Monad.return (no_analysis\<lparr>ca_diagnostic :=
             makeDiagnostic MissingContent ''No se encontro CNMT NCA utilizable'' 0\<rparr>)
         | Some e \<Rightarrow> analyze_entry N h nspPath m e)
     }
   }"

end
