(* ===== verification/Probe_Rules.thy ===== *)
theory Probe_Rules
  imports Transaction_Facts Package_Probe
begin

text \<open>
  Rules for the probe and the analysis of \<^verbatim>\<open>source/nsp_ncm_probe.cpp\<close>: each step keeps track of the one
  placeholder or content it has added, of the journal it has written in place, and of what a loss of
  power leaves; both recoveries undo what such a journal names.
\<close>

section \<open>A journal written in place\<close>

lemma still_probe_journal [still_intros]:
  "still dropJournal" "still (writeJournal p e ph st)" "still (writeCnmtAnalysisJournal e b)" "still (NcmSession_open N)"
  "still (probe_cleanup N ph)"
  unfolding probe_cleanup_def dropJournal_def writeJournal_def writeCnmtAnalysisJournal_def NcmSession_open_def fs_remove_def fs_truncate_def
    fs_write_def
  by (intro still_intros)+

lemma triple_write_active:
  assumes A: "\<And>a v. A a v \<Longrightarrow> C a v \<and> C (Some None) v \<and> C (Some (Some doc)) v"
  shows "itriple True view (on_card C) (on_card A)
    (do {
       file_op (\<lambda>d. (True, jfiles d, True)) False;
       out \<leftarrow> fs_truncate Active;
       if out then do { fs_write Active doc; State_Monad.return () } else State_Monad.return ()
     }) (\<lambda>_. on_card (\<lambda>a v. a = Some (Some doc) \<and> (\<exists>b. A b v)))"
proof (rule itriple_bind [where R = "\<lambda>_ x. o_dir x \<and> on_card A x"], goal_cases)
  case 1
  show ?case by (rule itriple_file [where g = "\<lambda>b fs wd. (True, fs, True)"]) (auto simp: on_card_def A)
next
  case 2
  show ?case
  proof (rule itriple_bind [where R = "\<lambda>out x. out \<and> on_card (\<lambda>a v. \<exists>b. A b v \<and> a = Some None) x"], goal_cases)
    case 1
    show ?case
      unfolding fs_truncate_def
      by (rule itriple_file [where g = "\<lambda>b fs wd. if wd then (True, fs(Active := Some None), wd) else (False, fs, wd)"])
        (auto simp: on_card_def A)
  next
    case (2 out)
    have "itriple True view (on_card C) (on_card (\<lambda>a v. \<exists>b. A b v \<and> a = Some None)) (fs_write Active doc)
        (\<lambda>_. on_card (\<lambda>a v. a = Some (Some doc) \<and> (\<exists>b. A b v)))"
      unfolding fs_write_def
      by (rule itriple_file [where g = "\<lambda>b fs wd. (True, fs(Active := Some (Some doc)), wd)"]) (auto simp: on_card_def A)
    then have "itriple True view (on_card C) (on_card (\<lambda>a v. \<exists>b. A b v \<and> a = Some None))
        (do { fs_write Active doc; State_Monad.return () }) (\<lambda>_. on_card (\<lambda>a v. a = Some (Some doc) \<and> (\<exists>b. A b v)))"
      by (rule itriple_bind) (rule itriple_return)
    then show ?case by (intro itriple_pre) (auto simp: fs_write_def intro!: still_intros)
  qed
qed

lemmas triple_writeJournal = triple_write_active [where doc = "probe_json p e ph st" for p e ph st, folded writeJournal_def]
  and triple_writeAnalysis =
    triple_write_active [where doc = "analysis_json e b" for e b, folded writeCnmtAnalysisJournal_def]

lemma triple_dropJournal:
  assumes "\<And>a v. A a v \<Longrightarrow> C a v \<and> C None v"
  shows "itriple True view (on_card C) (on_card A) dropJournal (\<lambda>_. on_card (\<lambda>a v. a = None \<and> (\<exists>b. A b v)))"
proof -
  have "itriple True view (on_card C) (on_card A) (fs_remove Active) (\<lambda>_. on_card (\<lambda>a v. a = None \<and> (\<exists>b. A b v)))"
    unfolding fs_remove_def
    by (rule itriple_file [where g = "\<lambda>b fs wd. (True, fs(Active := None), wd)"]) (auto simp: on_card_def assms)
  then show ?thesis unfolding dropJournal_def by (rule itriple_bind) (rule itriple_return)
qed

section \<open>Placeholders\<close>

text \<open>Everything as in \<open>v\<close>, and the open placeholder \<open>ph\<close>.\<close>

definition holding :: "ncm_view \<Rightarrow> placeholder_id \<Rightarrow> ncm_view \<Rightarrow> bool" where
  "holding v ph w = (holders v ph = None \<and> (\<exists>bs. w = v\<lparr>holders := (holders v)(ph \<mapsto> bs)\<rparr>))"

lemma holding_write: "holding v ph w \<Longrightarrow> holding v ph (w\<lparr>holders := (holders w)(ph \<mapsto> bs)\<rparr>)"
  by (auto simp: holding_def)

lemma holding_drop: "holding v ph w \<Longrightarrow> drop_holder ph w = v"
  by (cases v) (auto simp: holding_def drop_holder_def fun_upd_idem)

lemma holding_some: "holding v ph w \<Longrightarrow> holders w ph \<noteq> None"
  by (auto simp: holding_def)

lemma triple_delete_held:
  assumes N: "ncm_contract N view" "ncm_reliable N view"
    and A: "\<And>a v. A a v \<Longrightarrow> holders v ph \<noteq> None \<and> C a v \<and> C a (drop_holder ph v)"
  shows "itriple M view (on_card C) (on_card A) (call (n_delete_placeholder N ph))
    (\<lambda>rc. on_card (\<lambda>a v. rc = 0 \<and> (\<exists>u. A a u \<and> v = drop_holder ph u)))"
proof (rule itriple_call)
  fix s and x :: "'r obs"
  assume x: "o_ncm x = view s" "on_card A x"
  then have "holders (view s) ph \<noteq> None" using A by (auto simp: on_card_def)
  from recovery_calls(4) [OF N this] x A
  show "on_card C x \<and> on_card C (x\<lparr>o_ncm := view (snd (n_delete_placeholder N ph s))\<rparr>) \<and>
      on_card (\<lambda>a v. fst (n_delete_placeholder N ph s) = 0 \<and> (\<exists>u. A a u \<and> v = drop_holder ph u))
        (x\<lparr>o_ncm := view (snd (n_delete_placeholder N ph s))\<rparr>)"
    by (auto simp: on_card_def drop_holder_def)
qed

lemma triple_copy_content:
  assumes N: "ncm_contract N view" and A: "\<And>a w. A a w \<Longrightarrow> C a w"
    and up: "\<And>a w bs. A a w \<Longrightarrow> A a (w\<lparr>holders := (holders w)(ph \<mapsto> bs)\<rparr>)"
  shows "itriple M view (on_card C) (on_card A) (copy_content N rd ph remaining copied) (\<lambda>_. on_card A)"
proof (induction remaining arbitrary: copied rule: less_induct)
  case (less remaining)
  show ?case
  proof (cases "remaining = 0")
    case True
    then show ?thesis by (simp add: copy_content.simps [of N rd ph 0] itriple_return)
  next
    case False
    have rec: "itriple M view (on_card C) (on_card A) (copy_content N rd ph (remaining - min COPY_BUFFER_SIZE remaining) k)
        (\<lambda>_. on_card A)" for k
      by (rule less) (use False in \<open>simp add: COPY_BUFFER_SIZE_def\<close>)
    have step: "itriple M view (on_card C) (on_card A) (call (n_write N ph i bs)) (\<lambda>_. on_card A)" for i bs
      by (rule itriple_does [OF contract_effects(2) [OF N]]) (auto simp: on_card_def A up)
    show ?thesis
      unfolding copy_content.simps [of N rd ph remaining copied] Let_def
      using False
      by (simp, intro on_card_inert [OF inert_feed(1) A] itriple_option itriple_return itriple_bind [OF step] itriple_if rec)
  qed
qed

lemma inert_NcmSession_open [inert_intros]: "ncm_contract N view \<Longrightarrow> inert view (NcmSession_open N)"
  unfolding NcmSession_open_def by (intro inert_intros inert_ask contractD)

lemma inert_peek_source [inert_intros]: "inert view (peek (\<lambda>d. f (source d)))"
  unfolding inert_def by (auto intro: itriple_peek)

section \<open>The probe\<close>

text \<open>What a loss of power may leave: a placeholder, and a journal that is torn or names it.\<close>

definition probe_left :: "string \<Rightarrow> ncm_view \<Rightarrow> json option option \<Rightarrow> ncm_view \<Rightarrow> bool" where
  "probe_left p v a w = (\<exists>ph. (w = v \<or> holding v ph w) \<and>
     (a = None \<or> a = Some None \<or> (\<exists>e st. a = Some (Some (probe_json p e ph st)) \<and> length ph = 16 \<and> holders v ph = None)))"

text \<open>The placeholder is open; the journal may be anything the probe writes.\<close>

definition probing :: "string \<Rightarrow> NspEntryInfo \<Rightarrow> ncm_view \<Rightarrow> placeholder_id \<Rightarrow> json option option \<Rightarrow> ncm_view \<Rightarrow> bool" where
  "probing p e v ph a w = (holding v ph w \<and> length ph = 16 \<and>
     (a = None \<or> a = Some None \<or> (\<exists>st. a = Some (Some (probe_json p e ph st)))))"

lemma probing_left:
  assumes "probing p e v ph a w"
  shows "probe_left p v a w" "probe_left p v (Some None) w" "probe_left p v (Some (Some (probe_json p e ph st))) w"
    "probe_left p v a (drop_holder ph w)" "holders w ph \<noteq> None" "probe_left p v None (drop_holder ph w)"
proof -
  have h: "holding v ph w" "drop_holder ph w = v" "length ph = 16" "holders v ph = None"
    using assms holding_drop by (auto simp: probing_def holding_def)
  show "probe_left p v a w" "probe_left p v (Some None) w" "probe_left p v (Some (Some (probe_json p e ph st))) w"
    "probe_left p v a (drop_holder ph w)" "probe_left p v None (drop_holder ph w)"
    using assms h unfolding probe_left_def probing_def by blast+
  show "holders w ph \<noteq> None" using h(1) by (rule holding_some)
qed

lemma triple_probe_journal:
  "itriple True view (on_card (probe_left p v)) (on_card (probing p e v ph)) (writeJournal p e ph st)
     (\<lambda>_. on_card (probing p e v ph))"
  by (rule itriple_weaken [OF triple_writeJournal [where A = "probing p e v ph" and C = "probe_left p v"]])
    (auto simp: probing_left on_card_def, auto simp: probing_def)

abbreviation as_found :: "ncm_view \<Rightarrow> 'r obs \<Rightarrow> bool" where
  "as_found v \<equiv> on_card (\<lambda>a w. a = None \<and> w = v)"

lemma triple_probe_cleanup:
  assumes N: "ncm_contract N view" "ncm_reliable N view"
  shows "itriple True view (on_card (probe_left p v)) (on_card (probing p e v ph)) (probe_cleanup N ph) (\<lambda>_. as_found v)"
  unfolding probe_cleanup_def
proof (rule itriple_bind [OF triple_delete_held [OF N]])
  show "itriple True view (on_card (probe_left p v)) (on_card (\<lambda>a w. rc = 0 \<and> (\<exists>u. probing p e v ph a u \<and> w = drop_holder ph u)))
      dropJournal (\<lambda>_. as_found v)" for rc :: u32
    by (rule itriple_weaken [OF triple_dropJournal [where C = "probe_left p v" and
            A = "\<lambda>a w. \<exists>u. probing p e v ph a u \<and> w = drop_holder ph u"]])
      (auto simp: on_card_def probing_left, auto simp: probing_def holding_drop)
qed (auto simp: probing_left)

lemma itriple_copy_end:
  assumes "itriple M view C P p1 Q" "itriple M view C P p2 Q" "\<And>rc. itriple M view C P (p3 rc) Q"
  shows "itriple M view C P (case res of Copied \<Rightarrow> p1 | ReadFailed \<Rightarrow> p2 | WriteFailed rc \<Rightarrow> p3 rc) Q"
  using assms by (cases res) simp_all

lemma triple_probe_copy:
  assumes N: "ncm_contract N view" "ncm_reliable N view"
  shows "itriple True view (on_card (probe_left p v)) (on_card (probing p e v ph)) (probe_copy N h p e ph) (\<lambda>_. as_found v)"
proof -
  let ?C = "probe_left p v" and ?A = "probing p e v ph"
  have copy: "itriple True view (on_card ?C) (on_card ?A) (copy_content N rd ph n k) (\<lambda>_. on_card ?A)" for rd n k
    by (rule triple_copy_content [OF N(1)]) (auto simp: probing_left, auto simp: probing_def holding_write)
  have cleanup: "itriple True view (on_card ?C) (on_card ?A) (do { probe_cleanup N ph; State_Monad.return d }) (\<lambda>_. as_found v)" for d
    by (rule itriple_bind [OF triple_probe_cleanup [OF N]], rule itriple_return)
  have delete: "itriple True view (on_card ?C) (on_card ?A) (do {
        rc \<leftarrow> call (n_delete_placeholder N ph);
        if \<not> succeeded rc then State_Monad.return (d rc) else do { dropJournal; State_Monad.return d' } }) (\<lambda>_. as_found v)" for d d'
  proof (rule itriple_bind [OF triple_delete_held [OF N]])
    fix rc :: u32
    have "itriple True view (on_card ?C) (on_card (\<lambda>a w. rc = 0 \<and> (\<exists>u. ?A a u \<and> w = drop_holder ph u))) dropJournal
        (\<lambda>_. as_found v)"
      by (rule itriple_weaken [OF triple_dropJournal [where C = ?C and A = "\<lambda>a w. \<exists>u. ?A a u \<and> w = drop_holder ph u"]])
        (auto simp: on_card_def probing_left, auto simp: probing_def holding_drop)
    then show "itriple True view (on_card ?C) (on_card (\<lambda>a w. rc = 0 \<and> (\<exists>u. ?A a u \<and> w = drop_holder ph u)))
        (if \<not> succeeded rc then State_Monad.return (d rc) else do { dropJournal; State_Monad.return d' }) (\<lambda>_. as_found v)"
      by (cases "rc = 0") (auto intro!: itriple_bind itriple_return simp: on_card_def)
  qed (auto simp: probing_left)
  show ?thesis
    unfolding probe_copy_def
  proof (rule itriple_bind [OF triple_probe_journal], rule on_card_inert [OF inert_feed(1)], goal_cases)
    case (2 _ sought)
    show ?case
      by (intro itriple_if cleanup itriple_bind [OF triple_probe_journal] itriple_bind [OF copy] itriple_prod itriple_copy_end delete)
  qed (simp add: probing_left)
qed

lemma still_copy [still_intros]: "still (copy_content N rd ph remaining copied)"
proof (induction remaining arbitrary: copied rule: less_induct)
  case (less remaining)
  show ?case
    unfolding copy_content.simps [of N rd ph remaining copied] Let_def
    by (cases "remaining = 0") (auto intro!: still_intros less simp: COPY_BUFFER_SIZE_def)
qed

lemma still_copy_end [still_intros]:
  "still p1 \<Longrightarrow> still p2 \<Longrightarrow> (\<And>rc. still (p3 rc)) \<Longrightarrow>
    still (case res of Copied \<Rightarrow> p1 | ReadFailed \<Rightarrow> p2 | WriteFailed rc \<Rightarrow> p3 rc)"
  by (cases res) simp_all

lemma still_probe_copy [still_intros]: "still (probe_copy N h p e ph)"
  unfolding probe_copy_def by (intro still_intros)

lemma itriple_bind2:
  assumes "itriple M view C P m (\<lambda>(x, y). R x y)" and "\<And>x y. itriple M view C (R x y) (f x y) Q"
  shows "itriple M view C P (State_Monad.bind m (\<lambda>(x, y). f x y)) Q"
  by (rule itriple_bind [OF assms(1)]) (use assms(2) in \<open>auto split: prod.splits\<close>)

lemma itriple_sum2:
  assumes "\<And>y. itriple M view C (R y) (f y) Q" and "\<And>y. itriple M view C (S y) (g y) Q"
  shows "itriple M view C (case a of Inl y \<Rightarrow> R y | Inr y \<Rightarrow> S y) (case a of Inl y \<Rightarrow> f y | Inr y \<Rightarrow> g y) Q"
  using assms by (cases a) simp_all

lemma triple_has_holder:
  assumes N: "ncm_contract N view" and A: "\<And>a v. A a v \<Longrightarrow> C a v"
  shows "itriple M view (on_card C) (on_card A) (call (n_has_placeholder N ph))
    (\<lambda>(rc, exists). on_card (\<lambda>a v. A a v \<and> (succeeded rc \<longrightarrow> exists = (holders v ph \<noteq> None))))"
proof (rule itriple_ask [OF contractD(6) [OF N]])
  fix s and x :: "'r obs"
  assume "o_ncm x = view s" "on_card A x"
  moreover have "succeeded (fst (fst (n_has_placeholder N ph s))) \<longrightarrow>
      snd (fst (n_has_placeholder N ph s)) = (holders (view s) ph \<noteq> None)"
    using N by (simp add: ncm_contract_def ncm_answers_def)
  ultimately show "(case fst (n_has_placeholder N ph s) of (rc, exists) \<Rightarrow>
      on_card (\<lambda>a v. A a v \<and> (succeeded rc \<longrightarrow> exists = (holders v ph \<noteq> None)))) x"
    by (cases "fst (n_has_placeholder N ph s)") (simp add: on_card_def)
qed (use A in \<open>auto simp: on_card_def\<close>)

lemma left_start: "probe_left p v None v"
  by (auto simp: probe_left_def)

lemma triple_probe_placeholder:
  assumes N: "ncm_contract N view" "ncm_reliable N view" and ph: "holders v ph = None" "length ph = 16"
  shows "itriple True view (on_card (probe_left p v)) (as_found v) (do {
      rc \<leftarrow> call (n_create N (contentId e) ph (n_size e));
      if \<not> succeeded rc then State_Monad.return (f rc) else probe_copy N h p e ph }) (\<lambda>_. as_found v)"
proof (rule on_card_does [OF contract_effects(1) [OF N(1)]], goal_cases)
  case 3
  show ?case
    by (simp, rule itriple_weaken [OF triple_probe_copy [OF N, of p v e ph]])
      (use ph in \<open>auto simp: on_card_def probing_def holding_def\<close>)
next
  case (4 rc)
  then show ?case by (simp add: itriple_return)
qed (use ph in \<open>auto simp: probe_left_def holding_def\<close>)

lemma triple_probe_storage:
  assumes N: "ncm_contract N view" "ncm_reliable N view"
  shows "itriple True view (on_card (probe_left p v)) (as_found v) (probe_storage N h p e) (\<lambda>_. as_found v)"
proof -
  let ?C = "probe_left p v" and ?U = "\<lambda>a w. a = None \<and> w = v"
  have U: "\<And>a w. ?U a w \<Longrightarrow> ?C a w" by (auto simp: left_start)
  have has: "itriple True view (on_card ?C) (on_card (\<lambda>a w. ?U a w \<and> (succeeded rc \<longrightarrow> length ph = 16 \<and> holders w ph = None)))
      (if \<not> succeeded rc then State_Monad.return (resultToDiagnostic rc PlaceholderError ''GeneratePlaceHolderId'')
       else do {
         (rc, exists) \<leftarrow> call (n_has_placeholder N ph);
         if \<not> succeeded rc then State_Monad.return (resultToDiagnostic rc PlaceholderError ''HasPlaceHolder'')
         else do {
           (if exists then call (n_delete_placeholder N ph) else State_Monad.return 0);
           rc \<leftarrow> call (n_create N (contentId e) ph (n_size e));
           if \<not> succeeded rc then State_Monad.return (resultToDiagnostic rc PlaceholderError ''CreatePlaceHolder'')
           else probe_copy N h p e ph
         }
       }) (\<lambda>_. as_found v)" for rc ph
  proof (cases "succeeded rc \<and> length ph = 16 \<and> holders v ph = None")
    case True
    have "itriple True view (on_card ?C) (on_card (\<lambda>a w. ?U a w \<and> (succeeded rc' \<longrightarrow> exists = (holders w ph \<noteq> None))))
        (if \<not> succeeded rc' then State_Monad.return (resultToDiagnostic rc' PlaceholderError ''HasPlaceHolder'')
         else do {
           (if exists then call (n_delete_placeholder N ph) else State_Monad.return 0);
           rc \<leftarrow> call (n_create N (contentId e) ph (n_size e));
           if \<not> succeeded rc then State_Monad.return (resultToDiagnostic rc PlaceholderError ''CreatePlaceHolder'')
           else probe_copy N h p e ph
         }) (\<lambda>_. as_found v)" (is "itriple _ _ _ _ ?rest _") for rc' exists
    proof (cases "succeeded rc' \<longrightarrow> \<not> exists")
      case ok: True
      have "itriple True view (on_card ?C) (as_found v) ?rest (\<lambda>_. as_found v)"
        using ok True triple_probe_placeholder [OF N, of v ph p e _ h]
        by (cases "succeeded rc'") (simp_all add: itriple_return)
      then show ?thesis by (rule itriple_weaken) (auto simp: on_card_def)
    next
      case False
      then show ?thesis
        by (intro itriple_False still_intros) (use True in \<open>auto simp: on_card_def\<close>)
    qed
    note rest = itriple_bind2 [OF triple_has_holder [OF N(1) U] this]
    show ?thesis by (rule itriple_weaken [OF itriple_if [OF itriple_return rest]]) (use True in \<open>auto simp: on_card_def\<close>)
  next
    case False
    then show ?thesis
      by (cases "succeeded rc") (auto intro!: itriple_return itriple_False still_intros simp: on_card_def)
  qed
  show ?thesis
    unfolding probe_storage_def
    by (intro on_card_inert [OF _ U] inert_intros N(1) itriple_if itriple_return
        itriple_bind2 [OF triple_generate [OF N(1) U] has])
qed

lemma inert_snapshot_free [inert_intros]: "ncm_contract N view \<Longrightarrow> inert view (snapshot_free N)"
  unfolding snapshot_free_def by (intro inert_intros inert_ask contractD)

lemma triple_no_journal:
  assumes "\<And>a w. A a w \<Longrightarrow> a = None" and "itriple M view C (on_card A) (f False) Q" and "\<And>b. still (f b)"
  shows "itriple M view C (on_card A) (State_Monad.bind (peek (\<lambda>d. jfiles d Active \<noteq> None)) f) Q"
proof (rule itriple_bind [where R = "\<lambda>b. on_card (\<lambda>a w. \<not> b \<and> A a w)"])
  show "itriple M view C (on_card A) (peek (\<lambda>d. jfiles d Active \<noteq> None)) (\<lambda>b. on_card (\<lambda>a w. \<not> b \<and> A a w))"
    by (rule itriple_peek) (use assms(1) in \<open>auto simp: on_card_def obs_def\<close>)
  show "itriple M view C (on_card (\<lambda>a w. \<not> b \<and> A a w)) (f b) Q" for b
    by (rule itriple_pure [OF assms(3)]) (use assms(2) in simp)
qed

lemma still_probe_storage [still_intros]: "still (probe_storage N h p e)"
  unfolding probe_storage_def by (intro still_intros)

lemma still_recovers [still_intros]: "still (recoverStaleNcmProbe N)" "still (recoverStaleCnmtAnalysis N)"
  unfolding recoverStaleNcmProbe_def recoverStaleCnmtAnalysis_def read_journal_def by (intro still_intros)+

lemma still_snapshot [still_intros]: "still (snapshot_free N)"
  unfolding snapshot_free_def by (intro still_intros)

lemma triple_runSafeNcmProbe:
  assumes N: "ncm_contract N view" "ncm_reliable N view"
  shows "itriple True view (on_card (probe_left p v)) (as_found v) (runSafeNcmProbe N h p) (\<lambda>_. as_found v)"
  unfolding runSafeNcmProbe_def
proof (rule triple_no_journal, simp, goal_cases)
  case 1
  have "itriple True view (on_card (probe_left p v)) (as_found v)
      (do { d \<leftarrow> probe_storage N h p e; State_Monad.return (f d) }) (\<lambda>_. as_found v)" for e and f :: "_ \<Rightarrow> NcmProbeResult"
    by (rule itriple_bind [OF triple_probe_storage [OF N]], rule itriple_return)
  note storage = this
  show ?case
    unfolding Let_def
    by (simp only: if_False State_Monad.bind_left_identity prod.case not_True_eq_False)
      (intro itriple_if itriple_return itriple_option on_card_inert inert_intros N(1) storage; simp add: left_start)
qed (unfold Let_def, intro still_intros)

text \<open>A journal that names its placeholder lets the recovery of the probe remove it.\<close>

lemma probe_json_values [simp]:
  "str_value ''owner'' [] (probe_json p e ph st) = Some ''aio-switch-updater-mod''"
  "str_value ''kind'' [] (probe_json p e ph st) = Some ''ncm-probe''"
  "str_value ''placeholder_id'' [] (probe_json p e ph st) = Some (bytesToHex ph)"
  by (simp_all add: str_value_def probe_json_def)

lemma hexToBytes_16: "length b = 16 \<Longrightarrow> hexToBytes (bytesToHex b) 16 = Some b"
  using hexToBytes_bytesToHex [of b] by simp

text \<open>With working files the journal is read.\<close>

lemma triple_read_journal:
  assumes "\<And>a v. A a v \<Longrightarrow> C a v"
  shows "itriple True view (on_card C) (on_card A) (read_journal t) (\<lambda>r. on_card (\<lambda>a v. r = t \<and> A a v))"
proof -
  have "itriple True view (on_card C) (on_card A) (file_op (\<lambda>d. (True, jfiles d, work_dir d)) False)
      (\<lambda>opened. on_card (\<lambda>a v. opened \<and> A a v))"
    by (rule itriple_file [where g = "\<lambda>b fs wd. (True, fs, wd)"]) (auto simp: on_card_def assms)
  then show ?thesis unfolding read_journal_def by (rule itriple_bind) (auto intro!: itriple_return simp: on_card_def)
qed

lemma triple_known_journal:
  assumes A: "\<And>a v. A a v \<Longrightarrow> a = Some (Some j) \<and> C a v"
    and body: "itriple True view (on_card C) (on_card A) (g (Some j)) Q" and "\<And>t. still (g t)" "still p"
  shows "itriple True view (on_card C) (on_card A)
    (do {
       journal \<leftarrow> peek (\<lambda>d. jfiles d Active);
       case journal of None \<Rightarrow> p | Some text \<Rightarrow> do { t \<leftarrow> read_journal text; g t }
     }) Q"
proof (rule itriple_bind [where R = "\<lambda>t. on_card (\<lambda>a v. t = Some (Some j) \<and> A a v)"])
  show "itriple True view (on_card C) (on_card A) (peek (\<lambda>d. jfiles d Active)) (\<lambda>t. on_card (\<lambda>a v. t = Some (Some j) \<and> A a v))"
    by (rule itriple_peek) (use A in \<open>auto simp: on_card_def obs_def\<close>)
  have "itriple True view (on_card C) (on_card (\<lambda>a v. t = Some j \<and> A a v)) (g t) Q" for t
    by (rule itriple_pure [OF assms(3)]) (use body in simp)
  note body' = this
  have "itriple True view (on_card C) (on_card A) (do { t \<leftarrow> read_journal (Some j); g t }) Q"
    by (rule itriple_bind [OF triple_read_journal [where A = A and C = C]]) (use A body' in auto)
  then show "itriple True view (on_card C) (on_card (\<lambda>a v. t = Some (Some j) \<and> A a v))
      (case t of None \<Rightarrow> p | Some text \<Rightarrow> do { t \<leftarrow> read_journal text; g t }) Q" for t
    by (intro itriple_pure) (auto simp: read_journal_def intro!: still_intros assms(3,4))
qed

lemma triple_session:
  assumes N: "ncm_contract N view" "ncm_reliable N view" and A: "\<And>a v. A a v \<Longrightarrow> C a v"
  shows "itriple M view (on_card C) (on_card A) (NcmSession_open N) (\<lambda>d. on_card (\<lambda>a v. diag_ok d \<and> A a v))"
  unfolding NcmSession_open_def
proof (rule itriple_bind [where R = "\<lambda>rc. on_card (\<lambda>a v. rc = 0 \<and> A a v)"])
  show "itriple M view (on_card C) (on_card A) (call (n_initialize N)) (\<lambda>rc. on_card (\<lambda>a v. rc = 0 \<and> A a v))"
    by (rule itriple_ask [OF contractD(1) [OF N(1)]]) (auto simp: on_card_def A recovery_calls(7) [OF N])
  have "itriple M view (on_card C) (on_card A) (call (n_open_storage N)) (\<lambda>rc. on_card (\<lambda>a v. rc = 0 \<and> A a v))"
    by (rule itriple_ask [OF contractD(2) [OF N(1)]]) (auto simp: on_card_def A recovery_calls(8) [OF N])
  note storage = this
  have "itriple M view (on_card C) (on_card A) (do {
         rc \<leftarrow> call (n_open_storage N);
         State_Monad.return (if \<not> succeeded rc then resultToDiagnostic rc PlaceholderError ''ncmOpenContentStorage(SD)''
           else makeDiagnostic NoError [] 0)
       }) (\<lambda>d. on_card (\<lambda>a v. diag_ok d \<and> A a v))"
    by (rule itriple_bind [OF storage]) (auto intro!: itriple_return simp: on_card_def)
  then show "itriple M view (on_card C) (on_card (\<lambda>a v. rc = 0 \<and> A a v))
      (if \<not> succeeded rc then State_Monad.return (resultToDiagnostic rc InternalError ''ncmInitialize'')
       else do {
         rc \<leftarrow> call (n_open_storage N);
         State_Monad.return (if \<not> succeeded rc then resultToDiagnostic rc PlaceholderError ''ncmOpenContentStorage(SD)''
           else makeDiagnostic NoError [] 0)
       }) (\<lambda>d. on_card (\<lambda>a v. diag_ok d \<and> A a v))" for rc :: u32
    by (intro itriple_pure still_intros) simp
qed

text \<open>The end of both recoveries: ask for the object of the journal, delete it, remove the journal.\<close>

lemma triple_finish:
  assumes A: "\<And>a w. A a w \<Longrightarrow> C a w" and v: "C None v"
    and ask: "itriple True view (on_card C) (on_card A) ask (\<lambda>(rc, exists). on_card (\<lambda>a w. rc = (0 :: u32) \<and> exists = E w \<and> A a w))"
    and del: "itriple True view (on_card C) (on_card (\<lambda>a w. E w \<and> A a w)) del (\<lambda>rc. on_card (\<lambda>a w. rc = 0 \<and> w = v \<and> C a w))"
    and idle: "\<And>a w. A a w \<Longrightarrow> \<not> E w \<Longrightarrow> w = v"
    and "still del"
  shows "itriple True view (on_card C) (on_card A) (do {
      (rc, exists) \<leftarrow> ask;
      if \<not> succeeded rc then State_Monad.return (False, m)
      else do {
        rc \<leftarrow> (if exists then del else State_Monad.return 0);
        if \<not> succeeded rc then State_Monad.return (False, m')
        else do { dropJournal; State_Monad.return (True, m'' exists) } } }) (\<lambda>(ok, _) x. ok \<and> as_found v x)"
proof (rule itriple_bind2 [OF ask])
  fix rc :: u32 and exists
  have "itriple True view (on_card C) (on_card (\<lambda>a w. w = v \<and> C a w)) dropJournal (\<lambda>_. as_found v)"
    by (rule itriple_weaken [OF triple_dropJournal [where C = C and A = "\<lambda>a w. w = v \<and> C a w"]]) (use v in \<open>auto simp: on_card_def\<close>)
  then have drop: "itriple True view (on_card C) (on_card (\<lambda>a w. rc = (0 :: u32) \<and> w = v \<and> C a w))
      (if \<not> succeeded rc then State_Monad.return (False, m')
        else do { dropJournal; State_Monad.return (True, m'' exists) }) (\<lambda>(ok, _) x. ok \<and> as_found v x)" for rc
    by (intro itriple_pure still_intros) (auto intro!: itriple_bind itriple_return)
  have "itriple True view (on_card C) (on_card (\<lambda>a w. exists = E w \<and> A a w)) (if exists then del else State_Monad.return 0)
      (\<lambda>rc. on_card (\<lambda>a w. rc = 0 \<and> w = v \<and> C a w))"
  proof (rule itriple_if)
    assume "exists"
    then show "itriple True view (on_card C) (on_card (\<lambda>a w. exists = E w \<and> A a w)) del
        (\<lambda>rc. on_card (\<lambda>a w. rc = 0 \<and> w = v \<and> C a w))" using del by simp
  qed (auto intro!: itriple_return simp: on_card_def A dest: idle)
  note delete = itriple_bind [OF this drop]
  show "itriple True view (on_card C) (on_card (\<lambda>a w. rc = 0 \<and> exists = E w \<and> A a w))
      (if \<not> succeeded rc then State_Monad.return (False, m)
       else do {
         rc \<leftarrow> (if exists then del else State_Monad.return 0);
         if \<not> succeeded rc then State_Monad.return (False, m')
         else do { dropJournal; State_Monad.return (True, m'' exists) } }) (\<lambda>(ok, _) x. ok \<and> as_found v x)"
    by (rule itriple_pure, intro still_intros assms(6), simp only: simp_thms if_False, rule delete)
qed

lemma triple_recover_probe:
  assumes N: "ncm_contract N view" "ncm_reliable N view" and ph: "length ph = 16" "holders v ph = None"
  shows "itriple True view (on_card (probe_left p v))
    (on_card (\<lambda>a w. a = Some (Some (probe_json p e ph st)) \<and> (w = v \<or> holding v ph w)))
    (recoverStaleNcmProbe N) (\<lambda>(ok, _) x. ok \<and> as_found v x)"
proof -
  let ?j = "probe_json p e ph st" and ?C = "probe_left p v"
  let ?A = "\<lambda>a w. a = Some (Some ?j) \<and> (w = v \<or> holding v ph w)"
  have A: "\<And>a w. ?A a w \<Longrightarrow> ?C a w" using ph unfolding probe_left_def by blast
  have ask: "itriple True view (on_card ?C) (on_card ?A) (call (n_has_placeholder N ph))
      (\<lambda>(rc, exists). on_card (\<lambda>a w. rc = 0 \<and> exists = (holders w ph \<noteq> None) \<and> ?A a w))"
    by (rule itriple_ask [OF contractD(6) [OF N(1)]]) (use A in \<open>auto simp: on_card_def recovery_calls(2) [OF N]\<close>)
  have del: "itriple True view (on_card ?C) (on_card (\<lambda>a w. holders w ph \<noteq> None \<and> ?A a w)) (call (n_delete_placeholder N ph))
      (\<lambda>rc. on_card (\<lambda>a w. rc = 0 \<and> w = v \<and> ?C a w))"
    by (rule itriple_weaken [OF triple_delete_held [OF N, where C = ?C and A = "\<lambda>a w. holders w ph \<noteq> None \<and> ?A a w" and ph = ph]])
      (use ph A holding_drop in \<open>fastforce simp: on_card_def\<close>)+
  have finish: "itriple True view (on_card ?C) (on_card ?A) (do {
      (rc, exists) \<leftarrow> call (n_has_placeholder N ph);
      if \<not> succeeded rc then State_Monad.return (False, m)
      else do {
        rc \<leftarrow> (if exists then call (n_delete_placeholder N ph) else State_Monad.return 0);
        if \<not> succeeded rc then State_Monad.return (False, m')
        else do { dropJournal; State_Monad.return (True, m'' exists) } } }) (\<lambda>(ok, _) x. ok \<and> as_found v x)" for m m' m''
    by (rule triple_finish [OF A left_start ask del]) (auto intro!: still_intros dest: holding_some)
  show ?thesis
    unfolding recoverStaleNcmProbe_def
  proof (rule triple_known_journal [where j = ?j], goal_cases)
    case 2
    have "owned_journal ''ncm-probe'' ?j = Some True" by (simp add: owned_journal_def)
    have "itriple True view (on_card ?C) (on_card (\<lambda>a w. diag_ok d \<and> ?A a w))
        (if \<not> diag_ok d then State_Monad.return (False, technical d) else (do {
          (rc, exists) \<leftarrow> call (n_has_placeholder N ph);
          if \<not> succeeded rc then State_Monad.return (False, m)
          else do {
            rc \<leftarrow> (if exists then call (n_delete_placeholder N ph) else State_Monad.return 0);
            if \<not> succeeded rc then State_Monad.return (False, m')
            else do { dropJournal; State_Monad.return (True, m'' exists) } } })) (\<lambda>(ok, _) x. ok \<and> as_found v x)" for d m m' m''
      by (rule itriple_pure, intro still_intros, simp only: simp_thms if_False, rule finish)
    note body = itriple_bind [OF triple_session [OF N A] this]
    show ?case
      by (simp only: \<open>owned_journal ''ncm-probe'' ?j = Some True\<close> probe_json_values hexToBytes_16 [OF ph(1)] option.case prod.case
          bool.case, rule body)
  qed (use A in \<open>auto intro!: still_intros\<close>)
qed

section \<open>The analysis\<close>

text \<open>Everything as in \<open>v\<close>, and the CNMT on the storage.\<close>

definition adding :: "ncm_view \<Rightarrow> content_id \<Rightarrow> ncm_view \<Rightarrow> bool" where
  "adding v c w = (contents v c = None \<and> (\<exists>bs. w = v\<lparr>contents := (contents v)(c \<mapsto> bs)\<rparr>))"

lemma adding_drop: "adding v c w \<Longrightarrow> drop_content c w = v"
  by (cases v) (auto simp: adding_def drop_content_def fun_upd_idem)

lemma adding_some: "adding v c w \<Longrightarrow> contents w c \<noteq> None"
  by (auto simp: adding_def)

lemma holding_register:
  "holding v ph w \<Longrightarrow> contents w c = None \<Longrightarrow> holders w ph = Some bs \<Longrightarrow>
    adding v c (w\<lparr>contents := (contents w)(c \<mapsto> bs), holders := (holders w)(ph := None)\<rparr>)"
  by (cases v) (auto simp: holding_def adding_def fun_upd_idem)

definition analysis_left :: "NspEntryInfo \<Rightarrow> ncm_view \<Rightarrow> json option option \<Rightarrow> ncm_view \<Rightarrow> bool" where
  "analysis_left e v a w = (if a = None \<or> a = Some None then w = v \<or> (\<exists>ph. holding v ph w) \<or> adding v (contentId e) w
     else (a = Some (Some (analysis_json e True)) \<and> (w = v \<and> contents v (contentId e) = None \<or> adding v (contentId e) w)) \<or>
       (a = Some (Some (analysis_json e False)) \<and> w = v))"

text \<open>The CNMT is where the analysis can read it, and the journal says whether it has to go.\<close>

definition cnmt_staged :: "NspEntryInfo \<Rightarrow> ncm_view \<Rightarrow> bool \<Rightarrow> json option option \<Rightarrow> ncm_view \<Rightarrow> bool" where
  "cnmt_staged e v created a w = (a = Some (Some (analysis_json e created)) \<and>
     (if created then adding v (contentId e) w else w = v))"

lemma analysis_left_simps [simp]:
  "analysis_left e v None w = (w = v \<or> (\<exists>ph. holding v ph w) \<or> adding v (contentId e) w)"
  "analysis_left e v (Some None) w = (w = v \<or> (\<exists>ph. holding v ph w) \<or> adding v (contentId e) w)"
  by (simp_all add: analysis_left_def)

lemma cnmt_staged_left: "cnmt_staged e v b a w \<Longrightarrow> analysis_left e v a w"
  by (auto simp: cnmt_staged_def analysis_left_def split: if_splits)

lemma triple_copy_cnmt:
  assumes N: "ncm_contract N view"
  shows "itriple True view (on_card (analysis_left e v)) (on_card (\<lambda>a w. a = None \<and> holding v ph w)) (copy_cnmt N h p e ph)
    (\<lambda>failed. on_card (\<lambda>a w. a = None \<and> (if failed = None then adding v (contentId e) w else holding v ph w)))"
proof -
  let ?C = "analysis_left e v" and ?A = "\<lambda>a w. a = None \<and> holding v ph w"
  have A: "\<And>a w. ?A a w \<Longrightarrow> ?C a w" by auto
  have fail: "itriple True view (on_card ?C) (on_card ?A) (State_Monad.return (Some d))
      (\<lambda>failed. on_card (\<lambda>a w. a = None \<and> (if failed = None then adding v (contentId e) w else holding v ph w)))" for d :: Diagnostic
    by (rule itriple_return) (simp add: on_card_def)
  have copy: "itriple True view (on_card ?C) (on_card ?A) (copy_content N rd ph n k) (\<lambda>_. on_card ?A)" for rd n k
    by (rule triple_copy_content [OF N]) (auto simp: holding_write)
  have register: "itriple True view (on_card ?C) (on_card ?A) (do {
        rc \<leftarrow> call (n_register N (contentId e) ph);
        State_Monad.return (if \<not> succeeded rc then Some (f rc) else None) })
      (\<lambda>failed. on_card (\<lambda>a w. a = None \<and> (if failed = None then adding v (contentId e) w else holding v ph w)))"
    for f :: "u32 \<Rightarrow> Diagnostic"
    by (rule on_card_does [OF contract_effects(3) [OF N]])
      (auto intro!: itriple_return holding_register simp: on_card_def)
  show ?thesis
    unfolding copy_cnmt_def
    by (intro on_card_inert [OF inert_feed(1) A] on_card_inert [OF inert_peek_source A] itriple_if fail itriple_bind [OF copy]
        itriple_prod itriple_copy_end register) simp_all
qed

lemma triple_stage_journal:
  assumes "\<And>a w. A a w \<Longrightarrow> a = None" and "\<And>a w. A a w \<Longrightarrow> if b then adding v (contentId e) w else w = v"
  shows "itriple True view (on_card (analysis_left e v)) (on_card A) (do { writeCnmtAnalysisJournal e b; State_Monad.return (Inr b) })
    (\<lambda>r. case r of Inl d \<Rightarrow> as_found v | Inr created \<Rightarrow> on_card (cnmt_staged e v created))"
proof (rule itriple_bind [OF triple_writeAnalysis [where A = A and C = "analysis_left e v"]])
  fix a w
  assume A: "A a w"
  show "analysis_left e v a w \<and> analysis_left e v (Some None) w \<and> analysis_left e v (Some (Some (analysis_json e b))) w"
    using assms(1) [OF A] assms(2) [OF A] by (auto simp: analysis_left_def split: if_splits)
next
  show "itriple True view (on_card (analysis_left e v)) (on_card (\<lambda>a w. a = Some (Some (analysis_json e b)) \<and> (\<exists>a. A a w)))
      (State_Monad.return (Inr b)) (\<lambda>r. case r of Inl d \<Rightarrow> as_found v | Inr created \<Rightarrow> on_card (cnmt_staged e v created))"
    by (rule itriple_return) (use assms(2) in \<open>auto simp: on_card_def cnmt_staged_def\<close>)
qed

lemma triple_stage_copy:
  assumes N: "ncm_contract N view" "ncm_reliable N view" and ph: "holders v ph = None"
  shows "itriple True view (on_card (analysis_left e v)) (as_found v) (do {
         rc \<leftarrow> call (n_create N (contentId e) ph (n_size e));
         if \<not> succeeded rc then State_Monad.return (Inl (f rc))
         else do {
           failed \<leftarrow> copy_cnmt N h p e ph;
           case failed of
             Some d \<Rightarrow> do { call (n_delete_placeholder N ph); State_Monad.return (Inl d) }
           | None \<Rightarrow> do { writeCnmtAnalysisJournal e True; State_Monad.return (Inr True) }
         } })
    (\<lambda>r. case r of Inl d \<Rightarrow> as_found v | Inr created \<Rightarrow> on_card (cnmt_staged e v created))"
proof (rule on_card_does [OF contract_effects(1) [OF N(1)]], goal_cases)
  case 3
  let ?C = "analysis_left e v" and ?A = "\<lambda>a w. a = None \<and> holding v ph w"
  let ?Q = "\<lambda>r. case r of Inl d \<Rightarrow> as_found v | Inr created \<Rightarrow> on_card (cnmt_staged e v created)"
  have undo: "itriple True view (on_card ?C) (on_card ?A)
      (do { call (n_delete_placeholder N ph); State_Monad.return (Inl d) } :: (_, Diagnostic + bool) package_prog) ?Q" for d
    by (rule itriple_bind [OF triple_delete_held [OF N, where A = ?A and C = ?C]])
      (use holding_drop holding_some in \<open>fastforce intro!: itriple_return simp: on_card_def\<close>)+
  have keep: "itriple True view (on_card ?C) (on_card (\<lambda>a w. a = None \<and> adding v (contentId e) w))
      (do { writeCnmtAnalysisJournal e True; State_Monad.return (Inr True) } :: (_, Diagnostic + bool) package_prog) ?Q"
    by (rule triple_stage_journal) auto
  have rest: "itriple True view (on_card ?C) (on_card (\<lambda>a w. a = None \<and> (if failed = None then adding v (contentId e) w else holding v ph w)))
      (case failed of
         Some d \<Rightarrow> do { call (n_delete_placeholder N ph); State_Monad.return (Inl d) }
       | None \<Rightarrow> (do { writeCnmtAnalysisJournal e True; State_Monad.return (Inr True) } :: (_, Diagnostic + bool) package_prog)) ?Q"
    for failed
    by (cases failed) (simp_all only: option.case simp_thms if_True if_False option.distinct undo keep)
  show ?case
    by (simp only: simp_thms if_False, rule itriple_weaken [OF itriple_bind [OF triple_copy_cnmt [OF N(1)] rest]])
      (use ph in \<open>auto simp: on_card_def holding_def\<close>)
next
  case (4 rc)
  then show ?case by (simp add: itriple_return)
qed (use ph in \<open>auto simp: holding_def\<close>)

lemma triple_has_content:
  assumes N: "ncm_contract N view" and A: "\<And>a v. A a v \<Longrightarrow> C a v"
  shows "itriple M view (on_card C) (on_card A) (call (n_has N c))
    (\<lambda>(rc, exists). on_card (\<lambda>a v. A a v \<and> (succeeded rc \<longrightarrow> exists = (contents v c \<noteq> None))))"
proof (rule itriple_ask [OF contractD(5) [OF N]])
  fix s and x :: "'r obs"
  assume "o_ncm x = view s" "on_card A x"
  moreover have "succeeded (fst (fst (n_has N c s))) \<longrightarrow> snd (fst (n_has N c s)) = (contents (view s) c \<noteq> None)"
    using N by (simp add: ncm_contract_def ncm_answers_def)
  ultimately show "(case fst (n_has N c s) of (rc, exists) \<Rightarrow>
      on_card (\<lambda>a v. A a v \<and> (succeeded rc \<longrightarrow> exists = (contents v c \<noteq> None)))) x"
    by (cases "fst (n_has N c s)") (simp add: on_card_def)
qed (use A in \<open>auto simp: on_card_def\<close>)

lemma still_stage [still_intros]: "still (copy_cnmt N h p e ph)" "still (stage_cnmt N h p e)"
  unfolding stage_cnmt_def copy_cnmt_def by (intro still_intros)+

lemma triple_stage_cnmt:
  assumes N: "ncm_contract N view" "ncm_reliable N view"
  shows "itriple True view (on_card (analysis_left e v)) (as_found v) (stage_cnmt N h p e)
    (\<lambda>r. case r of Inl d \<Rightarrow> as_found v | Inr created \<Rightarrow> on_card (cnmt_staged e v created))" (is "itriple _ _ _ _ _ ?Q")
proof -
  let ?C = "analysis_left e v" and ?U = "\<lambda>a w. a = None \<and> w = v"
  have U: "\<And>a w. ?U a w \<Longrightarrow> ?C a w" by auto
  have fail: "itriple True view (on_card ?C) (as_found v) (State_Monad.return (Inl d)) ?Q" for d :: Diagnostic
    by (rule itriple_return) simp
  have fresh: "itriple True view (on_card ?C) (on_card (\<lambda>a w. ?U a w \<and> (succeeded rc \<longrightarrow> length ph = 16 \<and> holders w ph = None)))
      (if \<not> succeeded rc then State_Monad.return (Inl (resultToDiagnostic rc PlaceholderError ''GeneratePlaceHolderId(CNMT)''))
       else do {
         rc \<leftarrow> call (n_create N (contentId e) ph (n_size e));
         if \<not> succeeded rc
         then State_Monad.return (Inl (resultToDiagnostic rc PlaceholderError ''CreatePlaceHolder(CNMT)''))
         else do {
           failed \<leftarrow> copy_cnmt N h p e ph;
           case failed of
             Some d \<Rightarrow> do { call (n_delete_placeholder N ph); State_Monad.return (Inl d) }
           | None \<Rightarrow> do { writeCnmtAnalysisJournal e True; State_Monad.return (Inr True) }
         } }) ?Q" for rc ph
  proof (cases "succeeded rc \<longrightarrow> holders v ph = None")
    case True
    then show ?thesis
      by (intro itriple_if itriple_weaken [OF fail] itriple_weaken [OF triple_stage_copy [OF N, of v ph e]])
        (auto simp: on_card_def)
  qed (intro itriple_False still_intros, auto simp: on_card_def)
  have existed: "itriple True view (on_card ?C) (on_card (\<lambda>a w. ?U a w \<and> (succeeded rc \<longrightarrow> existed = (contents w c \<noteq> None))))
      (if \<not> succeeded rc then State_Monad.return (Inl d)
       else if existed then do { writeCnmtAnalysisJournal e False; State_Monad.return (Inr False) } else rest) ?Q"
    if "itriple True view (on_card ?C) (as_found v) rest ?Q" for rc existed c d and rest :: "(_, Diagnostic + bool) package_prog"
    by (intro itriple_if itriple_weaken [OF fail] itriple_weaken [OF that] triple_stage_journal) (auto simp: on_card_def)
  show ?thesis
    unfolding stage_cnmt_def
    by (rule itriple_bind2 [OF triple_has_content [OF N(1) U] existed], assumption,
        rule itriple_bind2 [OF triple_generate [OF N(1) U] fresh], assumption)
qed

lemma inert_analyze_contents [inert_intros]: "ncm_contract N view \<Longrightarrow> inert view (analyze_contents N m off k out)"
proof (induction k arbitrary: off out)
  case (Suc k)
  have "inert view (cnmt_read N off n)" for off n
    using Suc.prems unfolding cnmt_read_def by (intro inert_intros inert_ask contractD)
  then show ?case
    unfolding analyze_contents.simps Let_def by (intro inert_intros Suc)
qed (simp add: inert_return)

lemma inert_analyze_cnmt [inert_intros]: "ncm_contract N view \<Longrightarrow> inert view (analyze_cnmt N m e out)"
proof -
  assume N: "ncm_contract N view"
  have "inert view (cnmt_read N off n)" for off n
    using N unfolding cnmt_read_def by (intro inert_intros inert_ask contractD)
  then show ?thesis
    unfolding analyze_cnmt_def analyze_file_def analyze_header_def Let_def
    by (intro inert_intros inert_ask contractD N)
qed

lemma inert_judge [inert_intros]: "ncm_contract N view \<Longrightarrow> inert view (judge_analysis N out)"
  unfolding judge_analysis_def streamCurrentFirmwarePacked_def Let_def
  by (intro inert_intros inert_ask contractD)

lemma triple_delete_content:
  assumes N: "ncm_contract N view" "ncm_reliable N view"
    and A: "\<And>a v. A a v \<Longrightarrow> contents v c \<noteq> None \<and> C a v \<and> C a (drop_content c v)"
  shows "itriple M view (on_card C) (on_card A) (call (n_delete N c))
    (\<lambda>rc. on_card (\<lambda>a v. rc = 0 \<and> (\<exists>u. A a u \<and> v = drop_content c u)))"
proof (rule itriple_call)
  fix s and x :: "'r obs"
  assume x: "o_ncm x = view s" "on_card A x"
  then have "contents (view s) c \<noteq> None" using A by (auto simp: on_card_def)
  from recovery_calls(3) [OF N this] x A
  show "on_card C x \<and> on_card C (x\<lparr>o_ncm := view (snd (n_delete N c s))\<rparr>) \<and>
      on_card (\<lambda>a v. fst (n_delete N c s) = 0 \<and> (\<exists>u. A a u \<and> v = drop_content c u)) (x\<lparr>o_ncm := view (snd (n_delete N c s))\<rparr>)"
    by (auto simp: on_card_def drop_content_def)
qed

lemma adding_left: "adding v (contentId e) w \<Longrightarrow> analysis_left e v (Some (Some (analysis_json e True))) (drop_content (contentId e) w)"
  by (auto simp: analysis_left_def adding_drop) (simp add: adding_def)

lemma triple_analysis_cleanup:
  assumes N: "ncm_contract N view" "ncm_reliable N view"
  shows "itriple True view (on_card (analysis_left e v)) (on_card (cnmt_staged e v created)) (analysis_cleanup N (contentId e) created)
    (\<lambda>_. as_found v)"
  unfolding analysis_cleanup_def
proof (rule itriple_bind [where R = "\<lambda>_. on_card (\<lambda>a w. w = v \<and> analysis_left e v a w)"])
  show "itriple True view (on_card (analysis_left e v)) (on_card (cnmt_staged e v created))
      (if created then call (n_delete N (contentId e)) else State_Monad.return 0)
      (\<lambda>_. on_card (\<lambda>a w. w = v \<and> analysis_left e v a w))"
  proof (rule itriple_if)
    assume created
    then show "itriple True view (on_card (analysis_left e v)) (on_card (cnmt_staged e v created)) (call (n_delete N (contentId e)))
        (\<lambda>_. on_card (\<lambda>a w. w = v \<and> analysis_left e v a w))"
      by (intro itriple_weaken [OF triple_delete_content [OF N, where A = "cnmt_staged e v True" and c = "contentId e" and C = "analysis_left e v"]])
        (auto simp: cnmt_staged_left on_card_def, auto simp: cnmt_staged_def adding_left adding_drop dest: adding_some adding_left)
  qed (auto intro!: itriple_return simp: on_card_def cnmt_staged_left, simp add: cnmt_staged_def)
  show "itriple True view (on_card (analysis_left e v)) (on_card (\<lambda>a w. w = v \<and> analysis_left e v a w)) dropJournal (\<lambda>_. as_found v)"
    by (rule itriple_weaken [OF triple_dropJournal [where C = "analysis_left e v" and A = "\<lambda>a w. w = v \<and> analysis_left e v a w"]])
      (auto simp: on_card_def)
qed

lemma triple_analyze_entry:
  assumes N: "ncm_contract N view" "ncm_reliable N view"
  shows "itriple True view (on_card (analysis_left e v)) (as_found v) (analyze_entry N h p m e) (\<lambda>_. as_found v)"
proof -
  let ?C = "analysis_left e v" and ?U = "\<lambda>a w. a = None \<and> w = v"
  have U: "\<And>a w. ?U a w \<Longrightarrow> ?C a w" by auto
  have judge: "itriple True view (on_card ?C) (on_card ?U) (judge_analysis N out) (\<lambda>_. on_card ?U)" for out
    by (rule inert_triple [OF inert_judge [OF N(1)], where A = "\<lambda>fs. ?U (fs Active)"]) (auto simp: on_card_def)
  have body: "itriple True view (on_card ?C) (on_card (cnmt_staged e v created)) (do {
           (failed, out) \<leftarrow> analyze_cnmt N m e out;
           analysis_cleanup N (contentId e) created;
           case failed of
             Some d \<Rightarrow> State_Monad.return (out\<lparr>ca_diagnostic := d\<rparr>)
           | None \<Rightarrow> judge_analysis N (out\<lparr>expectedInstallBytes := expectedInstallBytes out + n_size e\<rparr>)
         }) (\<lambda>_. on_card ?U)" for created out
    by (intro on_card_inert [OF inert_analyze_cnmt [OF N(1)] cnmt_staged_left] itriple_prod itriple_bind [OF triple_analysis_cleanup [OF N]]
        itriple_option itriple_return judge)
  show ?thesis
    unfolding analyze_entry_def Let_def
    by (intro on_card_inert [OF inert_NcmSession_open [OF N(1)] U] itriple_if itriple_return itriple_sum2
        itriple_bind [OF triple_stage_cnmt [OF N]] body)
qed

lemma still_analyze_contents [still_intros]: "still (analyze_contents N m off k out)"
  by (induction k arbitrary: off out) (auto simp: Let_def intro!: still_intros)

lemma still_analyze_cnmt [still_intros]: "still (analyze_cnmt N m e out)"
  unfolding analyze_cnmt_def analyze_file_def analyze_header_def Let_def by (intro still_intros)

lemma still_judge [still_intros]: "still (judge_analysis N out)"
  unfolding judge_analysis_def streamCurrentFirmwarePacked_def by (intro still_intros)

lemma still_cleanup [still_intros]: "still (analysis_cleanup N c b)"
  unfolding analysis_cleanup_def by (intro still_intros)

lemma still_analyze_entry [still_intros]: "still (analyze_entry N h p m e)"
  unfolding analyze_entry_def Let_def by (intro still_intros)

text \<open>What the analysis of the package \<open>p\<close> may leave when the power is lost.\<close>

definition analysis_cut :: "ncm_view \<Rightarrow> json option option \<Rightarrow> ncm_view \<Rightarrow> bool" where
  "analysis_cut v a w = (a = None \<and> w = v \<or> (\<exists>e. length (contentId e) = 16 \<and> analysis_left e v a w))"

definition proper_ids :: "NspManifest \<Rightarrow> bool" where
  "proper_ids m = (\<forall>e \<in> set (entries m). length (contentId e) = 16)"

lemma proper_ids_simps [simp]:
  "proper_ids (m\<lparr>diagnostic := d\<rparr>) = proper_ids m" "proper_ids (check_manifest m) = proper_ids m"
  "proper_ids m \<Longrightarrow> proper_ids (add_entry (entry_info name off sz) m)"
  by (auto simp: proper_ids_def add_entry_def entry_info_id)

lemma scan_entries_ids:
  "proper_ids m \<Longrightarrow> case scan_entries t es m of Inl m' \<Rightarrow> proper_ids m' | Inr m' \<Rightarrow> proper_ids m'"
  by (induction es arbitrary: m) (simp_all split: option.split)

lemma inspect_ids: "proper_ids (inspectNspManifest h p)"
proof -
  have "proper_ids (inspect_tables rd s m)" if "proper_ids m" for rd and s :: Package_Reader.reader and m
  proof (cases "pfs0_tables rd (packageSize m) s")
    case (Inr t)
    then show ?thesis using scan_entries_ids [OF that, of t "t_entries t"] by (auto simp: inspect_tables_def split: sum.splits)
  qed (use that in \<open>simp add: inspect_tables_def\<close>)
  moreover have "proper_ids (empty_manifest\<lparr>packageSize := z\<rparr>)" for z by (simp add: proper_ids_def empty_manifest_def)
  ultimately show ?thesis by (simp add: inspectNspManifest_def Let_def)
qed

lemma triple_analyzeCnmtRequirements:
  assumes N: "ncm_contract N view" "ncm_reliable N view"
  shows "itriple True view (on_card (analysis_cut v)) (as_found v) (analyzeCnmtRequirements N h p) (\<lambda>_. as_found v)"
proof -
  let ?C = "analysis_cut v" and ?U = "\<lambda>a w. a = None \<and> w = v"
  have entry: "itriple True view (on_card ?C) (as_found v) (analyze_entry N h p m e) (\<lambda>_. as_found v)"
    if "length (contentId e) = 16" for m e
    by (rule itriple_weaken [OF triple_analyze_entry [OF N]]) (use that in \<open>auto simp: on_card_def analysis_cut_def\<close>)
  have main: "itriple True view (on_card ?C) (as_found v)
      (let m = inspectNspManifest h p in
         if \<not> diag_ok (diagnostic m) then State_Monad.return (no_analysis\<lparr>ca_diagnostic := diagnostic m\<rparr>)
         else case findCnmt m of
           None \<Rightarrow> State_Monad.return (no_analysis\<lparr>ca_diagnostic :=
             makeDiagnostic MissingContent ''No se encontro CNMT NCA utilizable'' 0\<rparr>)
         | Some e \<Rightarrow> analyze_entry N h p m e) (\<lambda>_. as_found v)"
    unfolding Let_def
    by (intro itriple_if itriple_return itriple_option entry)
      (use inspect_ids [of h p] in \<open>auto simp: proper_ids_def findCnmt_def find_Some_iff\<close>)
  have idle: "itriple True view (on_card ?C) (as_found v) (recoverStaleCnmtAnalysis N) (\<lambda>(ok, _) x. ok \<and> as_found v x)"
    unfolding recoverStaleCnmtAnalysis_def
  proof (rule itriple_bind [where R = "\<lambda>t. on_card (\<lambda>a w. t = None \<and> ?U a w)"])
    show "itriple True view (on_card ?C) (as_found v) (peek (\<lambda>d. jfiles d Active)) (\<lambda>t. on_card (\<lambda>a w. t = None \<and> ?U a w))"
      by (rule itriple_peek) (simp add: on_card_def obs_def)
  qed (rule itriple_pure, (unfold read_journal_def, intro still_intros)[1], auto intro!: itriple_return)
  show ?thesis
    unfolding analyzeCnmtRequirements_def
  proof (rule itriple_bind [OF idle], rule itriple_prod, goal_cases)
    case (1 r ok msg)
    show ?case
    proof (cases ok)
      case True
      show ?thesis
        unfolding 1 prod.case
        by (simp only: True simp_thms if_False, rule triple_no_journal, simp, simp only: if_False, rule main,
            unfold Let_def, intro still_intros)
    qed (unfold 1 prod.case, intro itriple_False, auto intro!: still_intros simp: Let_def)
  qed
qed

lemma analysis_json_values [simp]:
  "str_value ''owner'' [] (analysis_json e b) = Some ''aio-switch-updater-mod''"
  "str_value ''kind'' [] (analysis_json e b) = Some ''cnmt-analysis''"
  "str_value ''content_id'' [] (analysis_json e b) = Some (bytesToHex (contentId e))"
  "bool_value ''content_created'' False (analysis_json e b) = Some b"
  by (simp_all add: str_value_def bool_value_def analysis_json_def)

lemma triple_recover_analysis:
  assumes N: "ncm_contract N view" "ncm_reliable N view" and e: "length (contentId e) = 16"
  shows "itriple True view (on_card (analysis_left e v)) (on_card (\<lambda>a w. a = Some (Some (analysis_json e b)) \<and> analysis_left e v a w))
    (recoverStaleCnmtAnalysis N :: ('s, 'r, _) iprog) (\<lambda>(ok, _) x. ok \<and> as_found v x)"
proof -
  let ?j = "analysis_json e b" and ?C = "analysis_left e v" and ?c = "contentId e"
  let ?A = "\<lambda>a w. a = Some (Some ?j) \<and> ?C a w"
  have A: "\<And>a w. ?A a w \<Longrightarrow> ?C a w" by simp
  have owner: "owned_journal ''cnmt-analysis'' (analysis_json e k) = Some True" for k by (simp add: owned_journal_def)
  have json: "analysis_json e True \<noteq> analysis_json e False" by (simp add: analysis_json_def)
  have drop: "itriple True view (on_card ?C) (on_card (\<lambda>a w. w = v \<and> ?C a w)) (do { dropJournal; State_Monad.return (True, m) } :: ('s, 'r, _) iprog)
      (\<lambda>(ok, _) x. ok \<and> as_found v x)" for m
  proof (rule itriple_bind [where R = "\<lambda>_. as_found v"])
    show "itriple True view (on_card ?C) (on_card (\<lambda>a w. w = v \<and> ?C a w)) dropJournal (\<lambda>_. as_found v)"
      by (rule itriple_weaken [OF triple_dropJournal [where C = ?C and A = "\<lambda>a w. w = v \<and> ?C a w"]]) (auto simp: on_card_def)
  qed (simp add: itriple_return)
  show ?thesis
    unfolding recoverStaleCnmtAnalysis_def
  proof (rule triple_known_journal [where j = ?j], goal_cases)
    case 2
    show ?case
    proof (cases b)
      case False
      have "itriple True view (on_card ?C) (on_card ?A) (do { dropJournal; State_Monad.return (True, m) } :: ('s, 'r, _) iprog)
          (\<lambda>(ok, _) x. ok \<and> as_found v x)" for m
        by (rule itriple_weaken [OF drop]) (use json False in \<open>auto simp: on_card_def analysis_left_def\<close>)
      then show ?thesis
        by (simp only: owner analysis_json_values hexToBytes_16 [OF e] option.case prod.case bool.case False)
    next
      case True
      then have b: "b = True" by simp
      have ask: "itriple True view (on_card ?C) (on_card ?A) (call (n_has N ?c) :: ('s, 'r, _) iprog)
          (\<lambda>(rc, exists). on_card (\<lambda>a w. rc = 0 \<and> exists = (contents w ?c \<noteq> None) \<and> ?A a w))"
        by (rule itriple_ask [OF contractD(5) [OF N(1)]]) (auto simp: on_card_def recovery_calls(1) [OF N])
      have w: "w = v \<and> contents v ?c = None \<or> adding v ?c w" if "?A a w" for a w
        using that json True by (auto simp: analysis_left_def)
      have del: "itriple True view (on_card ?C) (on_card (\<lambda>a w. contents w ?c \<noteq> None \<and> ?A a w)) (call (n_delete N ?c) :: ('s, 'r, _) iprog)
          (\<lambda>rc. on_card (\<lambda>a w. rc = 0 \<and> w = v \<and> ?C a w))"
      proof (rule itriple_weaken [OF triple_delete_content [OF N, where C = ?C and A = "\<lambda>a w. contents w ?c \<noteq> None \<and> ?A a w" and c = ?c]])
        fix a w
        assume aw: "contents w ?c \<noteq> None \<and> ?A a w"
        then have "adding v ?c w" using w [of a w] by auto
        then show "contents w ?c \<noteq> None \<and> ?C a w \<and> ?C a (drop_content ?c w)" using aw True adding_left by auto
      next
        fix rc :: u32 and x :: "'r obs"
        assume "on_card (\<lambda>a v'. rc = 0 \<and> (\<exists>u. (contents u ?c \<noteq> None \<and> ?A a u) \<and> v' = drop_content ?c u)) x"
        then obtain u where u: "rc = 0" "contents u ?c \<noteq> None" "?A (o_files x Active) u" "o_ncm x = drop_content ?c u"
          by (auto simp: on_card_def)
        then have "adding v ?c u" using w [of "o_files x Active" u] by auto
        then show "on_card (\<lambda>a w. rc = 0 \<and> w = v \<and> ?C a w) x"
          using u True adding_left adding_drop by (simp add: on_card_def)
      qed simp_all
      have "itriple True view (on_card ?C) (on_card (\<lambda>a w. diag_ok d \<and> ?A a w))
          (if \<not> diag_ok d then State_Monad.return (False, technical d) else (do {
            (rc, exists) \<leftarrow> (call (n_has N ?c) :: ('s, 'r, _) iprog);
            if \<not> succeeded rc then State_Monad.return (False, m)
            else do {
              rc \<leftarrow> (if exists then call (n_delete N ?c) else State_Monad.return 0);
              if \<not> succeeded rc then State_Monad.return (False, m')
              else do { dropJournal; State_Monad.return (True, m'') } } })) (\<lambda>(ok, _) x. ok \<and> as_found v x)" for d m m' m''
        by (rule itriple_pure, intro still_intros, simp only: simp_thms if_False, rule triple_finish [OF A _ ask del])
          (use w in \<open>auto intro!: still_intros dest: adding_some\<close>)
      note body = itriple_bind [OF triple_session [OF N A] this]
      show ?thesis
        by (simp only: owner analysis_json_values hexToBytes_16 [OF e] option.case prod.case bool.case b, rule body [unfolded b])
    qed
  qed (auto intro!: still_intros)
qed

end
