(* ===== verification/Probe_Facts.thy ===== *)
theory Probe_Facts
  imports Probe_Rules
begin

text \<open>
  What the probe and the analysis of \<^verbatim>\<open>source/nsp_ncm_probe.cpp\<close> guarantee: they end with the services
  as they found them and without a journal, and where the power is lost they leave at most one
  placeholder, or the CNMT they had registered, which the next analysis removes.
\<close>

section \<open>A package with one CNMT\<close>

definition cnmt_title :: "(string \<times> u8 list) list" where
  "cnmt_title = [(''08080808080808080808080808080808.cnmt.nca'', [1, 2, 3])]"

definition cnmt_host :: host where
  "cnmt_host = \<lparr>files = [''a.nsp'' \<mapsto> pack_files cnmt_title], size_fails = {}, open_fails = {}, remove_fails = {}\<rparr>"

definition cnmt_reader :: Package_Reader.reader where
  "cnmt_reader = closed_reader\<lparr>rpath := ''a.nsp'', partPaths := [''a.nsp''], partSizes := [85], partStarts := [0], totalSize := 85,
     currentPart := Some 0, stream := Some (''a.nsp'', 0)\<rparr>"

lemma length_cnmt: "length (names_of cnmt_title) = 42" "length (pack_files cnmt_title) = 85"
  by (simp_all add: length_pack cnmt_title_def names_of_def name_bytes_def data_of_def)

lemma packable_cnmt: "packable cnmt_title"
  by (simp add: packable_def length_cnmt) (simp add: cnmt_title_def)

lemma parts_cnmt: "discoverParts cnmt_host ''a.nsp'' = [''a.nsp'']"
proof -
  have "partPath ''a.nsp'' 1 = ''a.nsp.01''" by code_simp
  then have "parts_from cnmt_host ''a.nsp'' 1 = []"
    by (subst parts_from.simps) (simp add: is_regular_file_def cnmt_host_def)
  then show ?thesis by (simp add: discoverParts_def is_regular_file_def cnmt_host_def)
qed

lemma bytes_cnmt: "bytes_of cnmt_host ''a.nsp'' = pack_files cnmt_title" "files cnmt_host ''a.nsp'' = Some (pack_files cnmt_title)"
  "size_fails cnmt_host = {}" "open_fails cnmt_host = {}"
  by (simp_all add: bytes_of_def cnmt_host_def)

lemma open_cnmt: "open_package cnmt_host ''a.nsp'' = (True, cnmt_reader)"
  by (simp add: open_package_def Let_def parts_cnmt closed_reader_def openPart_def file_size_def bytes_cnmt length_cnmt cnmt_reader_def)

lemma manifest_cnmt: "inspectNspManifest cnmt_host ''a.nsp'' = packed_manifest cnmt_title"
  by (rule inspect_pack [OF packable_cnmt open_cnmt])
    (simp_all add: parts_cnmt bytes_cnmt cnmt_reader_def closed_reader_def openable_def)

lemma cnmt_facts: "diag_ok (diagnostic (packed_manifest cnmt_title))" "map n_offset (entries (packed_manifest cnmt_title)) = [82]"
  "map n_size (entries (packed_manifest cnmt_title)) = [3]" "map contentId (entries (packed_manifest cnmt_title)) =
     [[8, 8, 8, 8, 8, 8, 8, 8, 8, 8, 8, 8, 8, 8, 8, 8]]"
  "map isCnmtNca (entries (packed_manifest cnmt_title)) = [True]"
  "map hasContentId (entries (packed_manifest cnmt_title)) = [True]"
  unfolding packed_manifest_def length_cnmt by code_simp+

lemma seek_cnmt: "seek cnmt_host cnmt_reader 82 = (True, cnmt_reader\<lparr>stream := Some (''a.nsp'', 82), position := 82\<rparr>)"
  by (simp add: seek_def locatePart_def upper_bound_def openPart_def cnmt_reader_def closed_reader_def Let_def)

lemma drop_cnmt: "drop 82 (pack_files cnmt_title) = [1, 2, 3]"
  by code_simp

lemma read_cnmt: "read_package cnmt_host 3 (cnmt_reader\<lparr>stream := Some (''a.nsp'', 82), position := 82\<rparr>) =
    (Some [1, 2, 3], cnmt_reader\<lparr>stream := Some (''a.nsp'', 85), position := 85\<rparr>)"
  by (simp add: read_package_def read_loop.simps locatePart_def upper_bound_def openPart_def cnmt_reader_def closed_reader_def Let_def
      stream_read_def bytes_cnmt drop_cnmt length_cnmt)

definition cnmt_device :: "event list \<Rightarrow> (ncm_view, Package_Reader.reader) device" where
  "cnmt_device es = \<lparr>svc = demo_view, source = closed_reader, jfiles = (\<lambda>_. None), work_dir = False, replaces = True,
     events = es, polls = [], lost = False\<rparr>"

text \<open>The power is lost as the journal has been written, or when it has been truncated.\<close>

abbreviation six :: "event list" where
  "six \<equiv> [Power_On, Power_On, Power_On, Power_On, Power_On, Power_On]"

abbreviation cut_cnmt :: "(ncm_view, Package_Reader.reader) device" where
  "cut_cnmt \<equiv> cnmt_device (Power_On # Power_On # six @ [Power_On, Power_Cut True])"

abbreviation torn_cnmt :: "(ncm_view, Package_Reader.reader) device" where
  "torn_cnmt \<equiv> cnmt_device (Power_On # Power_On # six @ [Power_Cut True])"

lemma demo_simps:
  "n_has demo c v = ((0, contents v c \<noteq> None), v)"  "n_initialize demo v = (0, v)" "n_open_storage demo v = (0, v)"
  "n_generate demo v = ((if holders v demo_holder = None then 0 else 1, demo_holder), v)"
  "n_create demo c p z v = (0, v\<lparr>holders := (holders v)(p \<mapsto> replicate (unat z) 0)\<rparr>)"
  "holders v p = Some bs \<Longrightarrow> i + length xs \<le> length bs \<Longrightarrow>
    n_write demo p i xs v = (0, v\<lparr>holders := (holders v)(p \<mapsto> patch i xs bs)\<rparr>)"
  "contents v c = None \<Longrightarrow> holders v p = Some bs \<Longrightarrow> n_register demo c p v =
    (0, v\<lparr>contents := (contents v)(c \<mapsto> bs), holders := (holders v)(p := None)\<rparr>)"
  by (simp_all add: demo_def demo_asks_def demo_does_def)


lemma call_on [simp]:
  "\<not> lost d \<Longrightarrow> events d = Power_On # es \<Longrightarrow> run_state (call f) d = (fst (f (svc d)), d\<lparr>svc := snd (f (svc d)), events := es\<rparr>)"
  by (simp add: call_def case_prod_beta)

lemma file_on [simp]:
  "\<not> lost d \<Longrightarrow> events d = Power_On # es \<Longrightarrow>
    run_state (file_op f x) d = (fst (f d), d\<lparr>jfiles := fst (snd (f d)), work_dir := snd (snd (f d)), events := es\<rparr>)"
  "\<not> lost d \<Longrightarrow> events d = Power_Cut True # es \<Longrightarrow>
    run_state (file_op f x) d = (fst (f d), d\<lparr>jfiles := fst (snd (f d)), work_dir := snd (snd (f d)), events := es, lost := True\<rparr>)"
  "lost d \<Longrightarrow> run_state (file_op f x) d = (fst (f d), d)"
  by (simp_all add: file_op_def case_prod_beta)

lemma still_lost:
  assumes "run_state m d = (a, e)" and "lost e" and "still (f a)"
  shows "snd (run_state (State_Monad.bind m f) d) = e"
  using assms by (simp add: still_def)

lemma isOpen_cnmt [simp]: "partPaths cnmt_reader \<noteq> []" "stream cnmt_reader = Some (''a.nsp'', 0)"
  by (simp_all add: cnmt_reader_def)

lemma staged_cnmt:
  assumes "contentId e = replicate 16 8" "n_offset e = 82" "n_size e = 3"
  shows "\<exists>x. run_state (stage_cnmt demo cnmt_host ''a.nsp'' e) (cnmt_device (six @ [Power_On, Power_Cut True])) = (Inr True, x) \<and>
      lost x \<and> jfiles x Active = Some (Some (analysis_json e True))"
    and "\<exists>x. run_state (stage_cnmt demo cnmt_host ''a.nsp'' e) (cnmt_device (six @ [Power_Cut True])) = (Inr True, x) \<and>
      lost x \<and> jfiles x Active = Some None"
  unfolding stage_cnmt_def copy_cnmt_def writeCnmtAnalysisJournal_def
  by (simp_all add: assms cnmt_device_def demo_simps demo_view_def demo_id_def demo_holder_def feed_def open_cnmt peek_def isOpen_def
      seek_cnmt copy_content.simps read_cnmt Let_def COPY_BUFFER_SIZE_def fs_truncate_def fs_write_def)

text \<open>An analysis that is cut off while it puts the CNMT on the storage.\<close>

lemma analysis_cut_off:
  assumes "\<And>e. contentId e = replicate 16 8 \<Longrightarrow> n_offset e = 82 \<Longrightarrow> n_size e = 3 \<Longrightarrow>
    \<exists>x. run_state (stage_cnmt demo cnmt_host ''a.nsp'' e) (cnmt_device es) = (Inr True, x) \<and> lost x \<and> jfiles x Active = f e"
  shows "\<exists>e. lost (snd (run_state (analyzeCnmtRequirements demo cnmt_host ''a.nsp'') (cnmt_device (Power_On # Power_On # es)))) \<and>
    jfiles (snd (run_state (analyzeCnmtRequirements demo cnmt_host ''a.nsp'') (cnmt_device (Power_On # Power_On # es)))) Active = f e"
proof -
  let ?m = "packed_manifest cnmt_title" and ?d = "cnmt_device es" and ?d2 = "cnmt_device (Power_On # Power_On # es)"
  obtain e where e: "entries ?m = [e]" using cnmt_facts(2) by (cases "entries ?m") auto
  then have facts: "contentId e = replicate 16 8" "n_offset e = 82" "n_size e = 3" "findCnmt ?m = Some e"
    using cnmt_facts by (simp_all add: findCnmt_def numeral_eq_Suc)
  obtain x where x: "run_state (stage_cnmt demo cnmt_host ''a.nsp'' e) ?d = (Inr True, x)" "lost x" "jfiles x Active = f e"
    using assms [OF facts(1-3)] by blast
  have session: "run_state (NcmSession_open demo) ?d2 = (makeDiagnostic NoError [] 0, ?d)"
    by (simp add: NcmSession_open_def cnmt_device_def demo_simps)
  define rest where "rest = (\<lambda>r. case r of
      Inl d \<Rightarrow> State_Monad.return (no_analysis\<lparr>cnmtEntryName := n_name e, ca_diagnostic := d\<rparr>)
    | Inr created \<Rightarrow> (do {
        (failed, out) \<leftarrow> analyze_cnmt demo ?m e (no_analysis\<lparr>cnmtEntryName := n_name e\<rparr>);
        analysis_cleanup demo (contentId e) created;
        case failed of
          Some d \<Rightarrow> State_Monad.return (out\<lparr>ca_diagnostic := d\<rparr>)
        | None \<Rightarrow> judge_analysis demo (out\<lparr>expectedInstallBytes := expectedInstallBytes out + n_size e\<rparr>)
      } :: (ncm_view, CnmtAnalysisResult) package_prog))"
  have "still (rest a)" for a unfolding rest_def by (intro still_intros)
  then have "snd (run_state (stage_cnmt demo cnmt_host ''a.nsp'' e \<bind> rest) ?d) = x" by (rule still_lost [OF x(1,2)])
  then have "snd (run_state (analyze_entry demo cnmt_host ''a.nsp'' ?m e) ?d2) = x"
    using session unfolding analyze_entry_def Let_def rest_def [symmetric] by simp
  moreover have "run_state (recoverStaleCnmtAnalysis demo) ?d2 = ((True, []), ?d2)" "jfiles ?d2 Active = None"
    by (simp_all add: recoverStaleCnmtAnalysis_def peek_def) (simp_all add: cnmt_device_def)
  then have "run_state (analyzeCnmtRequirements demo cnmt_host ''a.nsp'') ?d2 =
      run_state (analyze_entry demo cnmt_host ''a.nsp'' ?m e) ?d2"
    by (simp add: analyzeCnmtRequirements_def peek_def manifest_cnmt cnmt_facts facts Let_def)
  ultimately show ?thesis using x by auto
qed

lemma analysis_journal:
  "\<exists>j. lost (snd (run_state (analyzeCnmtRequirements demo cnmt_host ''a.nsp'') cut_cnmt)) \<and>
    jfiles (snd (run_state (analyzeCnmtRequirements demo cnmt_host ''a.nsp'') cut_cnmt)) Active = Some (Some j)"
  using analysis_cut_off [of "six @ [Power_On, Power_Cut True]" "\<lambda>e. Some (Some (analysis_json e True))", OF staged_cnmt(1)] by blast

lemma analysis_tears:
  "jfiles (snd (run_state (analyzeCnmtRequirements demo cnmt_host ''a.nsp'') torn_cnmt))
    Active = Some None"
  using analysis_cut_off [of "six @ [Power_Cut True]" "\<lambda>e. Some None", OF staged_cnmt(2)] by blast

lemma cnmt_device_facts:
  "File_Error \<notin> set es \<Longrightarrow> sound_files (cnmt_device es)" "\<not> lost (cnmt_device es)" "jfiles (cnmt_device es) Active = None"
  "svc (cnmt_device es) = demo_view"
  by (simp_all add: cnmt_device_def sound_files_def)

section \<open>No trace\<close>







section \<open>A torn journal\<close>

lemma read_torn: "jfiles d Active = Some None \<Longrightarrow> \<exists>e. run_state (read_journal None) d = (None, e) \<and> jfiles e = jfiles d"
  by (auto simp: read_journal_def file_op_def split: list.splits event.splits)

lemma torn_recovery:
  assumes "jfiles d Active = Some None"
  shows "\<exists>m e. run_state (recoverStaleNcmProbe N) d = ((False, m), e) \<and> jfiles e = jfiles d"
    and "\<exists>m e. run_state (recoverStaleCnmtAnalysis N) d = ((False, m), e) \<and> jfiles e = jfiles d"
    and "\<exists>m e. run_state (recoverStaleRealInstall N) d = ((False, m), e) \<and> jfiles e = jfiles d"
  using read_torn [OF assms] assms
  by (auto simp: recoverStaleNcmProbe_def recoverStaleCnmtAnalysis_def peek_def)
    (auto simp: recoverStaleRealInstall_def peek_def file_op_def split: list.splits event.splits)

text \<open>
  C16. A journal that is not JSON stops everything: as long as the active journal is an empty or torn file,
  the probe, the analysis and the installation of every package report an error, and none of them removes it.
\<close>

theorem torn_journal_blocks:
  assumes "jfiles d Active = Some None"
  shows "(case run_state (runSafeNcmProbe N h p) d of (r, e) \<Rightarrow> \<not> diag_ok (pr_diagnostic r) \<and> jfiles e Active = Some None) \<and>
    (case run_state (analyzeCnmtRequirements N h p) d of (r, e) \<Rightarrow> \<not> diag_ok (ca_diagnostic r) \<and> jfiles e Active = Some None) \<and>
    (case run_state (installNspStreamToSdTransactional N rd displayName sz) d of (r, e) \<Rightarrow>
       \<not> diag_ok (ri_diagnostic r) \<and> jfiles e Active = Some None)"
  using torn_recovery [OF assms, of N] assms
  by (auto simp: runSafeNcmProbe_def analyzeCnmtRequirements_def installNspStreamToSdTransactional_def peek_def no_probe_def
      no_analysis_def failure_result_def)

text \<open>An analysis that is cut off while it writes its journal leaves such a file.\<close>

theorem torn_journal_blocks_witness:
  "\<exists>e r f. snd (run_state (analyzeCnmtRequirements demo cnmt_host ''a.nsp'') torn_cnmt) = e \<and>
     run_state (installNspStreamToSdTransactional demo (read_package cnmt_host) ''a.nsp'' 85) (demo_restart e) = (r, f) \<and>
     \<not> diag_ok (ri_diagnostic r) \<and> jfiles f Active = Some None"
proof -
  let ?e = "snd (run_state (analyzeCnmtRequirements demo cnmt_host ''a.nsp'') torn_cnmt)"
  have "jfiles (demo_restart ?e) Active = Some None" using analysis_tears by (simp add: demo_restart_def)
  from torn_journal_blocks [OF this, of demo cnmt_host "''a.nsp''" "read_package cnmt_host" "''a.nsp''" 85]
  show ?thesis by (auto split: prod.splits)
qed

end
