(* ===== verification/Spec2Isabelle.thy ===== *)
theory Spec2Isabelle
  imports Examples Cfw_Fuel Installer_Facts Probe_Facts
begin

text \<open>
  \<^bold>\<open>AIO MOD Updater: a verification development.\<close> The repository holds two programs. The payload
  (C, under \<^verbatim>\<open>src/TegraExplorer\<close>) runs on the bare console before the operating system: it
  replaces the custom firmware (CFW) or the application on the SD card, as a transaction that
  survives a loss of power. The application (C++, under \<^verbatim>\<open>src/source\<close>) runs under Horizon: it
  downloads and stages those updates, and installs packages from the card or over USB. The
  development models the two transactions with everything they call, and the package installer:
  its parsers, its stream, and its own transaction over the services of the system.

  \<^bold>\<open>The machine of the payload.\<close>
  \<^item> \<open>Prelude\<close>: word types, C string helpers, shared lemmas on lists and paths.
  \<^item> \<open>Volume\<close>: the card as a tree of files and directories; the locale \<open>path_store\<close> states the
    laws of look-up, insertion and deletion and is interpreted on the tree.
  \<^item> \<open>Gfx\<close>, \<open>Sprintf\<close>: the console of \<^verbatim>\<open>gfx/gfx.c\<close> and \<^verbatim>\<open>bdk/utils/sprintf.c\<close>.
  \<^item> \<open>Machine\<close>: the record \<open>world\<close> (card, fault schedule, screen, keys, globals) and programs as
    state monads over it. The schedule says of every call into the file system whether it goes
    through, fails with an I/O error after some steps, or is the call in which the power is
    lost. Three kinds of statement are used throughout: \<open>keeps\<close> (an observation of the card is
    untouched under any schedule), \<open>triple\<close> (a Hoare triple with a condition for every way the
    machine may stop) and \<open>finishes\<close>.
  \<^item> \<open>FatFs\<close>: the calls of \<^verbatim>\<open>bdk/libs/fatfs\<close> the payload uses, as actions on the tree with the
    errors they return. FatFs itself (clusters, directory entries) is not modelled: the actions
    are what its documentation and its source promise the callers.

  \<^bold>\<open>The payload.\<close>
  \<^item> \<open>Ui_Common\<close>, \<open>App_Ui\<close>, \<open>Cfw_Ui\<close>: the screens of both updaters, waiting for the power
    button, starting another payload.
  \<^item> \<open>Fs_Copy\<close>, \<open>Copy_Frame\<close>: \<^verbatim>\<open>fs/fscopy.c\<close>, \<^verbatim>\<open>fs/fsutils.c\<close>, \<^verbatim>\<open>fs/readers/folderReader.c\<close>.
  \<^item> \<open>Journal\<close>, \<open>Journal_Logic\<close>: the one-line journal both updaters keep; the locale
    \<open>journal_writer\<close> has what removing a file and writing a line promise, and proves once that
    \<^verbatim>\<open>write_state\<close> replaces the entry atomically. It is interpreted for each updater.
  \<^item> \<open>App_Updater\<close>, \<open>App_Frame\<close>, \<open>Looks\<close>, \<open>App_Sound\<close>, \<open>App_Safety\<close>: \<^verbatim>\<open>aio_app_updater.c\<close>,
    from the frame of every routine to the guarantee of a whole boot.
  \<^item> \<open>Cfw_Updater\<close>, \<open>Card_Rules\<close>, \<open>Cfw_Frame\<close>, \<open>Cfw_Fuel\<close>, \<open>Cfw_Safety\<close>, \<open>Cfw_Rollback\<close>,
    \<open>Cfw_Backup\<close>, \<open>Cfw_Install\<close>, \<open>Cfw_Commit\<close>, \<open>Cfw_Run\<close>, \<open>Cfw_Spares\<close>, \<open>Cfw_Boots\<close>:
    \<^verbatim>\<open>tegraexplorer/aio_cfw_updater.c\<close>. The invariant \<open>cfw_inv\<close> says where every original is and
    what the journal entry promises; each phase keeps it at every call; \<open>cfw_boots\<close> is any
    sequence of boots.

  \<^bold>\<open>The installer.\<close>
  \<^item> \<open>Cpp_Text\<close>, \<open>Diagnostics\<close>, \<open>Title_Info\<close>: numbers and names as text, the texts of the
    diagnostics, packed versions (\<^verbatim>\<open>installer_diagnostics.cpp\<close>, \<^verbatim>\<open>nsp_ncm_probe.cpp\<close>).
  \<^item> \<open>Package_Reader\<close>, \<open>Package_Logic\<close>: \<^verbatim>\<open>package_reader.cpp\<close>, one stream over a package that is
    split into parts.
  \<^item> \<open>Nsp_Manifest\<close>, \<open>Nsp_Logic\<close>, \<open>Nsp_Pack\<close>: the parser of the table of contents and the
    preflight check. The locales \<open>byte_source\<close> and \<open>full_source\<close> are the interface of the reader
    the parsers rely on, interpreted on the model of the reader; \<open>parse_pfs0\<close> and \<open>pack_files\<close> are the
    reference parser and the inverse.
  \<^item> \<open>Install_Stream\<close>, \<open>Stream_Threads\<close>: \<^verbatim>\<open>mtp_install_stream.cpp\<close>, the ring buffer as an instance of
    the locale \<open>byte_queue\<close>, and a step relation for a producer, a consumer and a canceller with
    condition variables.
  \<^item> \<open>Ncm_Service\<close>: the console the transactional installer runs on. The services of Horizon and the
    C structs of its SDK are a parameter, the record \<open>ncm\<close>; \<open>ncm_contract\<close> is the documented effect of
    each call on what is stored. Programs run on a \<open>device\<close> whose schedule makes file operations fail
    and cuts the power before or after the effect of any call.
  \<^item> \<open>Install_Journal\<close>, \<open>Stream_Install\<close>, \<open>Transaction\<close>: \<^verbatim>\<open>nsp_transaction_installer.cpp\<close>, the journal
    and its recovery, the manifest of a stream, the meta data of the title, and
    \<^verbatim>\<open>installNspStreamToSdTransactional\<close> with every early return and every write of the journal.
  \<^item> \<open>Ncm_Rules\<close>, \<open>Shared_Contents\<close>, \<open>Install_Recovery\<close>: Hoare rules for a device, the invariant that
    no journal makes a recovery delete what was there before, and what a recovery restores.
  \<^item> \<open>Install_Crash\<close>, \<open>Install_Content\<close>, \<open>Install_Outcome\<close>: the journal runs ahead of the changes. At every
    call of the installer the device is \<open>crash_ok\<close>: the journal on the card covers every change but
    one content or placeholder at most, or the title is installed.
  \<^item> \<open>Package_Probe\<close>, \<open>Probe_Rules\<close>: the two tools of \<^verbatim>\<open>nsp_ncm_probe.cpp\<close> that use the content storage, the
    probe \<^verbatim>\<open>runSafeNcmProbe\<close> and the analysis \<^verbatim>\<open>analyzeCnmtRequirements\<close>, with the journal they write in
    place and their recoveries. A package on the card is read through \<open>Package_Reader\<close>. What they have
    added (\<open>holding\<close> a placeholder, \<open>adding\<close> a content) is followed through every step.
  \<^item> \<open>Installer_Facts\<close>, \<open>Transaction_Facts\<close>, \<open>Probe_Facts\<close> and this theory hold the properties, \<open>Examples\<close> the
    concrete machines of their instances.

  \<^bold>\<open>Bounds.\<close> The recursive folder routines take a depth: the height of the volume at the call
  plus one. For deletion it is shown to be enough (\<open>Cfw_Fuel\<close>). The other loops are total
  functions with their measures; waiting for a key that never comes and a comparison that never
  ends are values of \<open>halt\<close>. Sizes of packages are assumed to stay below \<open>2 ^ 63\<close> bytes, the
  range of a stream position.

  \<^bold>\<open>Not modelled.\<close> The script engine, the menus, key derivation and the eMMC tools of the payload
  (\<^verbatim>\<open>script/\<close>, \<^verbatim>\<open>gfx/menu.c\<close>, \<^verbatim>\<open>keys/\<close>, \<^verbatim>\<open>storage/\<close>), its hardware library (\<^verbatim>\<open>bdk/\<close>); of the
  application its pages, downloads and extraction, the MTP server, the variant of the installer
  that reads a file instead of a stream, and the rates of the transfer monitor, which are floating
  point numbers; and the vendored libraries.
\<close>

section \<open>The application update\<close>

text \<open>
  C1. Start the application updater on a card with a prepared update, under any schedule of
  I/O errors and with the power failing at any call (or not at all). When it stops, the
  installed application is the old one or the new one, complete; or else the verified backup
  of the old one is on the card and the journal sends the next boot to the rollback.
\<close>

theorem app_update_recoverable:
  assumes "staged old new (vol w)"
  shows "recoverable old new (vol (snd (run_state (aio_app_update_run p) w)))"
  using assms by (rule run_staged_recoverable)

theorem app_update_recoverable_witness:
  "staged ''old'' ''new!'' example_card \<and>
   recoverable ''old'' ''new!''
     (vol (snd (run_state (aio_app_update_run False) (example_world example_card [Fine, Fail Io_Disk 0, Cut 1]))))"
  using example_staged
    app_update_recoverable [of "''old''" "''new!''" "example_world example_card [Fine, Fail Io_Disk 0, Cut 1]" False]
  by (simp add: example_world_def)

section \<open>The firmware update\<close>









section \<open>Journals\<close>





section \<open>Copies and deletions\<close>

text \<open>
  C11. \<^verbatim>\<open>copy_verified\<close> under any schedule of faults: when it reports success the destination holds
  exactly the bytes of the source, and at least one.
\<close>

theorem copy_verified_same:
  assumes "fst (run_state (copy_verified src dst) w) = FR_OK"
  shows "\<exists>c. c \<noteq> [] \<and> file_at (path_keys src) (vol (snd (run_state (copy_verified src dst) w))) = Some c \<and>
    file_at (path_keys dst) (vol (snd (run_state (copy_verified src dst) w))) = Some c"
  using ends_copy_verified [of src dst] assms unfolding ends_def same_files_def by blast

theorem copy_verified_same_witness:
  "\<exists>c. c \<noteq> [] \<and> file_at (path_keys ''sd:/b'') (vol (tiny_world tiny_copied)) = Some c"
  using copy_verified_same [of "''sd:/a''" "''sd:/b''" "tiny_world tiny_card"] by (auto simp: tiny_copy)

text \<open>
  C33. \<^verbatim>\<open>FileCopy\<close> changes nothing but its destination, whatever fails: every path apart from it
  holds what it held.
\<close>

theorem copies_confined:
  assumes "wf_node (vol w)" and "path_keys dst \<parallel> q"
  shows "get_at q (vol (snd (run_state (FileCopy src dst opts) w))) = get_at q (vol w)"
  using keeps_FileCopy [OF apart_get_at [OF assms(2)], of False src opts] assms(1) by (simp add: keeps_val_def)

theorem copies_confined_witness:
  "get_at [''switch''] (vol (snd (run_state (FileCopy APP_NEW_NRO ''sd:/copy'' 0)
    (example_world example_card [Fine, Fine, Fine, Fail Io_Disk 2, Cut 0])))) = get_at [''switch''] example_card"
proof -
  have "path_keys ''sd:/copy'' = [''copy'']" by code_simp
  then show ?thesis
    using copies_confined [of "example_world example_card [Fine, Fine, Fine, Fail Io_Disk 2, Cut 0]" "''sd:/copy''" "[''switch'']"] example_wf
    by simp
qed

text \<open>
  C34. \<^verbatim>\<open>FolderCopy\<close> changes nothing but the folder of the source's name in the destination,
  whatever fails.
\<close>

theorem folders_confined:
  assumes "wf_node (vol w)" and "good_name (base_name locin)" and "path_keys locout @ [base_name locin] \<parallel> q"
  shows "get_at q (vol (snd (run_state (FolderCopy locin locout) w))) = get_at q (vol w)"
  using keeps_FolderCopy [OF assms(2) apart_get_at [OF assms(3)], of False] assms(1) by (simp add: keeps_val_def)

theorem folders_confined_witness:
  "get_at [''aio-mod-update''] (vol (snd (run_state (FolderCopy ''sd:/aio-mod-update/new/atmosphere'' ''sd:'')
    (example_world example_cfw_card [Fine, Fine, Cut 1])))) = get_at [''aio-mod-update''] example_cfw_card"
proof -
  have "path_keys ''sd:'' = []" "base_name ''sd:/aio-mod-update/new/atmosphere'' = ''atmosphere''" "good_name ''atmosphere''"
    by code_simp+
  then show ?thesis
    using folders_confined [of "example_world example_cfw_card [Fine, Fine, Cut 1]" "''sd:/aio-mod-update/new/atmosphere''" "''sd:''"
        "[''aio-mod-update'']"] example_wf by simp
qed

text \<open>
  C12. \<^verbatim>\<open>remove_path_silent\<close>, whatever fails: it leaves every path apart from its argument alone, its
  argument is gone when it returns \<^verbatim>\<open>FR_OK\<close>, and its recursion never runs out of depth.
\<close>

theorem removal_exact:
  assumes "wf_node (vol w)" and "path_keys s \<noteq> []" and "path_keys s \<parallel> q"
  shows "get_at q (vol (snd (run_state (remove_path_silent s) w))) = get_at q (vol w) \<and>
    (running (snd (run_state (remove_path_silent s) w)) \<and> fst (run_state (remove_path_silent s) w) = FR_OK \<longrightarrow>
      running w \<longrightarrow> get_at (path_keys s) (vol (snd (run_state (remove_path_silent s) w))) = None) \<and>
    (halted w \<noteq> Some Out_Of_Fuel \<longrightarrow> halted (snd (run_state (remove_path_silent s) w)) \<noteq> Some Out_Of_Fuel)"
proof -
  let ?r = "run_state (remove_path_silent s) w"
  have "get_at q (vol (snd ?r)) = get_at q (vol w)"
    using keeps_remove_path_silent [OF apart_get_at [OF assms(3)], of False] assms(1) by (simp add: keeps_val_def)
  moreover have "get_at (path_keys s) (vol (snd ?r)) = None" if "running (snd ?r)" "fst ?r = FR_OK" "running w"
  proof -
    have "falls (path_keys s) (\<lambda>_. True)" by (simp add: falls_def)
    from tripleD [OF triple_remove_path_silent [OF refl assms(2) this, of False] assms(1) that(3)] that(1,2)
    show ?thesis by (simp add: after_def)
  qed
  moreover have "halted (snd ?r) \<noteq> Some Out_Of_Fuel" if "halted w \<noteq> Some Out_Of_Fuel"
    using remove_path_returns [of False s] that assms(1)
    by (cases "running w") (auto simp: triple_def after_def split: option.splits)
  ultimately show ?thesis by blast
qed

theorem removal_exact_witness:
  "get_at [''switch''] (vol (snd (run_state (remove_path_silent UPDATE_NEW) (example_world example_cfw_card [])))) =
    get_at [''switch''] example_cfw_card"
proof -
  have "path_keys UPDATE_NEW = [''aio-mod-update'', ''new'']" by code_simp
  then show ?thesis
    using removal_exact [of "example_world example_cfw_card []" UPDATE_NEW "[''switch'']"] example_wf by simp
qed

section \<open>Checks and decisions\<close>

text \<open>
  C35. \<^verbatim>\<open>abort_before_changes\<close> leaves the installed application as it is, whatever fails.
\<close>

theorem abort_keeps_application:
  assumes "wf_node (vol w)"
  shows "file_at TARGET_k (vol (snd (run_state (abort_before_changes p) w))) = file_at TARGET_k (vol w)"
proof -
  have "keeps False (file_at TARGET_k) (abort_before_changes p)"
    by (intro keeps_abort_before_changes apart_file_at) (simp_all add: app_keys)
  with assms show ?thesis by (simp add: keeps_val_def)
qed

theorem abort_keeps_application_witness:
  "file_at TARGET_k (vol (snd (run_state (abort_before_changes True) (example_world example_card [Fail Io_Disk 0, Cut 1])))) = Some ''old''"
proof -
  have "file_at TARGET_k example_card = Some ''old''" by code_simp
  with abort_keeps_application [of "example_world example_card [Fail Io_Disk 0, Cut 1]" True] example_wf show ?thesis by simp
qed



text \<open>
  C37. The markers for managed paths that did not exist all have one name: \<^verbatim>\<open>s_printf\<close> does not know the
  conversion \<^verbatim>\<open>%u\<close> with which \<^verbatim>\<open>absent_marker_path\<close> writes the index.
\<close>

theorem absent_markers_collide: "absent_marker_path i = absent_marker_path j"
  by (simp add: absent_marker_path_def s_printf_simps)

section \<open>Screens and keys\<close>

text \<open>
  The progress bar stays in its frame for every percentage, and the percentage of a copy never
  exceeds 100.
\<close>

theorem progress_bounds:
  "100 \<le> bar_fill (clamp_percent p) \<and> bar_fill (clamp_percent p) \<le> 1179 \<and> copy_percent t r \<le> 100"
proof -
  have "0 \<le> clamp_percent p" "clamp_percent p \<le> 100" by (auto simp: clamp_percent_def Let_def)
  then have "0 \<le> 1079 * clamp_percent p div 100" "1079 * clamp_percent p div 100 \<le> 1079" by auto
  moreover have "(t - r) * 100 div t \<le> 100" if "t \<noteq> 0"
    using that div_le_mono [of "(t - r) * 100" "t * 100" t] by simp
  ultimately show ?thesis by (simp add: bar_fill_def copy_percent_def)
qed

text \<open>
  The path shown during a copy fits the buffer of 96 bytes in both updaters, and in the firmware
  updater the 60 columns of its line.
\<close>

theorem display_path_bounds:
  "length (app_ui_compact_copy_path src [] 96) < 96 \<and> length (cfw_ui_compact_copy_path src [] 96) \<le> 60"
  by (cases src) (auto simp: app_ui_compact_copy_path_def cfw_ui_compact_copy_path_def strncpy_term_def Let_def)

text \<open>
  \<^verbatim>\<open>ui_wait_for_power\<close> returns once the button is released (if it was held), pressed, and released
  again, however long each takes, and changes nothing else.
\<close>

theorem power_button_returns:
  assumes "running w"
    and "power_btn w = replicate a True @ False # replicate b False @ True # replicate c True @ False # rest"
  shows "snd (run_state ui_wait_for_power w) = w\<lparr>power_btn := rest\<rparr>"
proof -
  have d: "dropWhile (\<lambda>x. x = p) (replicate n p @ (\<not> p) # xs) = (\<not> p) # xs" for p n xs
    by (induction n) auto
  have poll: "run_state (poll_while p) w = ((), w\<lparr>power_btn := xs\<rparr>)"
    if "running w" "power_btn w = replicate n p @ (\<not> p) # xs" for p n xs w
    using that d [of p n xs] by (simp add: poll_while_def btn_wait_def ask_def mem_def)
  show ?thesis
    unfolding ui_wait_for_power_def
    using poll [OF assms(1), of a True] poll [of "w\<lparr>power_btn := replicate b False @ True # replicate c True @ False # rest\<rparr>" b False]
      poll [of "w\<lparr>power_btn := replicate c True @ False # rest\<rparr>" c True] assms by simp
qed

theorem power_button_returns_witness:
  "halted (snd (run_state ui_wait_for_power ((example_world example_card [])\<lparr>power_btn := [True, False, True, True, False]\<rparr>))) = None"
  using power_button_returns [of "(example_world example_card [])\<lparr>power_btn := [True, False, True, True, False]\<rparr>" 1 0 1 "[]"]
  by (simp add: example_world_def)

text \<open>
  C40. \<^verbatim>\<open>%d\<close> of the payload's own \<^verbatim>\<open>s_printf\<close> prints a 32-bit number as the standard library's
  \<^verbatim>\<open>std::to_string\<close> prints it as unsigned.
\<close>

theorem s_printf_prints_decimal: "s_printf ''%d'' [Num n] = decimal (unat n)"
proof -
  have "''0123456789abcdefghijklmnopqrstuvwxyz'' ! k = ''0123456789'' ! k" if "k < 10" for k
  proof -
    have "\<forall>k \<in> set [0..<10]. ''0123456789abcdefghijklmnopqrstuvwxyz'' ! k = ''0123456789'' ! k" by code_simp
    with that show ?thesis by simp
  qed
  note digit = this
  have "sprintf_digits 10 k = decimal k" for k
  proof (induction k rule: less_induct)
    case (less k)
    show ?case
    proof (cases "k < 10")
      case True
      with digit [of k] show ?thesis by (subst sprintf_digits.simps, subst decimal.simps) (simp add: Let_def)
    next
      case False
      with digit [of "k mod 10"] less.IH [of "k div 10"] show ?thesis by (subst sprintf_digits.simps, subst decimal.simps) (simp add: Let_def)
    qed
  qed
  then show ?thesis by (simp add: s_printf_decimal)
qed

end
